(* ===== verification/Prelude.thy ===== *)
theory Prelude
  imports Complex_Main "HOL-Library.AList" "HOL-Library.Char_ord" "HOL-Library.List_Lexorder"
begin

text \<open>
  What the components share: the Go values the program computes with (64-bit integers, times and
  durations, byte strings, floating point numbers, maps) and the list facts their proofs need.

  \<^item> A Go \<open>string\<close> is a byte sequence, so it is a HOL \<open>string\<close> (a list of 8-bit characters); its
    order is the bytewise lexicographic order of \<open>List_Lexorder\<close>.
  \<^item> A Go \<open>int\<close>/\<open>int64\<close> is an \<open>int\<close> with its two's complement wrap-around written out (\<open>wrap64\<close>).
  \<^item> A \<open>time.Time\<close> is its distance in nanoseconds from the zero \<open>time.Time\<close>; a
    \<open>time.Duration\<close> is an \<open>int64\<close> number of nanoseconds.
  \<^item> A Go map that is iterated is an association list with distinct keys, in the order of one
    iteration; nothing is assumed of that order, so a theorem holds for each.
\<close>

named_theorems gomap_simps \<open>lookup after the updates of a Go map\<close>

section \<open>64-bit integers\<close>

definition wrap64 :: "int \<Rightarrow> int" where
  "wrap64 x = (x + 2 ^ 63) mod 2 ^ 64 - 2 ^ 63"

lemma wrap64_id [simp]: "- (2 ^ 63) \<le> x \<Longrightarrow> x < 2 ^ 63 \<Longrightarrow> wrap64 x = x"
  by (simp add: wrap64_def)

lemma wrap64_range: "- (2 ^ 63) \<le> wrap64 x" "wrap64 x < 2 ^ 63"
proof -
  have "0 \<le> (x + 2 ^ 63) mod 2 ^ 64" "(x + 2 ^ 63) mod 2 ^ 64 < 2 ^ 64"
    by (rule pos_mod_sign, simp) (rule pos_mod_bound, simp)
  then show "- (2 ^ 63) \<le> wrap64 x" "wrap64 x < 2 ^ 63"
    by (simp_all add: wrap64_def)
qed

text \<open>\<open>time.Time.Sub\<close> saturates at the ends of the duration range.\<close>

definition max_i64 :: int where
  "max_i64 = 2 ^ 63 - 1"

definition min_i64 :: int where
  "min_i64 = - (2 ^ 63)"

definition saturate64 :: "int \<Rightarrow> int" where
  "saturate64 x = (if x < min_i64 then min_i64 else if max_i64 < x then max_i64 else x)"

section \<open>Times and durations\<close>

type_synonym go_time = int
type_synonym duration = int

definition is_zero :: "go_time \<Rightarrow> bool" where
  "is_zero t \<longleftrightarrow> t = 0"

definition after :: "go_time \<Rightarrow> go_time \<Rightarrow> bool" where
  "after t u \<longleftrightarrow> u < t"

definition before :: "go_time \<Rightarrow> go_time \<Rightarrow> bool" where
  "before t u \<longleftrightarrow> t < u"

definition time_add :: "go_time \<Rightarrow> duration \<Rightarrow> go_time" where
  "time_add t d = t + d"

definition time_sub :: "go_time \<Rightarrow> go_time \<Rightarrow> duration" where
  "time_sub t u = saturate64 (t - u)"

lemmas time_defs = is_zero_def after_def before_def time_add_def

definition second :: duration where
  "second = 1000000000"

definition minute :: duration where
  "minute = 60 * second"

definition hour :: duration where
  "hour = 60 * minute"

lemmas duration_units = second_def minute_def hour_def

section \<open>Byte strings\<close>

definition nul :: string where
  "nul = [CHR 0x00]"

definition has_prefix :: "string \<Rightarrow> string \<Rightarrow> bool" where
  "has_prefix s p \<longleftrightarrow> take (length p) s = p"

definition contains_any :: "string \<Rightarrow> string \<Rightarrow> bool" where
  "contains_any s chars \<longleftrightarrow> list_ex (\<lambda>c. c \<in> set chars) s"

definition ascii_lower :: "char \<Rightarrow> char" where
  "ascii_lower c =
     (let n = (of_char c :: nat) in if 65 \<le> n \<and> n \<le> 90 then char_of (n + 32) else c)"

text \<open>
  \<open>strings.TrimSpace\<close> removes the runes of Unicode's White\_Space from both ends. They are listed
  by their UTF-8 encodings; decoding a rune at an end of the string finds a space exactly when one
  of these byte sequences stands there.
\<close>

definition space_encodings :: "string list" where
  "space_encodings =
     [[CHR 0x09], [CHR 0x0A], [CHR 0x0B], [CHR 0x0C], [CHR 0x0D], [CHR 0x20],
      [CHR 0xC2, CHR 0x85], [CHR 0xC2, CHR 0xA0], [CHR 0xE1, CHR 0x9A, CHR 0x80],
      [CHR 0xE2, CHR 0x80, CHR 0x80], [CHR 0xE2, CHR 0x80, CHR 0x81], [CHR 0xE2, CHR 0x80, CHR 0x82],
      [CHR 0xE2, CHR 0x80, CHR 0x83], [CHR 0xE2, CHR 0x80, CHR 0x84], [CHR 0xE2, CHR 0x80, CHR 0x85],
      [CHR 0xE2, CHR 0x80, CHR 0x86], [CHR 0xE2, CHR 0x80, CHR 0x87], [CHR 0xE2, CHR 0x80, CHR 0x88],
      [CHR 0xE2, CHR 0x80, CHR 0x89], [CHR 0xE2, CHR 0x80, CHR 0x8A], [CHR 0xE2, CHR 0x80, CHR 0xA8],
      [CHR 0xE2, CHR 0x80, CHR 0xA9], [CHR 0xE2, CHR 0x80, CHR 0xAF], [CHR 0xE2, CHR 0x81, CHR 0x9F],
      [CHR 0xE3, CHR 0x80, CHR 0x80]]"

fun trim_front :: "string list \<Rightarrow> nat \<Rightarrow> string \<Rightarrow> string" where
  "trim_front encs 0 s = s"
| "trim_front encs (Suc n) s =
     (case find (has_prefix s) encs of
        None \<Rightarrow> s
      | Some e \<Rightarrow> trim_front encs n (drop (length e) s))"

text \<open>Each round of \<open>trim_front\<close> removes at least one byte, so as many rounds as bytes are enough.\<close>

definition trim_left :: "string \<Rightarrow> string" where
  "trim_left s = trim_front space_encodings (length s) s"

definition trim_right :: "string \<Rightarrow> string" where
  "trim_right s = rev (trim_front (map rev space_encodings) (length s) (rev s))"

definition trim_space :: "string \<Rightarrow> string" where
  "trim_space s = trim_right (trim_left s)"

section \<open>Go maps\<close>

type_synonym ('k, 'v) gomap = "('k \<times> 'v) list"

abbreviation gm_get :: "('k, 'v) gomap \<Rightarrow> 'k \<Rightarrow> 'v option" where
  "gm_get m k \<equiv> map_of m k"

definition gm_has :: "('k, 'v) gomap \<Rightarrow> 'k \<Rightarrow> bool" where
  "gm_has m k \<longleftrightarrow> map_of m k \<noteq> None"

abbreviation gm_put :: "'k \<Rightarrow> 'v \<Rightarrow> ('k, 'v) gomap \<Rightarrow> ('k, 'v) gomap" where
  "gm_put k v m \<equiv> AList.update k v m"

abbreviation gm_del :: "'k \<Rightarrow> ('k, 'v) gomap \<Rightarrow> ('k, 'v) gomap" where
  "gm_del k m \<equiv> AList.delete k m"

definition gm_keys :: "('k, 'v) gomap \<Rightarrow> 'k list" where
  "gm_keys m = map fst m"

definition gm_wf :: "('k, 'v) gomap \<Rightarrow> bool" where
  "gm_wf m \<longleftrightarrow> distinct (map fst m)"

text \<open>Reading an absent key of a Go map gives the zero value of its element type.\<close>

definition gm_or :: "('k, 'v) gomap \<Rightarrow> 'k \<Rightarrow> 'v \<Rightarrow> 'v" where
  "gm_or m k z = (case map_of m k of None \<Rightarrow> z | Some v \<Rightarrow> v)"

lemma gm_get_put [gomap_simps]: "gm_get (gm_put k v m) j = (if j = k then Some v else gm_get m j)"
  by (simp add: update_conv')

lemma gm_get_del [gomap_simps]: "gm_get (gm_del k m) j = (if j = k then None else gm_get m j)"
  by (simp add: delete_conv')

lemma gm_or_put [gomap_simps]: "gm_or (gm_put k v m) j z = (if j = k then v else gm_or m j z)"
  by (simp add: gm_or_def gomap_simps)

lemma gm_or_del [gomap_simps]: "gm_or (gm_del k m) j z = (if j = k then z else gm_or m j z)"
  by (simp add: gm_or_def gomap_simps)

lemma gm_wf_Nil [simp]: "gm_wf []"
  by (simp add: gm_wf_def)

lemma gm_wf_put [simp]: "gm_wf m \<Longrightarrow> gm_wf (gm_put k v m)"
  by (simp add: gm_wf_def distinct_update)

lemma gm_wf_del [simp]: "gm_wf m \<Longrightarrow> gm_wf (gm_del k m)"
  by (simp add: gm_wf_def distinct_delete)

lemma gm_wf_filter [simp]: "gm_wf m \<Longrightarrow> gm_wf (filter P m)"
  unfolding gm_wf_def by (induction m) auto

lemma gm_has_iff: "gm_has m k \<longleftrightarrow> k \<in> fst ` set m"
  by (force simp: gm_has_def map_of_eq_None_iff)

lemma gm_get_filter:
  "gm_wf m \<Longrightarrow> gm_get (filter P m) k =
     (case gm_get m k of None \<Rightarrow> None | Some v \<Rightarrow> if P (k, v) then Some v else None)"
  unfolding gm_wf_def
  by (induction m) (auto split: option.splits simp: map_of_eq_None_iff image_iff)

lemma length_put: "length (gm_put k v m) = (if gm_has m k then length m else Suc (length m))"
  by (induction m) (auto simp: gm_has_def)

lemma length_del: "gm_wf m \<Longrightarrow> gm_has m k \<Longrightarrow> length (gm_del k m) = length m - 1"
proof (induction m)
  case (Cons p m)
  show ?case
  proof (cases "fst p = k")
    case True
    with Cons.prems have "gm_del k m = m"
      by (intro delete_id) (simp add: gm_wf_def)
    with True show ?thesis by (cases p) simp
  next
    case False
    with Cons.prems have "gm_wf m" "gm_has m k" "m \<noteq> []"
      by (auto simp: gm_wf_def gm_has_def)
    with Cons.IH False show ?thesis by (cases p; cases m) auto
  qed
qed (simp add: gm_has_def)

lemma length_del_le: "length (gm_del k m) \<le> length m"
  by (rule length_delete_le)

section \<open>Lists\<close>

lemma find_Some_iff_mem: "find P xs = Some x \<Longrightarrow> x \<in> set xs \<and> P x"
  by (induction xs) (auto split: if_splits)

lemma set_drop_take: "set (drop n xs) \<union> set (take n xs) = set xs"
  by (metis append_take_drop_id set_append sup_commute)

text \<open>A loop that returns the first error of its elements.\<close>

fun first_error :: "('a \<Rightarrow> 'e option) \<Rightarrow> 'a list \<Rightarrow> 'e option" where
  "first_error f [] = None"
| "first_error f (x # xs) = (case f x of Some e \<Rightarrow> Some e | None \<Rightarrow> first_error f xs)"

lemma first_error_None: "first_error f xs = None \<longleftrightarrow> (\<forall>x \<in> set xs. f x = None)"
  by (induction xs) (auto split: option.split)

section \<open>Floating point numbers\<close>

text \<open>
  A \<open>float64\<close> as the code observes it: a finite number (a rational), an infinity or a NaN. The
  program compares and tests these values; a comparison with a NaN is false.
\<close>

datatype gofloat = Finite rat | PosInf | NegInf | NotANumber

fun fless :: "gofloat \<Rightarrow> gofloat \<Rightarrow> bool" where
  "fless (Finite a) (Finite b) = (a < b)"
| "fless NegInf (Finite b) = True"
| "fless NegInf PosInf = True"
| "fless (Finite a) PosInf = True"
| "fless a b = False"

abbreviation fzero :: gofloat where
  "fzero \<equiv> Finite 0"

fun is_nan :: "gofloat \<Rightarrow> bool" where
  "is_nan NotANumber = True"
| "is_nan a = False"

fun is_inf :: "gofloat \<Rightarrow> bool" where
  "is_inf PosInf = True"
| "is_inf NegInf = True"
| "is_inf a = False"

lemma fless_irrefl [simp]: "\<not> fless a a"
  by (cases a) auto

lemma fless_trans: "fless a b \<Longrightarrow> fless b c \<Longrightarrow> fless a c"
  by (cases a; cases b; cases c) auto

end
