(* ===== verification/Refs.thy ===== *)
theory Refs
  imports Prelude
begin

text \<open>
  Extension references (\<open>internal/extensions/catalog.go\<close>): the versioned name of a provider
  definition, an operation, a strategy or a transform. The model keeps the validation and the
  textual key that other components use as a map key. \<open>ContractVersion\<close> is a \<open>uint64\<close> that the code
  compares with zero and prints; it is a \<open>nat\<close> here.
\<close>

record ext_ref =
  ref_kind :: string
  ref_id :: string
  ref_version :: nat

definition no_ref :: ext_ref where
  "no_ref = \<lparr>ref_kind = [], ref_id = [], ref_version = 0\<rparr>"

definition mk_ref :: "string \<Rightarrow> string \<Rightarrow> nat \<Rightarrow> ext_ref" where
  "mk_ref k i v = \<lparr>ref_kind = k, ref_id = i, ref_version = v\<rparr>"

datatype ref_error = RefIncomplete | RefControlCharacter

definition ref_validate :: "ext_ref \<Rightarrow> ref_error option" where
  "ref_validate r =
     (if trim_space (ref_kind r) = [] \<or> trim_space (ref_id r) = [] \<or> ref_version r = 0
      then Some RefIncomplete
      else if contains_any (ref_kind r @ ref_id r) [CHR 0x00, CHR 0x0D, CHR 0x0A]
      then Some RefControlCharacter
      else None)"

definition ref_ok :: "ext_ref \<Rightarrow> bool" where
  "ref_ok r \<longleftrightarrow> ref_validate r = None"

section \<open>Decimal printing\<close>

text \<open>\<open>fmt.Sprint\<close> of an unsigned integer.\<close>

definition digit :: "nat \<Rightarrow> char" where
  "digit d = char_of (48 + d)"

fun decimal :: "nat \<Rightarrow> string" where
  "decimal n = (if n < 10 then [digit n] else decimal (n div 10) @ [digit (n mod 10)])"

declare decimal.simps [simp del]

definition ref_key :: "ext_ref \<Rightarrow> string" where
  "ref_key r = ref_kind r @ '':'' @ ref_id r @ ''@'' @ decimal (ref_version r)"

text \<open>The value a printed number stands for, to state that printing loses nothing.\<close>

definition undigit :: "char \<Rightarrow> nat" where
  "undigit c = of_char c - 48"

definition undecimal :: "string \<Rightarrow> nat" where
  "undecimal s = foldl (\<lambda>n c. 10 * n + undigit c) 0 s"

lemma undigit_digit [simp]: "d < 10 \<Longrightarrow> undigit (digit d) = d"
  by (simp add: undigit_def digit_def)

lemma digit_not_at: "d < 10 \<Longrightarrow> digit d \<noteq> CHR ''@''"
proof
  assume d: "d < 10" and eq: "digit d = CHR ''@''"
  from eq have "of_char (digit d) = (of_char (CHR ''@'') :: nat)" by simp
  with d show False by (simp add: digit_def)
qed

lemma undecimal_decimal: "undecimal (decimal n) = n"
proof (induction n rule: decimal.induct)
  case (1 n)
  show ?case
  proof (cases "n < 10")
    case True
    then show ?thesis by (simp add: decimal.simps [of n] undecimal_def)
  next
    case False
    with "1.IH" have "undecimal (decimal (n div 10)) = n div 10" by simp
    with False show ?thesis by (simp add: decimal.simps [of n] undecimal_def)
  qed
qed

lemma decimal_inject: "decimal m = decimal n \<Longrightarrow> m = n"
  by (metis undecimal_decimal)

lemma decimal_no_at: "CHR ''@'' \<notin> set (decimal n)"
proof (induction n rule: decimal.induct)
  case (1 n)
  show ?case
  proof (cases "n < 10")
    case True
    then show ?thesis using digit_not_at [of n] by (auto simp: decimal.simps [of n])
  next
    case False
    with "1.IH" digit_not_at [of "n mod 10"] show ?thesis
      by (auto simp: decimal.simps [of n])
  qed
qed

text \<open>Two strings that end in a separator and a tail without it split at the same place.\<close>

lemma split_last_sep:
  assumes "xs @ [c] @ ts = ys @ [c] @ us" and "c \<notin> set ts" and "c \<notin> set us"
  shows "xs = ys \<and> ts = us"
proof -
  have aux: "as = bs \<and> ts' = us'"
    if "as @ c # ts' = bs @ c # us'" "c \<notin> set ts'" "c \<notin> set us'" for as bs ts' us' :: "'a list"
    using that
  proof (induction as arbitrary: bs)
    case Nil
    then show ?case by (cases bs) auto
  next
    case (Cons a as)
    then show ?case by (cases bs) auto
  qed
  from aux [of xs ts ys us] assms show ?thesis by simp
qed

text \<open>
  Within one kind the key determines the reference. Kinds and IDs may themselves hold \<open>:\<close>, so the
  kind has to be fixed: every map keyed by \<open>Key()\<close> in the program is.
\<close>

lemma ref_key_inject:
  assumes "ref_kind a = ref_kind b" and "ref_key a = ref_key b"
  shows "a = (b :: ext_ref)"
proof -
  from assms have "ref_id a @ ''@'' @ decimal (ref_version a) = ref_id b @ ''@'' @ decimal (ref_version b)"
    by (simp add: ref_key_def)
  then have "ref_id a = ref_id b \<and> decimal (ref_version a) = decimal (ref_version b)"
    using split_last_sep [of "ref_id a" "CHR ''@''" "decimal (ref_version a)" "ref_id b"]
    by (simp add: decimal_no_at)
  with assms(1) show ?thesis
    by (cases a; cases b) (auto dest: decimal_inject)
qed

lemma trim_space_Nil [simp]: "trim_space [] = []"
  by (simp add: trim_space_def trim_left_def trim_right_def)

lemma ref_ok_conv:
  "ref_ok r \<longleftrightarrow> trim_space (ref_kind r) \<noteq> [] \<and> trim_space (ref_id r) \<noteq> [] \<and> ref_version r \<noteq> 0 \<and>
     \<not> contains_any (ref_kind r @ ref_id r) [CHR 0x00, CHR 0x0D, CHR 0x0A]"
  by (simp add: ref_ok_def ref_validate_def)

lemma ref_okD:
  assumes "ref_ok r"
  shows "ref_version r \<noteq> 0" "ref_id r \<noteq> []" "ref_kind r \<noteq> []"
    "CHR 0x00 \<notin> set (ref_kind r)" "CHR 0x00 \<notin> set (ref_id r)"
proof -
  have "\<not> contains_any (ref_kind r @ ref_id r) [CHR 0x00, CHR 0x0D, CHR 0x0A]"
    using assms by (simp add: ref_ok_conv)
  then have "CHR 0x00 \<notin> set (ref_kind r @ ref_id r)"
    by (force simp: contains_any_def list_ex_iff)
  then show "CHR 0x00 \<notin> set (ref_kind r)" "CHR 0x00 \<notin> set (ref_id r)" by simp_all
qed (use assms in \<open>auto simp: ref_ok_conv\<close>)

lemma no_ref_not_ok [simp]: "\<not> ref_ok no_ref"
  by (simp add: ref_ok_conv no_ref_def)

end
