(* ===== verification/Contract.thy ===== *)
theory Contract
  imports Refs
begin

text \<open>
  The kernel's data contract (\<open>internal/kernel/contract.go\<close>, with the option records of
  \<open>pipeline.go\<close>, \<open>physical.go\<close> and \<open>credential_presentation.go\<close> that it embeds). The string-valued
  enumerations of the code become datatypes: one constructor per declared constant, an \<open>Unset\<close>
  constructor for the empty string where the code tests for it, and an \<open>Other\<close> constructor carrying
  the text where configuration may supply any other string. Raw JSON is kept as its bytes.
\<close>

section \<open>Enumerations\<close>

datatype strategy =
    StrategyUnset
  | StrategyFallback
  | StrategyRotatingFallback
  | StrategyRoundRobin
  | StrategyRoundRobinFallback
  | StrategyWeighted
  | StrategyOther string

datatype member_kind = MemberUntyped | MemberModel | MemberRoute | MemberRouteGroup | MemberOther string

datatype model_node_kind = NodeUnset | ModelPhysical | ModelCombo | NodeOther string

datatype source_fidelity =
  FidelityUnset | FidelityExact | FidelityAlias | FidelityCompatible | FidelityDynamic | FidelityUnknown

datatype support_state =
    SupportUnset
  | SupportUnknown
  | SupportUnsupported
  | SupportNative
  | SupportEmulated
  | SupportConditional
  | SupportOther string

datatype error_class = ErrorTerminal | ErrorRetryable | ErrorCooldown | ErrorAuth | ErrorCapability

datatype outcome_cause =
    CauseUnset
  | CauseSuccess
  | CauseRequestInvalid
  | CauseContinuityInvalid
  | CauseCapability
  | CauseModelNotFound
  | CauseAuth
  | CausePermission
  | CauseQuotaExhausted
  | CauseRateLimited
  | CauseCapacity
  | CauseOverloaded
  | CauseTimeout
  | CauseNetwork
  | CauseProtocol
  | CauseStreamFailure
  | CauseUnknown

datatype outcome_scope =
    ScopeUnset
  | ScopeRequest
  | ScopeRoute
  | ScopeOperation
  | ScopeRouteConnection
  | ScopeConnection
  | ScopeProvider

datatype upstream_effect = EffectUnset | EffectUnknown | EffectNotDispatched | EffectRejected | EffectAccepted

datatype evidence_source =
  EvidenceNone | EvidenceResponseHeader | EvidenceSuccessBody | EvidenceErrorBody | EvidenceInferred

datatype retry_action = RetryUnset | RetryNow | RetryAfter | RetryNever | RetryUnknown

datatype credential_recovery =
  RecoveryUnset | CredentialRecoveryNone | CredentialRecoveryRefresh | RecoveryOther string

definition recovery_valid :: "credential_recovery \<Rightarrow> bool" where
  "recovery_valid r \<longleftrightarrow> r = RecoveryUnset \<or> r = CredentialRecoveryNone \<or> r = CredentialRecoveryRefresh"

definition recovery_effective :: "credential_recovery \<Rightarrow> credential_recovery" where
  "recovery_effective r = (if r = RecoveryUnset then CredentialRecoveryNone else r)"

datatype continuity_recovery = ContinuityUnset | ContinuityRecoveryNone | ContinuityRecoveryInvalidate

datatype failure_action = FailureContinue | FailureStop

section \<open>Health generations\<close>

record route_health_generation =
  gen_provider :: string
  gen_connection :: string
  gen_credential :: string
  gen_model :: string

definition gen_for_authentication :: "route_health_generation \<Rightarrow> outcome_scope \<Rightarrow> string" where
  "gen_for_authentication g scope =
     (if scope = ScopeProvider then gen_provider g
      else let base = gen_provider g @ nul @ gen_connection g @ nul @ gen_credential g
           in if scope = ScopeConnection then base else base @ nul @ gen_model g)"

definition gen_for :: "route_health_generation \<Rightarrow> outcome_scope \<Rightarrow> string" where
  "gen_for g scope =
     (case scope of
        ScopeProvider \<Rightarrow> gen_provider g
      | ScopeConnection \<Rightarrow> gen_provider g @ nul @ gen_connection g
      | _ \<Rightarrow> gen_provider g @ nul @ gen_connection g @ nul @ gen_model g)"

definition gen_for_quota :: "route_health_generation \<Rightarrow> string \<Rightarrow> string \<Rightarrow> string" where
  "gen_for_quota g connection_id model_ref =
     (if connection_id = [] \<and> model_ref = [] then gen_provider g
      else if connection_id = [] \<and> model_ref \<noteq> [] then gen_provider g @ nul @ model_ref
      else if connection_id \<noteq> [] \<and> model_ref = [] then gen_provider g @ nul @ gen_connection g
      else gen_for g ScopeRoute)"

text \<open>
  What the epochs promise: operational evidence does not depend on the credential epoch, and the
  authentication evidence of a connection or a route does.
\<close>

lemma gen_for_ignores_credential: "gen_for (g\<lparr>gen_credential := c\<rparr>) scope = gen_for g scope"
  by (simp add: gen_for_def split: outcome_scope.split)

lemma gen_for_quota_ignores_credential: "gen_for_quota (g\<lparr>gen_credential := c\<rparr>) conn m = gen_for_quota g conn m"
  by (simp add: gen_for_quota_def gen_for_ignores_credential)

lemma gen_for_authentication_credential:
  "scope \<noteq> ScopeProvider \<Longrightarrow>
   gen_for_authentication (g\<lparr>gen_credential := c\<rparr>) scope = gen_for_authentication g scope \<Longrightarrow>
   c = gen_credential g"
  by (auto simp: gen_for_authentication_def Let_def split: if_splits)

section \<open>Routes\<close>

record idempotency_policy =
  ip_header :: string
  ip_min_retention_seconds :: int

record usage_source_options =
  uso_input_tokens_header :: string
  uso_output_tokens_header :: string
  uso_estimated_cost_header :: string
  uso_reported_charge_header :: string
  uso_reported_currency_header :: string

record endpoint_options =
  eo_path :: string
  eo_query :: "(string, string) gomap"

record credential_presentation =
  cp_header :: string
  cp_prefix :: string
  cp_headers :: "(string, string) gomap"

record capability =
  cap_state :: support_state
  cap_formats :: "string list"
  cap_max_items :: int
  cap_constraints :: string

type_synonym capability_profile = "(string, capability) gomap"

record token_limits =
  tl_max_input :: int
  tl_max_output :: int
  tl_max_total :: int
  tl_tokenizer :: string
  tl_counting_mode :: string

record route_operation_binding =
  ob_contract_version :: nat
  ob_adapter_ids :: "string list"
  ob_idempotency :: "(string, idempotency_policy) gomap"
  ob_error_classifier_ref :: ext_ref
  ob_usage_source_ref :: ext_ref
  ob_usage_options :: usage_source_options
  ob_session_store_ref :: ext_ref

record route =
  rt_id :: string
  rt_node_id :: string
  rt_display_prefix :: string
  rt_external_model :: string
  rt_protocol :: string
  rt_operation_bindings :: "(string, route_operation_binding) gomap"
  rt_definition_id :: string
  rt_definition_ref :: ext_ref
  rt_auth_flow_id :: string
  rt_error_classifier_ref :: ext_ref
  rt_quota_source_ref :: ext_ref
  rt_quota_endpoint_ref :: ext_ref
  rt_quota_transport_ref :: ext_ref
  rt_quota_endpoint_options :: endpoint_options
  rt_quota_window_name :: string
  rt_usage_source_ref :: ext_ref
  rt_usage_options :: usage_source_options
  rt_session_store_ref :: ext_ref
  rt_session_operation_ref :: ext_ref
  rt_profile :: capability_profile
  rt_limits :: token_limits
  rt_weight :: int
  rt_enabled :: bool
  rt_base_url :: string
  rt_credential_id :: string
  rt_credential_type :: string
  rt_credential_recovery :: credential_recovery
  rt_credential_presentation :: credential_presentation
  rt_health_generation :: route_health_generation

text \<open>The zero values of the structs, which the code obtains by \<open>Route{}\<close> or a missing map key.\<close>

definition zero_usage_options :: usage_source_options where
  "zero_usage_options =
     \<lparr>uso_input_tokens_header = [], uso_output_tokens_header = [], uso_estimated_cost_header = [],
      uso_reported_charge_header = [], uso_reported_currency_header = []\<rparr>"

definition zero_limits :: token_limits where
  "zero_limits =
     \<lparr>tl_max_input = 0, tl_max_output = 0, tl_max_total = 0, tl_tokenizer = [], tl_counting_mode = []\<rparr>"

definition zero_generation :: route_health_generation where
  "zero_generation = \<lparr>gen_provider = [], gen_connection = [], gen_credential = [], gen_model = []\<rparr>"

definition zero_route :: route where
  "zero_route =
     \<lparr>rt_id = [], rt_node_id = [], rt_display_prefix = [], rt_external_model = [], rt_protocol = [],
      rt_operation_bindings = [], rt_definition_id = [], rt_definition_ref = no_ref, rt_auth_flow_id = [],
      rt_error_classifier_ref = no_ref, rt_quota_source_ref = no_ref, rt_quota_endpoint_ref = no_ref,
      rt_quota_transport_ref = no_ref, rt_quota_endpoint_options = \<lparr>eo_path = [], eo_query = []\<rparr>,
      rt_quota_window_name = [], rt_usage_source_ref = no_ref, rt_usage_options = zero_usage_options,
      rt_session_store_ref = no_ref, rt_session_operation_ref = no_ref, rt_profile = [],
      rt_limits = zero_limits, rt_weight = 0, rt_enabled = False, rt_base_url = [],
      rt_credential_id = [], rt_credential_type = [], rt_credential_recovery = RecoveryUnset,
      rt_credential_presentation = \<lparr>cp_header = [], cp_prefix = [], cp_headers = []\<rparr>,
      rt_health_generation = zero_generation\<rparr>"

definition zero_binding :: route_operation_binding where
  "zero_binding =
     \<lparr>ob_contract_version = 0, ob_adapter_ids = [], ob_idempotency = [], ob_error_classifier_ref = no_ref,
      ob_usage_source_ref = no_ref, ob_usage_options = zero_usage_options, ob_session_store_ref = no_ref\<rparr>"

section \<open>Model graph data\<close>

record evidence =
  ev_source :: string
  ev_confidence :: gofloat
  ev_observed_at :: go_time
  ev_expires_at :: go_time
  ev_note :: string

record member_ref =
  mr_kind :: member_kind
  mr_id :: string
  mr_weight :: int
  mr_fidelity :: source_fidelity
  mr_evidence :: "evidence list"

definition zero_member :: member_ref where
  "zero_member =
     \<lparr>mr_kind = MemberUntyped, mr_id = [], mr_weight = 0, mr_fidelity = FidelityUnset, mr_evidence = []\<rparr>"

definition member_of :: "member_kind \<Rightarrow> string \<Rightarrow> member_ref" where
  "member_of k i = zero_member\<lparr>mr_kind := k, mr_id := i\<rparr>"

record physical_identity =
  pi_canonical_name :: string
  pi_family :: string
  pi_revision :: string
  pi_pinned :: bool

record thinking_intent =
  th_mode :: string
  th_effort :: string
  th_budget_tokens :: int
  th_source :: string

record loss_policy =
  lp_allow :: "string list"
  lp_deny :: "string list"

record loss_policy_ceiling =
  lc_allow_only :: bool
  lc_allow :: "string list"
  lc_deny :: "string list"

record model_node =
  mn_id :: string
  mn_kind :: model_node_kind
  mn_strategy :: strategy
  mn_strategy_ref :: ext_ref
  mn_strategy_config :: string
  mn_sticky_limit :: int
  mn_members :: "member_ref list"
  mn_identity :: physical_identity
  mn_reasoning :: thinking_intent
  mn_loss_policy :: loss_policy
  mn_allow_compatible_sources :: bool
  mn_allow_dynamic_sources :: bool

definition zero_node :: model_node where
  "zero_node =
     \<lparr>mn_id = [], mn_kind = NodeUnset, mn_strategy = StrategyUnset, mn_strategy_ref = no_ref,
      mn_strategy_config = [], mn_sticky_limit = 0, mn_members = [],
      mn_identity = \<lparr>pi_canonical_name = [], pi_family = [], pi_revision = [], pi_pinned = False\<rparr>,
      mn_reasoning = \<lparr>th_mode = [], th_effort = [], th_budget_tokens = 0, th_source = []\<rparr>,
      mn_loss_policy = \<lparr>lp_allow = [], lp_deny = []\<rparr>,
      mn_allow_compatible_sources = False, mn_allow_dynamic_sources = False\<rparr>"

record public_model =
  pm_name :: string
  pm_target_ref :: string
  pm_owned_by :: string

record resolved_model =
  rm_public_name :: string
  rm_target_ref :: string
  rm_strategy :: strategy
  rm_strategy_ref :: ext_ref
  rm_strategy_config :: string
  rm_sticky_limit :: int
  rm_candidates :: "route list"

end
