(* ===== verification/Requests.thy ===== *)
theory Requests
  imports Contract
begin

text \<open>
  The normalized request (\<open>internal/normalize/types.go\<close>) and the artifact references it carries
  (\<open>internal/extensions/artifact.go\<close>). A value of Go type \<open>any\<close> that the kernel passes on unread is
  kept as its JSON bytes; the raw client body, of which the kernel reads the keys and the encoded
  length, is kept as its keys and its encoding. A nil slice and an empty one are one value.
\<close>

section \<open>Artifacts\<close>

record artifact_owner =
  ao_domain :: string
  ao_issuer :: "ext_ref option"
  ao_provider_definition :: string
  ao_connection :: string
  ao_model_identity :: string
  ao_client_contract :: string
  ao_session :: string

record body_ref =
  br_id :: string
  br_media_type :: string
  br_size :: int
  br_sha256 :: string
  br_expires_at :: go_time
  br_replayable :: bool

record artifact_ref =
  ar_type_ref :: ext_ref
  ar_role :: string
  ar_owner :: artifact_owner
  ar_replay_scope :: string
  ar_sensitivity :: string
  ar_media_type :: string
  ar_size :: int
  ar_sha256 :: string
  ar_expires_at :: go_time
  ar_value :: string
  ar_body :: "body_ref option"

record artifact_output =
  aout_role :: string
  aout_type_ref :: ext_ref
  aout_min_count :: int
  aout_max_count :: int

section \<open>Requests\<close>

record feature_requirement =
  fr_ref :: ext_ref
  fr_constraints :: string

text \<open>A source map that is passed on unread: \<open>None\<close> when it is nil and its JSON encoding otherwise.\<close>

type_synonym metadata = "string option"

record content_part =
  part_type :: string
  part_text :: string
  part_url :: string
  part_detail :: string
  part_media_type :: string
  part_data :: string
  part_metadata :: metadata

text \<open>
  The dynamic types the kernel tells apart in a message's content (Go's \<open>any\<close>): nothing, a text, typed
  parts, and the decoded JSON of a client that sent raw content blocks.
\<close>

datatype content_value =
    ContentNil
  | ContentText string
  | ContentTyped content_part
  | ContentParts "content_part list"
  | ContentItems "content_value list"
  | ContentObject "(string \<times> content_value) list"
  | ContentScalar string

record prompt_layer =
  pl_origin :: string
  pl_role :: string
  pl_text :: string
  pl_parts :: "content_part list"

record tool_call =
  call_id :: string
  call_type :: string
  call_name :: string
  call_arguments :: string
  call_state :: string
  call_provider_data :: string
  call_signature :: string
  call_issuer :: ext_ref
  call_metadata :: metadata

record message =
  msg_role :: string
  msg_content :: content_value
  msg_name :: string
  msg_tool_call_id :: string
  msg_tool_calls :: "tool_call list"
  msg_metadata :: metadata

record tool =
  tool_type :: string
  tool_name :: string
  tool_function :: string
  tool_metadata :: metadata

record tool_choice =
  choice_mode :: string
  choice_name :: string
  choice_disable_parallel :: bool
  choice_set :: bool
  choice_metadata :: metadata

record generation_options =
  gn_max_output :: "int option"
  gn_temperature :: "gofloat option"
  gn_top_p :: "gofloat option"
  gn_stop_sequences :: "string list"
  gn_unsupported :: "string list"

definition has_options :: "generation_options \<Rightarrow> bool" where
  "has_options o' \<longleftrightarrow>
     gn_max_output o' \<noteq> None \<or> gn_temperature o' \<noteq> None \<or> gn_top_p o' \<noteq> None \<or>
     gn_stop_sequences o' \<noteq> [] \<or> gn_unsupported o' \<noteq> []"

record session_context =
  sx_id :: string
  sx_client :: string
  sx_conversation :: string
  sx_provider_state :: string

record continuity_state =
  cn_response_id :: string
  cn_previous_response :: string
  cn_encrypted_content :: "(string, string) gomap"

record modalities =
  md_vision :: bool
  md_audio_input :: bool
  md_video_input :: bool
  md_pdf :: bool

record artifact_facts =
  af_role :: string
  af_source_digest :: string
  af_interpreter :: ext_ref
  af_value :: string

record transport_hints =
  tr_accept_json :: bool
  tr_accept_sse :: bool
  tr_include_usage :: bool
  tr_force_stream :: bool
  tr_target_format :: string
  tr_preferred_connection :: string
  tr_idempotency_key :: string

record raw_body =
  raw_keys :: "string list"
  raw_encoding :: string

text \<open>The facets of a request that its transforms have changed.\<close>

record mutation_set =
  mu_prompt :: bool
  mu_messages :: bool
  mu_payload :: bool
  mu_modalities :: bool
  mu_requirements :: bool
  mu_tools :: bool
  mu_tool_calls :: bool
  mu_tool_choice :: bool
  mu_max_output :: bool
  mu_temperature :: bool
  mu_top_p :: bool
  mu_stop_sequences :: bool
  mu_thinking :: bool
  mu_continuity :: bool

definition no_mutations :: mutation_set where
  "no_mutations =
     \<lparr>mu_prompt = False, mu_messages = False, mu_payload = False, mu_modalities = False, mu_requirements = False,
      mu_tools = False, mu_tool_calls = False, mu_tool_choice = False, mu_max_output = False,
      mu_temperature = False, mu_top_p = False, mu_stop_sequences = False, mu_thinking = False,
      mu_continuity = False\<rparr>"

record request =
  rq_model :: string
  rq_operation :: string
  rq_operation_version :: nat
  rq_payload :: string
  rq_artifacts :: "artifact_ref list"
  rq_facts :: "artifact_facts list"
  rq_source_format :: string
  rq_stream :: bool
  rq_messages :: "message list"
  rq_prompt :: "prompt_layer list"
  rq_tools :: "tool list"
  rq_tool_choice :: tool_choice
  rq_generation :: generation_options
  rq_thinking :: thinking_intent
  rq_session :: session_context
  rq_continuity :: continuity_state
  rq_modalities :: modalities
  rq_requirements :: "feature_requirement list"
  rq_unsupported_facets :: "string list"
  rq_transport :: transport_hints
  rq_extensions :: metadata
  rq_raw :: raw_body
  rq_mutations :: mutation_set

definition operation_chat_generate :: string where
  "operation_chat_generate = ''chat.generate''"

definition format_anthropic :: string where
  "format_anthropic = ''anthropic''"

definition empty_generation :: generation_options where
  "empty_generation =
     \<lparr>gn_max_output = None, gn_temperature = None, gn_top_p = None, gn_stop_sequences = [], gn_unsupported = []\<rparr>"

definition zero_request :: request where
  "zero_request =
     \<lparr>rq_model = [], rq_operation = [], rq_operation_version = 0, rq_payload = [],
      rq_artifacts = [], rq_facts = [], rq_source_format = [],
      rq_stream = False, rq_messages = [], rq_prompt = [], rq_tools = [],
      rq_tool_choice = \<lparr>choice_mode = [], choice_name = [], choice_disable_parallel = False, choice_set = False,
        choice_metadata = None\<rparr>,
      rq_generation = empty_generation,
      rq_thinking = \<lparr>th_mode = [], th_effort = [], th_budget_tokens = 0, th_source = []\<rparr>,
      rq_session = \<lparr>sx_id = [], sx_client = [], sx_conversation = [], sx_provider_state = []\<rparr>,
      rq_continuity = \<lparr>cn_response_id = [], cn_previous_response = [], cn_encrypted_content = []\<rparr>,
      rq_modalities = \<lparr>md_vision = False, md_audio_input = False, md_video_input = False, md_pdf = False\<rparr>,
      rq_requirements = [], rq_unsupported_facets = [],
      rq_transport = \<lparr>tr_accept_json = False, tr_accept_sse = False, tr_include_usage = False, tr_force_stream = False,
        tr_target_format = [], tr_preferred_connection = [], tr_idempotency_key = []\<rparr>,
      rq_extensions = None, rq_raw = \<lparr>raw_keys = [], raw_encoding = []\<rparr>, rq_mutations = no_mutations\<rparr>"

end
