(* ===== verification/Profiles.thy ===== *)
theory Profiles
  imports Requests
begin

text \<open>
  Capability profiles (\<open>internal/kernel/physical.go\<close>): the projection of the routes of a model to what
  every route guarantees and what some route offers, the requirements of a request, and the hard
  eligibility test of a route.
\<close>

section \<open>Support states\<close>

definition restrictive_support :: "support_state \<Rightarrow> support_state \<Rightarrow> support_state" where
  "restrictive_support left right =
     (if left = SupportUnsupported \<or> right = SupportUnsupported then SupportUnsupported
      else if left = SupportUnknown \<or> right = SupportUnknown then SupportUnknown
      else if left = SupportConditional \<or> right = SupportConditional then SupportConditional
      else if left = SupportEmulated \<or> right = SupportEmulated then SupportEmulated
      else SupportNative)"

definition capability_rank :: "support_state \<Rightarrow> int" where
  "capability_rank st =
     (case st of
        SupportNative \<Rightarrow> 5
      | SupportEmulated \<Rightarrow> 4
      | SupportConditional \<Rightarrow> 3
      | SupportUnsupported \<Rightarrow> - 1
      | _ \<Rightarrow> 0)"

definition zero_capability :: capability where
  "zero_capability = \<lparr>cap_state = SupportUnset, cap_formats = [], cap_max_items = 0, cap_constraints = []\<rparr>"

definition route_support :: "string \<Rightarrow> route \<Rightarrow> support_state" where
  "route_support name r =
     (case gm_get (rt_profile r) name of
        None \<Rightarrow> SupportUnknown
      | Some c \<Rightarrow> if cap_state c \<noteq> SupportUnset then cap_state c else SupportUnknown)"

definition better_support :: "support_state \<Rightarrow> support_state \<Rightarrow> support_state" where
  "better_support available st = (if capability_rank available < capability_rank st then st else available)"

definition available_support :: "string \<Rightarrow> route list \<Rightarrow> support_state" where
  "available_support name routes =
     foldl (\<lambda>acc r. better_support acc (route_support name r)) SupportUnsupported routes"

definition guaranteed_support :: "string \<Rightarrow> route list \<Rightarrow> support_state" where
  "guaranteed_support name routes =
     foldl (\<lambda>acc r. restrictive_support acc (route_support name r)) SupportNative routes"

section \<open>Limits\<close>

definition tighten :: "int \<Rightarrow> int \<Rightarrow> int" where
  "tighten least v = (if 0 < v \<and> (least = 0 \<or> v < least) then v else least)"

definition widen :: "int \<Rightarrow> int \<Rightarrow> int" where
  "widen greatest v = (if 0 < v \<and> greatest < v then v else greatest)"

definition project_limits :: "route list \<Rightarrow> token_limits \<times> token_limits" where
  "project_limits routes =
     (let fold_limit = (\<lambda>f field. foldl (\<lambda>acc r. f acc (field (rt_limits r))) 0 routes)
      in (zero_limits\<lparr>tl_max_input := fold_limit tighten tl_max_input,
            tl_max_output := fold_limit tighten tl_max_output, tl_max_total := fold_limit tighten tl_max_total\<rparr>,
          zero_limits\<lparr>tl_max_input := fold_limit widen tl_max_input,
            tl_max_output := fold_limit widen tl_max_output, tl_max_total := fold_limit widen tl_max_total\<rparr>))"

section \<open>Projection\<close>

record profile_projection =
  pp_declared :: capability_profile
  pp_guaranteed :: capability_profile
  pp_available :: capability_profile
  pp_limits :: token_limits
  pp_available_limits :: token_limits
  pp_capability_sources :: "(string, string list) gomap"
  pp_limit_sources :: "(string, string list) gomap"

definition add_source :: "string \<Rightarrow> string \<Rightarrow> (string, string list) gomap \<Rightarrow> (string, string list) gomap" where
  "add_source key i m = gm_put key (gm_or m key [] @ [i]) m"

definition capability_sources :: "route list \<Rightarrow> (string, string list) gomap" where
  "capability_sources routes =
     foldl (\<lambda>m r. foldl (\<lambda>m' name. add_source name (rt_id r) m') m (gm_keys (rt_profile r))) [] routes"

definition limit_sources :: "route list \<Rightarrow> (string, string list) gomap" where
  "limit_sources routes =
     foldl (\<lambda>m r.
       let m1 = (if 0 < tl_max_input (rt_limits r) then add_source ''maxInputTokens'' (rt_id r) m else m);
           m2 = (if 0 < tl_max_output (rt_limits r) then add_source ''maxOutputTokens'' (rt_id r) m1 else m1)
       in if 0 < tl_max_total (rt_limits r) then add_source ''maxTotalTokens'' (rt_id r) m2 else m2) [] routes"

definition available_names :: "capability_profile \<Rightarrow> route list \<Rightarrow> string list" where
  "available_names declared routes =
     remdups (concat (map (\<lambda>r. gm_keys (rt_profile r)) routes) @ gm_keys declared)"

definition project_profiles :: "capability_profile \<Rightarrow> route list \<Rightarrow> profile_projection" where
  "project_profiles declared routes =
     (if routes = []
      then \<lparr>pp_declared = declared, pp_guaranteed = [], pp_available = [], pp_limits = zero_limits,
            pp_available_limits = zero_limits, pp_capability_sources = [], pp_limit_sources = []\<rparr>
      else
        let names = available_names declared routes
        in \<lparr>pp_declared = declared,
            pp_guaranteed = map (\<lambda>n. (n, zero_capability\<lparr>cap_state := guaranteed_support n routes\<rparr>)) names,
            pp_available = map (\<lambda>n. (n, zero_capability\<lparr>cap_state := available_support n routes\<rparr>)) names,
            pp_limits = fst (project_limits routes), pp_available_limits = snd (project_limits routes),
            pp_capability_sources = capability_sources routes, pp_limit_sources = limit_sources routes\<rparr>)"

definition capability_names :: "capability_profile \<Rightarrow> string list" where
  "capability_names profile = sort (gm_keys profile)"

section \<open>Requirements of a request\<close>

record request_requirements =
  rr_operation :: string
  rr_operation_version :: nat
  rr_capabilities :: "string list"
  rr_features :: "feature_requirement list"
  rr_streaming :: bool
  rr_reasoning :: bool
  rr_estimated_input :: int
  rr_reserved_output :: int

definition estimate_input_tokens :: "request \<Rightarrow> int" where
  "estimate_input_tokens req =
     (if raw_keys (rq_raw req) = [] then wrap64 (int (length (rq_messages req)) * 16)
      else (int (length (raw_encoding (rq_raw req))) + 3) div 4)"

definition requested_output_tokens :: "request \<Rightarrow> int" where
  "requested_output_tokens req =
     (case gn_max_output (rq_generation req) of
        Some v \<Rightarrow> if 0 < v then v else 0
      | None \<Rightarrow> 0)"

definition compile_requirements :: "request \<Rightarrow> request_requirements" where
  "compile_requirements req =
     \<lparr>rr_operation = rq_operation req, rr_operation_version = rq_operation_version req,
      rr_capabilities =
        (if md_vision (rq_modalities req) then [''input.image''] else []) @
        (if md_audio_input (rq_modalities req) then [''input.audio''] else []) @
        (if md_video_input (rq_modalities req) then [''input.video''] else []) @
        (if md_pdf (rq_modalities req) then [''input.pdf''] else []) @
        (if rq_tools req \<noteq> [] then [''tools.function''] else []),
      rr_features = rq_requirements req, rr_streaming = rq_stream req,
      rr_reasoning =
        (th_effort (rq_thinking req) \<noteq> [] \<or> th_mode (rq_thinking req) = ''level'' \<or>
         th_mode (rq_thinking req) = ''budget''),
      rr_estimated_input = estimate_input_tokens req,
      rr_reserved_output = requested_output_tokens req\<rparr>"

section \<open>Eligibility\<close>

datatype ineligible =
    LacksCapability string
  | ProfileUnknown
  | InputExceedsLimit
  | OutputExceedsLimit
  | TotalExceedsLimit

definition capability_gap :: "route \<Rightarrow> string list \<Rightarrow> ineligible option" where
  "capability_gap r caps =
     (if rt_profile r \<noteq> []
      then map_option LacksCapability
             (find (\<lambda>c. case gm_get (rt_profile r) c of None \<Rightarrow> True | Some i \<Rightarrow> cap_state i \<noteq> SupportNative) caps)
      else if caps \<noteq> [] then Some ProfileUnknown else None)"

definition eligible :: "route \<Rightarrow> request_requirements \<Rightarrow> ineligible option" where
  "eligible r req =
     (case capability_gap r (rr_capabilities req) of
        Some reason \<Rightarrow> Some reason
      | None \<Rightarrow>
          let l = rt_limits r
          in if 0 < tl_max_input l \<and> tl_max_input l < rr_estimated_input req then Some InputExceedsLimit
             else if 0 < tl_max_output l \<and> tl_max_output l < rr_reserved_output req then Some OutputExceedsLimit
             else if 0 < tl_max_total l \<and>
                     tl_max_total l < wrap64 (rr_estimated_input req + rr_reserved_output req)
             then Some TotalExceedsLimit
             else None)"

section \<open>What the projections promise\<close>

definition weak_support :: "support_state \<Rightarrow> bool" where
  "weak_support st \<longleftrightarrow>
     st = SupportUnsupported \<or> st = SupportUnknown \<or> st = SupportConditional \<or> st = SupportEmulated"

lemma restrictive_native: "restrictive_support s t = SupportNative \<longleftrightarrow> \<not> weak_support s \<and> \<not> weak_support t"
  unfolding restrictive_support_def weak_support_def by (simp split: if_splits)

lemma restrictive_cases: "restrictive_support s t = SupportNative \<or> weak_support (restrictive_support s t)"
  unfolding restrictive_support_def weak_support_def by simp

lemma foldl_restrictive:
  "foldl (\<lambda>acc r. restrictive_support acc (f r)) SupportNative rs = SupportNative \<longleftrightarrow>
   (\<forall>r \<in> set rs. \<not> weak_support (f r))"
proof (induction rs rule: rev_induct)
  case (snoc r rs)
  have "\<not> weak_support SupportNative" by (simp add: weak_support_def)
  moreover have "foldl (\<lambda>acc r. restrictive_support acc (f r)) SupportNative rs = SupportNative \<or>
      weak_support (foldl (\<lambda>acc r. restrictive_support acc (f r)) SupportNative rs)"
    by (cases rs rule: rev_cases) (simp_all add: restrictive_cases)
  ultimately show ?case using snoc.IH by (auto simp: restrictive_native)
qed simp

lemma foldl_better:
  "foldl (\<lambda>acc r. better_support acc (f r)) a rs = SupportNative \<longleftrightarrow>
   a = SupportNative \<or> (\<exists>r \<in> set rs. f r = SupportNative)"
proof (induction rs arbitrary: a)
  case (Cons r rs)
  have "better_support a t = SupportNative \<longleftrightarrow> a = SupportNative \<or> t = SupportNative" for t
    by (cases a; cases t) (auto simp: better_support_def capability_rank_def)
  with Cons.IH show ?case by auto
qed simp

text \<open>The support states configuration declares; any other text is not one the code knows.\<close>

definition known_support :: "support_state \<Rightarrow> bool" where
  "known_support st \<longleftrightarrow> (case st of SupportOther _ \<Rightarrow> False | _ \<Rightarrow> True)"

lemma guaranteed_native:
  assumes "\<forall>r \<in> set routes. known_support (route_support n r)"
  shows "guaranteed_support n routes = SupportNative \<longleftrightarrow> (\<forall>r \<in> set routes. route_support n r = SupportNative)"
proof -
  have "known_support st \<Longrightarrow> st \<noteq> SupportUnset \<Longrightarrow> \<not> weak_support st \<longleftrightarrow> st = SupportNative" for st
    by (cases st) (simp_all add: known_support_def weak_support_def)
  moreover have "route_support n r \<noteq> SupportUnset" for r
    by (auto simp: route_support_def split: option.split)
  ultimately show ?thesis using assms by (auto simp: guaranteed_support_def foldl_restrictive)
qed

lemma available_native:
  "available_support n routes = SupportNative \<longleftrightarrow> (\<exists>r \<in> set routes. route_support n r = SupportNative)"
  by (simp add: available_support_def foldl_better)

lemma fold_tighten:
  "0 \<le> a \<Longrightarrow> foldl (\<lambda>acc r. tighten acc (f r)) a rs \<le> v \<Longrightarrow>
   foldl (\<lambda>acc r. tighten acc (f r)) a rs \<noteq> 0 \<Longrightarrow>
   (a = 0 \<or> foldl (\<lambda>acc r. tighten acc (f r)) a rs \<le> a) \<and>
   (\<forall>r \<in> set rs. 0 < f r \<longrightarrow> foldl (\<lambda>acc r. tighten acc (f r)) a rs \<le> f r)"
proof (induction rs arbitrary: a)
  case (Cons r rs)
  have step: "0 \<le> tighten a (f r)" "tighten a (f r) = 0 \<Longrightarrow> a = 0 \<and> f r \<le> 0"
    "tighten a (f r) \<noteq> 0 \<Longrightarrow> (a = 0 \<or> tighten a (f r) \<le> a) \<and> (0 < f r \<longrightarrow> tighten a (f r) \<le> f r)"
    using Cons.prems(1) by (auto simp: tighten_def split: if_splits)
  show ?case using Cons.IH [of "tighten a (f r)"] Cons.prems(2,3) step by (cases "tighten a (f r) = 0") force+
qed simp

lemma fold_tighten_zero:
  "0 \<le> a \<Longrightarrow> foldl (\<lambda>acc r. tighten acc (f r)) a rs = 0 \<longleftrightarrow> a = 0 \<and> (\<forall>r \<in> set rs. f r \<le> 0)"
proof (induction rs arbitrary: a)
  case (Cons r rs)
  have "0 \<le> tighten a (f r)" "tighten a (f r) = 0 \<longleftrightarrow> a = 0 \<and> f r \<le> 0"
    using Cons.prems by (auto simp: tighten_def)
  with Cons.IH show ?case by auto
qed simp

lemma fold_widen:
  "0 \<le> a \<Longrightarrow> a \<le> foldl (\<lambda>acc r. widen acc (f r)) a rs \<and>
   (\<forall>r \<in> set rs. f r \<le> foldl (\<lambda>acc r. widen acc (f r)) a rs)"
proof (induction rs arbitrary: a)
  case (Cons r rs)
  have "0 \<le> widen a (f r)" "a \<le> widen a (f r)" "f r \<le> widen a (f r)"
    using Cons.prems by (auto simp: widen_def)
  with Cons.IH [of "widen a (f r)"] show ?case by auto
qed simp

section \<open>Projections and eligibility agree\<close>

lemma map_of_names: "map_of (map (\<lambda>n. (n, f n)) ns) n = (if n \<in> set ns then Some (f n) else None)"
  by (induction ns) auto

lemma route_support_native:
  "route_support n r = SupportNative \<longleftrightarrow> (\<exists>c. gm_get (rt_profile r) n = Some c \<and> cap_state c = SupportNative)"
  by (auto simp: route_support_def split: option.splits if_splits)

lemma profile_mem_names:
  "r \<in> set routes \<Longrightarrow> gm_get (rt_profile r) n = Some c \<Longrightarrow> n \<in> set (available_names declared routes)"
  by (force simp: available_names_def gm_keys_def dest: map_of_SomeD)

text \<open>
  The profile a model shows for its routes: a capability is guaranteed exactly when every route
  supports it natively and available exactly when some route does; a positive guaranteed limit is a
  lower bound of the positive limits of the routes, it is missing only if no route declares one, and
  an available limit is an upper bound.
\<close>

theorem project_profiles_sound:
  assumes "routes \<noteq> []" and "n \<in> set (available_names declared routes)"
    and "\<forall>r \<in> set routes. known_support (route_support n r)"
  defines "p \<equiv> project_profiles declared routes"
  shows "(map_option cap_state (gm_get (pp_guaranteed p) n) = Some SupportNative \<longleftrightarrow>
           (\<forall>r \<in> set routes. route_support n r = SupportNative)) \<and>
         (map_option cap_state (gm_get (pp_available p) n) = Some SupportNative \<longleftrightarrow>
           (\<exists>r \<in> set routes. route_support n r = SupportNative)) \<and>
         (\<forall>field \<in> {tl_max_input, tl_max_output, tl_max_total}.
           (field (pp_limits p) = 0 \<longleftrightarrow> (\<forall>r \<in> set routes. field (rt_limits r) \<le> 0)) \<and>
           (\<forall>r \<in> set routes. 0 < field (rt_limits r) \<longrightarrow> field (pp_limits p) \<le> field (rt_limits r)) \<and>
           (\<forall>r \<in> set routes. field (rt_limits r) \<le> field (pp_available_limits p)))"
proof (intro conjI)
  show "map_option cap_state (gm_get (pp_guaranteed p) n) = Some SupportNative \<longleftrightarrow>
      (\<forall>r \<in> set routes. route_support n r = SupportNative)"
    using assms guaranteed_native [of routes n] by (simp add: project_profiles_def Let_def map_of_names)
  show "map_option cap_state (gm_get (pp_available p) n) = Some SupportNative \<longleftrightarrow>
      (\<exists>r \<in> set routes. route_support n r = SupportNative)"
    using assms available_native [of n routes] by (simp add: project_profiles_def Let_def map_of_names)
  have low: "\<forall>r \<in> set routes. 0 < f r \<longrightarrow> foldl (\<lambda>acc r. tighten acc (f r)) 0 routes \<le> f r"
    for f :: "route \<Rightarrow> int"
    using fold_tighten [of 0 f routes] by (cases "foldl (\<lambda>acc r. tighten acc (f r)) 0 routes = 0") auto
  note zero = fold_tighten_zero [of 0, simplified]
  have up: "\<forall>r \<in> set routes. f r \<le> foldl (\<lambda>acc r. widen acc (f r)) 0 routes" for f :: "route \<Rightarrow> int"
    using fold_widen [of 0 f routes] by simp
  show "\<forall>field \<in> {tl_max_input, tl_max_output, tl_max_total}.
      (field (pp_limits p) = 0 \<longleftrightarrow> (\<forall>r \<in> set routes. field (rt_limits r) \<le> 0)) \<and>
      (\<forall>r \<in> set routes. 0 < field (rt_limits r) \<longrightarrow> field (pp_limits p) \<le> field (rt_limits r)) \<and>
      (\<forall>r \<in> set routes. field (rt_limits r) \<le> field (pp_available_limits p))"
    using assms(1) low [of "\<lambda>r. tl_max_input (rt_limits r)"] low [of "\<lambda>r. tl_max_output (rt_limits r)"]
      low [of "\<lambda>r. tl_max_total (rt_limits r)"] up [of "\<lambda>r. tl_max_input (rt_limits r)"]
      up [of "\<lambda>r. tl_max_output (rt_limits r)"] up [of "\<lambda>r. tl_max_total (rt_limits r)"]
    by (simp add: p_def project_profiles_def Let_def project_limits_def zero_limits_def zero)
qed

definition example_profile_routes :: "route list" where
  "example_profile_routes =
     [zero_route\<lparr>rt_id := ''a'', rt_profile := [(''tools.function'', zero_capability\<lparr>cap_state := SupportNative\<rparr>)],
        rt_limits := zero_limits\<lparr>tl_max_input := 100\<rparr>\<rparr>,
      zero_route\<lparr>rt_id := ''b'', rt_profile := [(''tools.function'', zero_capability\<lparr>cap_state := SupportEmulated\<rparr>)],
        rt_limits := zero_limits\<lparr>tl_max_input := 300\<rparr>\<rparr>]"

lemma project_profiles_sound_witness:
  "map_option cap_state
     (gm_get (pp_guaranteed (project_profiles [] example_profile_routes)) ''tools.function'') \<noteq> Some SupportNative \<and>
   map_option cap_state
     (gm_get (pp_available (project_profiles [] example_profile_routes)) ''tools.function'') = Some SupportNative"
  using project_profiles_sound [of example_profile_routes "''tools.function''" "[]"]
  by (simp add: example_profile_routes_def available_names_def gm_keys_def zero_route_def
      route_support_def known_support_def zero_capability_def)

lemma wrap64_mono_bound: "0 \<le> x \<Longrightarrow> x \<le> max_i64 \<Longrightarrow> wrap64 x = x"
  by (simp add: max_i64_def)

lemma eligible_None:
  "eligible r req = None \<longleftrightarrow>
     capability_gap r (rr_capabilities req) = None \<and>
     (0 < tl_max_input (rt_limits r) \<longrightarrow> rr_estimated_input req \<le> tl_max_input (rt_limits r)) \<and>
     (0 < tl_max_output (rt_limits r) \<longrightarrow> rr_reserved_output req \<le> tl_max_output (rt_limits r)) \<and>
     (0 < tl_max_total (rt_limits r) \<longrightarrow>
        wrap64 (rr_estimated_input req + rr_reserved_output req) \<le> tl_max_total (rt_limits r))"
  by (auto simp: eligible_def Let_def not_less split: option.split)

lemma capability_gap_None:
  "capability_gap r caps = None \<longleftrightarrow> (\<forall>c \<in> set caps. route_support c r = SupportNative)"
  by (cases caps) (auto simp: capability_gap_def find_None_iff route_support_native split: option.splits)


definition example_tool_request :: request_requirements where
  "example_tool_request =
     \<lparr>rr_operation = ''chat.generate'', rr_operation_version = 1, rr_capabilities = [], rr_features = [],
      rr_streaming = False, rr_reasoning = False, rr_estimated_input = 90, rr_reserved_output = 10\<rparr>"


text \<open>
  The sum of the estimated input and the reserved output is a 64-bit sum: a request whose
  reserved output, which the client chooses, makes it exceed the range is eligible for a route that
  limits only the total, although the sum is far above the limit.
\<close>

theorem eligible_total_wraps:
  assumes "capability_gap r (rr_capabilities req) = None"
    and "tl_max_input (rt_limits r) = 0" and "tl_max_output (rt_limits r) = 0"
    and "0 < tl_max_total (rt_limits r)" and "tl_max_total (rt_limits r) \<le> max_i64"
    and "0 \<le> rr_estimated_input req" and "rr_estimated_input req \<le> max_i64"
    and "0 \<le> rr_reserved_output req" and "rr_reserved_output req \<le> max_i64"
    and "max_i64 < rr_estimated_input req + rr_reserved_output req"
  shows "eligible r req = None \<and> tl_max_total (rt_limits r) < rr_estimated_input req + rr_reserved_output req"
proof -
  let ?s = "rr_estimated_input req + rr_reserved_output req"
  have s: "2 ^ 63 \<le> ?s" "?s < 2 ^ 64" using assms by (simp_all add: max_i64_def)
  then have "(?s + 2 ^ 63) mod 2 ^ 64 = ?s + 2 ^ 63 - 2 ^ 64"
    by (subst mod_pos_geq) (simp_all add: mod_pos_pos_trivial)
  with s have "wrap64 ?s < 0" unfolding wrap64_def by linarith
  then have "wrap64 ?s \<le> tl_max_total (rt_limits r)" using assms(4) by linarith
  moreover have "tl_max_total (rt_limits r) < ?s" using assms(5,10) by linarith
  ultimately show ?thesis using assms(1-3) by (simp add: eligible_None)
qed

lemma eligible_total_wraps_witness:
  "eligible (zero_route\<lparr>rt_limits := zero_limits\<lparr>tl_max_total := 1000\<rparr>\<rparr>)
     (example_tool_request\<lparr>rr_reserved_output := 9223372036854775807\<rparr>) = None"
  by (rule eligible_total_wraps [THEN conjunct1])
     (simp_all add: capability_gap_def example_tool_request_def zero_limits_def zero_route_def max_i64_def)

end
