(* ===== verification/Strategies.thy ===== *)
theory Strategies
  imports Contract "HOL-Library.Multiset"
begin

text \<open>
  The built-in strategies (\<open>internal/kernel/strategy.go\<close>): each plans the members of one model node
  from the node's private state and decides after a failure whether the plan goes on. The plan of a
  strategy is the order in which the kernel will try the members.

  \<^item> The locale \<open>strategy_primitive\<close> states what the scheduler relies on: a plan names only members of
    the node, and a node with members gets a plan with members.
  \<^item> Each of the five strategies is an instance of it, and their own properties (a rotation, a single
    pick, fairness over a cycle of plans) are proved after it.
\<close>

section \<open>State and failures\<close>

record strategy_state =
  ss_cursor :: int
  ss_sticky_index :: int
  ss_sticky_count :: int
  ss_sticky_limit :: int
  ss_config :: string

definition zero_strategy_state :: strategy_state where
  "zero_strategy_state =
     \<lparr>ss_cursor = 0, ss_sticky_index = 0, ss_sticky_count = 0, ss_sticky_limit = 0, ss_config = []\<rparr>"

record strategy_failure =
  sf_node_id :: string
  sf_member :: member_ref
  sf_class :: error_class
  sf_err :: string

text \<open>
  Go's \<open>%\<close> truncates towards zero; the code only applies it to a cursor that it keeps nonnegative.
\<close>

definition go_rem :: "int \<Rightarrow> int \<Rightarrow> int" where
  "go_rem a b = sgn a * (\<bar>a\<bar> mod \<bar>b\<bar>)"

lemma go_rem_nonneg [simp]: "0 \<le> a \<Longrightarrow> 0 < b \<Longrightarrow> go_rem a b = a mod b"
  by (cases "a = 0") (simp_all add: go_rem_def)

definition rotate_members :: "'a list \<Rightarrow> nat \<Rightarrow> 'a list" where
  "rotate_members items start = drop start items @ take start items"

section \<open>Plans\<close>

type_synonym plan_fun = "member_ref list \<Rightarrow> strategy_state \<Rightarrow> member_ref list \<times> strategy_state"

definition ordered_fallback_plan :: plan_fun where
  "ordered_fallback_plan members st = (members, st)"

definition round_robin_plan :: plan_fun where
  "round_robin_plan members st =
     (if length members \<le> 1 then (members, st)
      else let n = int (length members);
               index = go_rem (ss_cursor st) n
           in ([members ! nat index], st\<lparr>ss_cursor := go_rem (index + 1) n\<rparr>))"

definition rotating_fallback_plan :: plan_fun where
  "rotating_fallback_plan members st =
     (if length members < 2 then (members, st)
      else let n = int (length members);
               start = go_rem (ss_cursor st) n
           in (rotate_members members (nat start), st\<lparr>ss_cursor := go_rem (start + 1) n\<rparr>))"

definition sticky_round_robin_plan :: plan_fun where
  "sticky_round_robin_plan members st =
     (if length members < 2 then (members, st)
      else let n = int (length members);
               limit = (if ss_sticky_limit st < 1 then 1 else ss_sticky_limit st);
               start = go_rem (ss_sticky_index st) n;
               count = wrap64 (ss_sticky_count st + 1)
           in (rotate_members members (nat start),
               if limit \<le> count
               then st\<lparr>ss_sticky_index := go_rem (start + 1) n, ss_sticky_count := 0\<rparr>
               else st\<lparr>ss_sticky_count := count\<rparr>))"

definition effective_weight :: "int \<Rightarrow> int" where
  "effective_weight w = (if w < 1 then 1 else w)"

fun total_weight :: "int \<Rightarrow> int list \<Rightarrow> int" where
  "total_weight acc [] = acc"
| "total_weight acc (w # ws) = total_weight (wrap64 (acc + effective_weight w)) ws"

text \<open>The index of the member whose slot on the virtual ring holds \<open>point\<close>, 0 when none does.\<close>

fun pick_weighted :: "nat \<Rightarrow> int \<Rightarrow> int list \<Rightarrow> nat" where
  "pick_weighted i point [] = 0"
| "pick_weighted i point (w # ws) =
     (if point < effective_weight w then i
      else pick_weighted (Suc i) (wrap64 (point - effective_weight w)) ws)"

text \<open>The total is the divisor of \<open>%\<close>: a total that has wrapped to zero makes Go panic.\<close>

datatype 'a panicking = Panic | Returns 'a

definition weighted_fallback_plan ::
    "member_ref list \<Rightarrow> strategy_state \<Rightarrow> (member_ref list \<times> strategy_state) panicking" where
  "weighted_fallback_plan members st =
     (if length members < 2 then Returns (members, st)
      else let total = total_weight 0 (map mr_weight members)
           in if total = 0 then Panic
              else let point = go_rem (ss_cursor st) total;
                       chosen = pick_weighted 0 point (map mr_weight members)
                   in Returns (rotate_members members chosen,
                        st\<lparr>ss_cursor := go_rem (wrap64 (ss_cursor st + 1)) total\<rparr>))"

definition strategy_on_failure :: "strategy_failure \<Rightarrow> strategy_state \<Rightarrow> failure_action" where
  "strategy_on_failure f st = (if sf_class f = ErrorTerminal then FailureStop else FailureContinue)"

section \<open>What the scheduler relies on\<close>

text \<open>
  A plan is computed from the node's members and its state. \<open>state_ok\<close> is the invariant of the states
  a strategy leaves behind: counters that are nonnegative machine integers. \<open>members_ok\<close> bounds the
  ring of weights (and with it the number of members) by the range of \<open>int\<close>.
\<close>

definition state_ok :: "strategy_state \<Rightarrow> bool" where
  "state_ok st \<longleftrightarrow>
     0 \<le> ss_cursor st \<and> ss_cursor st < max_i64 \<and> 0 \<le> ss_sticky_index st \<and>
     0 \<le> ss_sticky_count st \<and> ss_sticky_count st < max_i64 \<and> ss_sticky_limit st \<le> max_i64"

definition ring_size :: "int list \<Rightarrow> int" where
  "ring_size ws = sum_list (map effective_weight ws)"

definition members_ok :: "member_ref list \<Rightarrow> bool" where
  "members_ok ms \<longleftrightarrow> ring_size (map mr_weight ms) \<le> max_i64"

text \<open>The plans of \<open>n\<close> requests in a row over the same members.\<close>

fun plan_seq ::
    "(member_ref list \<Rightarrow> strategy_state \<Rightarrow> (member_ref list \<times> strategy_state) panicking) \<Rightarrow>
     nat \<Rightarrow> member_ref list \<Rightarrow> strategy_state \<Rightarrow> (member_ref list list \<times> strategy_state) panicking" where
  "plan_seq plan 0 ms st = Returns ([], st)"
| "plan_seq plan (Suc n) ms st =
     (case plan ms st of
        Panic \<Rightarrow> Panic
      | Returns (p, st') \<Rightarrow>
          (case plan_seq plan n ms st' of Panic \<Rightarrow> Panic | Returns (ps, st'') \<Rightarrow> Returns (p # ps, st'')))"

locale strategy_primitive =
  fixes plan :: "member_ref list \<Rightarrow> strategy_state \<Rightarrow> (member_ref list \<times> strategy_state) panicking"
  assumes plan_returns:
      "members_ok ms \<Longrightarrow> state_ok st \<Longrightarrow> \<exists>ms' st'. plan ms st = Returns (ms', st')"
    and plan_state:
      "members_ok ms \<Longrightarrow> state_ok st \<Longrightarrow> plan ms st = Returns (ms', st') \<Longrightarrow> state_ok st'"
    and plan_members:
      "members_ok ms \<Longrightarrow> state_ok st \<Longrightarrow> plan ms st = Returns (ms', st') \<Longrightarrow> set ms' \<subseteq> set ms"
    and plan_nonempty:
      "members_ok ms \<Longrightarrow> state_ok st \<Longrightarrow> plan ms st = Returns (ms', st') \<Longrightarrow> ms \<noteq> [] \<Longrightarrow> ms' \<noteq> []"
begin

lemma plans_return:
  assumes "members_ok ms" and "state_ok st"
  shows "\<exists>ps st'. plan_seq plan n ms st = Returns (ps, st') \<and> length ps = n \<and> state_ok st' \<and>
           (\<forall>p \<in> set ps. set p \<subseteq> set ms \<and> (ms \<noteq> [] \<longrightarrow> p \<noteq> []))"
  using assms(2)
proof (induction n arbitrary: st)
  case (Suc n)
  obtain p st1 where p: "plan ms st = Returns (p, st1)"
    using plan_returns [OF assms(1) Suc.prems] by blast
  with plan_state plan_members plan_nonempty assms(1) Suc.prems
  have "state_ok st1" "set p \<subseteq> set ms" "ms \<noteq> [] \<longrightarrow> p \<noteq> []" by blast+
  with Suc.IH [of st1] p show ?case by fastforce
qed simp

end

text \<open>The strategies that keep every member of the node as a fallback.\<close>

locale fallback_strategy = strategy_primitive +
  assumes plan_mset:
    "members_ok ms \<Longrightarrow> state_ok st \<Longrightarrow> plan ms st = Returns (ms', st') \<Longrightarrow> mset ms' = mset ms"
begin

lemma plan_covers:
  "members_ok ms \<Longrightarrow> state_ok st \<Longrightarrow> plan ms st = Returns (ms', st') \<Longrightarrow> set ms' = set ms \<and> length ms' = length ms"
  by (metis plan_mset set_mset_mset size_mset)

end

section \<open>Rings and rotations\<close>

lemma effective_weight_pos: "1 \<le> effective_weight w"
  by (simp add: effective_weight_def)

lemma ring_size_Nil [simp]: "ring_size [] = 0"
  and ring_size_Cons [simp]: "ring_size (w # ws) = effective_weight w + ring_size ws"
  by (simp_all add: ring_size_def)

lemma length_le_ring_size: "int (length ws) \<le> ring_size ws"
proof (induction ws)
  case (Cons w ws)
  then show ?case using effective_weight_pos [of w] by simp
qed simp

lemma ring_size_nonneg: "0 \<le> ring_size ws"
  using length_le_ring_size [of ws] by linarith

lemma members_ok_length: "members_ok ms \<Longrightarrow> int (length ms) \<le> max_i64"
  using length_le_ring_size [of "map mr_weight ms"] by (simp add: members_ok_def)

lemma total_weight_ring:
  "0 \<le> acc \<Longrightarrow> acc + ring_size ws \<le> max_i64 \<Longrightarrow> total_weight acc ws = acc + ring_size ws"
proof (induction ws arbitrary: acc)
  case (Cons w ws)
  have "wrap64 (acc + effective_weight w) = acc + effective_weight w"
    using Cons.prems effective_weight_pos [of w] ring_size_nonneg [of ws]
    by (intro wrap64_id) (simp_all add: max_i64_def)
  with Cons.IH [of "acc + effective_weight w"] Cons.prems effective_weight_pos [of w] show ?case
    by simp
qed simp

lemma pick_weighted_bound:
  "0 \<le> p \<Longrightarrow> p < ring_size ws \<Longrightarrow> p \<le> max_i64 \<Longrightarrow>
   i \<le> pick_weighted i p ws \<and> pick_weighted i p ws < i + length ws"
proof (induction ws arbitrary: i p)
  case (Cons w ws)
  show ?case
  proof (cases "p < effective_weight w")
    case False
    then have "wrap64 (p - effective_weight w) = p - effective_weight w"
      using Cons.prems effective_weight_pos [of w] by (intro wrap64_id) (simp_all add: max_i64_def)
    with Cons.IH [of "p - effective_weight w" "Suc i"] Cons.prems False effective_weight_pos [of w]
    show ?thesis by simp
  qed simp
qed simp

lemma rotate_members_mset [simp]: "mset (rotate_members xs k) = mset xs"
  by (simp add: rotate_members_def flip: mset_append union_commute)
     (metis append_take_drop_id mset_append union_commute)

lemma rotate_members_set [simp]: "set (rotate_members xs k) = set xs"
  by (metis rotate_members_mset set_mset_mset)

lemma rotate_members_length [simp]: "length (rotate_members xs k) = length xs"
  by (metis rotate_members_mset size_mset)

lemma rotate_members_Nil [simp]: "rotate_members xs k = [] \<longleftrightarrow> xs = []"
  by (metis rotate_members_length length_0_conv)

lemma rotate_members_hd: "k < length xs \<Longrightarrow> hd (rotate_members xs k) = xs ! k"
  by (simp add: rotate_members_def hd_append hd_drop_conv_nth)

lemma rotate_members_rotate: "k < length xs \<Longrightarrow> rotate_members xs k = rotate k xs"
  by (simp add: rotate_members_def rotate_drop_take)

section \<open>The strategies as instances\<close>

definition returning :: "plan_fun \<Rightarrow> member_ref list \<Rightarrow> strategy_state \<Rightarrow> (member_ref list \<times> strategy_state) panicking" where
  "returning f ms st = Returns (f ms st)"

lemma returning_eq [simp]: "returning f ms st = Returns (ms', st') \<longleftrightarrow> f ms st = (ms', st')"
  by (simp add: returning_def)

lemma cursor_step_ok:
  assumes "1 < length ms" and "members_ok ms" and "0 \<le> c"
  shows "0 \<le> go_rem (go_rem c (int (length ms)) + 1) (int (length ms))"
    and "go_rem (go_rem c (int (length ms)) + 1) (int (length ms)) < max_i64"
proof -
  have n: "0 < int (length ms)" "int (length ms) \<le> max_i64"
    using assms members_ok_length by auto
  have r: "go_rem (go_rem c (int (length ms)) + 1) (int (length ms)) = (c mod int (length ms) + 1) mod int (length ms)"
    using n(1) assms(3) by simp
  show "0 \<le> go_rem (go_rem c (int (length ms)) + 1) (int (length ms))"
    using n(1) by (simp only: r) (rule pos_mod_sign)
  have "(c mod int (length ms) + 1) mod int (length ms) < int (length ms)"
    using n(1) by (rule pos_mod_bound)
  with n(2) show "go_rem (go_rem c (int (length ms)) + 1) (int (length ms)) < max_i64"
    by (simp only: r)
qed

lemma nat_go_rem_less_length:
  assumes "1 < length ms" and "0 \<le> c"
  shows "nat (go_rem c (int (length ms))) < length ms"
proof -
  have n: "0 < int (length ms)" using assms(1) by linarith
  have "0 \<le> c mod int (length ms)" "c mod int (length ms) < int (length ms)"
    using pos_mod_sign [OF n] pos_mod_bound [OF n] by blast+
  moreover have "ms \<noteq> []" using assms(1) by auto
  ultimately show ?thesis using assms(2) by (simp add: nat_less_iff)
qed

interpretation ordered: fallback_strategy "returning ordered_fallback_plan"
  by unfold_locales (auto simp: ordered_fallback_plan_def returning_def)

interpretation round_robin: strategy_primitive "returning round_robin_plan"
proof unfold_locales
  fix ms ms' st st'
  assume ok: "members_ok ms" "state_ok st" and eq: "returning round_robin_plan ms st = Returns (ms', st')"
  show "state_ok st'"
    using ok eq cursor_step_ok [of ms "ss_cursor st"]
    by (auto simp: round_robin_plan_def state_ok_def Let_def split: if_splits)
  show "set ms' \<subseteq> set ms"
    using ok eq nat_go_rem_less_length [of ms "ss_cursor st"]
    by (auto simp: round_robin_plan_def state_ok_def Let_def split: if_splits intro: nth_mem)
  show "ms' \<noteq> []" if "ms \<noteq> []"
    using eq that by (auto simp: round_robin_plan_def Let_def split: if_splits)
qed (simp add: returning_def round_robin_plan_def Let_def)

interpretation rotating: fallback_strategy "returning rotating_fallback_plan"
proof unfold_locales
  fix ms ms' st st'
  assume ok: "members_ok ms" "state_ok st" and eq: "returning rotating_fallback_plan ms st = Returns (ms', st')"
  show "state_ok st'"
    using ok eq cursor_step_ok [of ms "ss_cursor st"]
    by (auto simp: rotating_fallback_plan_def state_ok_def Let_def split: if_splits)
  show "mset ms' = mset ms"
    using eq by (auto simp: rotating_fallback_plan_def Let_def split: if_splits)
  then show "set ms' \<subseteq> set ms" and "ms \<noteq> [] \<Longrightarrow> ms' \<noteq> []"
    by (auto dest: mset_eq_setD)
qed (simp add: returning_def)

interpretation sticky: fallback_strategy "returning sticky_round_robin_plan"
proof unfold_locales
  fix ms ms' st st'
  assume ok: "members_ok ms" "state_ok st" and eq: "returning sticky_round_robin_plan ms st = Returns (ms', st')"
  have "wrap64 (ss_sticky_count st + 1) = ss_sticky_count st + 1"
    using ok(2) by (intro wrap64_id) (auto simp: state_ok_def max_i64_def)
  then show "state_ok st'"
    using ok eq cursor_step_ok [of ms "ss_sticky_index st"]
    by (auto simp: sticky_round_robin_plan_def state_ok_def Let_def max_i64_def split: if_splits)
  show "mset ms' = mset ms"
    using eq by (auto simp: sticky_round_robin_plan_def Let_def split: if_splits)
  then show "set ms' \<subseteq> set ms" and "ms \<noteq> [] \<Longrightarrow> ms' \<noteq> []"
    by (auto dest: mset_eq_setD)
qed (simp add: returning_def)

text \<open>Within the bound on the ring the weighted plan neither wraps nor divides by zero.\<close>

lemma weighted_total:
  assumes "members_ok ms" and "1 < length ms"
  shows "total_weight 0 (map mr_weight ms) = ring_size (map mr_weight ms)"
    and "0 < ring_size (map mr_weight ms)" and "ring_size (map mr_weight ms) \<le> max_i64"
  using assms total_weight_ring [of 0 "map mr_weight ms"] length_le_ring_size [of "map mr_weight ms"]
  by (simp_all add: members_ok_def)

lemma weighted_plan_eq:
  assumes "members_ok ms" and "state_ok st" and "1 < length ms"
  defines "tw \<equiv> ring_size (map mr_weight ms)"
  shows "weighted_fallback_plan ms st =
    Returns (rotate_members ms (pick_weighted 0 (ss_cursor st mod tw) (map mr_weight ms)),
             st\<lparr>ss_cursor := (ss_cursor st + 1) mod tw\<rparr>)"
proof -
  have "wrap64 (ss_cursor st + 1) = ss_cursor st + 1"
    using assms(2) by (intro wrap64_id) (auto simp: state_ok_def max_i64_def)
  with assms weighted_total [OF assms(1,3)] show ?thesis
    by (simp add: weighted_fallback_plan_def state_ok_def Let_def)
qed

lemma weighted_plan_short: "length ms < 2 \<Longrightarrow> weighted_fallback_plan ms st = Returns (ms, st)"
  by (simp add: weighted_fallback_plan_def)

interpretation weighted: fallback_strategy weighted_fallback_plan
proof unfold_locales
  fix ms ms' st st'
  assume ok: "members_ok ms" "state_ok st"
  show "\<exists>ms' st'. weighted_fallback_plan ms st = Returns (ms', st')"
    using weighted_plan_eq [OF ok] weighted_plan_short [of ms st] by (cases "length ms < 2") auto
  assume eq: "weighted_fallback_plan ms st = Returns (ms', st')"
  show "state_ok st'"
  proof (cases "length ms < 2")
    case False
    then have t: "0 < ring_size (map mr_weight ms)" "ring_size (map mr_weight ms) \<le> max_i64"
      using weighted_total [OF ok(1)] by auto
    then have "(ss_cursor st + 1) mod ring_size (map mr_weight ms) < max_i64"
      by (meson order_less_le_trans pos_mod_bound)
    with t ok(2) eq weighted_plan_eq [OF ok] False show ?thesis
      by (auto simp: state_ok_def)
  qed (use ok eq weighted_plan_short [of ms st] in simp)
  show "mset ms' = mset ms"
    using eq weighted_plan_eq [OF ok] weighted_plan_short [of ms st] by (cases "length ms < 2") auto
  then show "set ms' \<subseteq> set ms" and "ms \<noteq> [] \<Longrightarrow> ms' \<noteq> []"
    by (auto dest: mset_eq_setD)
qed

section \<open>Fairness\<close>

text \<open>
  \<open>run_plans f n ms st\<close>: the plans of \<open>n\<close> requests in a row, for a strategy that cannot panic.
\<close>

fun run_plans :: "plan_fun \<Rightarrow> nat \<Rightarrow> member_ref list \<Rightarrow> strategy_state \<Rightarrow> member_ref list list" where
  "run_plans f 0 ms st = []"
| "run_plans f (Suc n) ms st = fst (f ms st) # run_plans f n ms (snd (f ms st))"

lemma length_run_plans [simp]: "length (run_plans f n ms st) = n"
  by (induction n arbitrary: st) simp_all

lemma go_rem_succ:
  "0 \<le> c \<Longrightarrow> 0 < n \<Longrightarrow> go_rem (go_rem c n + 1) n = (c + 1) mod n"
  by (simp add: mod_add_left_eq)

text \<open>
  A plan that starts at the cursor and moves it by one visits the positions of the member list in
  cyclic order: request \<open>k\<close> starts at position \<open>cursor + k\<close>.
\<close>

lemma run_plans_cyclic:
  assumes step: "\<And>st. 0 \<le> ss_cursor st \<Longrightarrow>
      fst (f ms st) = g (nat (ss_cursor st mod int (length ms))) \<and>
      ss_cursor (snd (f ms st)) = (ss_cursor st + 1) mod int (length ms)"
    and "0 < length ms" and "0 \<le> ss_cursor st" and "k < n"
  shows "run_plans f n ms st ! k = g (nat ((ss_cursor st + int k) mod int (length ms)))"
  using assms(3,4)
proof (induction n arbitrary: st k)
  case (Suc n)
  show ?case
  proof (cases k)
    case 0
    with step [OF Suc.prems(1)] show ?thesis by simp
  next
    case (Suc j)
    have "0 \<le> ss_cursor (snd (f ms st))"
      using step [OF Suc.prems(1)] assms(2) by simp
    then have "run_plans f n ms (snd (f ms st)) ! j =
        g (nat ((ss_cursor (snd (f ms st)) + int j) mod int (length ms)))"
      using Suc Suc.prems Suc.IH by simp
    also have "(ss_cursor (snd (f ms st)) + int j) mod int (length ms) = (ss_cursor st + int k) mod int (length ms)"
      using step [OF Suc.prems(1)] Suc
      by (metis add.assoc add.commute mod_add_left_eq of_nat_Suc)
    finally show ?thesis using Suc by simp
  qed
qed simp

lemma round_robin_cyclic:
  assumes "2 \<le> length ms" and "0 \<le> ss_cursor st" and "k < n"
  shows "run_plans round_robin_plan n ms st ! k =
           [ms ! nat ((ss_cursor st + int k) mod int (length ms))]"
proof -
  have "ms \<noteq> []" using assms(1) by auto
  with assms show ?thesis
    by (intro run_plans_cyclic [where g = "\<lambda>i. [ms ! i]"])
       (auto simp: round_robin_plan_def Let_def mod_add_left_eq)
qed

lemma rotating_cyclic:
  assumes "2 \<le> length ms" and "0 \<le> ss_cursor st" and "k < n"
  shows "run_plans rotating_fallback_plan n ms st ! k =
           rotate (nat ((ss_cursor st + int k) mod int (length ms))) ms"
proof -
  have ne: "ms \<noteq> []" using assms(1) by auto
  have "run_plans rotating_fallback_plan n ms st ! k =
      rotate_members ms (nat ((ss_cursor st + int k) mod int (length ms)))"
    using assms ne
    by (intro run_plans_cyclic [where g = "rotate_members ms"])
       (auto simp: rotating_fallback_plan_def Let_def mod_add_left_eq)
  moreover have "nat ((ss_cursor st + int k) mod int (length ms)) < length ms"
    using nat_go_rem_less_length [of ms "ss_cursor st + int k"] assms ne by simp
  ultimately show ?thesis by (simp add: rotate_members_rotate)
qed

text \<open>One cycle of single picks is the member list read cyclically from the cursor.\<close>

lemma map_nth_cyclic:
  assumes "0 < length xs" and "0 \<le> c"
  shows "map (\<lambda>k. xs ! nat ((c + int k) mod int (length xs))) [0..<length xs] =
           rotate (nat (c mod int (length xs))) xs"
proof (rule nth_equalityI)
  fix k assume "k < length (map (\<lambda>k. xs ! nat ((c + int k) mod int (length xs))) [0..<length xs])"
  then have k: "k < length xs" by simp
  obtain d where d: "c = int d" using assms(2) nonneg_int_cases by blast
  show "map (\<lambda>k. xs ! nat ((c + int k) mod int (length xs))) [0..<length xs] ! k =
      rotate (nat (c mod int (length xs))) xs ! k"
    using k by (simp add: d nth_rotate mod_add_left_eq flip: zmod_int of_nat_add)
qed simp

lemma round_robin_cycle:
  assumes "2 \<le> length ms" and "0 \<le> ss_cursor st"
  shows "run_plans round_robin_plan (length ms) ms st =
           map (\<lambda>m. [m]) (rotate (nat (ss_cursor st mod int (length ms))) ms)"
proof -
  have "run_plans round_robin_plan (length ms) ms st =
      map (\<lambda>k. [ms ! nat ((ss_cursor st + int k) mod int (length ms))]) [0..<length ms]"
    using assms
    by (intro nth_equalityI) (simp_all add: round_robin_cyclic)
  also have "\<dots> = map (\<lambda>m. [m]) (map (\<lambda>k. ms ! nat ((ss_cursor st + int k) mod int (length ms))) [0..<length ms])"
    by simp
  also have "map (\<lambda>k. ms ! nat ((ss_cursor st + int k) mod int (length ms))) [0..<length ms] =
      rotate (nat (ss_cursor st mod int (length ms))) ms"
    using assms by (intro map_nth_cyclic) auto
  finally show ?thesis .
qed

text \<open>
  The virtual ring of the weighted strategy: the points \<open>0, 1, \<dots>\<close> up to the ring size pick each
  member exactly as often as its effective weight.
\<close>

fun ring_owner :: "nat \<Rightarrow> int list \<Rightarrow> nat list" where
  "ring_owner i [] = []"
| "ring_owner i (w # ws) = replicate (nat (effective_weight w)) i @ ring_owner (Suc i) ws"

lemma ring_owner_ge: "k \<in> set (ring_owner i ws) \<Longrightarrow> i \<le> k"
  by (induction ws arbitrary: i) (auto split: if_splits dest: Suc_leD)

lemma length_ring_owner: "int (length (ring_owner i ws)) = ring_size ws"
proof (induction ws arbitrary: i)
  case (Cons w ws)
  have "0 \<le> effective_weight w" using effective_weight_pos [of w] by simp
  with Cons.IH [of "Suc i"] show ?case by simp
qed simp

lemma pick_weighted_owner:
  "0 \<le> p \<Longrightarrow> p < ring_size ws \<Longrightarrow> p \<le> max_i64 \<Longrightarrow> pick_weighted i p ws = ring_owner i ws ! nat p"
proof (induction ws arbitrary: i p)
  case (Cons w ws)
  have w: "1 \<le> effective_weight w" by (rule effective_weight_pos)
  show ?case
  proof (cases "p < effective_weight w")
    case True
    with Cons.prems w show ?thesis by (simp add: nth_append)
  next
    case False
    then have "wrap64 (p - effective_weight w) = p - effective_weight w"
      using Cons.prems w by (intro wrap64_id) (simp_all add: max_i64_def)
    with Cons.IH [of "p - effective_weight w" "Suc i"] Cons.prems False w show ?thesis
      by (simp add: nth_append nat_diff_distrib)
  qed
qed simp

lemma count_ring_owner:
  "j < length ws \<Longrightarrow> count_list (ring_owner i ws) (i + j) = nat (effective_weight (ws ! j))"
proof (induction ws arbitrary: i j)
  case (Cons w ws)
  have rep: "count_list (replicate n a) b = (if a = b then n else 0)" for n and a b :: nat
    by (induction n) auto
  have "\<forall>k \<in> set (ring_owner (Suc i) ws). i < k"
    by (auto dest: ring_owner_ge)
  then have "count_list (ring_owner (Suc i) ws) i = 0"
    by (force simp: count_list_0_iff)
  with Cons.IH [of "j - 1" "Suc i"] Cons.prems show ?case
    by (cases j) (simp_all add: rep)
qed simp

lemma weighted_cyclic:
  assumes "members_ok ms" and "state_ok st" and "1 < length ms"
  defines "tw \<equiv> ring_size (map mr_weight ms)"
  shows "\<exists>st'. plan_seq weighted_fallback_plan n ms st =
    Returns (map (\<lambda>k. rotate_members ms (ring_owner 0 (map mr_weight ms) ! nat ((ss_cursor st + int k) mod tw))) [0..<n], st')"
  using assms(2)
proof (induction n arbitrary: st)
  case (Suc n)
  let ?o = "\<lambda>p. rotate_members ms (ring_owner 0 (map mr_weight ms) ! nat p)"
  let ?st1 = "st\<lparr>ss_cursor := (ss_cursor st + 1) mod tw\<rparr>"
  have tw: "0 < tw" "tw \<le> max_i64"
    using weighted_total [OF assms(1,3)] by (simp_all add: tw_def)
  have c: "0 \<le> ss_cursor st mod tw" "ss_cursor st mod tw < tw"
    using tw(1) by simp_all
  have plan: "weighted_fallback_plan ms st = Returns (?o (ss_cursor st mod tw), ?st1)"
    using weighted_plan_eq [OF assms(1) Suc.prems assms(3)] c tw pick_weighted_owner [of "ss_cursor st mod tw"]
    by (simp add: tw_def)
  have "state_ok ?st1"
    using weighted.plan_state [OF assms(1) Suc.prems plan] .
  then obtain st' where IH: "plan_seq weighted_fallback_plan n ms ?st1 =
      Returns (map (\<lambda>k. ?o (((ss_cursor st + 1) mod tw + int k) mod tw)) [0..<n], st')"
    using Suc.IH [of ?st1] by auto
  have "map (\<lambda>k. ?o ((ss_cursor st + int k) mod tw)) [0..<Suc n] =
      ?o (ss_cursor st mod tw) # map (\<lambda>k. ?o ((ss_cursor st + int (Suc k)) mod tw)) [0..<n]"
    by (simp add: upt_conv_Cons map_Suc_upt [symmetric] del: upt_Suc)
  also have "map (\<lambda>k. ?o ((ss_cursor st + int (Suc k)) mod tw)) [0..<n] =
      map (\<lambda>k. ?o (((ss_cursor st + 1) mod tw + int k) mod tw)) [0..<n]"
    by (simp add: mod_add_left_eq add.assoc)
  finally show ?case using plan IH by auto
qed simp

lemma count_list_rotate: "count_list (rotate k xs) x = count_list xs x"
proof -
  have "count_list (rotate k xs) x =
      count_list (drop (k mod length xs) xs @ take (k mod length xs) xs) x"
    by (simp add: rotate_drop_take)
  also have "\<dots> = count_list (take (k mod length xs) xs @ drop (k mod length xs) xs) x"
    by (simp only: count_list_append add.commute)
  finally show ?thesis by simp
qed

lemma count_list_map_nth:
  assumes "distinct xs" and "\<forall>i \<in> set is. i < length xs" and "j < length xs"
  shows "count_list (map (\<lambda>i. xs ! i) is) (xs ! j) = count_list is j"
  using assms(2) by (induction "is") (auto simp: assms(1,3) nth_eq_iff_index_eq)

lemma ring_owner_less: "k \<in> set (ring_owner i ws) \<Longrightarrow> k < i + length ws"
proof (induction ws arbitrary: i)
  case (Cons w ws)
  from Cons.IH [of "Suc i"] Cons.prems show ?case by (auto split: if_splits)
qed simp

text \<open>
  C5. Weighted fallback is fair: from any state, over as many requests in a row as the weights add up
  to, each member starts exactly as many plans as its weight (a weight below one counts as one).
\<close>

theorem weighted_fallback_fair:
  assumes "members_ok ms" and "state_ok st" and "2 \<le> length ms" and "distinct ms" and "j < length ms"
  shows "\<exists>ps st'. plan_seq weighted_fallback_plan (nat (ring_size (map mr_weight ms))) ms st = Returns (ps, st') \<and>
           count_list (map hd ps) (ms ! j) = nat (effective_weight (mr_weight (ms ! j)))"
proof -
  let ?ws = "map mr_weight ms" and ?own = "ring_owner 0 (map mr_weight ms)"
  let ?f = "\<lambda>k. ?own ! nat ((ss_cursor st + int k) mod ring_size ?ws)"
  have len: "int (length ?own) = ring_size ?ws" by (rule length_ring_owner)
  have pos: "0 < ring_size ?ws" using weighted_total(2) [of ms] assms(1,3) by simp
  have c: "0 \<le> ss_cursor st" using assms(2) by (simp add: state_ok_def)
  have own: "\<forall>i \<in> set ?own. i < length ms" using ring_owner_less [of _ 0 ?ws] by simp
  obtain st' where run: "plan_seq weighted_fallback_plan (length ?own) ms st =
      Returns (map (\<lambda>k. rotate_members ms (?f k)) [0..<length ?own], st')"
    using weighted_cyclic [OF assms(1,2)] assms(3) by fastforce
  have "?f k < length ms" for k
  proof -
    have "nat ((ss_cursor st + int k) mod ring_size ?ws) < length ?own"
      using pos len by (metis nat_less_iff pos_mod_bound pos_mod_sign)
    then show ?thesis using own nth_mem by blast
  qed
  then have "map hd (map (\<lambda>k. rotate_members ms (?f k)) [0..<length ?own]) = map (\<lambda>i. ms ! i) (map ?f [0..<length ?own])"
    by (simp add: rotate_members_hd)
  also have "map ?f [0..<length ?own] = rotate (nat (ss_cursor st mod ring_size ?ws)) ?own"
    using map_nth_cyclic [OF _ c, of ?own] pos len by (metis of_nat_0_less_iff)
  finally have "count_list (map hd (map (\<lambda>k. rotate_members ms (?f k)) [0..<length ?own])) (ms ! j) =
      count_list (rotate (nat (ss_cursor st mod ring_size ?ws)) ?own) j"
    using count_list_map_nth [of ms _ j] assms(4,5) own by simp
  also have "\<dots> = nat (effective_weight (mr_weight (ms ! j)))"
    using count_ring_owner [of j ?ws 0] assms(5) by (simp add: count_list_rotate)
  moreover have "nat (ring_size ?ws) = length ?own" using len by linarith
  ultimately show ?thesis using run by auto
qed

text \<open>Three requests over two members of weights 2 and 1.\<close>

definition example_members :: "member_ref list" where
  "example_members = [(member_of MemberRoute ''a'')\<lparr>mr_weight := 2\<rparr>, (member_of MemberRoute ''b'')\<lparr>mr_weight := 1\<rparr>]"

lemma weighted_fallback_fair_witness:
  "\<exists>ps st'. plan_seq weighted_fallback_plan 3 example_members zero_strategy_state = Returns (ps, st') \<and>
     count_list (map hd ps) (example_members ! 0) = 2"
  using weighted_fallback_fair [of example_members zero_strategy_state 0]
  by (simp add: example_members_def member_of_def zero_member_def zero_strategy_state_def state_ok_def
      members_ok_def ring_size_def effective_weight_def max_i64_def)

text \<open>
  C6. Round robin serves every member once per cycle: as many requests in a row as there are members
  pick the members one at a time, in cyclic order from the cursor.
\<close>

theorem round_robin_one_cycle:
  assumes "members_ok ms" and "2 \<le> length ms" and "0 \<le> ss_cursor st"
  shows "run_plans round_robin_plan (length ms) ms st =
           map (\<lambda>m. [m]) (rotate (nat (ss_cursor st mod int (length ms))) ms)"
  using assms(2,3) by (rule round_robin_cycle)

lemma round_robin_one_cycle_witness:
  "run_plans round_robin_plan (length example_members) example_members (zero_strategy_state\<lparr>ss_cursor := 1\<rparr>) =
     [[example_members ! 1], [example_members ! 0]]"
  using round_robin_one_cycle [of example_members "zero_strategy_state\<lparr>ss_cursor := 1\<rparr>"]
  by (simp add: example_members_def zero_strategy_state_def rotate_def
      members_ok_def ring_size_def effective_weight_def max_i64_def del: run_plans.simps)

end
