(* ===== verification/Scheduler.thy ===== *)
theory Scheduler
  imports Strategies
begin

text \<open>
  The scheduler (\<open>internal/kernel/scheduler.go\<close>, with the built-in table of
  \<open>strategy_registry.go\<close>): per-node strategy state, the ordering of a model's candidates and the
  ranking of a route group. One call of a method is one step: the code holds \<open>s.mu\<close> or the node's
  state lock while it reads and writes the state it uses. The gate is a parameter, a record with one
  function per interface the gate may implement (\<open>None\<close> when it does not); it is interpreted by the
  policy gate of the runtime.
\<close>

section \<open>Strategy definitions\<close>

text \<open>A \<open>StrategyPrimitive\<close>: \<open>Plan\<close> may panic; \<open>OnFailure\<close> may write its node's state.\<close>

record primitive =
  prim_plan :: "member_ref list \<Rightarrow> strategy_state \<Rightarrow> (member_ref list \<times> strategy_state) panicking"
  prim_on_failure :: "strategy_failure \<Rightarrow> strategy_state \<Rightarrow> failure_action \<times> strategy_state"

datatype strategy_option_type = StrategyOptionInteger | StrategyOptionOther string

record strategy_option =
  so_key :: string
  so_type :: strategy_option_type
  so_label :: string
  so_description :: string
  so_default :: "int option"
  so_minimum :: int
  so_maximum :: int

record strategy_definition =
  sd_ref :: ext_ref
  sd_id :: string
  sd_label :: string
  sd_description :: string
  sd_options :: "strategy_option list"
  sd_runtime :: strategy
  sd_primitive :: "primitive option"

definition strategy_extension_kind :: string where
  "strategy_extension_kind = ''strategy''"

definition strategy_ref :: "string \<Rightarrow> nat \<Rightarrow> ext_ref" where
  "strategy_ref i v = mk_ref strategy_extension_kind i v"

definition builtin_primitive :: "(member_ref list \<Rightarrow> strategy_state \<Rightarrow> (member_ref list \<times> strategy_state) panicking) \<Rightarrow> primitive" where
  "builtin_primitive f = \<lparr>prim_plan = f, prim_on_failure = (\<lambda>fl st. (strategy_on_failure fl st, st))\<rparr>"

definition builtin_strategy_definitions :: "strategy_definition list" where
  "builtin_strategy_definitions =
    [\<lparr>sd_ref = mk_ref strategy_extension_kind ''ordered-fallback'' 1, sd_id = ''ordered-fallback'',
      sd_label = ''Ordered fallback'',
      sd_description = ''Try members in their configured order; continue only for retryable failures.'',
      sd_options = [], sd_runtime = StrategyFallback,
      sd_primitive = Some (builtin_primitive (returning ordered_fallback_plan))\<rparr>,
     \<lparr>sd_ref = mk_ref strategy_extension_kind ''rotating-fallback'' 1, sd_id = ''rotating-fallback'',
      sd_label = ''Rotating fallback'',
      sd_description = ''Rotate the first member on each request, then try the remaining members in order.'',
      sd_options = [], sd_runtime = StrategyRotatingFallback,
      sd_primitive = Some (builtin_primitive (returning rotating_fallback_plan))\<rparr>,
     \<lparr>sd_ref = mk_ref strategy_extension_kind ''round-robin'' 1, sd_id = ''round-robin'',
      sd_label = ''Round robin'',
      sd_description = ''Choose one member per request; on failure, control returns to the parent Combo policy rather than trying sibling members.'',
      sd_options = [], sd_runtime = StrategyRoundRobin,
      sd_primitive = Some (builtin_primitive (returning round_robin_plan))\<rparr>,
     \<lparr>sd_ref = mk_ref strategy_extension_kind ''round-robin-fallback'' 1, sd_id = ''round-robin-fallback'',
      sd_label = ''Sticky round-robin fallback'',
      sd_description = ''Keep the current starting member for a bounded number of requests, then rotate and fall back in order.'',
      sd_options =
        [\<lparr>so_key = ''stickyLimit'', so_type = StrategyOptionInteger, so_label = ''Requests per starting member'',
          so_description = ''How many requests use one starting member before rotating.'',
          so_default = Some 1, so_minimum = 1, so_maximum = 1000\<rparr>],
      sd_runtime = StrategyRoundRobinFallback,
      sd_primitive = Some (builtin_primitive (returning sticky_round_robin_plan))\<rparr>,
     \<lparr>sd_ref = mk_ref strategy_extension_kind ''weighted-fallback'' 1, sd_id = ''weighted-fallback'',
      sd_label = ''Weighted fallback'',
      sd_description = ''Choose a weighted starting member, then try remaining members as fallbacks; weights are edited on member edges.'',
      sd_options = [], sd_runtime = StrategyWeighted,
      sd_primitive = Some (builtin_primitive weighted_fallback_plan)\<rparr>]"

fun validate_strategy_options_from :: "string list \<Rightarrow> strategy_option list \<Rightarrow> bool" where
  "validate_strategy_options_from seen [] = True"
| "validate_strategy_options_from seen (opt # opts) =
     (if so_key opt = [] \<or> so_label opt = [] \<or> so_type opt \<noteq> StrategyOptionInteger \<or> so_key opt \<in> set seen
      then False
      else if 0 < so_maximum opt \<and> so_maximum opt < so_minimum opt then False
      else validate_strategy_options_from (so_key opt # seen) opts)"

definition validate_strategy_options :: "strategy_option list \<Rightarrow> bool" where
  "validate_strategy_options opts = validate_strategy_options_from [] opts"

section \<open>Gates\<close>

text \<open>
  \<open>Gate\<close> with the optional interfaces the scheduler asks for by type assertion: \<open>RouteRanker\<close>,
  \<open>RequestClassRanker\<close>, \<open>SessionRanker\<close> and \<open>RouteAdmission\<close>. \<open>'g\<close> is the gate's own state.
\<close>

record 'g gate =
  g_usable :: "'g \<Rightarrow> route \<Rightarrow> go_time \<Rightarrow> bool"
  g_rank :: "('g \<Rightarrow> route list \<Rightarrow> go_time \<Rightarrow> route list) option"
  g_rank_for :: "('g \<Rightarrow> route list \<Rightarrow> go_time \<Rightarrow> string \<Rightarrow> route list) option"
  g_rank_session :: "('g \<Rightarrow> route list \<Rightarrow> go_time \<Rightarrow> string \<Rightarrow> string \<Rightarrow> route list \<times> 'g) option"
  g_acquire :: "('g \<Rightarrow> route \<Rightarrow> go_time \<Rightarrow> bool \<times> 'g) option"
  g_release :: "('g \<Rightarrow> route \<Rightarrow> 'g) option"

definition always_open_gate :: "unit gate" where
  "always_open_gate =
     \<lparr>g_usable = (\<lambda>_ _ _. True), g_rank = None, g_rank_for = None, g_rank_session = None,
      g_acquire = None, g_release = None\<rparr>"

section \<open>The scheduler's state\<close>

record sticky_state =
  sk_index :: int
  sk_count :: int

record scheduler =
  sch_cursors :: "(string, int) gomap"
  sch_sticky :: "(string, sticky_state) gomap"
  sch_strategies :: "(strategy, primitive) gomap"
  sch_model_state :: "(string, strategy_state) gomap"

fun install_definitions :: "strategy_definition list \<Rightarrow> (strategy, primitive) gomap \<Rightarrow> (strategy, primitive) gomap" where
  "install_definitions [] m = m"
| "install_definitions (d # ds) m =
     install_definitions ds
       (case sd_primitive d of
          None \<Rightarrow> m
        | Some p \<Rightarrow> if sd_runtime d = StrategyUnset then m else gm_put (sd_runtime d) p m)"

definition new_scheduler :: scheduler where
  "new_scheduler =
     \<lparr>sch_cursors = [], sch_sticky = [],
      sch_strategies = install_definitions builtin_strategy_definitions [], sch_model_state = []\<rparr>"

definition register_strategy :: "scheduler \<Rightarrow> strategy \<Rightarrow> primitive option \<Rightarrow> scheduler" where
  "register_strategy s name prim =
     (case prim of
        None \<Rightarrow> s
      | Some p \<Rightarrow> if name = StrategyUnset then s
                 else s\<lparr>sch_strategies := gm_put name p (sch_strategies s)\<rparr>)"

definition set_strategy_definitions :: "scheduler \<Rightarrow> strategy_definition list \<Rightarrow> scheduler" where
  "set_strategy_definitions s ds = s\<lparr>sch_strategies := install_definitions ds []\<rparr>"

definition strategy_state_key :: "string \<Rightarrow> ext_ref \<Rightarrow> string" where
  "strategy_state_key node_id ref =
     (if ref_ok ref \<and> ref_kind ref = strategy_extension_kind then node_id @ nul @ ref_key ref else node_id)"

text \<open>The primitive of a node (\<open>None\<close>: a nil interface) and its state, created at first use.\<close>

definition scheduler_strategy_state ::
    "scheduler \<Rightarrow> model_node \<Rightarrow> primitive option \<times> string \<times> strategy_state" where
  "scheduler_strategy_state s node =
     (let prim = (case gm_get (sch_strategies s) (mn_strategy node) of
                    None \<Rightarrow> gm_get (sch_strategies s) StrategyFallback
                  | Some p \<Rightarrow> Some p);
          key = strategy_state_key (mn_id node) (mn_strategy_ref node)
      in (prim, key, gm_or (sch_model_state s) key zero_strategy_state))"

definition scheduler_plan :: "scheduler \<Rightarrow> model_node \<Rightarrow> (member_ref list \<times> scheduler) panicking" where
  "scheduler_plan s node =
     (case scheduler_strategy_state s node of (prim, key, st) \<Rightarrow>
        let st1 = st\<lparr>ss_sticky_limit := (if mn_sticky_limit node < 1 then 1 else mn_sticky_limit node),
                     ss_config := mn_strategy_config node\<rparr>
        in case prim of
             None \<Rightarrow> Panic
           | Some p \<Rightarrow>
               (case prim_plan p (mn_members node) st1 of
                  Panic \<Rightarrow> Panic
                | Returns (planned, st2) \<Rightarrow>
                    Returns (planned, s\<lparr>sch_model_state := gm_put key st2 (sch_model_state s)\<rparr>)))"

definition scheduler_on_failure ::
    "scheduler \<Rightarrow> model_node \<Rightarrow> strategy_failure \<Rightarrow> (failure_action \<times> scheduler) panicking" where
  "scheduler_on_failure s node failure =
     (case scheduler_strategy_state s node of (prim, key, st) \<Rightarrow>
        let st1 = st\<lparr>ss_config := mn_strategy_config node\<rparr>
        in case prim of
             None \<Rightarrow> Panic
           | Some p \<Rightarrow>
               (case prim_on_failure p failure st1 of
                  (action, st2) \<Rightarrow>
                    Returns (action, s\<lparr>sch_model_state := gm_put key st2 (sch_model_state s)\<rparr>)))"

section \<open>Ordering and ranking\<close>

definition is_builtin_strategy :: "strategy \<Rightarrow> bool" where
  "is_builtin_strategy st =
     (case st of
        StrategyFallback \<Rightarrow> True
      | StrategyRotatingFallback \<Rightarrow> True
      | StrategyRoundRobin \<Rightarrow> True
      | StrategyRoundRobinFallback \<Rightarrow> True
      | StrategyWeighted \<Rightarrow> True
      | _ \<Rightarrow> False)"

definition has_strategy :: "scheduler \<Rightarrow> strategy \<Rightarrow> bool" where
  "has_strategy s name = gm_has (sch_strategies s) name"

definition available_routes :: "'g gate \<Rightarrow> 'g \<Rightarrow> route list \<Rightarrow> go_time \<Rightarrow> route list" where
  "available_routes G g routes now = filter (\<lambda>r. rt_enabled r \<and> g_usable G g r now) routes"

text \<open>The first element that satisfies \<open>P\<close> moved to the front, if there is one.\<close>

definition promote :: "('a \<Rightarrow> bool) \<Rightarrow> 'a list \<Rightarrow> 'a list option" where
  "promote P xs =
     (case dropWhile (\<lambda>x. \<not> P x) xs of
        [] \<Rightarrow> None
      | y # ys \<Rightarrow> Some (y # takeWhile (\<lambda>x. \<not> P x) xs @ ys))"

definition cyclic_order :: "'a list \<Rightarrow> nat \<Rightarrow> 'a list" where
  "cyclic_order xs k = map (\<lambda>i. xs ! ((k + i) mod length xs)) [0..<length xs]"

text \<open>The branch of \<open>OrderWithPreferred\<close> for a registered strategy that is not built in.\<close>

definition order_custom ::
    "scheduler \<Rightarrow> resolved_model \<Rightarrow> route list \<Rightarrow> (route list \<times> scheduler) panicking" where
  "order_custom s model available =
     (let node = zero_node\<lparr>mn_id := rm_public_name model, mn_kind := ModelPhysical,
                   mn_strategy := rm_strategy model, mn_strategy_ref := rm_strategy_ref model,
                   mn_strategy_config := rm_strategy_config model,
                   mn_sticky_limit := rm_sticky_limit model,
                   mn_members := map (\<lambda>r. (member_of MemberRoute (rt_id r))\<lparr>mr_weight := rt_weight r\<rparr>) available\<rparr>;
          by_id = map_of (rev (map (\<lambda>r. (rt_id r, r)) available))
      in case scheduler_plan s node of
           Panic \<Rightarrow> Panic
         | Returns (planned, s') \<Rightarrow>
             (let ordered = List.map_filter (\<lambda>m. by_id (mr_id m)) planned
              in Returns (if ordered \<noteq> [] then ordered else available, s')))"

text \<open>The built-in strategies that keep a cursor, for at least two available routes.\<close>

definition order_cursor ::
    "scheduler \<Rightarrow> resolved_model \<Rightarrow> route list \<Rightarrow> (route list \<times> scheduler) panicking" where
  "order_cursor s model available =
     (let n = int (length available);
          key = strategy_state_key (rm_public_name model) (rm_strategy_ref model);
          start = go_rem (gm_or (sch_cursors s) key 0) n
      in if rm_strategy model = StrategyRoundRobinFallback
         then let limit = (if rm_sticky_limit model < 1 then 1 else rm_sticky_limit model);
                  st = gm_or (sch_sticky s) key \<lparr>sk_index = 0, sk_count = 0\<rparr>;
                  start' = (if n \<le> sk_index st then start else sk_index st);
                  count = wrap64 (sk_count st + 1);
                  st' = (if limit \<le> count
                         then \<lparr>sk_index = go_rem (start' + 1) n, sk_count = 0\<rparr>
                         else \<lparr>sk_index = start', sk_count = count\<rparr>)
              in Returns (cyclic_order available (nat start'),
                   s\<lparr>sch_sticky := gm_put key st' (sch_sticky s),
                     sch_cursors := gm_put key (go_rem (start' + 1) n) (sch_cursors s)\<rparr>)
         else let s' = s\<lparr>sch_cursors := gm_put key (go_rem (start + 1) n) (sch_cursors s)\<rparr>
              in if rm_strategy model = StrategyWeighted
                 then let tw = total_weight 0 (map rt_weight available)
                      in if tw = 0 then Panic
                         else Returns
                           (cyclic_order available
                              (pick_weighted 0 (go_rem start tw) (map rt_weight available)), s')
                 else Returns (cyclic_order available (nat start), s'))"

text \<open>The round robin branch: exactly one of the available routes.\<close>

definition order_single ::
    "scheduler \<Rightarrow> resolved_model \<Rightarrow> route list \<Rightarrow> (route list \<times> scheduler) panicking" where
  "order_single s model available =
     (if length available = 1 then Returns (available, s)
      else let n = int (length available);
               key = strategy_state_key (rm_public_name model) (rm_strategy_ref model);
               index = go_rem (gm_or (sch_cursors s) key 0) n
           in Returns ([available ! nat index],
                s\<lparr>sch_cursors := gm_put key (go_rem (index + 1) n) (sch_cursors s)\<rparr>))"

definition order_with_preferred ::
    "'g gate \<Rightarrow> 'g \<Rightarrow> scheduler \<Rightarrow> resolved_model \<Rightarrow> go_time \<Rightarrow> string \<Rightarrow>
     (route list \<times> scheduler) panicking" where
  "order_with_preferred G g s model now preferred =
     (let available = available_routes G g (rm_candidates model) now
      in case (if preferred = [] then None
               else promote (\<lambda>r. rt_credential_id r = preferred) available) of
           Some promoted \<Rightarrow> Returns (promoted, s)
         | None \<Rightarrow>
             (let available = (case g_rank G of None \<Rightarrow> available | Some rank \<Rightarrow> rank g available now)
              in if \<not> is_builtin_strategy (rm_strategy model) \<and> has_strategy s (rm_strategy model)
                 then order_custom s model available
                 else if available = [] \<or> rm_strategy model = StrategyFallback
                 then Returns (available, s)
                 else if rm_strategy model = StrategyRoundRobin
                 then order_single s model available
                 else if length available < 2 then Returns (available, s)
                 else order_cursor s model available))"

definition scheduler_order ::
    "'g gate \<Rightarrow> 'g \<Rightarrow> scheduler \<Rightarrow> resolved_model \<Rightarrow> go_time \<Rightarrow> (route list \<times> scheduler) panicking" where
  "scheduler_order G g s model now = order_with_preferred G g s model now []"

datatype select_error = ErrNoRoute

definition scheduler_select ::
    "'g gate \<Rightarrow> 'g \<Rightarrow> scheduler \<Rightarrow> resolved_model \<Rightarrow> go_time \<Rightarrow>
     ((select_error + route) \<times> scheduler) panicking" where
  "scheduler_select G g s model now =
     (case scheduler_order G g s model now of
        Panic \<Rightarrow> Panic
      | Returns ([], s') \<Rightarrow> Returns (Inl ErrNoRoute, s')
      | Returns (r # _, s') \<Rightarrow> Returns (Inr r, s'))"

definition scheduler_rank_routes :: "'g gate \<Rightarrow> 'g \<Rightarrow> route list \<Rightarrow> go_time \<Rightarrow> route list" where
  "scheduler_rank_routes G g routes now =
     (let available = available_routes G g routes now
      in case g_rank G of None \<Rightarrow> available | Some rank \<Rightarrow> rank g available now)"

definition scheduler_rank_routes_for ::
    "'g gate \<Rightarrow> 'g \<Rightarrow> route list \<Rightarrow> go_time \<Rightarrow> string \<Rightarrow> route list" where
  "scheduler_rank_routes_for G g routes now cls =
     (let available = available_routes G g routes now
      in case g_rank_for G of
           Some rank \<Rightarrow> rank g available now cls
         | None \<Rightarrow> scheduler_rank_routes G g available now)"

definition scheduler_rank_routes_for_session ::
    "'g gate \<Rightarrow> 'g \<Rightarrow> route list \<Rightarrow> go_time \<Rightarrow> string \<Rightarrow> string \<Rightarrow> route list \<times> 'g" where
  "scheduler_rank_routes_for_session G g routes now cls session =
     (let available = available_routes G g routes now
      in case g_rank_session G of
           Some rank \<Rightarrow> rank g available now cls session
         | None \<Rightarrow>
             (case g_rank_for G of
                Some rank \<Rightarrow> (rank g available now cls, g)
              | None \<Rightarrow> (scheduler_rank_routes G g available now, g)))"

definition scheduler_acquire :: "'g gate \<Rightarrow> 'g \<Rightarrow> route \<Rightarrow> go_time \<Rightarrow> bool \<times> 'g" where
  "scheduler_acquire G g r now = (case g_acquire G of None \<Rightarrow> (True, g) | Some acq \<Rightarrow> acq g r now)"

definition scheduler_release :: "'g gate \<Rightarrow> 'g \<Rightarrow> route \<Rightarrow> 'g" where
  "scheduler_release G g r = (case g_release G of None \<Rightarrow> g | Some rel \<Rightarrow> rel g r)"

section \<open>Orders are permutations\<close>

lemma promote_mset: "promote P xs = Some ys \<Longrightarrow> mset ys = mset xs"
proof -
  assume a: "promote P xs = Some ys"
  have "mset xs = mset (takeWhile (\<lambda>x. \<not> P x) xs) + mset (dropWhile (\<lambda>x. \<not> P x) xs)"
    by (metis mset_append takeWhile_dropWhile_id)
  with a show ?thesis by (auto simp: promote_def split: list.splits)
qed

lemma promote_hd: "promote P xs = Some ys \<Longrightarrow> ys \<noteq> [] \<and> P (hd ys)"
  by (auto simp: promote_def split: list.splits dest: dropWhile_eq_Cons_conv [THEN iffD1])

lemma promote_None: "promote P xs = None \<longleftrightarrow> (\<forall>x \<in> set xs. \<not> P x)"
proof (cases "dropWhile (\<lambda>x. \<not> P x) xs")
  case Nil
  have "promote P xs = None" unfolding promote_def Nil by simp
  moreover have "\<forall>x \<in> set xs. \<not> P x" using Nil by (simp add: dropWhile_eq_Nil_conv)
  ultimately show ?thesis by simp
next
  case (Cons y ys)
  then have "\<exists>x \<in> set xs. P x" by (metis dropWhile_eq_Nil_conv list.distinct(1))
  with Cons show ?thesis by (auto simp: promote_def)
qed

lemma cyclic_order_rotate: "cyclic_order xs k = rotate k xs"
  by (rule nth_equalityI) (simp_all add: cyclic_order_def nth_rotate)

lemma cyclic_order_mset [simp]: "mset (cyclic_order xs k) = mset xs"
proof -
  have "mset (rotate k xs) = mset (drop (k mod length xs) xs) + mset (take (k mod length xs) xs)"
    by (simp add: rotate_drop_take)
  also have "\<dots> = mset xs"
    by (metis append_take_drop_id mset_append union_commute)
  finally show ?thesis by (simp add: cyclic_order_rotate)
qed

lemma cyclic_order_set [simp]: "set (cyclic_order xs k) = set xs"
  by (simp add: cyclic_order_rotate)

lemma available_routes_iff [simp]:
  "r \<in> set (available_routes G g routes now) \<longleftrightarrow> r \<in> set routes \<and> rt_enabled r \<and> g_usable G g r now"
  by (auto simp: available_routes_def)

lemma order_cursor_mset: "order_cursor s model available = Returns (rs, s') \<Longrightarrow> mset rs = mset available"
  by (auto simp: order_cursor_def Let_def split: if_splits)

lemma set_map_filter: "set (List.map_filter f xs) = {y. \<exists>x \<in> set xs. f x = Some y}"
  by (force simp: List.map_filter_def)

lemma by_id_mem: "map_of (rev (map (\<lambda>r. (rt_id r, r)) rs)) i = Some r \<Longrightarrow> r \<in> set rs"
  by (drule map_of_SomeD) auto

lemma order_custom_set:
  assumes "order_custom s model available = Returns (rs, s')"
  shows "set rs \<subseteq> set available"
proof -
  define by_id where "by_id = map_of (rev (map (\<lambda>r. (rt_id r, r)) available))"
  have "set (List.map_filter (\<lambda>m. by_id (mr_id m)) planned) \<subseteq> set available" for planned
    by (auto simp: set_map_filter by_id_def dest: by_id_mem)
  with assms show ?thesis
    unfolding order_custom_def Let_def by_id_def [symmetric]
    by (auto split: panicking.splits prod.splits if_splits)
qed

lemma nat_go_rem_less: "0 < n \<Longrightarrow> nat (go_rem c (int n)) < n"
proof -
  assume "0 < n"
  then have "0 \<le> \<bar>c\<bar> mod int n" "\<bar>c\<bar> mod int n < int n" by simp_all
  moreover have "go_rem c (int n) \<le> \<bar>c\<bar> mod int n"
    using calculation by (simp add: go_rem_def sgn_if)
  ultimately show ?thesis using \<open>0 < n\<close> by linarith
qed

section \<open>What a ranking gate promises\<close>

text \<open>
  Rankers reorder: they neither drop nor invent a route. This is all the scheduler needs to know of
  its gate for the results below.
\<close>

locale ranking_gate =
  fixes G :: "'g gate" and inv :: "'g \<Rightarrow> bool"
  assumes rank_mset: "g_rank G = Some rank \<Longrightarrow> inv g \<Longrightarrow> mset (rank g rs now) = mset rs"
    and rank_for_mset: "g_rank_for G = Some rank_for \<Longrightarrow> inv g \<Longrightarrow> mset (rank_for g rs now cls) = mset rs"
    and rank_session_mset:
      "g_rank_session G = Some rank_session \<Longrightarrow> inv g \<Longrightarrow> mset (fst (rank_session g rs now cls sid)) = mset rs"
    and rank_session_inv:
      "g_rank_session G = Some rank_session \<Longrightarrow> inv g \<Longrightarrow> inv (snd (rank_session g rs now cls sid))"
begin

lemma ranked_available:
  "inv g \<Longrightarrow> mset (case g_rank G of None \<Rightarrow> rs | Some rank \<Rightarrow> rank g rs now) = mset rs"
  using rank_mset by (auto split: option.split)

text \<open>Every route of an order is an enabled candidate that the gate lets through.\<close>

lemma order_sound:
  assumes "inv g" and "order_with_preferred G g s model now preferred = Returns (rs, s')" and "r \<in> set rs"
  shows "r \<in> set (rm_candidates model) \<and> rt_enabled r \<and> g_usable G g r now"
proof -
  define avail where "avail = available_routes G g (rm_candidates model) now"
  define ranked where "ranked = (case g_rank G of None \<Rightarrow> avail | Some rank \<Rightarrow> rank g avail now)"
  have ranked: "set ranked = set avail"
    using ranked_available [OF assms(1)] by (metis ranked_def mset_eq_setD)
  have pick: "ranked ! nat (go_rem c (int (length ranked))) \<in> set avail" if "ranked \<noteq> []" for c
    using nat_go_rem_less [of "length ranked" c] that ranked nth_mem by (metis length_greater_0_conv)
  have "set rs \<subseteq> set avail"
  proof (cases "if preferred = [] then None else promote (\<lambda>r. rt_credential_id r = preferred) avail")
    case None
    with assms(2) have "(if \<not> is_builtin_strategy (rm_strategy model) \<and> has_strategy s (rm_strategy model)
        then order_custom s model ranked
        else if ranked = [] \<or> rm_strategy model = StrategyFallback then Returns (ranked, s)
        else if rm_strategy model = StrategyRoundRobin
        then order_single s model ranked
        else if length ranked < 2 then Returns (ranked, s)
        else order_cursor s model ranked) = Returns (rs, s')"
      by (simp add: order_with_preferred_def Let_def flip: avail_def ranked_def)
    then show ?thesis
      using ranked pick
      by (auto simp: order_single_def Let_def split: if_splits
          dest!: order_cursor_mset mset_eq_setD dest: order_custom_set)
  next
    case (Some promoted)
    with assms(2) have "rs = promoted"
      by (simp add: order_with_preferred_def Let_def flip: avail_def)
    with Some show ?thesis by (auto split: if_splits dest!: promote_mset mset_eq_setD)
  qed
  with assms(3) show ?thesis by (auto simp: avail_def)
qed

text \<open>A strategy that keeps fallbacks orders every available route exactly once.\<close>

lemma order_complete:
  assumes "inv g" and "order_with_preferred G g s model now preferred = Returns (rs, s')"
    and "is_builtin_strategy (rm_strategy model)" and "rm_strategy model \<noteq> StrategyRoundRobin"
  shows "mset rs = mset (available_routes G g (rm_candidates model) now)"
  using assms ranked_available [OF assms(1)]
  by (auto simp: order_with_preferred_def Let_def split: option.splits if_splits
      dest!: promote_mset order_cursor_mset)

text \<open>Ranking for a session reorders the routes that are open.\<close>

lemma rank_session_available:
  assumes "inv g" and "scheduler_rank_routes_for_session G g routes now cls sid = (rs, g')"
  shows "mset rs = mset (available_routes G g routes now) \<and> inv g'"
proof -
  have idem: "available_routes G g (available_routes G g routes now) now = available_routes G g routes now"
    by (simp add: available_routes_def)
  show ?thesis
  proof (cases "g_rank_session G")
    case (Some f)
    with assms(2) have "rs = fst (f g (available_routes G g routes now) now cls sid)"
      "g' = snd (f g (available_routes G g routes now) now cls sid)"
      by (simp_all add: scheduler_rank_routes_for_session_def Let_def)
    with Some assms(1) show ?thesis
      using rank_session_mset rank_session_inv by metis
  next
    case None
    show ?thesis
    proof (cases "g_rank_for G")
      case None' : None
      with None assms(2) have "rs = scheduler_rank_routes G g (available_routes G g routes now) now" "g' = g"
        by (auto simp: scheduler_rank_routes_for_session_def Let_def)
      with assms(1) ranked_available [OF assms(1)] show ?thesis
        by (simp add: scheduler_rank_routes_def idem Let_def)
    next
      case (Some f)
      with None assms(2) have "rs = f g (available_routes G g routes now) now cls" "g' = g"
        by (auto simp: scheduler_rank_routes_for_session_def Let_def)
      with Some assms(1) show ?thesis using rank_for_mset by simp
    qed
  qed
qed

end

interpretation open_gate: ranking_gate always_open_gate "\<lambda>_. True"
  by unfold_locales (simp_all add: always_open_gate_def)

text \<open>A preferred connection that is available comes first.\<close>

lemma order_preferred_first:
  assumes "preferred \<noteq> []"
    and "r \<in> set (available_routes G g (rm_candidates model) now)" and "rt_credential_id r = preferred"
  shows "\<exists>rs. order_with_preferred G g s model now preferred = Returns (rs, s) \<and> rs \<noteq> [] \<and>
            rt_credential_id (hd rs) = preferred \<and>
            mset rs = mset (available_routes G g (rm_candidates model) now)"
proof -
  obtain rs where rs: "promote (\<lambda>r. rt_credential_id r = preferred)
      (available_routes G g (rm_candidates model) now) = Some rs"
    using assms(2,3) promote_None [of "\<lambda>r. rt_credential_id r = preferred"
        "available_routes G g (rm_candidates model) now"] by blast
  then have "order_with_preferred G g s model now preferred = Returns (rs, s)"
    using assms(1) by (simp add: order_with_preferred_def Let_def)
  with promote_mset [OF rs] promote_hd [OF rs] show ?thesis by blast
qed

section \<open>The scheduler's invariant\<close>

text \<open>
  Every cursor the scheduler stores is a nonnegative machine integer, and every node's state is one
  its strategy can continue from.
\<close>

definition scheduler_ok :: "scheduler \<Rightarrow> bool" where
  "scheduler_ok s \<longleftrightarrow>
     (\<forall>k c. gm_get (sch_cursors s) k = Some c \<longrightarrow> 0 \<le> c) \<and>
     (\<forall>k st. gm_get (sch_sticky s) k = Some st \<longrightarrow>
        0 \<le> sk_index st \<and> 0 \<le> sk_count st \<and> sk_count st < max_i64) \<and>
     (\<forall>k st. gm_get (sch_model_state s) k = Some st \<longrightarrow> state_ok st)"

lemma scheduler_ok_new [simp]: "scheduler_ok new_scheduler"
  by (simp add: scheduler_ok_def new_scheduler_def)

lemma zero_strategy_state_ok [simp]: "state_ok zero_strategy_state"
  by (simp add: state_ok_def zero_strategy_state_def max_i64_def)

lemma scheduler_ok_cursor: "scheduler_ok s \<Longrightarrow> 0 \<le> gm_or (sch_cursors s) k 0"
  by (auto simp: scheduler_ok_def gm_or_def split: option.split)

lemma scheduler_ok_state: "scheduler_ok s \<Longrightarrow> state_ok (gm_or (sch_model_state s) k zero_strategy_state)"
  by (auto simp: scheduler_ok_def gm_or_def split: option.split)

text \<open>The table a new scheduler starts with, evaluated.\<close>

lemma builtin_table:
  "gm_get (sch_strategies new_scheduler) st =
     (case st of
        StrategyFallback \<Rightarrow> Some (builtin_primitive (returning ordered_fallback_plan))
      | StrategyRotatingFallback \<Rightarrow> Some (builtin_primitive (returning rotating_fallback_plan))
      | StrategyRoundRobin \<Rightarrow> Some (builtin_primitive (returning round_robin_plan))
      | StrategyRoundRobinFallback \<Rightarrow> Some (builtin_primitive (returning sticky_round_robin_plan))
      | StrategyWeighted \<Rightarrow> Some (builtin_primitive weighted_fallback_plan)
      | _ \<Rightarrow> None)"
  by (cases st) (simp_all add: new_scheduler_def builtin_strategy_definitions_def gomap_simps)

text \<open>The primitive a node gets: its own strategy's, or ordered fallback's for an unknown one.\<close>

definition node_plan :: "strategy \<Rightarrow> member_ref list \<Rightarrow> strategy_state \<Rightarrow> (member_ref list \<times> strategy_state) panicking" where
  "node_plan st =
     (case st of
        StrategyRotatingFallback \<Rightarrow> returning rotating_fallback_plan
      | StrategyRoundRobin \<Rightarrow> returning round_robin_plan
      | StrategyRoundRobinFallback \<Rightarrow> returning sticky_round_robin_plan
      | StrategyWeighted \<Rightarrow> weighted_fallback_plan
      | _ \<Rightarrow> returning ordered_fallback_plan)"

lemma node_plan_primitive: "strategy_primitive (node_plan st)"
  by (cases st)
     (simp_all add: node_plan_def ordered.strategy_primitive_axioms round_robin.strategy_primitive_axioms
        rotating.strategy_primitive_axioms sticky.strategy_primitive_axioms weighted.strategy_primitive_axioms)

lemma node_plan_fallback: "st \<noteq> StrategyRoundRobin \<Longrightarrow> fallback_strategy (node_plan st)"
  by (cases st)
     (simp_all add: node_plan_def ordered.fallback_strategy_axioms rotating.fallback_strategy_axioms
        sticky.fallback_strategy_axioms weighted.fallback_strategy_axioms)

lemma scheduler_plan_builtin_eq:
  assumes "sch_strategies s = sch_strategies new_scheduler"
  shows "scheduler_plan s node =
    (let key = strategy_state_key (mn_id node) (mn_strategy_ref node);
         st = (gm_or (sch_model_state s) key zero_strategy_state)
                \<lparr>ss_sticky_limit := (if mn_sticky_limit node < 1 then 1 else mn_sticky_limit node),
                 ss_config := mn_strategy_config node\<rparr>
     in case node_plan (mn_strategy node) (mn_members node) st of
          Panic \<Rightarrow> Panic
        | Returns (planned, st2) \<Rightarrow>
            Returns (planned, s\<lparr>sch_model_state := gm_put key st2 (sch_model_state s)\<rparr>))"
  by (simp add: scheduler_plan_def scheduler_strategy_state_def Let_def assms builtin_table
      builtin_primitive_def node_plan_def split: strategy.split)


definition example_node :: model_node where
  "example_node = zero_node\<lparr>mn_id := ''m'', mn_strategy := StrategyWeighted, mn_members := example_members\<rparr>"


text \<open>
  The cursor of \<open>OrderWithPreferred\<close> runs through the indices of the available routes, also for
  weighted routes, where it stands for a slot of the virtual ring. Slots from the number of routes on
  are never reached, so a first route whose weight covers that number is always chosen.
\<close>

lemma order_cursor_weighted:
  assumes "scheduler_ok s" and "rm_strategy model = StrategyWeighted" and "2 \<le> length available"
    and "ring_size (map rt_weight available) \<le> max_i64"
  defines "key \<equiv> strategy_state_key (rm_public_name model) (rm_strategy_ref model)"
  defines "start \<equiv> gm_or (sch_cursors s) key 0 mod int (length available)"
  shows "order_cursor s model available =
    Returns (cyclic_order available (pick_weighted 0 start (map rt_weight available)),
             s\<lparr>sch_cursors := gm_put key ((start + 1) mod int (length available)) (sch_cursors s)\<rparr>)"
proof -
  let ?n = "int (length available)"
  have c: "0 \<le> gm_or (sch_cursors s) key 0" by (rule scheduler_ok_cursor [OF assms(1)])
  have n: "0 < ?n" using assms(3) by linarith
  have start: "0 \<le> start" "start < ?n" "go_rem (gm_or (sch_cursors s) key 0) ?n = start"
    using c n by (simp_all only: start_def go_rem_nonneg pos_mod_sign pos_mod_bound)
  have tw: "total_weight 0 (map rt_weight available) = ring_size (map rt_weight available)"
    using total_weight_ring [of 0 "map rt_weight available"] assms(4) by simp
  have "?n \<le> ring_size (map rt_weight available)"
    using length_le_ring_size [of "map rt_weight available"] by simp
  with start n have "go_rem start (ring_size (map rt_weight available)) = start"
    "ring_size (map rt_weight available) \<noteq> 0" "go_rem (start + 1) ?n = (start + 1) mod ?n" by simp_all
  with start tw assms(2) show ?thesis
    by (simp add: order_cursor_def Let_def flip: key_def)
qed

lemma order_cursor_weighted_ok:
  assumes "scheduler_ok s" and "rm_strategy model = StrategyWeighted" and "2 \<le> length available"
    and "ring_size (map rt_weight available) \<le> max_i64" and "order_cursor s model available = Returns (rs, s')"
  shows "scheduler_ok s'"
proof -
  have "0 \<le> (x + 1) mod int (length available)" for x
    using assms(3) by (intro pos_mod_sign) linarith
  with assms show ?thesis
    by (auto simp: order_cursor_weighted scheduler_ok_def gomap_simps split: if_splits)
qed

text \<open>
  Selecting from weighted routes in a row: when the first available route's weight is at least
  the number of available routes, every selection returns it, whatever the weights of the others.
\<close>

theorem select_weighted_starves:
  assumes "scheduler_ok s" and "rm_strategy model = StrategyWeighted" and "g_rank G = None"
    and "available_routes G g (rm_candidates model) now = r # rs" and "rs \<noteq> []"
    and "int (length (r # rs)) \<le> rt_weight r" and "ring_size (map rt_weight (r # rs)) \<le> max_i64"
  shows "\<exists>s'. scheduler_select G g s model now = Returns (Inr r, s') \<and> scheduler_ok s'"
proof -
  have two: "2 \<le> length (r # rs)" using assms(5) by (cases rs) auto
  define key where "key = strategy_state_key (rm_public_name model) (rm_strategy_ref model)"
  define start where "start = gm_or (sch_cursors s) key 0 mod int (length (r # rs))"
  have "start < rt_weight r"
    unfolding start_def by (rule order_less_le_trans [OF pos_mod_bound assms(6)]) simp
  then have pick: "pick_weighted 0 start (map rt_weight (r # rs)) = 0"
    by (simp add: effective_weight_def)
  obtain s' where s': "order_cursor s model (r # rs) = Returns (r # rs, s')"
    using order_cursor_weighted [OF assms(1,2) two assms(7), folded key_def, folded start_def]
    unfolding pick by (simp add: cyclic_order_rotate)
  have "scheduler_order G g s model now = Returns (r # rs, s')"
    using s' two assms(2,3,4)
    by (auto simp: scheduler_order_def order_with_preferred_def Let_def is_builtin_strategy_def assms(5))
  then show ?thesis
    using order_cursor_weighted_ok [OF assms(1,2) two assms(7) s'] by (simp add: scheduler_select_def)
qed

definition example_weighted_model :: resolved_model where
  "example_weighted_model =
     \<lparr>rm_public_name = ''m'', rm_target_ref = ''m'', rm_strategy = StrategyWeighted,
      rm_strategy_ref = no_ref, rm_strategy_config = [], rm_sticky_limit = 1,
      rm_candidates = [zero_route\<lparr>rt_id := ''a'', rt_enabled := True, rt_weight := 2\<rparr>,
                       zero_route\<lparr>rt_id := ''b'', rt_enabled := True, rt_weight := 3\<rparr>]\<rparr>"

lemma select_weighted_starves_witness:
  "\<exists>s'. scheduler_select always_open_gate () new_scheduler example_weighted_model 0 =
          Returns (Inr (zero_route\<lparr>rt_id := ''a'', rt_enabled := True, rt_weight := 2\<rparr>), s') \<and>
        scheduler_ok s'"
  by (rule select_weighted_starves
        [where rs = "[zero_route\<lparr>rt_id := ''b'', rt_enabled := True, rt_weight := 3\<rparr>]"])
     (simp_all add: example_weighted_model_def always_open_gate_def available_routes_def ring_size_def
        effective_weight_def max_i64_def zero_route_def)

end
