(* ===== verification/Json.thy ===== *)
theory Json
  imports Prelude
begin

text \<open>
  \<open>json.Valid\<close> of Go's standard library, which the program calls on raw JSON values: the byte
  automaton of \<open>encoding/json\<close>'s scanner, with its stack of open objects and arrays and its bound
  of 10000 on their nesting. Bytes of a string are not decoded: any byte from 0x20 on is accepted.
\<close>

datatype json_context = ObjectKey | ObjectValue | ArrayValue

datatype json_state =
    BeginValue
  | BeginValueOrEmpty
  | BeginStringOrEmpty
  | BeginString
  | InString
  | InEscape
  | InHex nat
  | AfterMinus
  | AfterZero
  | InInteger
  | AfterDot
  | InFraction
  | AfterE
  | AfterESign
  | InExponent
  | InLiteral string
  | EndValue
  | EndTop

type_synonym json_scan = "json_state \<times> json_context list"

definition json_space :: "char \<Rightarrow> bool" where
  "json_space c \<longleftrightarrow> c \<in> set [CHR 0x20, CHR 0x09, CHR 0x0D, CHR 0x0A]"

definition json_digit :: "char \<Rightarrow> bool" where
  "json_digit c \<longleftrightarrow> 48 \<le> (of_char c :: nat) \<and> (of_char c :: nat) \<le> 57"

definition json_hex :: "char \<Rightarrow> bool" where
  "json_hex c \<longleftrightarrow> json_digit c \<or> c \<in> set ''abcdefABCDEF''"

definition max_nesting :: nat where
  "max_nesting = 10000"

definition json_push :: "json_context \<Rightarrow> json_state \<Rightarrow> json_context list \<Rightarrow> json_scan option" where
  "json_push k st stack = (if length stack < max_nesting then Some (st, k # stack) else None)"

definition json_pop :: "json_context list \<Rightarrow> json_scan" where
  "json_pop stack = (if tl stack = [] then EndTop else EndValue, tl stack)"

definition begin_value :: "char \<Rightarrow> json_context list \<Rightarrow> json_scan option" where
  "begin_value c stack =
     (if c = CHR ''{'' then json_push ObjectKey BeginStringOrEmpty stack
      else if c = CHR ''['' then json_push ArrayValue BeginValueOrEmpty stack
      else if c = CHR 0x22 then Some (InString, stack)
      else if c = CHR ''-'' then Some (AfterMinus, stack)
      else if c = CHR ''0'' then Some (AfterZero, stack)
      else if c = CHR ''t'' then Some (InLiteral ''rue'', stack)
      else if c = CHR ''f'' then Some (InLiteral ''alse'', stack)
      else if c = CHR ''n'' then Some (InLiteral ''ull'', stack)
      else if json_digit c then Some (InInteger, stack)
      else None)"

definition end_value :: "char \<Rightarrow> json_context list \<Rightarrow> json_scan option" where
  "end_value c stack =
     (case stack of
        [] \<Rightarrow> if json_space c then Some (EndTop, []) else None
      | k # rest \<Rightarrow>
          if json_space c then Some (EndValue, stack)
          else case k of
            ObjectKey \<Rightarrow> if c = CHR '':'' then Some (BeginValue, ObjectValue # rest) else None
          | ObjectValue \<Rightarrow>
              if c = CHR '','' then Some (BeginString, ObjectKey # rest)
              else if c = CHR ''}'' then Some (json_pop stack) else None
          | ArrayValue \<Rightarrow>
              if c = CHR '','' then Some (BeginValue, stack)
              else if c = CHR '']'' then Some (json_pop stack) else None)"

definition begin_string :: "char \<Rightarrow> json_context list \<Rightarrow> json_scan option" where
  "begin_string c stack = (if c = CHR 0x22 then Some (InString, stack) else None)"

definition after_fraction :: "char \<Rightarrow> json_context list \<Rightarrow> json_scan option" where
  "after_fraction c stack =
     (if c \<in> set ''eE'' then Some (AfterE, stack) else end_value c stack)"

definition after_integer :: "char \<Rightarrow> json_context list \<Rightarrow> json_scan option" where
  "after_integer c stack =
     (if c = CHR ''.'' then Some (AfterDot, stack) else after_fraction c stack)"

fun json_step :: "char \<Rightarrow> json_scan \<Rightarrow> json_scan option" where
  "json_step c (BeginValue, stack) =
     (if json_space c then Some (BeginValue, stack) else begin_value c stack)"
| "json_step c (BeginValueOrEmpty, stack) =
     (if json_space c then Some (BeginValueOrEmpty, stack)
      else if c = CHR '']'' then end_value c stack else begin_value c stack)"
| "json_step c (BeginStringOrEmpty, stack) =
     (if json_space c then Some (BeginStringOrEmpty, stack)
      else if c = CHR ''}'' then end_value c (ObjectValue # tl stack) else begin_string c stack)"
| "json_step c (BeginString, stack) =
     (if json_space c then Some (BeginString, stack) else begin_string c stack)"
| "json_step c (InString, stack) =
     (if c = CHR 0x22 then Some (EndValue, stack)
      else if c = CHR 0x5C then Some (InEscape, stack)
      else if (of_char c :: nat) < 32 then None else Some (InString, stack))"
| "json_step c (InEscape, stack) =
     (if c \<in> set ''bfnrt/'' \<or> c = CHR 0x5C \<or> c = CHR 0x22 then Some (InString, stack)
      else if c = CHR ''u'' then Some (InHex 3, stack) else None)"
| "json_step c (InHex n, stack) =
     (if json_hex c then Some (case n of 0 \<Rightarrow> InString | Suc k \<Rightarrow> InHex k, stack) else None)"
| "json_step c (AfterMinus, stack) =
     (if c = CHR ''0'' then Some (AfterZero, stack)
      else if json_digit c then Some (InInteger, stack) else None)"
| "json_step c (AfterZero, stack) = after_integer c stack"
| "json_step c (InInteger, stack) =
     (if json_digit c then Some (InInteger, stack) else after_integer c stack)"
| "json_step c (AfterDot, stack) = (if json_digit c then Some (InFraction, stack) else None)"
| "json_step c (InFraction, stack) =
     (if json_digit c then Some (InFraction, stack) else after_fraction c stack)"
| "json_step c (AfterE, stack) =
     (if c \<in> set ''+-'' then Some (AfterESign, stack)
      else if json_digit c then Some (InExponent, stack) else None)"
| "json_step c (AfterESign, stack) = (if json_digit c then Some (InExponent, stack) else None)"
| "json_step c (InExponent, stack) =
     (if json_digit c then Some (InExponent, stack) else end_value c stack)"
| "json_step c (InLiteral rest, stack) =
     (case rest of
        [] \<Rightarrow> None
      | d # ds \<Rightarrow> if c = d then Some (if ds = [] then EndValue else InLiteral ds, stack) else None)"
| "json_step c (EndValue, stack) = end_value c stack"
| "json_step c (EndTop, stack) = (if json_space c then Some (EndTop, stack) else None)"

fun json_scan_all :: "string \<Rightarrow> json_scan \<Rightarrow> json_scan option" where
  "json_scan_all [] s = Some s"
| "json_scan_all (c # cs) s =
     (case json_step c s of None \<Rightarrow> None | Some s' \<Rightarrow> json_scan_all cs s')"

text \<open>At the end of the input the scanner is fed one space and must stand after a complete value.\<close>

definition json_valid :: "string \<Rightarrow> bool" where
  "json_valid s =
     (case json_scan_all s (BeginValue, []) of
        None \<Rightarrow> False
      | Some sc \<Rightarrow> (case json_step (CHR 0x20) sc of Some (EndTop, _) \<Rightarrow> True | _ \<Rightarrow> False))"

lemma json_valid_examples:
  "json_valid ''{}''" "json_valid '' [1, -2.5e+3, true, null]''" "json_valid ''0''"
  "\<not> json_valid ''''" "\<not> json_valid ''[1,]''" "\<not> json_valid ''{} x''" "\<not> json_valid ''01''"
  by code_simp+

end
