(* ===== verification/Transforms.thy ===== *)
theory Transforms
  imports Contract Json "HOL-Library.Multiset" "HOL-Library.Product_Lexorder"
begin

text \<open>
  Transform bindings (\<open>internal/kernel/transform_registry.go\<close>): the declarative records that attach a
  request or response transform to a scope, their validation, the order in which the bindings of one
  request apply, and the rule that decides whether a failed transform may be skipped.
\<close>

section \<open>Bindings\<close>

datatype transform_scope_kind =
    TransformScopeDaemon
  | TransformScopeModel
  | TransformScopeRoute
  | TransformScopeProvider
  | TransformScopeConnection
  | TransformScopeOther string

datatype transform_failure_mode =
  TransformModeUnset | TransformFailClosed | TransformSafeFailOpen | TransformModeOther string

datatype transform_failure_reason =
    TransformFailureApply
  | TransformFailureEffect
  | TransformFailureBudget
  | TransformFailureDeadline

record transform_scope =
  ts_kind :: transform_scope_kind
  ts_id :: string

record transform_binding =
  tb_id :: string
  tb_ref :: ext_ref
  tb_enabled :: bool
  tb_scope :: transform_scope
  tb_order :: int
  tb_failure_mode :: transform_failure_mode
  tb_options :: string

record transform_failure =
  tf_binding_id :: string
  tf_ref :: ext_ref
  tf_scope :: transform_scope
  tf_mode :: transform_failure_mode
  tf_reason :: transform_failure_reason

definition request_transform_kind :: string where
  "request_transform_kind = ''request_transform''"

definition response_transform_kind :: string where
  "response_transform_kind = ''response_transform''"

definition effective_failure_mode :: "transform_failure_mode \<Rightarrow> transform_failure_mode" where
  "effective_failure_mode m = (if m = TransformModeUnset then TransformFailClosed else m)"

datatype binding_error =
    BindingIDRequired
  | BindingRef ref_error
  | BindingInvalidKind
  | BindingOptionsNotJSON
  | BindingUnsupportedMode
  | BindingModeNotAllowed
  | BindingDaemonScopeHasID
  | BindingScopeNeedsID
  | BindingUnsupportedScope
  | BindingDuplicateID
  | BindingWrongKind
  | BindingMissingImplementation

definition validate_transform_binding :: "transform_binding \<Rightarrow> binding_error option" where
  "validate_transform_binding b =
     (if tb_id b = [] then Some BindingIDRequired
      else case ref_validate (tb_ref b) of
        Some e \<Rightarrow> Some (BindingRef e)
      | None \<Rightarrow>
          if ref_kind (tb_ref b) \<noteq> request_transform_kind \<and> ref_kind (tb_ref b) \<noteq> response_transform_kind
          then Some BindingInvalidKind
          else if tb_options b \<noteq> [] \<and> \<not> json_valid (tb_options b) then Some BindingOptionsNotJSON
          else if effective_failure_mode (tb_failure_mode b) \<noteq> TransformFailClosed \<and>
                  effective_failure_mode (tb_failure_mode b) \<noteq> TransformSafeFailOpen
          then Some BindingUnsupportedMode
          else case ts_kind (tb_scope b) of
            TransformScopeDaemon \<Rightarrow> if ts_id (tb_scope b) \<noteq> [] then Some BindingDaemonScopeHasID else None
          | TransformScopeOther _ \<Rightarrow> Some BindingUnsupportedScope
          | _ \<Rightarrow> if ts_id (tb_scope b) = [] then Some BindingScopeNeedsID else None)"

definition validate_binding_failure_mode ::
    "transform_binding \<Rightarrow> transform_failure_mode list \<Rightarrow> binding_error option" where
  "validate_binding_failure_mode b allowed =
     (let mode = effective_failure_mode (tb_failure_mode b)
      in if mode \<noteq> TransformFailClosed \<and> mode \<noteq> TransformSafeFailOpen then Some BindingUnsupportedMode
         else if mode = TransformSafeFailOpen \<and> TransformSafeFailOpen \<notin> set allowed
         then Some BindingModeNotAllowed
         else None)"

fun validate_registry_bindings ::
    "string list \<Rightarrow> (ext_ref \<Rightarrow> bool) \<Rightarrow> transform_binding list \<Rightarrow> string \<Rightarrow> binding_error option" where
  "validate_registry_bindings seen registered [] expected = None"
| "validate_registry_bindings seen registered (b # bs) expected =
     (case validate_transform_binding b of
        Some e \<Rightarrow> Some e
      | None \<Rightarrow>
          if tb_id b \<in> set seen then Some BindingDuplicateID
          else if ref_kind (tb_ref b) \<noteq> expected then Some BindingWrongKind
          else if \<not> registered (tb_ref b) then Some BindingMissingImplementation
          else validate_registry_bindings (tb_id b # seen) registered bs expected)"

section \<open>The order of the bindings of a request\<close>

text \<open>The last of equal scopes gives the rank, as the map of the code is overwritten.\<close>

definition scope_rank :: "transform_scope list \<Rightarrow> transform_scope \<Rightarrow> nat option" where
  "scope_rank scopes s = map_of (rev (zip scopes [0..<length scopes])) s"

fun select_bindings ::
    "string list \<Rightarrow> transform_scope list \<Rightarrow> string \<Rightarrow> transform_binding list \<Rightarrow> (nat \<times> transform_binding) list" where
  "select_bindings seen scopes kind [] = []"
| "select_bindings seen scopes kind (b # bs) =
     (if \<not> tb_enabled b \<or> ref_kind (tb_ref b) \<noteq> kind then select_bindings seen scopes kind bs
      else if tb_id b \<in> set seen then select_bindings seen scopes kind bs
      else case scope_rank scopes (tb_scope b) of
             Some rank \<Rightarrow> (rank, b) # select_bindings (tb_id b # seen) scopes kind bs
           | None \<Rightarrow> select_bindings (tb_id b # seen) scopes kind bs)"

definition binding_key :: "nat \<times> transform_binding \<Rightarrow> nat \<times> int \<times> string" where
  "binding_key p = (fst p, tb_order (snd p), tb_id (snd p))"

definition ordered_bindings ::
    "transform_binding list \<Rightarrow> transform_scope list \<Rightarrow> string \<Rightarrow> transform_binding list" where
  "ordered_bindings bs scopes kind = map snd (sort_key binding_key (select_bindings [] scopes kind bs))"

definition transforms_active :: "transform_binding list \<Rightarrow> transform_scope list \<Rightarrow> string \<Rightarrow> bool" where
  "transforms_active bs scopes kind \<longleftrightarrow> ordered_bindings bs scopes kind \<noteq> []"

section \<open>Skipping a failed transform\<close>

text \<open>What the code reads of its \<open>context.Context\<close>: its error and the mark set once output has started.\<close>

record transform_context =
  tc_err :: "string option"
  tc_output_started :: bool

definition fail_open_transform ::
    "transform_context option \<Rightarrow> transform_binding \<Rightarrow> transform_failure_mode list \<Rightarrow> bool \<Rightarrow> bool" where
  "fail_open_transform ctx b allowed response =
     (case ctx of
        None \<Rightarrow> False
      | Some c \<Rightarrow>
          if effective_failure_mode (tb_failure_mode b) \<noteq> TransformSafeFailOpen \<or>
             TransformSafeFailOpen \<notin> set allowed \<or> tc_err c \<noteq> None
          then False
          else \<not> response \<or> \<not> tc_output_started c)"

definition mk_transform_failure ::
    "transform_binding \<Rightarrow> ext_ref \<Rightarrow> transform_failure_reason \<Rightarrow> transform_failure" where
  "mk_transform_failure b ref reason =
     \<lparr>tf_binding_id = tb_id b, tf_ref = ref, tf_scope = tb_scope b,
      tf_mode = effective_failure_mode (tb_failure_mode b), tf_reason = reason\<rparr>"

section \<open>Properties of the order\<close>

lemma select_bindings_ids:
  "distinct (map (tb_id \<circ> snd) (select_bindings seen scopes kind bs)) \<and>
   set (map (tb_id \<circ> snd) (select_bindings seen scopes kind bs)) \<inter> set seen = {}"
proof (induction bs arbitrary: seen)
  case (Cons b bs)
  show ?case using Cons.IH [of seen] Cons.IH [of "tb_id b # seen"]
    by (auto split: option.split)
qed simp

lemma select_bindings_sound:
  "(rank, b) \<in> set (select_bindings seen scopes kind bs) \<Longrightarrow>
   b \<in> set bs \<and> tb_enabled b \<and> ref_kind (tb_ref b) = kind \<and> scope_rank scopes (tb_scope b) = Some rank"
  by (induction bs arbitrary: seen) (auto split: if_splits option.splits)

text \<open>With distinct IDs the selection is a filter, so its content does not depend on the order.\<close>

lemma select_bindings_distinct:
  "distinct (map tb_id bs) \<Longrightarrow> set (map tb_id bs) \<inter> set seen = {} \<Longrightarrow>
   select_bindings seen scopes kind bs =
     List.map_filter
       (\<lambda>b. if tb_enabled b \<and> ref_kind (tb_ref b) = kind
            then map_option (\<lambda>rank. (rank, b)) (scope_rank scopes (tb_scope b)) else None) bs"
proof (induction bs arbitrary: seen)
  case (Cons b bs)
  then show ?case
    by (auto simp: List.map_filter_simps split: option.split)
qed (simp add: List.map_filter_simps)

lemma mset_map_filter: "mset xs = mset ys \<Longrightarrow> mset (List.map_filter f xs) = mset (List.map_filter f ys)"
proof -
  assume "mset xs = mset ys"
  then have "mset (filter P xs) = mset (filter P ys)" for P by simp
  then show ?thesis by (simp add: List.map_filter_def)
qed

text \<open>A list whose keys differ has one sorted arrangement.\<close>

lemma sort_key_unique:
  assumes "mset xs = mset ys" and "inj_on f (set xs)"
  shows "sort_key f xs = sort_key f ys"
proof (rule properties_for_sort_key [symmetric])
  show "mset (sort_key f xs) = mset ys" using assms(1) by simp
  show "sorted (map f (sort_key f xs))" by simp
next
  fix k
  assume "k \<in> set (sort_key f xs)"
  have len: "length (filter (\<lambda>x. f k = f x) (sort_key f xs)) = length (filter (\<lambda>x. f k = f x) ys)"
    using assms(1) by (metis mset_filter mset_sort size_mset)
  have "\<forall>x \<in> set (filter (\<lambda>x. f k = f x) (sort_key f xs)). x = k"
    "\<forall>x \<in> set (filter (\<lambda>x. f k = f x) ys). x = k"
    using assms \<open>k \<in> set (sort_key f xs)\<close> by (auto simp: inj_on_def dest: mset_eq_setD)
  then have "filter (\<lambda>x. f k = f x) (sort_key f xs) = replicate (length (filter (\<lambda>x. f k = f x) ys)) k"
    "filter (\<lambda>x. f k = f x) ys = replicate (length (filter (\<lambda>x. f k = f x) ys)) k"
    using len by (metis replicate_length_same)+
  then show "filter (\<lambda>x. f k = f x) (sort_key f xs) = filter (\<lambda>x. f k = f x) ys"
    by simp
qed

text \<open>
  The order in which the transforms of a request apply is sorted by scope rank, order and ID, has
  each binding ID at most once, holds only enabled bindings of the kind asked for whose scope is one
  of the request's, and does not depend on the order in which distinct bindings are configured.
\<close>

theorem ordered_bindings_deterministic:
  assumes "mset bs = mset cs" and "distinct (map tb_id bs)"
  shows "ordered_bindings bs scopes kind = ordered_bindings cs scopes kind \<and>
         distinct (map tb_id (ordered_bindings bs scopes kind)) \<and>
         set (ordered_bindings bs scopes kind) =
           {b \<in> set bs. tb_enabled b \<and> ref_kind (tb_ref b) = kind \<and> scope_rank scopes (tb_scope b) \<noteq> None} \<and>
         sorted (map (\<lambda>b. (the (scope_rank scopes (tb_scope b)), tb_order b, tb_id b))
                   (ordered_bindings bs scopes kind))"
proof -
  let ?f = "\<lambda>b. if tb_enabled b \<and> ref_kind (tb_ref b) = kind
      then map_option (\<lambda>rank. (rank, b)) (scope_rank scopes (tb_scope b)) else None"
  let ?sel = "select_bindings [] scopes kind bs"
  let ?ord = "sort_key binding_key ?sel"
  have distinct': "distinct (map tb_id cs)"
    using assms by (metis mset_eq_imp_distinct_iff mset_map)
  have sel: "?sel = List.map_filter ?f bs" "select_bindings [] scopes kind cs = List.map_filter ?f cs"
    using select_bindings_distinct [of bs "[]"] select_bindings_distinct [of cs "[]"] assms(2) distinct'
    by simp_all
  have ids: "distinct (map (tb_id \<circ> snd) ?sel)"
    using select_bindings_ids [of "[]" scopes kind bs] by blast
  then have inj: "inj_on binding_key (set ?sel)"
    by (auto simp: inj_on_def binding_key_def distinct_map)
  have rank: "scope_rank scopes (tb_scope (snd p)) = Some (fst p)" if "p \<in> set ?sel" for p
    using select_bindings_sound [of "fst p" "snd p"] that by simp
  have "ordered_bindings bs scopes kind = ordered_bindings cs scopes kind"
    using sort_key_unique [OF _ inj, of "List.map_filter ?f cs"] mset_map_filter [OF assms(1), of ?f] sel
    by (simp add: ordered_bindings_def)
  moreover have "distinct (map tb_id (ordered_bindings bs scopes kind))"
    using ids by (simp add: ordered_bindings_def distinct_map comp_def inj_on_def)
  moreover have "set (ordered_bindings bs scopes kind) =
      {b \<in> set bs. tb_enabled b \<and> ref_kind (tb_ref b) = kind \<and> scope_rank scopes (tb_scope b) \<noteq> None}"
    unfolding ordered_bindings_def sel(1) by (force simp: List.map_filter_def split: if_splits)
  moreover have "map (\<lambda>b. (the (scope_rank scopes (tb_scope b)), tb_order b, tb_id b))
      (ordered_bindings bs scopes kind) = map binding_key ?ord"
    using rank by (simp add: ordered_bindings_def binding_key_def)
  ultimately show ?thesis by simp
qed

definition example_binding :: "string \<Rightarrow> transform_scope_kind \<Rightarrow> int \<Rightarrow> transform_binding" where
  "example_binding i k n =
     \<lparr>tb_id = i, tb_ref = mk_ref request_transform_kind ''t'' 1, tb_enabled = True,
      tb_scope = \<lparr>ts_kind = k, ts_id = []\<rparr>, tb_order = n, tb_failure_mode = TransformModeUnset,
      tb_options = []\<rparr>"

lemma ordered_bindings_deterministic_witness:
  "ordered_bindings
     [example_binding ''a'' TransformScopeModel 1, example_binding ''b'' TransformScopeDaemon 5]
     [\<lparr>ts_kind = TransformScopeDaemon, ts_id = []\<rparr>, \<lparr>ts_kind = TransformScopeModel, ts_id = []\<rparr>]
     request_transform_kind =
   ordered_bindings
     [example_binding ''b'' TransformScopeDaemon 5, example_binding ''a'' TransformScopeModel 1]
     [\<lparr>ts_kind = TransformScopeDaemon, ts_id = []\<rparr>, \<lparr>ts_kind = TransformScopeModel, ts_id = []\<rparr>]
     request_transform_kind"
  by (rule ordered_bindings_deterministic [THEN conjunct1]) (simp_all add: example_binding_def)

section \<open>Definitions, resource bounds and plan steps\<close>

record resource_bounds =
  rb_max_input :: int
  rb_max_output :: int
  rb_max_buffered :: int
  rb_deadline_millis :: int

definition effective_transform_bounds :: "resource_bounds \<Rightarrow> resource_bounds" where
  "effective_transform_bounds b =
     (let buffered = (if rb_max_buffered b \<le> 0 then 1048576 else rb_max_buffered b)
      in \<lparr>rb_max_input =
            (if rb_max_input b \<le> 0 \<or> buffered < rb_max_input b then buffered else rb_max_input b),
          rb_max_output =
            (if rb_max_output b \<le> 0 \<or> buffered < rb_max_output b then buffered else rb_max_output b),
          rb_max_buffered = buffered,
          rb_deadline_millis = (if rb_deadline_millis b \<le> 0 then 250 else rb_deadline_millis b)\<rparr>)"

lemma effective_transform_bounds_positive:
  "0 < rb_max_buffered (effective_transform_bounds b)"
  "0 < rb_max_input (effective_transform_bounds b)"
  "rb_max_input (effective_transform_bounds b) \<le> rb_max_buffered (effective_transform_bounds b)"
  "0 < rb_max_output (effective_transform_bounds b)"
  "rb_max_output (effective_transform_bounds b) \<le> rb_max_buffered (effective_transform_bounds b)"
  "0 < rb_deadline_millis (effective_transform_bounds b)"
  by (auto simp: effective_transform_bounds_def Let_def)

lemma effective_transform_bounds_idem:
  "effective_transform_bounds (effective_transform_bounds b) = effective_transform_bounds b"
  by (auto simp: effective_transform_bounds_def Let_def)

datatype request_effect =
    TransformPrompt
  | TransformInput
  | TransformTools
  | TransformThinking
  | TransformOptions
  | TransformContinuity

datatype response_effect =
    ResponseEffectText
  | ResponseEffectThinking
  | ResponseEffectToolArguments
  | ResponseEffectUsage

text \<open>\<open>'e\<close> is the kind of effect; a response transform has no stage and leaves it empty.\<close>

record 'e transform_definition =
  td_ref :: ext_ref
  td_stage :: string
  td_bounds :: resource_bounds
  td_failure_modes :: "transform_failure_mode list"
  td_effects :: "'e list"

record 'e transform_step =
  st_binding_id :: string
  st_ref :: ext_ref
  st_scope :: transform_scope
  st_order :: int
  st_stage :: string
  st_failure_mode :: transform_failure_mode
  st_effects :: "'e list"

type_synonym request_step = "request_effect transform_step"
type_synonym response_step = "response_effect transform_step"

text \<open>
  \<open>Plan\<close> of either registry, which maps a reference to the definition of the registered transform; a
  binding whose transform is not registered contributes no step.
\<close>

definition plan_transforms ::
    "(ext_ref \<Rightarrow> 'e transform_definition option) \<Rightarrow> string \<Rightarrow> transform_binding list \<Rightarrow>
     transform_scope list \<Rightarrow> 'e transform_step list" where
  "plan_transforms registry kind bs scopes =
     List.map_filter
       (\<lambda>b. map_option
          (\<lambda>d. \<lparr>st_binding_id = tb_id b, st_ref = td_ref d, st_scope = tb_scope b, st_order = tb_order b,
                st_stage = td_stage d, st_failure_mode = effective_failure_mode (tb_failure_mode b),
                st_effects = td_effects d\<rparr>)
          (registry (tb_ref b)))
       (ordered_bindings bs scopes kind)"

lemma plan_transforms_ids: "distinct (map st_binding_id (plan_transforms registry kind bs scopes))"
proof -
  let ?o = "ordered_bindings bs scopes kind"
  have "distinct (map tb_id ?o)"
    using select_bindings_ids [of "[]" scopes kind bs]
    by (simp add: ordered_bindings_def distinct_map comp_def inj_on_def)
  moreover have "map st_binding_id (plan_transforms registry kind bs scopes) =
      map tb_id (filter (\<lambda>b. registry (tb_ref b) \<noteq> None) ?o)"
    unfolding plan_transforms_def List.map_filter_def by (auto intro!: map_cong filter_cong)
  ultimately show ?thesis by (simp add: distinct_map_filter)
qed

end
