(* ===== verification/Compatibility.thy ===== *)
theory Compatibility
  imports Requests Transforms
begin

text \<open>
  Compatibility planning (\<open>internal/kernel/compatibility.go\<close>): the facets a request needs, what each
  stage of an adapter declares it does to them, the policy that grants or denies named losses, and the
  plan composed of all of these.

  \<^item> A Go value of type \<open>any\<close> in a loss record is observed through \<open>json.Marshal\<close> only: it is nil, a
    value without an encoding, or its encoding. \<open>canon\<close> is what \<open>json.Unmarshal\<close> into an \<open>any\<close> makes
    of an encoding (object keys sorted, numbers rounded to \<open>float64\<close>), an argument of the operations
    that clone records; the theorems hold for every such function.
  \<^item> Reasons are a datatype; \<open>ReasonText\<close> carries the text of a declaration, and the empty text is the
    missing reason the code tests for.
\<close>

section \<open>Facets and losses\<close>

datatype facet_disposition =
    FacetPreserved
  | FacetTranslated
  | FacetDegraded
  | FacetUnsupported
  | FacetUnknown
  | FacetOther string

datatype compatibility_fidelity =
  CompatFidelityUnset | FidelityNative | FidelityTranslated | FidelityLossy | FidelityUnsupported

datatype loss_value = NilValue | Unencodable | Encoded string

fun marshal :: "loss_value \<Rightarrow> string option" where
  "marshal NilValue = Some ''null''"
| "marshal Unencodable = None"
| "marshal (Encoded s) = Some s"

record loss_record =
  lr_id :: string
  lr_requested :: loss_value
  lr_effective :: loss_value
  lr_paths :: "string list"
  lr_sources :: "string list"

datatype loss_error =
    LossIDInvalid
  | LossValuesRequired
  | LossPathRequired
  | LossRequestedNotJSON
  | LossRequestedTooLong
  | LossEffectiveNotJSON
  | LossEffectiveTooLong
  | LossPathInvalid

datatype merge_error = ConflictRequested string | ConflictEffective string

datatype plan_reason =
    ReasonText string
  | ReasonInvalidMapping
  | ReasonUndeclaredFacet
  | ReasonInvalidLoss string loss_error
  | ReasonConflictingLoss string merge_error
  | ReasonUnnamedDegradation string
  | ReasonLossNotPermitted string
  | ReasonFacet string facet_disposition
  | ReasonConflictingPlan string merge_error

definition no_reason :: plan_reason where
  "no_reason = ReasonText []"

record facet_mapping =
  fm_facet :: string
  fm_paths :: "string list"
  fm_disposition :: facet_disposition
  fm_losses :: "loss_record list"
  fm_reason :: plan_reason

definition valid_disposition :: "facet_disposition \<Rightarrow> bool" where
  "valid_disposition d = (case d of FacetOther _ \<Rightarrow> False | _ \<Rightarrow> True)"

definition wire_response_facet :: string where
  "wire_response_facet = ''wire.response''"

definition is_response_facet :: "string \<Rightarrow> bool" where
  "is_response_facet f \<longleftrightarrow> f = wire_response_facet \<or> has_prefix f ''response.event.''"

definition operation_artifact_prefix :: string where
  "operation_artifact_prefix = ''operation.artifact.''"

definition operation_artifact_facet :: "string \<Rightarrow> string" where
  "operation_artifact_facet role = operation_artifact_prefix @ role"

definition is_operation_artifact_facet :: "string \<Rightarrow> bool" where
  "is_operation_artifact_facet f = has_prefix f operation_artifact_prefix"

definition response_event_facet :: "string \<Rightarrow> string" where
  "response_event_facet event = ''response.event.'' @ event"

section \<open>Lists of names\<close>

text \<open>\<open>appendUnique\<close>: with more than 16 names in all the code looks them up in a set, otherwise it scans.\<close>

fun append_scanning :: "string list \<Rightarrow> string list \<Rightarrow> string list" where
  "append_scanning target [] = target"
| "append_scanning target (v # vs) =
     (if v = [] then append_scanning target vs
      else if v \<in> set target then append_scanning target vs
      else append_scanning (target @ [v]) vs)"

fun append_unseen :: "string list \<Rightarrow> string set \<Rightarrow> string list \<Rightarrow> string list" where
  "append_unseen target seen [] = target"
| "append_unseen target seen (v # vs) =
     (if v \<noteq> [] \<and> v \<notin> seen then append_unseen (target @ [v]) (insert v seen) vs
      else append_unseen target seen vs)"

definition append_unique :: "string list \<Rightarrow> string list \<Rightarrow> string list" where
  "append_unique target values =
     (if 16 < length target + length values then append_unseen target (set target) values
      else append_scanning target values)"

definition string_set :: "string list \<Rightarrow> string set" where
  "string_set values = set (filter (\<lambda>v. v \<noteq> []) values)"

definition unique_sorted :: "string list \<Rightarrow> string list" where
  "unique_sorted values = sort (remdups (filter (\<lambda>v. v \<noteq> []) values))"

lemma append_unseen_scanning: "append_unseen target (set target) vs = append_scanning target vs"
proof (induction vs arbitrary: target)
  case (Cons v vs)
  then show ?case using Cons.IH [of "target @ [v]"] by (auto simp: insert_absorb)
qed simp

lemma append_unique_scanning: "append_unique target vs = append_scanning target vs"
  by (simp add: append_unique_def append_unseen_scanning)

lemma set_append_unique [simp]: "set (append_unique target vs) = set target \<union> (set vs - {[]})"
  unfolding append_unique_scanning by (induction vs arbitrary: target) auto

lemma distinct_append_unique: "distinct target \<Longrightarrow> distinct (append_unique target vs)"
  unfolding append_unique_scanning by (induction vs arbitrary: target) auto

lemma append_unique_prefix: "\<exists>ys. append_unique target vs = target @ ys"
  unfolding append_unique_scanning by (induction vs arbitrary: target) (auto, metis append_assoc)

lemma set_unique_sorted [simp]: "set (unique_sorted vs) = set vs - {[]}"
  by (auto simp: unique_sorted_def)

lemma sorted_unique_sorted: "sorted (unique_sorted vs)" "distinct (unique_sorted vs)"
  by (simp_all add: unique_sorted_def)

lemma string_set_eq [simp]: "string_set vs = set vs - {[]}"
  by (auto simp: string_set_def)

section \<open>Policies\<close>

datatype policy_error =
    PolicyAllowInvalidID string
  | PolicyAllowDuplicate string
  | PolicyDenyInvalidID string
  | PolicyDenyDuplicate string
  | CeilingAllowNeedsAllowOnly

definition loss_id_ok :: "string \<Rightarrow> bool" where
  "loss_id_ok i \<longleftrightarrow>
     \<not> (i = [] \<or> trim_space i \<noteq> i \<or> contains_any i [CHR 0x20, CHR 0x09, CHR 0x0D, CHR 0x0A])"

fun check_loss_ids ::
    "(string \<Rightarrow> policy_error) \<Rightarrow> (string \<Rightarrow> policy_error) \<Rightarrow> string list \<Rightarrow> string list \<Rightarrow> policy_error option" where
  "check_loss_ids invalid dup seen [] = None"
| "check_loss_ids invalid dup seen (i # ids) =
     (if \<not> loss_id_ok i then Some (invalid i)
      else if i \<in> set seen then Some (dup i)
      else check_loss_ids invalid dup (i # seen) ids)"

definition validate_loss_policy :: "loss_policy \<Rightarrow> policy_error option" where
  "validate_loss_policy p =
     (case check_loss_ids PolicyAllowInvalidID PolicyAllowDuplicate [] (lp_allow p) of
        Some e \<Rightarrow> Some e
      | None \<Rightarrow> check_loss_ids PolicyDenyInvalidID PolicyDenyDuplicate [] (lp_deny p))"

definition validate_loss_ceiling :: "loss_policy_ceiling \<Rightarrow> policy_error option" where
  "validate_loss_ceiling c =
     (if \<not> lc_allow_only c \<and> lc_allow c \<noteq> [] then Some CeilingAllowNeedsAllowOnly
      else validate_loss_policy \<lparr>lp_allow = lc_allow c, lp_deny = lc_deny c\<rparr>)"

definition ceiling_is_empty :: "loss_policy_ceiling \<Rightarrow> bool" where
  "ceiling_is_empty c \<longleftrightarrow> \<not> lc_allow_only c \<and> lc_allow c = [] \<and> lc_deny c = []"

record compat_policy =
  cp_required :: "string list"
  cp_allowed :: "string list"
  cp_denied :: "string list"
  cp_loss_sources :: "(string, string list) gomap option"
  cp_ceiling :: loss_policy_ceiling

definition add_sources :: "string \<Rightarrow> string list \<Rightarrow> (string, string list) gomap \<Rightarrow> (string, string list) gomap" where
  "add_sources source ids m = foldl (\<lambda>acc i. gm_put i (append_unique (gm_or acc i []) [source]) acc) m ids"

definition add_loss_policy :: "compat_policy \<Rightarrow> string \<Rightarrow> loss_policy \<Rightarrow> compat_policy" where
  "add_loss_policy policy source node =
     policy\<lparr>cp_allowed := unique_sorted (append_unique (cp_allowed policy) (lp_allow node)),
            cp_denied := unique_sorted (append_unique (cp_denied policy) (lp_deny node)),
            cp_loss_sources :=
              Some (map (\<lambda>(i, nodes). (i, unique_sorted nodes))
                (add_sources source (lp_allow node)
                  (case cp_loss_sources policy of None \<Rightarrow> [] | Some m \<Rightarrow> m)))\<rparr>"

text \<open>
  \<open>LossSources\<close> is a Go map, shared by the policy given to \<open>AddLossPolicy\<close> and the one it returns: a
  caller whose map exists sees the writes, a caller without one does not see the map that was made.
\<close>

definition caller_after_add :: "compat_policy \<Rightarrow> compat_policy \<Rightarrow> compat_policy" where
  "caller_after_add policy result =
     (if cp_loss_sources policy = None then policy
      else policy\<lparr>cp_loss_sources := cp_loss_sources result\<rparr>)"

section \<open>Loss records\<close>

definition validate_loss_record :: "loss_record \<Rightarrow> loss_error option" where
  "validate_loss_record l =
     (if \<not> loss_id_ok (lr_id l) then Some LossIDInvalid
      else if lr_requested l = NilValue \<or> lr_effective l = NilValue then Some LossValuesRequired
      else if lr_paths l = [] then Some LossPathRequired
      else case marshal (lr_requested l) of
        None \<Rightarrow> Some LossRequestedNotJSON
      | Some r \<Rightarrow>
          if 4096 < length r then Some LossRequestedTooLong
          else case marshal (lr_effective l) of
            None \<Rightarrow> Some LossEffectiveNotJSON
          | Some e \<Rightarrow>
              if 4096 < length e then Some LossEffectiveTooLong
              else if list_ex (\<lambda>p. p = [] \<or> 256 < length p) (lr_paths l) then Some LossPathInvalid
              else None)"

definition clone_value :: "(string \<Rightarrow> loss_value option) \<Rightarrow> loss_value \<Rightarrow> loss_value" where
  "clone_value canon v =
     (case marshal v of
        None \<Rightarrow> v
      | Some s \<Rightarrow> (case canon s of None \<Rightarrow> v | Some w \<Rightarrow> w))"

definition clone_loss :: "(string \<Rightarrow> loss_value option) \<Rightarrow> loss_record \<Rightarrow> loss_record" where
  "clone_loss canon l =
     l\<lparr>lr_requested := clone_value canon (lr_requested l), lr_effective := clone_value canon (lr_effective l)\<rparr>"

definition json_values_equal :: "loss_value \<Rightarrow> loss_value \<Rightarrow> bool" where
  "json_values_equal a b \<longleftrightarrow> marshal a \<noteq> None \<and> marshal a = marshal b"

fun merge_loss ::
    "(string \<Rightarrow> loss_value option) \<Rightarrow> loss_record list \<Rightarrow> loss_record \<Rightarrow> merge_error + loss_record list" where
  "merge_loss canon [] incoming = Inr [clone_loss canon incoming]"
| "merge_loss canon (current # records) incoming =
     (if lr_id current \<noteq> lr_id incoming
      then (case merge_loss canon records incoming of Inl e \<Rightarrow> Inl e | Inr rs \<Rightarrow> Inr (current # rs))
      else if \<not> json_values_equal (lr_requested current) (lr_requested incoming)
      then Inl (ConflictRequested (lr_id incoming))
      else if \<not> json_values_equal (lr_effective current) (lr_effective incoming)
      then Inl (ConflictEffective (lr_id incoming))
      else Inr (current\<lparr>lr_paths := append_unique (lr_paths current) (lr_paths incoming),
                        lr_sources := append_unique (lr_sources current) (lr_sources incoming)\<rparr> # records))"

section \<open>Plans\<close>

record artifact_transfer =
  at_type_ref :: ext_ref
  at_role :: string
  at_operation_ref :: ext_ref
  at_source_domain :: string
  at_target_provider :: ext_ref
  at_replay_scope :: string
  at_sensitivity :: string
  at_media_type :: string
  at_size :: int
  at_body_lease :: bool

definition plan_artifact_transfers :: "request \<Rightarrow> ext_ref \<Rightarrow> ext_ref \<Rightarrow> artifact_transfer list" where
  "plan_artifact_transfers req operation recipient =
     map (\<lambda>a. \<lparr>at_type_ref = ar_type_ref a, at_role = ar_role a, at_operation_ref = operation,
                at_source_domain = ao_domain (ar_owner a), at_target_provider = recipient,
                at_replay_scope = ar_replay_scope a, at_sensitivity = ar_sensitivity a,
                at_media_type = ar_media_type a, at_size = ar_size a, at_body_lease = (ar_body a \<noteq> None)\<rparr>)
       (rq_artifacts req)"

record compat_plan =
  pn_supported :: bool
  pn_fidelity :: compatibility_fidelity
  pn_mappings :: "facet_mapping list"
  pn_losses :: "loss_record list"
  pn_request_steps :: "request_step list"
  pn_response_steps :: "response_step list"
  pn_transfers :: "artifact_transfer list"
  pn_outputs :: "artifact_output list"
  pn_failures :: "transform_failure list"
  pn_reason :: plan_reason

definition empty_plan :: compat_plan where
  "empty_plan =
     \<lparr>pn_supported = False, pn_fidelity = CompatFidelityUnset, pn_mappings = [], pn_losses = [],
      pn_request_steps = [], pn_response_steps = [], pn_transfers = [], pn_outputs = [], pn_failures = [],
      pn_reason = no_reason\<rparr>"

definition unsupported_plan :: "plan_reason \<Rightarrow> compat_plan" where
  "unsupported_plan reason = empty_plan\<lparr>pn_fidelity := FidelityUnsupported, pn_reason := reason\<rparr>"

subsection \<open>One facet: its stages in order\<close>

fun absorb_losses ::
    "(string \<Rightarrow> loss_value option) \<Rightarrow> string \<Rightarrow> loss_record list \<Rightarrow> loss_record list \<Rightarrow>
     plan_reason + loss_record list" where
  "absorb_losses canon facet acc [] = Inr acc"
| "absorb_losses canon facet acc (l # ls) =
     (case validate_loss_record l of
        Some e \<Rightarrow> Inl (ReasonInvalidLoss facet e)
      | None \<Rightarrow>
          (case merge_loss canon acc (l\<lparr>lr_sources := []\<rparr>) of
             Inl e \<Rightarrow> Inl (ReasonConflictingLoss facet e)
           | Inr acc' \<Rightarrow> absorb_losses canon facet acc' ls))"

definition combine_disposition :: "facet_disposition \<Rightarrow> facet_disposition \<Rightarrow> facet_disposition" where
  "combine_disposition current stage =
     (case stage of
        FacetUnsupported \<Rightarrow> FacetUnsupported
      | FacetUnknown \<Rightarrow> FacetUnknown
      | FacetDegraded \<Rightarrow>
          if current \<noteq> FacetUnsupported \<and> current \<noteq> FacetUnknown then FacetDegraded else current
      | FacetTranslated \<Rightarrow> if current = FacetPreserved then FacetTranslated else current
      | _ \<Rightarrow> current)"

fun combine_stages ::
    "(string \<Rightarrow> loss_value option) \<Rightarrow> facet_mapping \<Rightarrow> facet_mapping list \<Rightarrow> plan_reason + facet_mapping" where
  "combine_stages canon combined [] = Inr combined"
| "combine_stages canon combined (stage # stages) =
     (case absorb_losses canon (fm_facet combined) (fm_losses combined) (fm_losses stage) of
        Inl reason \<Rightarrow> Inl reason
      | Inr losses \<Rightarrow>
          combine_stages canon
            (combined\<lparr>fm_paths := append_unique (fm_paths combined) (fm_paths stage),
               fm_losses := losses,
               fm_reason := (if fm_reason stage \<noteq> no_reason then fm_reason stage else fm_reason combined),
               fm_disposition := combine_disposition (fm_disposition combined) (fm_disposition stage)\<rparr>)
            stages)"

definition loss_permitted :: "compat_policy \<Rightarrow> string \<Rightarrow> bool" where
  "loss_permitted policy i \<longleftrightarrow>
     \<not> (i \<in> string_set (cp_denied policy) \<or> i \<in> string_set (lc_deny (cp_ceiling policy)) \<or>
        i \<notin> string_set (cp_allowed policy) \<or>
        lc_allow_only (cp_ceiling policy) \<and> i \<notin> string_set (lc_allow (cp_ceiling policy)))"

definition loss_sources :: "compat_policy \<Rightarrow> string \<Rightarrow> string list" where
  "loss_sources policy i = (case cp_loss_sources policy of None \<Rightarrow> [] | Some m \<Rightarrow> gm_or m i [])"

fun grant_losses ::
    "compat_policy \<Rightarrow> facet_disposition \<Rightarrow> plan_reason \<Rightarrow> loss_record list \<Rightarrow>
     loss_record list \<times> facet_disposition \<times> plan_reason" where
  "grant_losses policy d reason [] = ([], d, reason)"
| "grant_losses policy d reason (l # ls) =
     (if \<not> loss_permitted policy (lr_id l)
      then (case grant_losses policy FacetUnsupported (ReasonLossNotPermitted (lr_id l)) ls of
              (ls', d', reason') \<Rightarrow> (l # ls', d', reason'))
      else (case grant_losses policy d reason ls of
              (ls', d', reason') \<Rightarrow>
                (l\<lparr>lr_sources := append_unique (lr_sources l) (loss_sources policy (lr_id l))\<rparr> # ls', d', reason')))"

text \<open>A facet's stages combined, its losses granted or refused.\<close>

definition combine_facet ::
    "(string \<Rightarrow> loss_value option) \<Rightarrow> compat_policy \<Rightarrow> string \<Rightarrow> facet_mapping list \<Rightarrow>
     plan_reason + facet_mapping" where
  "combine_facet canon policy facet declared =
     (let stages = (if declared = []
                    then [\<lparr>fm_facet = facet, fm_paths = [], fm_disposition = FacetUnknown, fm_losses = [],
                           fm_reason = ReasonUndeclaredFacet\<rparr>]
                    else declared)
      in case combine_stages canon
           \<lparr>fm_facet = facet, fm_paths = [], fm_disposition = FacetPreserved, fm_losses = [],
            fm_reason = no_reason\<rparr> stages of
           Inl reason \<Rightarrow> Inl reason
         | Inr c \<Rightarrow>
             (let c1 = (if fm_losses c \<noteq> [] \<and> fm_disposition c \<noteq> FacetUnknown \<and>
                           fm_disposition c \<noteq> FacetUnsupported
                        then c\<lparr>fm_disposition := FacetDegraded\<rparr> else c)
              in if fm_disposition c1 = FacetDegraded \<and> fm_losses c1 = []
                 then Inl (ReasonUnnamedDegradation facet)
                 else (case grant_losses policy (fm_disposition c1) (fm_reason c1) (fm_losses c1) of
                         (ls, d, reason) \<Rightarrow>
                           Inr (c1\<lparr>fm_losses := ls, fm_disposition := d, fm_reason := reason\<rparr>))))"

subsection \<open>All facets, in the order of their names\<close>

fun merge_losses ::
    "(string \<Rightarrow> loss_value option) \<Rightarrow> loss_record list \<Rightarrow> loss_record list \<Rightarrow> plan_reason + loss_record list" where
  "merge_losses canon acc [] = Inr acc"
| "merge_losses canon acc (l # ls) =
     (case merge_loss canon acc l of
        Inl e \<Rightarrow> Inl (ReasonConflictingPlan (lr_id l) e)
      | Inr acc' \<Rightarrow> merge_losses canon acc' ls)"

definition refuses :: "facet_disposition \<Rightarrow> bool" where
  "refuses d \<longleftrightarrow> d = FacetUnknown \<or> d = FacetUnsupported"

definition plan_facet ::
    "(string \<Rightarrow> loss_value option) \<Rightarrow> bool \<Rightarrow> facet_mapping \<Rightarrow> compat_plan \<Rightarrow> plan_reason + compat_plan" where
  "plan_facet canon required c plan =
     (let p1 = (if (required \<or> fm_losses c \<noteq> []) \<and> refuses (fm_disposition c)
                then plan\<lparr>pn_supported := False,
                       pn_reason :=
                         (if pn_reason plan \<noteq> no_reason then pn_reason plan
                          else if fm_reason c \<noteq> no_reason then fm_reason c
                          else ReasonFacet (fm_facet c) (fm_disposition c))\<rparr>
                else plan)
      in case (if fm_disposition c = FacetDegraded
               then (case merge_losses canon (pn_losses p1) (fm_losses c) of
                       Inl reason \<Rightarrow> Inl reason
                     | Inr ls \<Rightarrow> Inr (p1\<lparr>pn_fidelity := FidelityLossy, pn_losses := ls\<rparr>))
               else if fm_disposition c = FacetTranslated \<and> pn_fidelity p1 = FidelityNative
               then Inr (p1\<lparr>pn_fidelity := FidelityTranslated\<rparr>)
               else Inr p1) of
           Inl reason \<Rightarrow> Inl reason
         | Inr p2 \<Rightarrow> Inr (p2\<lparr>pn_mappings := pn_mappings p2 @ [c]\<rparr>))"

fun plan_facets ::
    "(string \<Rightarrow> loss_value option) \<Rightarrow> compat_policy \<Rightarrow> facet_mapping list \<Rightarrow> string list \<Rightarrow>
     compat_plan \<Rightarrow> plan_reason + compat_plan" where
  "plan_facets canon policy mappings [] plan = Inr plan"
| "plan_facets canon policy mappings (facet # facets) plan =
     (case combine_facet canon policy facet (filter (\<lambda>m. fm_facet m = facet) mappings) of
        Inl reason \<Rightarrow> Inl reason
      | Inr c \<Rightarrow>
          (case plan_facet canon (facet \<in> string_set (cp_required policy)) c plan of
             Inl reason \<Rightarrow> Inl reason
           | Inr plan' \<Rightarrow> plan_facets canon policy mappings facets plan'))"

definition all_facets :: "facet_mapping list \<Rightarrow> compat_policy \<Rightarrow> string list" where
  "all_facets mappings policy = sort (remdups (map fm_facet mappings @ unique_sorted (cp_required policy)))"

definition compose_compatibility_plan ::
    "(string \<Rightarrow> loss_value option) \<Rightarrow> facet_mapping list list \<Rightarrow> compat_policy \<Rightarrow> compat_plan" where
  "compose_compatibility_plan canon reports policy =
     (let mappings = concat reports
      in if list_ex (\<lambda>m. fm_facet m = [] \<or> \<not> valid_disposition (fm_disposition m)) mappings
         then unsupported_plan ReasonInvalidMapping
         else case plan_facets canon policy mappings (all_facets mappings policy)
                (empty_plan\<lparr>pn_supported := True, pn_fidelity := FidelityNative\<rparr>) of
                Inl reason \<Rightarrow> unsupported_plan reason
              | Inr plan \<Rightarrow>
                  if \<not> pn_supported plan then plan\<lparr>pn_fidelity := FidelityUnsupported\<rparr> else plan)"

record mapping_summary =
  ms_facet :: string
  ms_paths :: "string list"
  ms_disposition :: facet_disposition
  ms_reason :: plan_reason

record plan_summary =
  ps_supported :: bool
  ps_fidelity :: compatibility_fidelity
  ps_mappings :: "mapping_summary list"
  ps_request_steps :: "request_step list"
  ps_response_steps :: "response_step list"
  ps_transfers :: "artifact_transfer list"
  ps_outputs :: "artifact_output list"
  ps_failures :: "transform_failure list"
  ps_reason :: plan_reason

definition summarize_plan :: "compat_plan \<Rightarrow> plan_summary" where
  "summarize_plan p =
     \<lparr>ps_supported = pn_supported p, ps_fidelity = pn_fidelity p,
      ps_mappings =
        map (\<lambda>m. \<lparr>ms_facet = fm_facet m, ms_paths = fm_paths m, ms_disposition = fm_disposition m,
                   ms_reason = fm_reason m\<rparr>) (pn_mappings p),
      ps_request_steps = pn_request_steps p, ps_response_steps = pn_response_steps p,
      ps_transfers = pn_transfers p, ps_outputs = pn_outputs p, ps_failures = pn_failures p,
      ps_reason = pn_reason p\<rparr>"

section \<open>What a plan guarantees\<close>

definition loss_ids :: "loss_record list \<Rightarrow> string set" where
  "loss_ids ls = lr_id ` set ls"

definition sourced :: "(string \<Rightarrow> string set) \<Rightarrow> loss_record list \<Rightarrow> bool" where
  "sourced S ls \<longleftrightarrow> (\<forall>r \<in> set ls. set (lr_sources r) \<subseteq> S (lr_id r))"

lemma loss_ids_simps [simp]:
  "loss_ids [] = {}" "loss_ids (l # ls) = insert (lr_id l) (loss_ids ls)" "loss_ids ls = {} \<longleftrightarrow> ls = []"
  by (simp_all add: loss_ids_def)

lemma sourced_simps [simp]:
  "sourced S []" "sourced S (l # ls) \<longleftrightarrow> set (lr_sources l) \<subseteq> S (lr_id l) \<and> sourced S ls"
  by (simp_all add: sourced_def)

lemma merge_loss_ids: "merge_loss canon rs l = Inr rs' \<Longrightarrow> loss_ids rs' = insert (lr_id l) (loss_ids rs)"
proof (induction rs arbitrary: rs')
  case (Cons r rs)
  show ?case
  proof (cases "lr_id r = lr_id l")
    case True
    with Cons.prems show ?thesis by (auto split: if_splits)
  next
    case False
    with Cons.prems obtain rs1 where "merge_loss canon rs l = Inr rs1" "rs' = r # rs1"
      by (auto split: sum.splits)
    with Cons.IH show ?thesis by (simp add: insert_commute)
  qed
qed (simp add: clone_loss_def)

lemma merge_loss_sources:
  "merge_loss canon rs l = Inr rs' \<Longrightarrow> sourced S (l # rs) \<Longrightarrow> sourced S rs'"
proof (induction rs arbitrary: rs')
  case (Cons r rs)
  show ?case
  proof (cases "lr_id r = lr_id l")
    case True
    with Cons.prems(1) obtain r' where "rs' = r' # rs" "lr_id r' = lr_id r"
      "set (lr_sources r') = set (lr_sources r) \<union> (set (lr_sources l) - {[]})"
      by (auto split: if_splits)
    with True Cons.prems(2) show ?thesis by auto
  next
    case False
    with Cons.prems(1) obtain rs1 where "merge_loss canon rs l = Inr rs1" "rs' = r # rs1"
      by (auto split: sum.splits)
    with Cons.IH Cons.prems(2) show ?thesis by simp
  qed
qed (simp add: clone_loss_def)

lemma absorb_losses_Cons:
  assumes "absorb_losses canon f acc (l # ls) = Inr acc'"
  obtains acc1 where "merge_loss canon acc (l\<lparr>lr_sources := []\<rparr>) = Inr acc1"
    and "absorb_losses canon f acc1 ls = Inr acc'"
  using assms by (auto split: option.splits sum.splits)

lemma absorb_losses_ids:
  "absorb_losses canon f acc ls = Inr acc' \<Longrightarrow> loss_ids acc' = loss_ids acc \<union> loss_ids ls"
proof (induction ls arbitrary: acc)
  case (Cons l ls)
  from Cons.prems obtain acc1 where "merge_loss canon acc (l\<lparr>lr_sources := []\<rparr>) = Inr acc1"
    and "absorb_losses canon f acc1 ls = Inr acc'" by (rule absorb_losses_Cons)
  with Cons.IH [OF this(2)] merge_loss_ids [OF this(1)] show ?case by simp
qed simp

lemma absorb_losses_sources:
  "absorb_losses canon f acc ls = Inr acc' \<Longrightarrow> sourced S acc \<Longrightarrow> sourced S acc'"
proof (induction ls arbitrary: acc)
  case (Cons l ls)
  from Cons.prems(1) obtain acc1 where "merge_loss canon acc (l\<lparr>lr_sources := []\<rparr>) = Inr acc1"
    and "absorb_losses canon f acc1 ls = Inr acc'" by (rule absorb_losses_Cons)
  with Cons.IH [OF this(2)] merge_loss_sources [OF this(1), of S] Cons.prems(2) show ?case by simp
qed simp

lemma refuses_combine: "refuses (combine_disposition d s) \<longleftrightarrow> refuses d \<or> refuses s"
  by (cases s) (auto simp: refuses_def combine_disposition_def)

text \<open>The combination of stages: the losses of all of them, refused when one of them refuses.\<close>

lemma combine_stages_Inr:
  "combine_stages canon c stages = Inr c' \<Longrightarrow>
   fm_facet c' = fm_facet c \<and>
   loss_ids (fm_losses c') = loss_ids (fm_losses c) \<union> (\<Union>s \<in> set stages. loss_ids (fm_losses s)) \<and>
   (refuses (fm_disposition c') \<longleftrightarrow> refuses (fm_disposition c) \<or> (\<exists>s \<in> set stages. refuses (fm_disposition s))) \<and>
   (sourced S (fm_losses c) \<longrightarrow> sourced S (fm_losses c'))"
proof (induction stages arbitrary: c)
  case (Cons s stages)
  then obtain ls where ls: "absorb_losses canon (fm_facet c) (fm_losses c) (fm_losses s) = Inr ls"
    by (auto split: sum.splits)
  define c1 where "c1 = c\<lparr>fm_paths := append_unique (fm_paths c) (fm_paths s), fm_losses := ls,
    fm_reason := (if fm_reason s \<noteq> no_reason then fm_reason s else fm_reason c),
    fm_disposition := combine_disposition (fm_disposition c) (fm_disposition s)\<rparr>"
  have step: "combine_stages canon c1 stages = Inr c'"
    using Cons.prems ls by (simp add: c1_def)
  have c1: "fm_facet c1 = fm_facet c" "fm_losses c1 = ls"
    "refuses (fm_disposition c1) \<longleftrightarrow> refuses (fm_disposition c) \<or> refuses (fm_disposition s)"
    by (simp_all add: c1_def refuses_combine)
  show ?case
    using Cons.IH [OF step] c1 absorb_losses_ids [OF ls] absorb_losses_sources [OF ls, of S]
    by (simp add: Un_assoc disj_assoc)
qed simp

lemma grant_losses_facts:
  "grant_losses policy d reason ls = (ls', d', reason') \<Longrightarrow>
   loss_ids ls' = loss_ids ls \<and>
   d' = (if \<forall>i \<in> loss_ids ls. loss_permitted policy i then d else FacetUnsupported) \<and>
   (sourced S ls \<longrightarrow> (\<forall>i. set (loss_sources policy i) \<subseteq> S i) \<longrightarrow> sourced S ls')"
proof (induction ls arbitrary: d reason ls')
  case (Cons l ls)
  show ?case
  proof (cases "loss_permitted policy (lr_id l)")
    case True
    with Cons.prems obtain ls1 where "grant_losses policy d reason ls = (ls1, d', reason')"
      "ls' = l\<lparr>lr_sources := append_unique (lr_sources l) (loss_sources policy (lr_id l))\<rparr> # ls1"
      by (auto split: prod.splits)
    with Cons.IH [OF this(1)] True show ?thesis by auto
  next
    case False
    with Cons.prems obtain ls1
      where "grant_losses policy FacetUnsupported (ReasonLossNotPermitted (lr_id l)) ls = (ls1, d', reason')"
        "ls' = l # ls1"
      by (auto split: prod.splits)
    with Cons.IH [OF this(1)] False show ?thesis by (auto split: if_splits)
  qed
qed simp

lemma combine_disposition_preserved:
  "valid_disposition s \<Longrightarrow> combine_disposition d s = FacetPreserved \<longleftrightarrow> d = FacetPreserved \<and> s = FacetPreserved"
  by (cases s) (auto simp: combine_disposition_def valid_disposition_def)

lemma combine_stages_preserved:
  "combine_stages canon c stages = Inr c' \<Longrightarrow> \<forall>s \<in> set stages. valid_disposition (fm_disposition s) \<Longrightarrow>
   valid_disposition (fm_disposition c) \<Longrightarrow>
   valid_disposition (fm_disposition c') \<and>
   (fm_disposition c' = FacetPreserved \<longleftrightarrow>
    fm_disposition c = FacetPreserved \<and> (\<forall>s \<in> set stages. fm_disposition s = FacetPreserved))"
proof (induction stages arbitrary: c)
  case (Cons s stages)
  have "valid_disposition (combine_disposition (fm_disposition c) (fm_disposition s))"
    using Cons.prems(2,3)
    by (auto simp: combine_disposition_def valid_disposition_def split: facet_disposition.splits)
  with Cons show ?case
    by (auto simp: combine_disposition_preserved split: sum.splits)
qed simp

text \<open>What becomes of one facet, in terms of the declarations its stages made.\<close>

lemma combine_facet_Inr:
  assumes "combine_facet canon policy f declared = Inr c"
    and "\<forall>s \<in> set declared. valid_disposition (fm_disposition s)"
  shows "fm_facet c = f"
    and "loss_ids (fm_losses c) = (\<Union>s \<in> set declared. loss_ids (fm_losses s))"
    and "refuses (fm_disposition c) \<longleftrightarrow>
           declared = [] \<or> (\<exists>s \<in> set declared. refuses (fm_disposition s)) \<or>
           (\<exists>i \<in> loss_ids (fm_losses c). \<not> loss_permitted policy i)"
    and "sourced (\<lambda>i. set (loss_sources policy i)) (fm_losses c)"
    and "fm_disposition c = FacetDegraded \<longleftrightarrow> fm_losses c \<noteq> [] \<and> \<not> refuses (fm_disposition c)"
    and "fm_disposition c = FacetPreserved \<Longrightarrow> \<forall>s \<in> set declared. fm_disposition s = FacetPreserved"
    and "valid_disposition (fm_disposition c)"
proof -
  define stages where "stages = (if declared = []
    then [\<lparr>fm_facet = f, fm_paths = [], fm_disposition = FacetUnknown, fm_losses = [],
           fm_reason = ReasonUndeclaredFacet\<rparr>] else declared)"
  let ?start = "\<lparr>fm_facet = f, fm_paths = [], fm_disposition = FacetPreserved, fm_losses = [],
    fm_reason = no_reason\<rparr>"
  have valid: "\<forall>s \<in> set stages. valid_disposition (fm_disposition s)"
    using assms(2) by (simp add: stages_def valid_disposition_def)
  from assms(1) obtain c0 where c0: "combine_stages canon ?start stages = Inr c0"
    unfolding combine_facet_def Let_def by (fold stages_def) (auto split: sum.splits)
  define c1 where "c1 = (if fm_losses c0 \<noteq> [] \<and> \<not> refuses (fm_disposition c0)
    then c0\<lparr>fm_disposition := FacetDegraded\<rparr> else c0)"
  obtain ls d reason where g: "grant_losses policy (fm_disposition c1) (fm_reason c1) (fm_losses c1) = (ls, d, reason)"
    by (cases "grant_losses policy (fm_disposition c1) (fm_reason c1) (fm_losses c1)") auto
  have named: "\<not> (fm_disposition c1 = FacetDegraded \<and> fm_losses c1 = [])"
    and c: "c = c1\<lparr>fm_losses := ls, fm_disposition := d, fm_reason := reason\<rparr>"
    using assms(1) c0 g unfolding combine_facet_def Let_def stages_def [symmetric] c1_def refuses_def
    by (auto split: if_splits)
  note start = combine_stages_Inr [OF c0, where S = "\<lambda>i. set (loss_sources policy i)"]
  note granted = grant_losses_facts [OF g, where S = "\<lambda>i. set (loss_sources policy i)"]
  have losses1: "fm_losses c1 = fm_losses c0" and facet1: "fm_facet c1 = fm_facet c0" by (simp_all add: c1_def)
  have disp1: "refuses (fm_disposition c1) \<longleftrightarrow> refuses (fm_disposition c0)"
    "fm_disposition c1 = FacetDegraded \<longleftrightarrow> fm_losses c0 \<noteq> [] \<and> \<not> refuses (fm_disposition c0)"
    using named by (auto simp: c1_def refuses_def)
  have ids: "loss_ids (fm_losses c) = loss_ids (fm_losses c0)"
    using granted [THEN conjunct1] losses1 by (simp add: c)
  have empty: "fm_losses c = [] \<longleftrightarrow> fm_losses c0 = []" using ids by (metis loss_ids_simps(3))
  have declared: "loss_ids (fm_losses c0) = (\<Union>s \<in> set declared. loss_ids (fm_losses s))"
    "refuses (fm_disposition c0) \<longleftrightarrow> declared = [] \<or> (\<exists>s \<in> set declared. refuses (fm_disposition s))"
    using start by (auto simp: stages_def refuses_def)
  have d: "fm_disposition c =
      (if \<forall>i \<in> loss_ids (fm_losses c0). loss_permitted policy i then fm_disposition c1 else FacetUnsupported)"
    using granted [THEN conjunct2, THEN conjunct1] losses1 by (simp add: c)
  have preserved: "valid_disposition (fm_disposition c0)"
    "fm_disposition c0 = FacetPreserved \<Longrightarrow> \<forall>s \<in> set stages. fm_disposition s = FacetPreserved"
    using combine_stages_preserved [OF c0 valid] by (simp_all add: valid_disposition_def)
  show "fm_facet c = f" using start facet1 c by simp
  show "loss_ids (fm_losses c) = (\<Union>s \<in> set declared. loss_ids (fm_losses s))"
    using ids declared(1) by simp
  show "refuses (fm_disposition c) \<longleftrightarrow>
      declared = [] \<or> (\<exists>s \<in> set declared. refuses (fm_disposition s)) \<or>
      (\<exists>i \<in> loss_ids (fm_losses c). \<not> loss_permitted policy i)"
  proof (cases "\<forall>i \<in> loss_ids (fm_losses c0). loss_permitted policy i")
    case True
    then have "fm_disposition c = fm_disposition c1" using d by simp
    then show ?thesis using True disp1(1) declared(2) ids by simp
  next
    case False
    then have "fm_disposition c = FacetUnsupported" using d by presburger
    then have "refuses (fm_disposition c)" by (simp add: refuses_def)
    then show ?thesis using False ids by simp
  qed
  show "sourced (\<lambda>i. set (loss_sources policy i)) (fm_losses c)"
  proof -
    have "sourced (\<lambda>i. set (loss_sources policy i)) (fm_losses c0)"
      using start by (simp only: facet_mapping.simps sourced_simps simp_thms)
    then have "sourced (\<lambda>i. set (loss_sources policy i)) ls"
      using granted losses1 by simp
    then show ?thesis by (simp add: c)
  qed
  show "fm_disposition c = FacetDegraded \<longleftrightarrow> fm_losses c \<noteq> [] \<and> \<not> refuses (fm_disposition c)"
  proof (cases "\<forall>i \<in> loss_ids (fm_losses c0). loss_permitted policy i")
    case True
    then have "fm_disposition c = fm_disposition c1" using d by simp
    then show ?thesis using disp1 empty by simp
  next
    case False
    then have "fm_disposition c = FacetUnsupported" using d by presburger
    then show ?thesis by (simp add: refuses_def)
  qed
  show "fm_disposition c = FacetPreserved \<Longrightarrow> \<forall>s \<in> set declared. fm_disposition s = FacetPreserved"
    using d preserved(2) by (simp add: c1_def stages_def split: if_splits)
  show "valid_disposition (fm_disposition c)"
    using d preserved(1) by (simp add: c1_def valid_disposition_def split: if_splits)
qed

lemma merge_losses_facts:
  "merge_losses canon acc ls = Inr acc' \<Longrightarrow>
   loss_ids acc' = loss_ids acc \<union> loss_ids ls \<and> (sourced S acc \<longrightarrow> sourced S ls \<longrightarrow> sourced S acc')"
proof (induction ls arbitrary: acc)
  case (Cons l ls)
  then obtain acc1 where m: "merge_loss canon acc l = Inr acc1" "merge_losses canon acc1 ls = Inr acc'"
    by (auto split: sum.splits)
  with Cons.IH [OF m(2)] merge_loss_ids [OF m(1)] merge_loss_sources [OF m(1), of S] show ?case by simp
qed simp

lemma plan_facet_Inr:
  assumes "plan_facet canon required c plan = Inr plan'"
  shows "pn_supported plan' \<longleftrightarrow>
           pn_supported plan \<and> \<not> ((required \<or> fm_losses c \<noteq> []) \<and> refuses (fm_disposition c))"
    and "loss_ids (pn_losses plan') =
           loss_ids (pn_losses plan) \<union> (if fm_disposition c = FacetDegraded then loss_ids (fm_losses c) else {})"
    and "sourced S (pn_losses plan) \<Longrightarrow> sourced S (fm_losses c) \<Longrightarrow> sourced S (pn_losses plan')"
    and "pn_fidelity plan' = FidelityNative \<longleftrightarrow>
           pn_fidelity plan = FidelityNative \<and> fm_disposition c \<noteq> FacetDegraded \<and> fm_disposition c \<noteq> FacetTranslated"
    and "pn_mappings plan' = pn_mappings plan @ [c]"
proof -
  define p1 where "p1 = (if (required \<or> fm_losses c \<noteq> []) \<and> refuses (fm_disposition c)
    then plan\<lparr>pn_supported := False,
      pn_reason := (if pn_reason plan \<noteq> no_reason then pn_reason plan
        else if fm_reason c \<noteq> no_reason then fm_reason c else ReasonFacet (fm_facet c) (fm_disposition c))\<rparr>
    else plan)"
  have p1: "pn_supported p1 \<longleftrightarrow>
      pn_supported plan \<and> \<not> ((required \<or> fm_losses c \<noteq> []) \<and> refuses (fm_disposition c))"
    "pn_losses p1 = pn_losses plan" "pn_fidelity p1 = pn_fidelity plan" "pn_mappings p1 = pn_mappings plan"
    by (simp_all add: p1_def)
  note plan = assms [unfolded plan_facet_def Let_def, folded p1_def]
  have "(pn_supported plan' \<longleftrightarrow> pn_supported p1) \<and>
    loss_ids (pn_losses plan') =
      loss_ids (pn_losses p1) \<union> (if fm_disposition c = FacetDegraded then loss_ids (fm_losses c) else {}) \<and>
    (sourced S (pn_losses p1) \<longrightarrow> sourced S (fm_losses c) \<longrightarrow> sourced S (pn_losses plan')) \<and>
    (pn_fidelity plan' = FidelityNative \<longleftrightarrow>
      pn_fidelity p1 = FidelityNative \<and> fm_disposition c \<noteq> FacetDegraded \<and> fm_disposition c \<noteq> FacetTranslated) \<and>
    pn_mappings plan' = pn_mappings p1 @ [c]"
  proof (cases "fm_disposition c = FacetDegraded")
    case True
    with plan obtain ls where ls: "merge_losses canon (pn_losses p1) (fm_losses c) = Inr ls"
      "plan' = p1\<lparr>pn_fidelity := FidelityLossy, pn_losses := ls, pn_mappings := pn_mappings p1 @ [c]\<rparr>"
      by (auto split: sum.splits)
    with True merge_losses_facts [OF ls(1), of S] show ?thesis by simp
  next
    case False
    with plan show ?thesis by (cases "fm_disposition c = FacetTranslated \<and> pn_fidelity p1 = FidelityNative") auto
  qed
  with p1 show "pn_supported plan' \<longleftrightarrow>
           pn_supported plan \<and> \<not> ((required \<or> fm_losses c \<noteq> []) \<and> refuses (fm_disposition c))"
    and "loss_ids (pn_losses plan') =
           loss_ids (pn_losses plan) \<union> (if fm_disposition c = FacetDegraded then loss_ids (fm_losses c) else {})"
    and "sourced S (pn_losses plan) \<Longrightarrow> sourced S (fm_losses c) \<Longrightarrow> sourced S (pn_losses plan')"
    and "pn_fidelity plan' = FidelityNative \<longleftrightarrow>
           pn_fidelity plan = FidelityNative \<and> fm_disposition c \<noteq> FacetDegraded \<and> fm_disposition c \<noteq> FacetTranslated"
    and "pn_mappings plan' = pn_mappings plan @ [c]"
    by simp_all
qed

text \<open>A required facet is served: some stage declares it, none refuses it (or changes it at all).\<close>

definition facet_served :: "bool \<Rightarrow> facet_mapping list \<Rightarrow> string \<Rightarrow> bool" where
  "facet_served native ms f \<longleftrightarrow>
     (\<exists>m \<in> set ms. fm_facet m = f) \<and>
     (\<forall>m \<in> set ms. fm_facet m = f \<longrightarrow>
        \<not> refuses (fm_disposition m) \<and> (native \<longrightarrow> fm_disposition m = FacetPreserved))"

definition facet_losses :: "facet_mapping list \<Rightarrow> string \<Rightarrow> string set" where
  "facet_losses ms f = (\<Union>m \<in> {m \<in> set ms. fm_facet m = f}. loss_ids (fm_losses m))"

lemma facet_step:
  assumes "combine_facet canon policy f (filter (\<lambda>m. fm_facet m = f) ms) = Inr c"
    and "plan_facet canon (f \<in> string_set (cp_required policy)) c plan = Inr plan1"
    and "\<forall>m \<in> set ms. valid_disposition (fm_disposition m)" and "pn_supported plan1"
  shows "pn_supported plan"
    and "loss_ids (pn_losses plan1) = loss_ids (pn_losses plan) \<union> facet_losses ms f"
    and "\<forall>i \<in> facet_losses ms f. loss_permitted policy i"
    and "f \<in> string_set (cp_required policy) \<Longrightarrow> facet_served (pn_fidelity plan1 = FidelityNative) ms f"
proof -
  let ?decl = "filter (\<lambda>m. fm_facet m = f) ms"
  let ?req = "f \<in> string_set (cp_required policy)"
  have "\<forall>s \<in> set ?decl. valid_disposition (fm_disposition s)" using assms(3) by simp
  note C = combine_facet_Inr [OF assms(1) this]
  note P = plan_facet_Inr [OF assms(2)]
  have ids: "loss_ids (fm_losses c) = facet_losses ms f" by (simp add: C(2) facet_losses_def)
  show "pn_supported plan" using assms(4) P(1) by simp
  have ok: "\<not> refuses (fm_disposition c) \<or> \<not> ?req \<and> fm_losses c = []" using assms(4) P(1) by blast
  then show "loss_ids (pn_losses plan1) = loss_ids (pn_losses plan) \<union> facet_losses ms f"
    unfolding P(2) ids [symmetric] using C(5) by (cases "fm_losses c = []") auto
  show "\<forall>i \<in> facet_losses ms f. loss_permitted policy i"
    using ok C(3) unfolding ids [symmetric] by auto
  assume ?req
  with ok have accepted: "\<not> refuses (fm_disposition c)" by blast
  then have "?decl \<noteq> []" "\<forall>m \<in> set ?decl. \<not> refuses (fm_disposition m)" using C(3) by auto
  moreover have "\<forall>m \<in> set ?decl. fm_disposition m = FacetPreserved" if "pn_fidelity plan1 = FidelityNative"
  proof (rule C(6))
    from that P(4) accepted C(7) show "fm_disposition c = FacetPreserved"
      by (cases "fm_disposition c") (simp_all add: refuses_def valid_disposition_def)
  qed
  ultimately show "facet_served (pn_fidelity plan1 = FidelityNative) ms f"
    by (auto simp: facet_served_def filter_empty_conv)
qed

lemma plan_facets_Inr:
  assumes "plan_facets canon policy ms fs plan = Inr plan'"
    and "\<forall>m \<in> set ms. valid_disposition (fm_disposition m)" and "pn_supported plan'"
    and "sourced (\<lambda>i. set (loss_sources policy i)) (pn_losses plan)"
  shows "pn_supported plan \<and> (pn_fidelity plan' = FidelityNative \<longrightarrow> pn_fidelity plan = FidelityNative) \<and>
    sourced (\<lambda>i. set (loss_sources policy i)) (pn_losses plan') \<and>
    loss_ids (pn_losses plan') = loss_ids (pn_losses plan) \<union> (\<Union>f \<in> set fs. facet_losses ms f) \<and>
    (\<forall>f \<in> set fs. \<forall>i \<in> facet_losses ms f. loss_permitted policy i) \<and>
    (\<forall>f \<in> set fs. f \<in> string_set (cp_required policy) \<longrightarrow>
       facet_served (pn_fidelity plan' = FidelityNative) ms f)"
  using assms(1,4)
proof (induction fs arbitrary: plan)
  case (Cons f fs)
  from Cons.prems(1) obtain c plan1
    where c: "combine_facet canon policy f (filter (\<lambda>m. fm_facet m = f) ms) = Inr c"
      and p1: "plan_facet canon (f \<in> string_set (cp_required policy)) c plan = Inr plan1"
      and rest: "plan_facets canon policy ms fs plan1 = Inr plan'"
    by (auto split: sum.splits)
  have "sourced (\<lambda>i. set (loss_sources policy i)) (pn_losses plan1)"
    using plan_facet_Inr(3) [OF p1 Cons.prems(2)] combine_facet_Inr(4) [OF c] assms(2) by simp
  note IH = Cons.IH [OF rest this]
  then have s1: "pn_supported plan1" by blast
  note step = facet_step [OF c p1 assms(2) s1]
  have "pn_fidelity plan' = FidelityNative \<Longrightarrow> pn_fidelity plan1 = FidelityNative \<and> pn_fidelity plan = FidelityNative"
    using IH plan_facet_Inr(4) [OF p1] by blast
  then have served: "f \<in> string_set (cp_required policy) \<Longrightarrow> facet_served (pn_fidelity plan' = FidelityNative) ms f"
    using step(4) unfolding facet_served_def by blast
  show ?case
    using IH step(1-3) served plan_facet_Inr(4) [OF p1] by (simp add: Un_assoc)
qed (use assms(3) in simp)

text \<open>Every facet a stage declares or the policy requires is planned.\<close>

lemma set_all_facets: "set (all_facets ms policy) = fm_facet ` set ms \<union> string_set (cp_required policy)"
  by (auto simp: all_facets_def)


definition example_loss :: loss_record where
  "example_loss =
     \<lparr>lr_id = ''x'', lr_requested = Encoded ''2'', lr_effective = Encoded ''1'', lr_paths = [''p''],
      lr_sources = [''codec'']\<rparr>"

definition example_reports :: "facet_mapping list list" where
  "example_reports =
     [[\<lparr>fm_facet = ''f'', fm_paths = [''p''], fm_disposition = FacetDegraded, fm_losses = [example_loss],
        fm_reason = no_reason\<rparr>]]"

definition example_policy :: compat_policy where
  "example_policy =
     \<lparr>cp_required = [''f''], cp_allowed = [''x''], cp_denied = [], cp_loss_sources = Some [(''x'', [''node''])],
      cp_ceiling = \<lparr>lc_allow_only = False, lc_allow = [], lc_deny = []\<rparr>\<rparr>"


section \<open>Grants along a model path\<close>

text \<open>The policy after the nodes of a path, each with its ID, were added in order.\<close>

definition loss_path :: "compat_policy \<Rightarrow> (string \<times> loss_policy) list \<Rightarrow> compat_policy" where
  "loss_path policy nodes = foldl (\<lambda>p (source, node). add_loss_policy p source node) policy nodes"

lemma loss_path_simps [simp]:
  "loss_path policy [] = policy"
  "loss_path policy ((source, node) # nodes) = loss_path (add_loss_policy policy source node) nodes"
  by (simp_all add: loss_path_def)

lemma add_loss_policy_sets:
  "string_set (cp_allowed (add_loss_policy p s n)) = string_set (cp_allowed p) \<union> string_set (lp_allow n)"
  "string_set (cp_denied (add_loss_policy p s n)) = string_set (cp_denied p) \<union> string_set (lp_deny n)"
  "cp_ceiling (add_loss_policy p s n) = cp_ceiling p"
  "cp_required (add_loss_policy p s n) = cp_required p"
  by (auto simp: add_loss_policy_def)

lemma add_sources_get:
  "set (gm_or (add_sources s ids m) i []) = set (gm_or m i []) \<union> (if i \<in> set ids then {s} - {[]} else {})"
  unfolding add_sources_def
  by (induction ids arbitrary: m) (auto simp: gomap_simps)

lemma gm_or_map: "f z = z \<Longrightarrow> gm_or (map (\<lambda>(k, v). (k, f v)) m) i z = f (gm_or m i z)"
  unfolding gm_or_def by (induction m) auto

lemma add_loss_policy_sources:
  "set (loss_sources (add_loss_policy p s n) i) - {[]} =
     (set (loss_sources p i) \<union> (if i \<in> set (lp_allow n) then {s} else {})) - {[]}"
proof -
  have "loss_sources (add_loss_policy p s n) i =
      unique_sorted (gm_or (add_sources s (lp_allow n) (case cp_loss_sources p of None \<Rightarrow> [] | Some m \<Rightarrow> m)) i [])"
    by (simp add: loss_sources_def add_loss_policy_def gm_or_map unique_sorted_def)
  moreover have "gm_or (case cp_loss_sources p of None \<Rightarrow> [] | Some m \<Rightarrow> m) i [] = loss_sources p i"
    by (simp add: loss_sources_def gm_or_def split: option.split)
  ultimately show ?thesis by (auto simp: add_sources_get)
qed

text \<open>
  Along a model path grants accumulate and denials win: a loss is permitted exactly when some
  node of the path (or the starting policy) grants it, none denies it and the ceiling lets it
  through; its recorded sources are exactly the nodes of the path that grant it.
\<close>

theorem loss_path_permits:
  assumes "i \<noteq> []"
  shows "(loss_permitted (loss_path policy nodes) i \<longleftrightarrow>
           (i \<in> set (cp_allowed policy) \<or> (\<exists>(s, n) \<in> set nodes. i \<in> set (lp_allow n))) \<and>
           \<not> (i \<in> set (cp_denied policy) \<or> (\<exists>(s, n) \<in> set nodes. i \<in> set (lp_deny n))) \<and>
           i \<notin> set (lc_deny (cp_ceiling policy)) \<and>
           (lc_allow_only (cp_ceiling policy) \<longrightarrow> i \<in> set (lc_allow (cp_ceiling policy)))) \<and>
         set (loss_sources (loss_path policy nodes) i) - {[]} =
           (set (loss_sources policy i) \<union> {s. \<exists>n. (s, n) \<in> set nodes \<and> i \<in> set (lp_allow n)}) - {[]}"
proof (induction nodes arbitrary: policy)
  case Nil
  then show ?case using assms by (auto simp: loss_permitted_def)
next
  case (Cons sn nodes)
  obtain s n where sn: "sn = (s, n)" by (cases sn)
  have allow: "i \<in> set (cp_allowed (add_loss_policy policy s n)) \<longleftrightarrow>
      i \<in> set (cp_allowed policy) \<or> i \<in> set (lp_allow n)"
    and deny: "i \<in> set (cp_denied (add_loss_policy policy s n)) \<longleftrightarrow>
      i \<in> set (cp_denied policy) \<or> i \<in> set (lp_deny n)"
    using add_loss_policy_sets(1,2) [of policy s n] assms by auto
  have "set (loss_sources (loss_path policy (sn # nodes)) i) - {[]} =
      (set (loss_sources (add_loss_policy policy s n) i) - {[]}) \<union>
      ({s. \<exists>n. (s, n) \<in> set nodes \<and> i \<in> set (lp_allow n)} - {[]})"
    using Cons.IH [of "add_loss_policy policy s n"] sn by auto
  also have "\<dots> = (set (loss_sources policy i) \<union>
      {s. \<exists>n. (s, n) \<in> set (sn # nodes) \<and> i \<in> set (lp_allow n)}) - {[]}"
    unfolding add_loss_policy_sources using sn by auto
  finally show ?case
    using Cons.IH [of "add_loss_policy policy s n"] sn allow deny
    by (auto simp: add_loss_policy_sets(3))
qed

lemma loss_path_permits_witness:
  "\<not> loss_permitted (loss_path example_policy [(''n'', \<lparr>lp_allow = [], lp_deny = [''x'']\<rparr>)]) ''x''"
  using loss_path_permits [of "''x''" example_policy "[(''n'', \<lparr>lp_allow = [], lp_deny = [''x'']\<rparr>)]"] by simp

text \<open>
  Two children of a node are added to the node's policy one after the other, and the map of
  sources is shared: once the first child has been added, a loss that it grants carries its ID among
  the sources on the second child's path, although the second path does not pass through it.
\<close>

theorem sibling_sources_leak:
  assumes "cp_loss_sources parent \<noteq> None" and "i \<in> set (lp_allow node)" and "a \<noteq> []"
  shows "a \<in> set (loss_sources
           (add_loss_policy (caller_after_add parent (add_loss_policy parent a node)) b other) i)"
proof -
  let ?r = "add_loss_policy parent a node"
  have "loss_sources (caller_after_add parent ?r) i = loss_sources ?r i"
    using assms(1) by (auto simp: caller_after_add_def loss_sources_def)
  moreover have "a \<in> set (loss_sources ?r i) - {[]}"
    unfolding add_loss_policy_sources using assms(2,3) by simp
  ultimately have "a \<in> set (loss_sources (caller_after_add parent ?r) i)" by simp
  then have "a \<in> set (loss_sources (add_loss_policy (caller_after_add parent ?r) b other) i) - {[]}"
    unfolding add_loss_policy_sources using assms(3) by simp
  then show ?thesis by simp
qed

lemma sibling_sources_leak_witness:
  "''child-a'' \<in> set (loss_sources
     (add_loss_policy
        (caller_after_add example_policy
           (add_loss_policy example_policy ''child-a'' \<lparr>lp_allow = [''x''], lp_deny = []\<rparr>))
        ''child-b'' \<lparr>lp_allow = [''x''], lp_deny = []\<rparr>) ''x'')"
  by (rule sibling_sources_leak) (simp_all add: example_policy_def)

section \<open>Repeated declarations\<close>

text \<open>
  Two stages that declare the very same loss agree exactly when its values survive the clone the
  first record was stored as; otherwise composing the plan reports a conflict of the loss with itself.
\<close>

theorem merge_same_loss:
  assumes "validate_loss_record l = None"
  shows "(\<exists>ls. merge_loss canon [clone_loss canon l] l = Inr ls) \<longleftrightarrow>
           marshal (clone_value canon (lr_requested l)) = marshal (lr_requested l) \<and>
           marshal (clone_value canon (lr_effective l)) = marshal (lr_effective l)"
proof -
  have enc: "marshal (lr_requested l) \<noteq> None" "marshal (lr_effective l) \<noteq> None"
    using assms by (auto simp: validate_loss_record_def split: if_splits option.splits)
  show ?thesis using enc by (auto simp: clone_loss_def json_values_equal_def)
qed

lemma merge_same_loss_witness:
  "\<exists>ls. merge_loss (\<lambda>s. Some (Encoded s)) [clone_loss (\<lambda>s. Some (Encoded s)) example_loss] example_loss = Inr ls"
proof -
  have "validate_loss_record example_loss = None" by code_simp
  from merge_same_loss [OF this] show ?thesis by (simp add: example_loss_def clone_value_def)
qed

section \<open>The facets and events a request requires\<close>

definition request_has_tool_history :: "message list \<Rightarrow> bool" where
  "request_has_tool_history ms \<longleftrightarrow>
     list_ex (\<lambda>m. msg_tool_calls m \<noteq> [] \<or> msg_role m = ''tool'' \<or> msg_role m = ''function'') ms"

definition request_has_tool_signature :: "message list \<Rightarrow> bool" where
  "request_has_tool_signature ms \<longleftrightarrow>
     list_ex (\<lambda>m. list_ex (\<lambda>c. call_signature c \<noteq> []) (msg_tool_calls m)) ms"

definition structural_keys :: "string list" where
  "structural_keys =
     [''model'', ''stream'', ''messages'', ''input'', ''contents'', ''tools'', ''reasoning_effort'', ''thinking'',
      ''reasoning'', ''conversation_id'', ''response_id'', ''previous_response_id'', ''operationPayload'']"

definition anthropic_keys :: "string list" where
  "anthropic_keys =
     [''system'', ''tool_choice'', ''max_tokens'', ''temperature'', ''top_p'', ''stop_sequences'', ''metadata'',
      ''output_config'']"

definition has_generation_options :: "raw_body \<Rightarrow> string \<Rightarrow> bool" where
  "has_generation_options raw format \<longleftrightarrow>
     (let structural = (if format = format_anthropic then structural_keys @ anthropic_keys else structural_keys)
      in list_ex (\<lambda>k. k \<notin> set structural) (raw_keys raw))"

definition required_request_facets :: "request \<Rightarrow> string list" where
  "required_request_facets r =
     (let th = rq_thinking r; cn = rq_continuity r; md = rq_modalities r
      in unique_sorted
        ([''wire.request''] @
         (if rq_prompt r \<noteq> [] then [''prompt.layers''] else []) @
         (if rq_tools r \<noteq> [] then [''tools.definitions''] else []) @
         (if choice_set (rq_tool_choice r) then [''tools.choice''] else []) @
         (if request_has_tool_history (rq_messages r) then [''tools.history''] else []) @
         (if request_has_tool_signature (rq_messages r) then [''reasoning.signature''] else []) @
         (if th_mode th \<noteq> [] \<and> th_mode th \<noteq> ''inherit'' \<and> th_mode th \<noteq> ''budget'' \<or> th_effort th \<noteq> []
          then [''reasoning.intent''] else []) @
         (if th_mode th = ''budget'' \<or> 0 < th_budget_tokens th then [''reasoning.budget''] else []) @
         (if cn_previous_response cn \<noteq> [] \<or> cn_response_id cn \<noteq> [] \<or> cn_encrypted_content cn \<noteq> []
          then [''continuity.previous_response''] else []) @
         (if md_vision md then [''input.vision''] else []) @
         (if md_audio_input md then [''input.audio''] else []) @
         (if md_video_input md then [''input.video''] else []) @
         (if md_pdf md then [''input.document''] else []) @
         map (\<lambda>a. operation_artifact_facet (ar_role a)) (filter (\<lambda>a. ar_role a \<noteq> []) (rq_artifacts r)) @
         (if has_options (rq_generation r) \<or> has_generation_options (rq_raw r) (rq_source_format r)
          then [''generation.options''] else []) @
         rq_unsupported_facets r))"

definition unique_event_kinds :: "string list \<Rightarrow> string list" where
  "unique_event_kinds events = sort (remdups (filter (\<lambda>e. e \<noteq> []) events))"

definition required_response_events :: "request \<Rightarrow> string list" where
  "required_response_events r =
     (let th = rq_thinking r
      in unique_event_kinds
        ([''response_complete''] @
         (if rq_operation r = operation_chat_generate then [''text_delta''] else []) @
         (if rq_tools r \<noteq> [] then [''tool_call_delta''] else []) @
         (if th_mode th \<noteq> [] \<and> th_mode th \<noteq> ''inherit'' \<and> th_mode th \<noteq> ''disabled'' \<or> th_effort th \<noteq> [] \<or>
             0 < th_budget_tokens th
          then [''thinking_delta''] else [])))"

definition response_event_mappings :: "string list \<Rightarrow> facet_mapping list" where
  "response_event_mappings events =
     map (\<lambda>e. \<lparr>fm_facet = response_event_facet e, fm_paths = [''upstream.response.events''],
                fm_disposition = FacetPreserved, fm_losses = [], fm_reason = no_reason\<rparr>)
       (unique_event_kinds events)"

text \<open>
  What the codecs of a request are asked for: a request with an unsupported facet, a tool signature
  or any body key the normalizer did not consume always names the facet that guards it.
\<close>

lemma required_request_facets_mem:
  "''wire.request'' \<in> set (required_request_facets r)"
  "f \<in> set (rq_unsupported_facets r) \<Longrightarrow> f \<noteq> [] \<Longrightarrow> f \<in> set (required_request_facets r)"
  "request_has_tool_signature (rq_messages r) \<Longrightarrow> ''reasoning.signature'' \<in> set (required_request_facets r)"
  "k \<in> set (raw_keys (rq_raw r)) \<Longrightarrow> k \<notin> set structural_keys \<Longrightarrow> k \<notin> set anthropic_keys \<Longrightarrow>
   ''generation.options'' \<in> set (required_request_facets r)"
  by (auto simp: required_request_facets_def Let_def has_generation_options_def list_ex_iff)

lemma response_event_mappings_serve:
  assumes "e \<in> set events" and "e \<noteq> []"
  shows "facet_served True (response_event_mappings events) (response_event_facet e)"
  using assms
  by (auto simp: facet_served_def response_event_mappings_def unique_event_kinds_def refuses_def)

end
