(* ===== verification/ModelGraph.thy ===== *)
theory ModelGraph
  imports Scheduler Compatibility
begin

text \<open>
  The typed model graph (\<open>internal/kernel/graph.go\<close>), its published form (\<open>snapshot.go\<close>) and its
  construction from control-plane records (\<open>builder.go\<close>). A nil map of a snapshot is \<open>None\<close>; reading
  it is reading an empty map. Values are immutable here, so the deep copies the code makes
  (\<open>cloneNode\<close>, \<open>cloneRoute\<close>, \<open>cloneTransformBindings\<close>) are identities and do not appear.
  \<open>valid_header\<close> stands for \<open>httpguts.ValidHeaderFieldName\<close> of \<open>golang.org/x/net\<close>.
\<close>

section \<open>Snapshots\<close>

record snapshot =
  sn_version :: nat
  sn_ceiling :: loss_policy_ceiling
  sn_public :: "(string, public_model) gomap option"
  sn_routes :: "(string, route) gomap option"
  sn_groups :: "(string, string list) gomap option"
  sn_wires :: "(string, string list) gomap option"
  sn_nodes :: "(string, model_node) gomap option"
  sn_transforms :: "transform_binding list"

definition entries :: "('k, 'v) gomap option \<Rightarrow> ('k, 'v) gomap" where
  "entries m = (case m of None \<Rightarrow> [] | Some m' \<Rightarrow> m')"

lemma entries_simps [simp]: "entries None = []" "entries (Some m) = m"
  by (simp_all add: entries_def)

definition empty_ceiling :: loss_policy_ceiling where
  "empty_ceiling = \<lparr>lc_allow_only = False, lc_allow = [], lc_deny = []\<rparr>"

definition zero_snapshot :: snapshot where
  "zero_snapshot =
     \<lparr>sn_version = 0, sn_ceiling = empty_ceiling, sn_public = None, sn_routes = None, sn_groups = None,
      sn_wires = None, sn_nodes = None, sn_transforms = []\<rparr>"

definition get_route :: "snapshot \<Rightarrow> string \<Rightarrow> route option" where
  "get_route s i = gm_get (entries (sn_routes s)) i"

definition get_group :: "snapshot \<Rightarrow> string \<Rightarrow> string list option" where
  "get_group s i = gm_get (entries (sn_groups s)) i"

definition get_wire :: "snapshot \<Rightarrow> string \<Rightarrow> string list option" where
  "get_wire s i = gm_get (entries (sn_wires s)) i"

definition get_node :: "snapshot \<Rightarrow> string \<Rightarrow> model_node option" where
  "get_node s i = gm_get (entries (sn_nodes s)) i"

datatype policy_header_error = HeaderInvalid | HeaderReserved | RetentionUnbounded

datatype graph_error =
    NodeLossPolicy string policy_error
  | ModelCycle string
  | UnknownModelNode string
  | UnknownRoute string
  | UnknownRouteGroup string
  | UntypedMember string string
  | UnknownReference string
  | SnapshotInvalid
  | SnapshotCeiling policy_error
  | PublicEmptyTarget string
  | PublicUnresolved string graph_error
  | RouteRecovery string
  | RouteNoBindings string
  | RouteIncompleteBinding string
  | RouteEmptyAdapter string string
  | RouteIdempotency string string policy_header_error
  | RouteUnboundIdempotency string string
  | SnapshotTransform binding_error
  | ModelNotPublished
  | PublicTargetsNonModel string string
  | PublicEmptyName
  | PublicDuplicate string
  | RouteEmptyID
  | RouteDuplicate string
  | GroupEmptyName
  | WireEmptyName
  | NodeEmptyID
  | NodeDuplicate string

section \<open>Typing the members\<close>

definition classify_member :: "snapshot \<Rightarrow> string \<Rightarrow> member_ref" where
  "classify_member s ref =
     (if get_node s ref \<noteq> None then member_of MemberModel ref
      else if get_route s ref \<noteq> None then member_of MemberRoute ref
      else if get_group s ref \<noteq> None then member_of MemberRouteGroup ref
      else if get_wire s ref \<noteq> None then member_of MemberRouteGroup ref
      else member_of MemberUntyped ref)"

definition put_node :: "string \<Rightarrow> model_node \<Rightarrow> snapshot \<Rightarrow> snapshot" where
  "put_node i n s = s\<lparr>sn_nodes := Some (gm_put i n (entries (sn_nodes s)))\<rparr>"

definition route_kind :: "member_kind \<Rightarrow> bool" where
  "route_kind k \<longleftrightarrow> k = MemberRoute \<or> k = MemberRouteGroup"

text \<open>A physical node for every public target that is a route or a group of routes.\<close>

fun ensure_targets :: "public_model list \<Rightarrow> snapshot \<Rightarrow> snapshot" where
  "ensure_targets [] s = s"
| "ensure_targets (p # ps) s =
     (if get_node s (pm_target_ref p) \<noteq> None then ensure_targets ps s
      else let m = classify_member s (pm_target_ref p)
           in if route_kind (mr_kind m)
              then ensure_targets ps
                (put_node (pm_target_ref p)
                  (zero_node\<lparr>mn_id := pm_target_ref p, mn_kind := ModelPhysical,
                     mn_strategy := StrategyFallback, mn_members := [m]\<rparr>) s)
              else ensure_targets ps s)"

definition complete_node :: "snapshot \<Rightarrow> string \<Rightarrow> model_node \<Rightarrow> model_node" where
  "complete_node s i n =
     n\<lparr>mn_id := (if mn_id n = [] then i else mn_id n),
       mn_strategy := (if mn_strategy n = StrategyUnset then StrategyFallback else mn_strategy n),
       mn_strategy_ref :=
         (if ref_id (mn_strategy_ref n) = [] then strategy_ref ''ordered-fallback'' 1 else mn_strategy_ref n),
       mn_kind :=
         (if mn_kind n = NodeUnset
          then if list_ex (\<lambda>m. route_kind (mr_kind m)) (mn_members n) then ModelPhysical else ModelCombo
          else mn_kind n),
       mn_members :=
         map (\<lambda>m. if mr_kind m = MemberUntyped then classify_member s (mr_id m) else m) (mn_members n)\<rparr>"

text \<open>
  The loop rewrites one entry at a time; the set of nodes, which is all that \<open>classifyMember\<close> reads of
  them, does not change while it runs.
\<close>

fun complete_nodes :: "(string \<times> model_node) list \<Rightarrow> snapshot \<Rightarrow> graph_error + snapshot" where
  "complete_nodes [] s = Inr s"
| "complete_nodes ((i, n) # rest) s =
     (case validate_loss_policy (mn_loss_policy n) of
        Some e \<Rightarrow> Inl (NodeLossPolicy i e)
      | None \<Rightarrow> complete_nodes rest (put_node i (complete_node s i n) s))"

definition ensure_model_nodes :: "snapshot \<Rightarrow> graph_error + snapshot" where
  "ensure_model_nodes s =
     (let s1 = ensure_targets (map snd (entries (sn_public s))) (s\<lparr>sn_nodes := Some (entries (sn_nodes s))\<rparr>)
      in complete_nodes (entries (sn_nodes s1)) s1)"

section \<open>Validating the graph\<close>

definition member_known :: "snapshot \<Rightarrow> string \<Rightarrow> member_ref \<Rightarrow> graph_error option" where
  "member_known s i m =
     (case mr_kind m of
        MemberRoute \<Rightarrow> if get_route s (mr_id m) = None then Some (UnknownRoute (mr_id m)) else None
      | MemberRouteGroup \<Rightarrow>
          if get_group s (mr_id m) = None \<and> get_wire s (mr_id m) = None
          then Some (UnknownRouteGroup (mr_id m)) else None
      | MemberModel \<Rightarrow> None
      | _ \<Rightarrow> Some (UntypedMember i (mr_id m)))"

definition unvisited :: "snapshot \<Rightarrow> string list \<Rightarrow> nat" where
  "unvisited s visiting = card (set (gm_keys (entries (sn_nodes s))) - set visiting)"

lemma unvisited_less:
  assumes "get_node s i = Some n" and "i \<notin> set visiting"
  shows "unvisited s (i # visiting) < unvisited s visiting"
proof -
  have "i \<in> set (gm_keys (entries (sn_nodes s)))"
    using assms(1) by (force simp: get_node_def gm_keys_def dest: map_of_SomeD)
  then show ?thesis
    unfolding unvisited_def using assms(2) by (intro psubset_card_mono) auto
qed

text \<open>
  The depth-first walk. \<open>visiting\<close> is the path from the root of the walk, \<open>visited\<close> the finished
  nodes; the second function is the loop over the members of one node.
\<close>

function walk_node :: "snapshot \<Rightarrow> string list \<Rightarrow> string list \<Rightarrow> string \<Rightarrow> graph_error + string list"
  and walk_members ::
    "snapshot \<Rightarrow> string list \<Rightarrow> string list \<Rightarrow> string \<Rightarrow> member_ref list \<Rightarrow> graph_error + string list" where
  "walk_node s visiting visited i =
     (if i \<in> set visiting then Inl (ModelCycle i)
      else if i \<in> set visited then Inr visited
      else case get_node s i of
             None \<Rightarrow> Inl (UnknownModelNode i)
           | Some node \<Rightarrow>
               (case walk_members s (i # visiting) visited i (mn_members node) of
                  Inl e \<Rightarrow> Inl e
                | Inr visited' \<Rightarrow> Inr (i # visited')))"
| "walk_members s visiting visited i [] = Inr visited"
| "walk_members s visiting visited i (m # ms) =
     (if mr_kind m = MemberModel
      then (case walk_node s visiting visited (mr_id m) of
              Inl e \<Rightarrow> Inl e
            | Inr visited' \<Rightarrow> walk_members s visiting visited' i ms)
      else (case member_known s i m of
              Some e \<Rightarrow> Inl e
            | None \<Rightarrow> walk_members s visiting visited i ms))"
  by pat_completeness auto

termination
  by (relation "measures
        [\<lambda>x. case x of Inl (s, visiting, _, _) \<Rightarrow> unvisited s visiting
                | Inr (s, visiting, _, _, _) \<Rightarrow> unvisited s visiting,
         \<lambda>x. case x of Inl _ \<Rightarrow> 0 | Inr (_, _, _, _, ms) \<Rightarrow> Suc (length ms)]")
     (auto simp: unvisited_less)

declare walk_node.simps [simp del]

fun walk_all :: "snapshot \<Rightarrow> string list \<Rightarrow> string list \<Rightarrow> graph_error + string list" where
  "walk_all s visited [] = Inr visited"
| "walk_all s visited (i # is) =
     (case walk_node s [] visited i of
        Inl e \<Rightarrow> Inl e
      | Inr visited' \<Rightarrow> walk_all s visited' is)"

definition validate_model_graph :: "snapshot \<Rightarrow> graph_error option" where
  "validate_model_graph s =
     (case ensure_model_nodes s of
        Inl e \<Rightarrow> Some e
      | Inr s' \<Rightarrow>
          (case walk_all s' [] (gm_keys (entries (sn_nodes s'))) of
             Inl e \<Rightarrow> Some e
           | Inr _ \<Rightarrow> None))"

section \<open>The walk decides acyclicity\<close>

definition edges :: "snapshot \<Rightarrow> (string \<times> string) set" where
  "edges s = {(i, mr_id m) | i n m.
     get_node s i = Some n \<and> m \<in> set (mn_members n) \<and> mr_kind m = MemberModel}"

text \<open>Every member of a node is typed and refers to something that exists.\<close>

definition node_sound :: "snapshot \<Rightarrow> string \<Rightarrow> bool" where
  "node_sound s i \<longleftrightarrow>
     (case get_node s i of
        None \<Rightarrow> False
      | Some n \<Rightarrow> \<forall>m \<in> set (mn_members n). member_known s i m = None \<and>
                    (mr_kind m = MemberModel \<longrightarrow> get_node s (mr_id m) \<noteq> None))"

definition graph_sound :: "snapshot \<Rightarrow> bool" where
  "graph_sound s \<longleftrightarrow> acyclic (edges s) \<and> (\<forall>i \<in> set (gm_keys (entries (sn_nodes s))). node_sound s i)"

text \<open>The finished nodes, latest first: each node's model members were finished before it.\<close>

definition members_done :: "snapshot \<Rightarrow> string \<Rightarrow> member_ref list \<Rightarrow> string list \<Rightarrow> bool" where
  "members_done s i ms vs \<longleftrightarrow>
     (\<forall>m \<in> set ms. member_known s i m = None \<and> (mr_kind m = MemberModel \<longrightarrow> mr_id m \<in> set vs))"

fun finished :: "snapshot \<Rightarrow> string list \<Rightarrow> bool" where
  "finished s [] = True"
| "finished s (i # vs) \<longleftrightarrow>
     finished s vs \<and> i \<notin> set vs \<and> (\<exists>n. get_node s i = Some n \<and> members_done s i (mn_members n) vs)"

lemma members_done_mono: "members_done s i ms vs \<Longrightarrow> set vs \<subseteq> set vs' \<Longrightarrow> members_done s i ms vs'"
  by (auto simp: members_done_def)

lemma finished_edges: "finished s vs \<Longrightarrow> i \<in> set vs \<Longrightarrow> (i, j) \<in> edges s \<Longrightarrow> j \<in> set vs"
  by (induction vs) (auto simp: edges_def members_done_def)

lemma finished_sound: "finished s vs \<Longrightarrow> i \<in> set vs \<Longrightarrow> node_sound s i"
proof (induction vs)
  case (Cons v vs)
  have exists: "finished s us \<Longrightarrow> j \<in> set us \<Longrightarrow> get_node s j \<noteq> None" for us j
    by (induction us) auto
  show ?case
  proof (cases "i = v")
    case True
    with Cons.prems exists [of vs] show ?thesis by (auto simp: node_sound_def members_done_def)
  qed (use Cons in auto)
qed simp

text \<open>An edge between finished nodes leads to one finished earlier, so there is no cycle.\<close>

lemma finished_acyclic: "finished s vs \<Longrightarrow> acyclic (edges s \<inter> set vs \<times> set vs)"
proof (induction vs)
  case (Cons v vs)
  let ?E = "edges s \<inter> set vs \<times> set vs"
  have out: "(v, j) \<in> edges s \<Longrightarrow> j \<in> set vs" for j
    using Cons.prems by (auto simp: edges_def members_done_def)
  have into: "(i, v) \<in> edges s \<Longrightarrow> i \<in> set (v # vs) \<Longrightarrow> False" for i
    using Cons.prems finished_edges [of s vs i v] out by auto
  have "edges s \<inter> set (v # vs) \<times> set (v # vs) \<subseteq> ?E \<union> {v} \<times> set vs"
    using into out by auto
  moreover have "acyclic (?E \<union> {v} \<times> set vs)"
  proof (rule acyclicI, rule allI, rule notI)
    fix x
    assume "(x, x) \<in> (?E \<union> {v} \<times> set vs)\<^sup>+"
    have v: "v \<notin> set vs" using Cons.prems by simp
    have "(a, b) \<in> (?E \<union> {v} \<times> set vs)\<^sup>+ \<Longrightarrow> b \<in> set vs \<and> (a \<in> set vs \<longrightarrow> (a, b) \<in> ?E\<^sup>+)" for a b
    proof (induction rule: trancl_induct)
      case (step b c)
      then have "(b, c) \<in> ?E" using v by auto
      with step.IH show ?case by (meson IntD2 mem_Sigma_iff trancl.trancl_into_trancl)
    qed (use v in auto)
    from this [OF \<open>(x, x) \<in> (?E \<union> {v} \<times> set vs)\<^sup>+\<close>] Cons.IH Cons.prems show False
      by (simp add: acyclic_def)
  qed
  ultimately show ?case by (rule acyclic_subset [rotated])
qed (simp add: acyclic_def)

text \<open>A walk that succeeds extends the finished nodes by the node it started from.\<close>

lemma walk_finished:
  shows "walk_node s visiting visited i = Inr visited' \<Longrightarrow> finished s visited \<Longrightarrow>
         set visited \<inter> set visiting = {} \<Longrightarrow>
         finished s visited' \<and> set visited \<subseteq> set visited' \<and> i \<in> set visited' \<and> set visited' \<inter> set visiting = {}"
    and "walk_members s visiting visited i ms = Inr visited' \<Longrightarrow> finished s visited \<Longrightarrow>
         set visited \<inter> set visiting = {} \<Longrightarrow>
         finished s visited' \<and> set visited \<subseteq> set visited' \<and> members_done s i ms visited' \<and>
         set visited' \<inter> set visiting = {}"
proof (induction s visiting visited i and s visiting visited i ms
    arbitrary: visited' and visited' rule: walk_node_walk_members.induct)
  case (1 s visiting visited i)
  show ?case
  proof (cases "i \<in> set visited")
    case False
    with "1.prems"(1) obtain n vs where n: "i \<notin> set visiting" "get_node s i = Some n"
      "walk_members s (i # visiting) visited i (mn_members n) = Inr vs" "visited' = i # vs"
      by (subst (asm) walk_node.simps) (auto split: if_splits option.splits sum.splits)
    with "1.IH" [OF n(1) False n(2) n(3)] "1.prems"(2,3) False show ?thesis by auto
  qed (use "1.prems" in \<open>auto simp: walk_node.simps [of s visiting visited i] split: if_splits\<close>)
next
  case (2 s visiting visited i)
  then show ?case by (simp add: members_done_def)
next
  case (3 s visiting visited i m ms)
  show ?case
  proof (cases "mr_kind m = MemberModel")
    case True
    with "3.prems"(1) obtain vs where vs: "walk_node s visiting visited (mr_id m) = Inr vs"
      "walk_members s visiting vs i ms = Inr visited'"
      by (auto split: sum.splits)
    with "3.IH"(1) [OF True vs(1)] "3.prems"(2,3) "3.IH"(2) [OF True vs(1) vs(2)] True show ?thesis
      by (auto simp: members_done_def member_known_def)
  next
    case False
    with "3.prems" "3.IH"(3) [OF False] show ?thesis
      by (auto simp: members_done_def split: option.splits)
  qed
qed

lemma walk_all_finished:
  "walk_all s visited is = Inr visited' \<Longrightarrow> finished s visited \<Longrightarrow>
   finished s visited' \<and> set visited \<subseteq> set visited' \<and> set is \<subseteq> set visited'"
proof (induction "is" arbitrary: visited)
  case (Cons i "is")
  then obtain vs where vs: "walk_node s [] visited i = Inr vs" "walk_all s vs is = Inr visited'"
    by (auto split: sum.splits)
  with walk_finished(1) [OF vs(1)] Cons.prems(2) Cons.IH [OF vs(2)] show ?case by auto
qed simp

text \<open>On a sound graph the walk meets neither a cycle nor a missing reference.\<close>

lemma walk_complete:
  assumes "acyclic (edges s)" and "\<And>i. get_node s i \<noteq> None \<Longrightarrow> node_sound s i"
  shows "get_node s i \<noteq> None \<Longrightarrow> \<forall>v \<in> set visiting. (v, i) \<in> (edges s)\<^sup>+ \<Longrightarrow>
         \<exists>vs. walk_node s visiting visited i = Inr vs"
    and "\<exists>n. get_node s i = Some n \<and> set ms \<subseteq> set (mn_members n) \<Longrightarrow>
         \<forall>v \<in> set visiting. (v, i) \<in> (edges s)\<^sup>* \<Longrightarrow>
         \<exists>vs. walk_members s visiting visited i ms = Inr vs"
  using assms
proof (induction s visiting visited i and s visiting visited i ms rule: walk_node_walk_members.induct)
  case (1 s visiting visited i)
  have no: "i \<notin> set visiting" using "1.prems"(2,3) by (auto simp: acyclic_def)
  obtain n where n: "get_node s i = Some n" using "1.prems"(1) by blast
  show ?case
  proof (cases "i \<in> set visited")
    case False
    have "\<forall>v \<in> set (i # visiting). (v, i) \<in> (edges s)\<^sup>*"
      using "1.prems"(2) by (auto intro: trancl_into_rtrancl)
    with "1.IH" [OF no False n] n "1.prems"(3,4)
    obtain vs where "walk_members s (i # visiting) visited i (mn_members n) = Inr vs" by blast
    with no False n show ?thesis by (simp add: walk_node.simps [of s visiting visited i])
  qed (use no in \<open>simp add: walk_node.simps [of s visiting visited i]\<close>)
next
  case (2 s visiting visited i)
  then show ?case by simp
next
  case (3 s visiting visited i m ms)
  then obtain n where n: "get_node s i = Some n" "m \<in> set (mn_members n)" "set ms \<subseteq> set (mn_members n)" by auto
  have sound: "member_known s i m = None" "mr_kind m = MemberModel \<Longrightarrow> get_node s (mr_id m) \<noteq> None"
    using "3.prems"(4) [of i] n by (auto simp: node_sound_def)
  show ?case
  proof (cases "mr_kind m = MemberModel")
    case True
    have "(i, mr_id m) \<in> edges s" using n True by (auto simp: edges_def)
    then have "\<forall>v \<in> set visiting. (v, mr_id m) \<in> (edges s)\<^sup>+"
      using "3.prems"(2) by (auto intro: rtrancl_into_trancl1)
    with "3.IH"(1) [OF True] sound(2) [OF True] "3.prems"(3,4)
    obtain vs where vs: "walk_node s visiting visited (mr_id m) = Inr vs" by blast
    with "3.IH"(2) [OF True vs] n "3.prems"(2-4) True show ?thesis by auto
  next
    case False
    with "3.IH"(3) [OF False sound(1)] n "3.prems"(2-4) sound(1) show ?thesis by auto
  qed
qed

lemma get_node_keys: "i \<in> set (gm_keys (entries (sn_nodes s))) \<longleftrightarrow> get_node s i \<noteq> None"
  by (force simp: get_node_def gm_keys_def map_of_eq_None_iff)

lemma walk_all_complete:
  assumes "graph_sound s" and "\<forall>i \<in> set is. get_node s i \<noteq> None"
  shows "\<exists>vs. walk_all s visited is = Inr vs"
  using assms(2)
proof (induction "is" arbitrary: visited)
  case (Cons i "is")
  obtain vs where "walk_node s [] visited i = Inr vs"
    using walk_complete(1) [of s i "[]" visited] assms(1) Cons.prems
    by (auto simp: graph_sound_def get_node_keys)
  with Cons show ?case by simp
qed simp

lemma walk_all_iff:
  "(\<exists>vs. walk_all s [] (gm_keys (entries (sn_nodes s))) = Inr vs) \<longleftrightarrow> graph_sound s"
proof
  assume "\<exists>vs. walk_all s [] (gm_keys (entries (sn_nodes s))) = Inr vs"
  then obtain vs where "walk_all s [] (gm_keys (entries (sn_nodes s))) = Inr vs" by blast
  from walk_all_finished [OF this]
  have vs: "finished s vs" "set (gm_keys (entries (sn_nodes s))) \<subseteq> set vs" by simp_all
  have "edges s \<subseteq> set vs \<times> set vs"
  proof
    fix e
    assume "e \<in> edges s"
    then obtain i j where e: "e = (i, j)" "(i, j) \<in> edges s" by (cases e) auto
    then have "i \<in> set (gm_keys (entries (sn_nodes s)))" by (auto simp: edges_def get_node_keys)
    with vs finished_edges [OF vs(1) _ e(2)] e(1) show "e \<in> set vs \<times> set vs" by blast
  qed
  then have "edges s \<inter> set vs \<times> set vs = edges s" by blast
  with finished_acyclic [OF vs(1)] finished_sound [OF vs(1)] vs(2) show "graph_sound s"
    by (auto simp: graph_sound_def)
next
  assume "graph_sound s"
  then show "\<exists>vs. walk_all s [] (gm_keys (entries (sn_nodes s))) = Inr vs"
    by (rule walk_all_complete) (simp add: get_node_keys)
qed

text \<open>
  C19. The graph check accepts a snapshot exactly when the nodes it completes form an acyclic graph
  whose members are all typed and refer to existing nodes, routes and groups.
\<close>

theorem validate_model_graph_iff:
  "validate_model_graph s = None \<longleftrightarrow> (\<exists>s'. ensure_model_nodes s = Inr s' \<and> graph_sound s')"
  using walk_all_iff by (force simp: validate_model_graph_def split: sum.split)

section \<open>Resolving references\<close>

definition resolve_route_member :: "snapshot \<Rightarrow> member_ref \<Rightarrow> route list" where
  "resolve_route_member s m =
     (case mr_kind m of
        MemberRoute \<Rightarrow> (case get_route s (mr_id m) of None \<Rightarrow> [] | Some r \<Rightarrow> [r])
      | MemberRouteGroup \<Rightarrow>
          (let group = (case get_group s (mr_id m) of None \<Rightarrow> [] | Some ids \<Rightarrow> ids);
               ids = (if group = [] then (case get_wire s (mr_id m) of None \<Rightarrow> [] | Some w \<Rightarrow> w) else group)
           in List.map_filter (get_route s) (rev (remdups (rev ids))))
      | _ \<Rightarrow> [])"

definition enabled_variants :: "snapshot \<Rightarrow> string list \<Rightarrow> route list" where
  "enabled_variants s ids = filter rt_enabled (List.map_filter (get_route s) ids)"

fun add_unseen :: "route list \<Rightarrow> route list \<Rightarrow> route list" where
  "add_unseen acc [] = acc"
| "add_unseen acc (r # rs) = add_unseen (if rt_id r \<in> rt_id ` set acc then acc else acc @ [r]) rs"

text \<open>\<open>stack\<close> holds the nodes being resolved; the second function is the loop over a node's members.\<close>

function resolve_ref :: "snapshot \<Rightarrow> string list \<Rightarrow> string \<Rightarrow> graph_error + route list"
  and resolve_members ::
    "snapshot \<Rightarrow> string list \<Rightarrow> route list \<Rightarrow> member_ref list \<Rightarrow> graph_error + route list" where
  "resolve_ref s stack ref =
     (case get_route s ref of
        Some r \<Rightarrow> Inr (if rt_enabled r then [r] else [])
      | None \<Rightarrow>
          (case get_group s ref of
             Some ids \<Rightarrow> Inr (enabled_variants s ids)
           | None \<Rightarrow>
               (case get_wire s ref of
                  Some ids \<Rightarrow> Inr (enabled_variants s ids)
                | None \<Rightarrow>
                    (case get_node s ref of
                       None \<Rightarrow> Inl (UnknownReference ref)
                     | Some n \<Rightarrow>
                         if ref \<in> set stack then Inl (ModelCycle ref)
                         else resolve_members s (ref # stack) [] (mn_members n)))))"
| "resolve_members s stack acc [] = Inr acc"
| "resolve_members s stack acc (m # ms) =
     (case (if mr_kind m = MemberRouteGroup then Inr (resolve_route_member s m)
            else resolve_ref s stack (mr_id m)) of
        Inl e \<Rightarrow> Inl e
      | Inr items \<Rightarrow> resolve_members s stack (add_unseen acc items) ms)"
  by pat_completeness auto

termination
  by (relation "measures
        [\<lambda>x. case x of Inl (s, stack, _) \<Rightarrow> unvisited s stack
                | Inr (s, stack, _, _) \<Rightarrow> unvisited s stack,
         \<lambda>x. case x of Inl _ \<Rightarrow> 0 | Inr (_, _, _, ms) \<Rightarrow> Suc (length ms)]")
     (auto simp: unvisited_less)

declare resolve_ref.simps [simp del]

definition resolve_public :: "snapshot \<Rightarrow> string \<Rightarrow> graph_error + resolved_model" where
  "resolve_public s name =
     (case gm_get (entries (sn_public s)) name of
        None \<Rightarrow> Inl ModelNotPublished
      | Some p \<Rightarrow>
          (case resolve_ref s [] (pm_target_ref p) of
             Inl e \<Rightarrow> Inl e
           | Inr items \<Rightarrow>
               (case get_node s (pm_target_ref p) of
                  None \<Rightarrow> Inl (PublicTargetsNonModel name (pm_target_ref p))
                | Some n \<Rightarrow>
                    Inr \<lparr>rm_public_name = name, rm_target_ref = pm_target_ref p,
                         rm_strategy = (if mn_strategy n = StrategyUnset then StrategyFallback else mn_strategy n),
                         rm_strategy_ref = mn_strategy_ref n, rm_strategy_config = mn_strategy_config n,
                         rm_sticky_limit = (if mn_sticky_limit n < 1 then 1 else mn_sticky_limit n),
                         rm_candidates = items\<rparr>)))"

definition resolve_model_node :: "snapshot \<Rightarrow> string \<Rightarrow> graph_error + model_node" where
  "resolve_model_node s name =
     (case gm_get (entries (sn_public s)) name of
        None \<Rightarrow> Inl ModelNotPublished
      | Some p \<Rightarrow>
          (case ensure_model_nodes s of
             Inl e \<Rightarrow> Inl e
           | Inr s' \<Rightarrow>
               (case get_node s' (pm_target_ref p) of
                  None \<Rightarrow> Inl (PublicTargetsNonModel name (pm_target_ref p))
                | Some n \<Rightarrow> Inr n)))"

definition candidates_by_id :: "route list \<Rightarrow> string list" where
  "candidates_by_id items = sort (map rt_id items)"

section \<open>Validating a snapshot\<close>

definition reserved_headers :: "string list" where
  "reserved_headers =
     [''authorization'', ''proxy-authorization'', ''cookie'', ''set-cookie'', ''host'', ''content-length'',
      ''content-type'', ''transfer-encoding'', ''connection'', ''trailer'', ''upgrade'', ''te'', ''keep-alive'']"

text \<open>
  A valid header name is ASCII, so lowering it is bytewise. \<open>9223372036\<close> is the number of whole
  seconds in the largest duration.
\<close>

definition idempotency_validate :: "(string \<Rightarrow> bool) \<Rightarrow> idempotency_policy \<Rightarrow> policy_header_error option" where
  "idempotency_validate valid_header p =
     (if \<not> valid_header (ip_header p) then Some HeaderInvalid
      else if map ascii_lower (ip_header p) \<in> set reserved_headers then Some HeaderReserved
      else if ip_min_retention_seconds p \<le> 0 \<or> 9223372036 < ip_min_retention_seconds p
      then Some RetentionUnbounded
      else None)"

definition permits_replay :: "(string \<Rightarrow> bool) \<Rightarrow> idempotency_policy \<Rightarrow> go_time \<Rightarrow> go_time \<Rightarrow> bool" where
  "permits_replay valid_header p start now \<longleftrightarrow>
     idempotency_validate valid_header p = None \<and> \<not> is_zero start \<and> \<not> before now start \<and>
     time_sub now start < wrap64 (ip_min_retention_seconds p * second)"

definition binding_invalid ::
    "(string \<Rightarrow> bool) \<Rightarrow> string \<Rightarrow> string \<times> route_operation_binding \<Rightarrow> graph_error option" where
  "binding_invalid valid_header i ob =
     (case ob of (operation, b) \<Rightarrow>
        if operation = [] \<or> ob_adapter_ids b = [] then Some (RouteIncompleteBinding i)
        else if [] \<in> set (ob_adapter_ids b) then Some (RouteEmptyAdapter i operation)
        else first_error
          (\<lambda>(adapter, p).
             case idempotency_validate valid_header p of
               Some e \<Rightarrow> Some (RouteIdempotency i operation e)
             | None \<Rightarrow> if adapter \<notin> set (ob_adapter_ids b) then Some (RouteUnboundIdempotency i operation)
                       else None)
          (ob_idempotency b))"

definition route_invalid :: "(string \<Rightarrow> bool) \<Rightarrow> string \<times> route \<Rightarrow> graph_error option" where
  "route_invalid valid_header ir =
     (case ir of (i, r) \<Rightarrow>
        if \<not> recovery_valid (rt_credential_recovery r) then Some (RouteRecovery i)
        else if rt_enabled r \<and> rt_operation_bindings r = [] then Some (RouteNoBindings i)
        else first_error (binding_invalid valid_header i) (rt_operation_bindings r))"

definition public_invalid :: "snapshot \<Rightarrow> string \<times> public_model \<Rightarrow> graph_error option" where
  "public_invalid s np =
     (case np of (name, p) \<Rightarrow>
        if name = [] \<or> pm_target_ref p = [] then Some (PublicEmptyTarget name)
        else case resolve_ref s [] (pm_target_ref p) of
               Inl e \<Rightarrow> Some (PublicUnresolved name e)
             | Inr _ \<Rightarrow> None)"

fun transforms_invalid :: "string list \<Rightarrow> transform_binding list \<Rightarrow> binding_error option" where
  "transforms_invalid seen [] = None"
| "transforms_invalid seen (b # bs) =
     (case validate_transform_binding b of
        Some e \<Rightarrow> Some e
      | None \<Rightarrow> if tb_id b \<in> set seen then Some BindingDuplicateID else transforms_invalid (tb_id b # seen) bs)"

definition validate_snapshot :: "(string \<Rightarrow> bool) \<Rightarrow> snapshot \<Rightarrow> graph_error option" where
  "validate_snapshot valid_header s =
     (if sn_public s = None \<or> sn_routes s = None \<or> sn_groups s = None \<or> sn_wires s = None \<or> sn_nodes s = None
      then Some SnapshotInvalid
      else case validate_loss_ceiling (sn_ceiling s) of
        Some e \<Rightarrow> Some (SnapshotCeiling e)
      | None \<Rightarrow>
          (case first_error (public_invalid s) (entries (sn_public s)) of
             Some e \<Rightarrow> Some e
           | None \<Rightarrow>
               (case first_error (route_invalid valid_header) (entries (sn_routes s)) of
                  Some e \<Rightarrow> Some e
                | None \<Rightarrow>
                    (case transforms_invalid [] (sn_transforms s) of
                       Some e \<Rightarrow> Some (SnapshotTransform e)
                     | None \<Rightarrow> validate_model_graph s))))"

section \<open>The store\<close>

type_synonym snapshot_store = "snapshot option"

definition publish :: "(string \<Rightarrow> bool) \<Rightarrow> snapshot \<Rightarrow> snapshot_store \<Rightarrow> graph_error option \<times> snapshot_store" where
  "publish valid_header nxt store =
     (case ensure_model_nodes nxt of
        Inl e \<Rightarrow> (Some e, store)
      | Inr s \<Rightarrow>
          (case validate_snapshot valid_header s of
             Some e \<Rightarrow> (Some e, store)
           | None \<Rightarrow> (None, Some s)))"

definition new_snapshot_store :: "(string \<Rightarrow> bool) \<Rightarrow> snapshot \<Rightarrow> graph_error + snapshot_store" where
  "new_snapshot_store valid_header initial =
     (case publish valid_header initial None of
        (Some e, _) \<Rightarrow> Inl e
      | (None, store) \<Rightarrow> Inr store)"

definition load_snapshot :: "snapshot_store \<Rightarrow> snapshot" where
  "load_snapshot store = (case store of None \<Rightarrow> zero_snapshot | Some s \<Rightarrow> s)"

section \<open>Building a snapshot\<close>

record snapshot_input =
  si_ceiling :: loss_policy_ceiling
  si_public :: "public_model list"
  si_routes :: "route list"
  si_groups :: "(string, string list) gomap"
  si_wires :: "(string, string list) gomap"
  si_nodes :: "model_node list"
  si_transforms :: "transform_binding list"

fun build_public :: "public_model list \<Rightarrow> (string, public_model) gomap \<Rightarrow> graph_error + (string, public_model) gomap" where
  "build_public [] m = Inr m"
| "build_public (p # ps) m =
     (if pm_name p = [] then Inl PublicEmptyName
      else if gm_has m (pm_name p) then Inl (PublicDuplicate (pm_name p))
      else build_public ps (gm_put (pm_name p) p m))"

definition wire_name :: "route \<Rightarrow> string" where
  "wire_name r = rt_display_prefix r @ ''/'' @ rt_external_model r"

fun build_routes :: "route list \<Rightarrow> snapshot \<Rightarrow> graph_error + snapshot" where
  "build_routes [] s = Inr s"
| "build_routes (r # rs) s =
     (if rt_id r = [] then Inl RouteEmptyID
      else if get_route s (rt_id r) \<noteq> None then Inl (RouteDuplicate (rt_id r))
      else build_routes rs
        (s\<lparr>sn_routes := Some (gm_put (rt_id r) r (entries (sn_routes s))),
           sn_groups := Some (gm_put (rt_id r) [rt_id r] (entries (sn_groups s))),
           sn_wires :=
             (if rt_display_prefix r \<noteq> [] \<and> rt_external_model r \<noteq> []
              then Some (gm_put (wire_name r) (gm_or (entries (sn_wires s)) (wire_name r) [] @ [rt_id r])
                           (entries (sn_wires s)))
              else sn_wires s)\<rparr>))"

fun put_named ::
    "graph_error \<Rightarrow> (string, string list) gomap \<Rightarrow> (string, string list) gomap \<Rightarrow>
     graph_error + (string, string list) gomap" where
  "put_named e [] m = Inr m"
| "put_named e ((k, v) # rest) m = (if k = [] then Inl e else put_named e rest (gm_put k v m))"

fun build_nodes :: "model_node list \<Rightarrow> (string, model_node) gomap \<Rightarrow> graph_error + (string, model_node) gomap" where
  "build_nodes [] m = Inr m"
| "build_nodes (n # ns) m =
     (if mn_id n = [] then Inl NodeEmptyID
      else if gm_has m (mn_id n) then Inl (NodeDuplicate (mn_id n))
      else build_nodes ns (gm_put (mn_id n) n m))"

definition bind_sum :: "'e + 'a \<Rightarrow> ('a \<Rightarrow> 'e + 'b) \<Rightarrow> 'e + 'b" where
  "bind_sum x f = (case x of Inl e \<Rightarrow> Inl e | Inr v \<Rightarrow> f v)"

lemma bind_sum_simps [simp]: "bind_sum (Inl e) f = Inl e" "bind_sum (Inr v) f = f v"
  by (simp_all add: bind_sum_def)

lemma bind_sum_Inr: "bind_sum x f = Inr y \<longleftrightarrow> (\<exists>v. x = Inr v \<and> f v = Inr y)"
  by (cases x) auto

definition build_snapshot :: "(string \<Rightarrow> bool) \<Rightarrow> snapshot_input \<Rightarrow> nat \<Rightarrow> graph_error + snapshot" where
  "build_snapshot valid_header input version =
     (let s0 = \<lparr>sn_version = version, sn_ceiling = si_ceiling input, sn_public = Some [], sn_routes = Some [],
                sn_groups = Some [], sn_wires = Some [], sn_nodes = Some [],
                sn_transforms = si_transforms input\<rparr>
      in bind_sum (build_public (si_public input) []) (\<lambda>publics.
         bind_sum (build_routes (si_routes input) (s0\<lparr>sn_public := Some publics\<rparr>)) (\<lambda>s1.
         bind_sum (put_named GroupEmptyName (si_groups input) (entries (sn_groups s1))) (\<lambda>groups.
         bind_sum (put_named WireEmptyName (si_wires input) (entries (sn_wires s1))) (\<lambda>wires.
         bind_sum (build_nodes (si_nodes input) []) (\<lambda>nodes.
         bind_sum (ensure_model_nodes (s1\<lparr>sn_groups := Some groups, sn_wires := Some wires, sn_nodes := Some nodes\<rparr>))
           (\<lambda>s2. case validate_snapshot valid_header s2 of
                   Some e \<Rightarrow> Inl e
                 | None \<Rightarrow> Inr s2)))))))"

section \<open>What completing the nodes keeps\<close>

definition same_tables :: "snapshot \<Rightarrow> snapshot \<Rightarrow> bool" where
  "same_tables s t \<longleftrightarrow>
     sn_version t = sn_version s \<and> sn_ceiling t = sn_ceiling s \<and> sn_public t = sn_public s \<and>
     sn_routes t = sn_routes s \<and> sn_groups t = sn_groups s \<and> sn_wires t = sn_wires s \<and>
     sn_transforms t = sn_transforms s"

lemma same_tables_trans: "same_tables s t \<Longrightarrow> same_tables t u \<Longrightarrow> same_tables s u"
  by (simp add: same_tables_def)

lemma same_tables_put [simp]: "same_tables s (put_node i n s)"
  by (simp add: same_tables_def put_node_def)

lemma get_node_put [simp]: "get_node (put_node i n s) j = (if j = i then Some n else get_node s j)"
  by (simp add: get_node_def put_node_def gomap_simps)

lemma same_tables_get:
  assumes "same_tables s t"
  shows "get_route t i = get_route s i" "get_group t i = get_group s i" "get_wire t i = get_wire s i"
  using assms by (simp_all add: same_tables_def get_route_def get_group_def get_wire_def)

lemma classify_member_cong:
  assumes "same_tables s t" and "\<And>i. get_node t i = None \<longleftrightarrow> get_node s i = None"
  shows "classify_member t ref = classify_member s ref"
  using same_tables_get [OF assms(1), of ref] assms(2) [of ref] by (simp add: classify_member_def)

lemma complete_node_cong:
  "same_tables s t \<Longrightarrow> (\<And>i. get_node t i = None \<longleftrightarrow> get_node s i = None) \<Longrightarrow>
   complete_node t i n = complete_node s i n"
  by (simp add: complete_node_def classify_member_cong [of s t])

lemma ensure_targets_facts:
  "same_tables s (ensure_targets ps s) \<and>
   (\<forall>i. get_node s i \<noteq> None \<longrightarrow> get_node (ensure_targets ps s) i = get_node s i) \<and>
   (\<forall>p \<in> set ps. route_kind (mr_kind (classify_member s (pm_target_ref p))) \<longrightarrow>
      get_node (ensure_targets ps s) (pm_target_ref p) \<noteq> None)"
proof (induction ps arbitrary: s)
  case (Cons p ps)
  let ?i = "pm_target_ref p"
  let ?m = "classify_member s ?i"
  let ?t = "put_node ?i (zero_node\<lparr>mn_id := ?i, mn_kind := ModelPhysical, mn_strategy := StrategyFallback,
    mn_members := [?m]\<rparr>) s"
  consider "get_node s ?i \<noteq> None" | "get_node s ?i = None" "\<not> route_kind (mr_kind ?m)"
    | "get_node s ?i = None" "route_kind (mr_kind ?m)" by blast
  then show ?case
  proof cases
    case 1
    with Cons.IH [of s] show ?thesis by (auto simp: route_kind_def classify_member_def member_of_def)
  next
    case 2
    with Cons.IH [of s] show ?thesis by auto
  next
    case 3
    have eq: "ensure_targets (p # ps) s = ensure_targets ps ?t" using 3 by (simp add: Let_def)
    have kinds: "route_kind (mr_kind (classify_member ?t (pm_target_ref q))) \<or> get_node ?t (pm_target_ref q) \<noteq> None"
      if "route_kind (mr_kind (classify_member s (pm_target_ref q)))" for q
      using that same_tables_get [OF same_tables_put [of s ?i]] by (auto simp: classify_member_def)
    have new: "get_node ?t ?i \<noteq> None" by simp
    have old: "get_node ?t i = get_node s i" if "get_node s i \<noteq> None" for i
      using that 3(1) by auto
    note IH = Cons.IH [of ?t]
    show ?thesis
      unfolding eq
    proof (intro conjI ballI allI impI)
      show "same_tables s (ensure_targets ps ?t)"
        by (rule same_tables_trans [OF same_tables_put]) (use IH in blast)
    next
      fix i
      assume "get_node s i \<noteq> None"
      with old [of i] IH show "get_node (ensure_targets ps ?t) i = get_node s i" by metis
    next
      fix q
      assume q: "q \<in> set (p # ps)" "route_kind (mr_kind (classify_member s (pm_target_ref q)))"
      show "get_node (ensure_targets ps ?t) (pm_target_ref q) \<noteq> None"
      proof (cases "get_node ?t (pm_target_ref q) \<noteq> None")
        case True
        with IH show ?thesis by metis
      next
        case False
        with q new kinds [OF q(2)] have "q \<in> set ps" "route_kind (mr_kind (classify_member ?t (pm_target_ref q)))"
          by auto
        with IH show ?thesis by blast
      qed
    qed
  qed
qed (simp add: same_tables_def)

lemma complete_nodes_facts:
  "complete_nodes ns s = Inr s' \<Longrightarrow> distinct (map fst ns) \<Longrightarrow> (\<And>i n. (i, n) \<in> set ns \<Longrightarrow> get_node s i \<noteq> None) \<Longrightarrow>
   same_tables s s' \<and>
   (\<forall>i. get_node s' i = (case map_of ns i of Some n \<Rightarrow> Some (complete_node s i n) | None \<Rightarrow> get_node s i)) \<and>
   (\<forall>(i, n) \<in> set ns. validate_loss_policy (mn_loss_policy n) = None)"
proof (induction ns arbitrary: s)
  case (Cons x ns)
  obtain j n where x: "x = (j, n)" by (cases x)
  let ?t = "put_node j (complete_node s j n) s"
  from Cons.prems(1) x have ok: "validate_loss_policy (mn_loss_policy n) = None"
    and rest: "complete_nodes ns ?t = Inr s'" by (auto split: option.splits)
  have keys: "get_node ?t i = None \<longleftrightarrow> get_node s i = None" for i
    using Cons.prems(3) [of j n] x by simp
  have "\<And>i m. (i, m) \<in> set ns \<Longrightarrow> get_node ?t i \<noteq> None"
    using Cons.prems(3) keys x by (metis list.set_intros(2))
  with Cons.prems(2) have IH: "same_tables ?t s' \<and>
     (\<forall>i. get_node s' i = (case map_of ns i of Some n \<Rightarrow> Some (complete_node ?t i n) | None \<Rightarrow> get_node ?t i)) \<and>
     (\<forall>(i, n) \<in> set ns. validate_loss_policy (mn_loss_policy n) = None)"
    by (intro Cons.IH [OF rest]) auto
  have same: "complete_node ?t i m = complete_node s i m" for i m
    by (rule complete_node_cong [OF same_tables_put keys])
  have "j \<notin> fst ` set ns" using Cons.prems(2) x by simp
  then have "map_of ns j = None" by (simp add: map_of_eq_None_iff)
  moreover have "same_tables s s'" using IH same_tables_trans [OF same_tables_put] by blast
  ultimately show ?case
    using IH x ok same by (auto split: option.splits)
qed (simp add: same_tables_def)

lemma update_same: "map_of m k = Some v \<Longrightarrow> gm_put k v m = m"
  by (induction m) auto

lemma put_node_same: "get_node s i = Some n \<Longrightarrow> put_node i n s = s"
  by (cases "sn_nodes s") (auto simp: get_node_def put_node_def update_same)

lemma route_kind_classify:
  "route_kind (mr_kind (classify_member s r)) \<longleftrightarrow>
   get_node s r = None \<and> (get_route s r \<noteq> None \<or> get_group s r \<noteq> None \<or> get_wire s r \<noteq> None)"
  by (simp add: classify_member_def route_kind_def member_of_def zero_member_def)

lemma put_node_wf: "gm_wf (entries (sn_nodes s)) \<Longrightarrow> gm_wf (entries (sn_nodes (put_node i n s)))"
  by (simp add: put_node_def)

lemma ensure_targets_wf: "gm_wf (entries (sn_nodes s)) \<Longrightarrow> gm_wf (entries (sn_nodes (ensure_targets ps s)))"
  by (induction ps arbitrary: s) (auto simp: Let_def put_node_wf)

lemma ensure_targets_id:
  "(\<And>p. p \<in> set ps \<Longrightarrow> get_node s (pm_target_ref p) \<noteq> None \<or>
      \<not> route_kind (mr_kind (classify_member s (pm_target_ref p)))) \<Longrightarrow> ensure_targets ps s = s"
proof (induction ps)
  case (Cons p ps)
  have "get_node s (pm_target_ref p) \<noteq> None \<or> \<not> route_kind (mr_kind (classify_member s (pm_target_ref p)))"
    using Cons.prems [of p] by simp
  moreover have "ensure_targets ps s = s" by (rule Cons.IH) (use Cons.prems in simp)
  ultimately show ?case by (auto simp: Let_def)
qed simp

lemma complete_nodes_wf:
  "complete_nodes ns s = Inr s' \<Longrightarrow> gm_wf (entries (sn_nodes s)) \<Longrightarrow> gm_wf (entries (sn_nodes s'))"
  by (induction ns arbitrary: s) (auto simp: put_node_wf split: option.splits)

lemma complete_nodes_id:
  "(\<And>i n. (i, n) \<in> set ns \<Longrightarrow>
      get_node s i = Some n \<and> complete_node s i n = n \<and> validate_loss_policy (mn_loss_policy n) = None) \<Longrightarrow>
   complete_nodes ns s = Inr s"
  by (induction ns) (force simp: put_node_same split: option.splits)+

lemma complete_node_idem: "complete_node s i (complete_node s i n) = complete_node s i n"
proof -
  have id: "mr_id (classify_member s r) = r" for r by (simp add: classify_member_def member_of_def zero_member_def)
  show ?thesis by (auto simp: complete_node_def id strategy_ref_def mk_ref_def)
qed

lemma complete_node_policy [simp]: "mn_loss_policy (complete_node s i n) = mn_loss_policy n"
  by (simp add: complete_node_def)

text \<open>What \<open>ensureModelNodes\<close> leaves behind, and that doing it again changes nothing.\<close>

lemma ensure_model_nodes_facts:
  assumes "ensure_model_nodes s = Inr s'" and "gm_wf (entries (sn_nodes s))"
  shows "same_tables s s'" and "gm_wf (entries (sn_nodes s'))" and "sn_nodes s' \<noteq> None"
    and "get_node s i \<noteq> None \<Longrightarrow> get_node s' i \<noteq> None"
    and "gm_get (entries (sn_public s)) name = Some p \<Longrightarrow>
         route_kind (mr_kind (classify_member s (pm_target_ref p))) \<Longrightarrow> get_node s' (pm_target_ref p) \<noteq> None"
    and "ensure_model_nodes s' = Inr s'"
proof -
  let ?ps = "map snd (entries (sn_public s))"
  let ?s0 = "s\<lparr>sn_nodes := Some (entries (sn_nodes s))\<rparr>"
  define s1 where "s1 = ensure_targets ?ps ?s0"
  have s0: "same_tables s ?s0" "get_node ?s0 j = get_node s j" for j
    by (simp_all add: same_tables_def get_node_def)
  have wf1: "gm_wf (entries (sn_nodes s1))" unfolding s1_def by (rule ensure_targets_wf) (simp add: assms(2))
  have c: "complete_nodes (entries (sn_nodes s1)) s1 = Inr s'"
    using assms(1) by (simp add: ensure_model_nodes_def Let_def s1_def)
  have mem: "get_node s1 j = Some n" if "(j, n) \<in> set (entries (sn_nodes s1))" for j n
    using that wf1 by (simp add: get_node_def gm_wf_def)
  note T = ensure_targets_facts [of ?s0 ?ps, folded s1_def]
  have C: "same_tables s1 s' \<and>
     (\<forall>i. get_node s' i = (case get_node s1 i of Some n \<Rightarrow> Some (complete_node s1 i n) | None \<Rightarrow> get_node s1 i)) \<and>
     (\<forall>(i, n) \<in> set (entries (sn_nodes s1)). validate_loss_policy (mn_loss_policy n) = None)"
    unfolding get_node_def [of s1]
    by (rule complete_nodes_facts [OF c, unfolded get_node_def [of s1]])
       (use wf1 mem in \<open>auto simp: gm_wf_def get_node_def\<close>)
  show same: "same_tables s s'" using s0(1) T C same_tables_trans by blast
  show wf: "gm_wf (entries (sn_nodes s'))" by (rule complete_nodes_wf [OF c wf1])
  have keys: "get_node s' j = None \<longleftrightarrow> get_node s1 j = None" for j using C by (auto split: option.splits)
  show mono: "get_node s i \<noteq> None \<Longrightarrow> get_node s' i \<noteq> None" for i using T keys s0(2) by metis
  have kind0: "classify_member ?s0 ref = classify_member s ref" for ref
    by (rule classify_member_cong [OF s0(1)]) (simp add: s0(2))
  show target: "gm_get (entries (sn_public s)) name = Some p \<Longrightarrow>
      route_kind (mr_kind (classify_member s (pm_target_ref p))) \<Longrightarrow> get_node s' (pm_target_ref p) \<noteq> None" for name p
    using T keys kind0 by (force dest: map_of_SomeD)
  have some: "sn_nodes ?s0 \<noteq> None" by simp
  have "sn_nodes t \<noteq> None \<Longrightarrow> sn_nodes (ensure_targets ps t) \<noteq> None" for ps t
    by (induction ps arbitrary: t) (auto simp: Let_def put_node_def)
  moreover have "complete_nodes ns t = Inr t' \<Longrightarrow> sn_nodes t \<noteq> None \<Longrightarrow> sn_nodes t' \<noteq> None" for ns t t'
    by (induction ns arbitrary: t) (auto simp: put_node_def split: option.splits)
  ultimately show nodes: "sn_nodes s' \<noteq> None" using c some unfolding s1_def by blast
  have "ensure_targets (map snd (entries (sn_public s'))) s' = s'"
  proof (rule ensure_targets_id)
    fix p
    assume "p \<in> set (map snd (entries (sn_public s')))"
    then have p: "p \<in> set ?ps" using same by (simp add: same_tables_def)
    show "get_node s' (pm_target_ref p) \<noteq> None \<or> \<not> route_kind (mr_kind (classify_member s' (pm_target_ref p)))"
    proof (rule disjCI)
      assume "\<not> \<not> route_kind (mr_kind (classify_member s' (pm_target_ref p)))"
      then have "route_kind (mr_kind (classify_member s (pm_target_ref p))) \<or> get_node s (pm_target_ref p) \<noteq> None"
        using same_tables_get [OF same, of "pm_target_ref p"] by (auto simp: route_kind_classify)
      with p T keys kind0 mono show "get_node s' (pm_target_ref p) \<noteq> None" by metis
    qed
  qed
  moreover have "s'\<lparr>sn_nodes := Some (entries (sn_nodes s'))\<rparr> = s'" using nodes by (cases "sn_nodes s'") auto
  moreover have "complete_nodes (entries (sn_nodes s')) s' = Inr s'"
  proof (rule complete_nodes_id)
    fix i n
    assume "(i, n) \<in> set (entries (sn_nodes s'))"
    then have n: "get_node s' i = Some n" using wf by (simp add: get_node_def gm_wf_def)
    with C obtain m where m: "get_node s1 i = Some m" "n = complete_node s1 i m" by (auto split: option.splits)
    have "complete_node s' i n = complete_node s1 i n"
      by (rule complete_node_cong) (use C keys in auto)
    moreover have "(i, m) \<in> set (entries (sn_nodes s1))" using m(1) by (auto simp: get_node_def dest: map_of_SomeD)
    ultimately show "get_node s' i = Some n \<and> complete_node s' i n = n \<and>
        validate_loss_policy (mn_loss_policy n) = None"
      using n m C complete_node_idem by auto
  qed
  ultimately show "ensure_model_nodes s' = Inr s'"
    by (simp add: ensure_model_nodes_def Let_def)
qed

section \<open>What resolving returns\<close>

lemma add_unseen_facts:
  "set acc \<subseteq> set (add_unseen acc rs) \<and> set (add_unseen acc rs) \<subseteq> set acc \<union> set rs \<and>
   (distinct (map rt_id acc) \<longrightarrow> distinct (map rt_id (add_unseen acc rs))) \<and>
   rt_id ` set rs \<subseteq> rt_id ` set (add_unseen acc rs)"
proof (induction rs arbitrary: acc)
  case (Cons r rs)
  show ?case using Cons.IH [of acc] Cons.IH [of "acc @ [r]"] by auto
qed simp

lemma resolve_route_member_routes: "r \<in> set (resolve_route_member s m) \<Longrightarrow> \<exists>i. get_route s i = Some r"
  by (auto simp: resolve_route_member_def Let_def set_map_filter split: member_kind.splits option.splits)

lemma resolve_routes:
  shows "resolve_ref s stack ref = Inr rs \<Longrightarrow> r \<in> set rs \<Longrightarrow> \<exists>i. get_route s i = Some r"
    and "resolve_members s stack acc ms = Inr rs \<Longrightarrow> (\<And>r. r \<in> set acc \<Longrightarrow> \<exists>i. get_route s i = Some r) \<Longrightarrow>
         r \<in> set rs \<Longrightarrow> \<exists>i. get_route s i = Some r"
proof (induction s stack ref and s stack acc ms arbitrary: rs r and rs r
    rule: resolve_ref_resolve_members.induct)
  case (1 s stack ref)
  from "1.prems"(1) show ?case
    unfolding resolve_ref.simps [of s stack ref]
    using "1.IH" "1.prems"(2)
    by (auto simp: enabled_variants_def set_map_filter split: option.splits if_splits)
next
  case (2 s stack acc)
  then show ?case by simp
next
  case (3 s stack acc m ms)
  obtain items where items: "(if mr_kind m = MemberRouteGroup then Inr (resolve_route_member s m)
      else resolve_ref s stack (mr_id m)) = Inr items"
    and rest: "resolve_members s stack (add_unseen acc items) ms = Inr rs"
    using "3.prems"(1) by (auto split: sum.splits)
  have "\<exists>i. get_route s i = Some q" if "q \<in> set items" for q
    using that items "3.IH"(1) [of items q] resolve_route_member_routes [of q s m] by (auto split: if_splits)
  then have "\<exists>i. get_route s i = Some q" if "q \<in> set (add_unseen acc items)" for q
    using that add_unseen_facts [of acc items] "3.prems"(2) [of q] by blast
  with "3.IH"(2) [OF items rest] "3.prems"(3) show ?case by blast
qed


lemma validate_snapshot_None:
  assumes "validate_snapshot valid_header s = None"
  shows "validate_model_graph s = None"
    and "gm_get (entries (sn_public s)) name = Some p \<Longrightarrow> \<exists>rs. resolve_ref s [] (pm_target_ref p) = Inr rs"
    and "get_route s i = Some r \<Longrightarrow> rt_enabled r \<Longrightarrow> rt_operation_bindings r \<noteq> []"
proof -
  have publics: "first_error (public_invalid s) (entries (sn_public s)) = None"
    and routes: "first_error (route_invalid valid_header) (entries (sn_routes s)) = None"
    and graph: "validate_model_graph s = None"
    using assms by (auto simp: validate_snapshot_def split: if_splits option.splits)
  show "validate_model_graph s = None" by (rule graph)
  show "gm_get (entries (sn_public s)) name = Some p \<Longrightarrow> \<exists>rs. resolve_ref s [] (pm_target_ref p) = Inr rs"
    using publics
    by (force simp: first_error_None public_invalid_def dest: map_of_SomeD split: if_splits sum.splits)
  show "get_route s i = Some r \<Longrightarrow> rt_enabled r \<Longrightarrow> rt_operation_bindings r \<noteq> []"
    using routes
    by (force simp: first_error_None route_invalid_def get_route_def dest: map_of_SomeD split: if_splits)
qed

lemma resolve_ref_known:
  "resolve_ref s stack ref = Inr rs \<Longrightarrow>
   get_node s ref \<noteq> None \<or> route_kind (mr_kind (classify_member s ref))"
  unfolding resolve_ref.simps [of s stack ref]
  by (auto simp: route_kind_classify split: option.splits)

text \<open>
  C20. A snapshot that publishing accepts is the one every later load returns; its graph is acyclic
  with every reference known, and each of its public models resolves, both to its node and to
  candidates that are routes of the snapshot. A snapshot that is refused leaves the published one.
\<close>

theorem publish_resolves:
  assumes "gm_wf (entries (sn_nodes nxt))" and "publish valid_header nxt store = (err, store')"
  shows "if err \<noteq> None then store' = store
         else graph_sound (load_snapshot store') \<and> same_tables nxt (load_snapshot store') \<and>
           (\<forall>name p. gm_get (entries (sn_public nxt)) name = Some p \<longrightarrow>
              (\<exists>m n. resolve_public (load_snapshot store') name = Inr m \<and>
                 resolve_model_node (load_snapshot store') name = Inr n \<and>
                 get_node (load_snapshot store') (pm_target_ref p) = Some n \<and>
                 (\<forall>r \<in> set (rm_candidates m). \<exists>i. get_route nxt i = Some r)))"
proof (cases "err = None")
  case True
  then obtain s where s: "ensure_model_nodes nxt = Inr s" "validate_snapshot valid_header s = None" "store' = Some s"
    using assms(2) by (auto simp: publish_def split: sum.splits option.splits)
  note E = ensure_model_nodes_facts [OF s(1) assms(1)]
  note V = validate_snapshot_None [OF s(2)]
  have load: "load_snapshot store' = s" by (simp add: load_snapshot_def s(3))
  have sound: "graph_sound s" using V(1) E(6) validate_model_graph_iff [of s] by auto
  have public: "gm_get (entries (sn_public s)) name = gm_get (entries (sn_public nxt)) name" for name
    using E(1) by (simp add: same_tables_def)
  have "\<exists>m n. resolve_public s name = Inr m \<and> resolve_model_node s name = Inr n \<and>
      get_node s (pm_target_ref p) = Some n \<and> (\<forall>r \<in> set (rm_candidates m). \<exists>i. get_route nxt i = Some r)"
    if p: "gm_get (entries (sn_public nxt)) name = Some p" for name p
  proof -
    obtain rs where rs: "resolve_ref s [] (pm_target_ref p) = Inr rs" using V(2) p public by metis
    have "get_node s (pm_target_ref p) \<noteq> None"
    proof (rule ccontr)
      assume none: "\<not> get_node s (pm_target_ref p) \<noteq> None"
      then have "route_kind (mr_kind (classify_member s (pm_target_ref p)))"
        using resolve_ref_known [OF rs] by blast
      then have "route_kind (mr_kind (classify_member nxt (pm_target_ref p)))"
        using same_tables_get [OF E(1), of "pm_target_ref p"] E(4) [of "pm_target_ref p"] none
        unfolding route_kind_classify by metis
      with E(5) [OF p] none show False by blast
    qed
    then obtain n where n: "get_node s (pm_target_ref p) = Some n" by blast
    have "resolve_model_node s name = Inr n"
      using p public E(6) n by (simp add: resolve_model_node_def)
    moreover have "\<forall>r \<in> set rs. \<exists>i. get_route nxt i = Some r"
      using resolve_routes(1) [OF rs] same_tables_get(1) [OF E(1)] by simp
    ultimately show ?thesis using p public rs n by (auto simp: resolve_public_def)
  qed
  with True sound E(1) load show ?thesis by simp
next
  case False
  with assms(2) show ?thesis by (auto simp: publish_def split: sum.splits option.splits)
qed

definition example_snapshot :: snapshot where
  "example_snapshot =
     zero_snapshot\<lparr>sn_public := Some [(''m'', \<lparr>pm_name = ''m'', pm_target_ref = ''combo'', pm_owned_by = []\<rparr>)],
       sn_routes := Some [(''r'', zero_route\<lparr>rt_id := ''r'', rt_enabled := True,
          rt_operation_bindings := [(''chat.generate'', zero_binding\<lparr>ob_adapter_ids := [''a'']\<rparr>)]\<rparr>)],
       sn_groups := Some [], sn_wires := Some [],
       sn_nodes := Some [(''combo'', zero_node\<lparr>mn_members := [member_of MemberUntyped ''r'']\<rparr>)]\<rparr>"

lemma publish_resolves_witness:
  "\<exists>m. resolve_public (load_snapshot (snd (publish (\<lambda>_. True) example_snapshot None))) ''m'' = Inr m"
proof -
  have "fst (publish (\<lambda>_. True) example_snapshot None) = None" by code_simp
  then have "publish (\<lambda>_. True) example_snapshot None = (None, snd (publish (\<lambda>_. True) example_snapshot None))"
    by (metis prod.collapse)
  moreover have "gm_wf (entries (sn_nodes example_snapshot))"
    by (simp add: example_snapshot_def gm_wf_def)
  moreover obtain p where "gm_get (entries (sn_public example_snapshot)) ''m'' = Some p"
    by (simp add: example_snapshot_def)
  ultimately show ?thesis
    using publish_resolves [of example_snapshot "\<lambda>_. True" None None
        "snd (publish (\<lambda>_. True) example_snapshot None)"] by (simp, blast)
qed

end
