(* ===== verification/Floats.thy ===== *)
theory Floats
  imports Prelude "HOL-Library.Log_Nat"
begin

text \<open>
  The floating point arithmetic of Go on \<open>gofloat\<close>: each operation is the exact rational result rounded
  to the nearest \<open>float64\<close>, ties to even, with gradual underflow and overflow to the infinities. The two
  zeros are not distinguished. Converting a float that does not fit a 64-bit integer is
  implementation-defined in Go; the model gives the least integer, as the amd64 compiler does.
\<close>

definition pow2 :: "int \<Rightarrow> rat" where
  "pow2 e = (if 0 \<le> e then 2 ^ nat e else 1 / 2 ^ nat (- e))"

text \<open>The exponent of a positive rational: \<open>pow2 (floor_log2 x) \<le> x < pow2 (floor_log2 x + 1)\<close>.\<close>

definition floor_log2 :: "rat \<Rightarrow> int" where
  "floor_log2 x =
     (case quotient_of x of (p, q) \<Rightarrow>
        let k = bitlen p - bitlen q in if pow2 k \<le> x then k else k - 1)"

definition round_half_even :: "rat \<Rightarrow> int" where
  "round_half_even y =
     (let f = \<lfloor>y\<rfloor>; d = y - of_int f
      in if d < 1 / 2 then f else if 1 / 2 < d then f + 1 else if even f then f else f + 1)"

definition round_exponent :: "rat \<Rightarrow> int" where
  "round_exponent x = max (floor_log2 \<bar>x\<bar> - 52) (- 1074)"

definition fround :: "rat \<Rightarrow> gofloat" where
  "fround x =
     (if x = 0 then Finite 0
      else let e = round_exponent x;
               r = of_int (round_half_even (x / pow2 e)) * pow2 e
           in if 2 ^ 1024 \<le> r then PosInf else if r \<le> - (2 ^ 1024) then NegInf else Finite r)"

fun fsign :: "gofloat \<Rightarrow> int" where
  "fsign (Finite a) = (if 0 < a then 1 else if a < 0 then - 1 else 0)"
| "fsign PosInf = 1"
| "fsign NegInf = - 1"
| "fsign NotANumber = 0"

definition infinity_of :: "int \<Rightarrow> gofloat" where
  "infinity_of s = (if 0 < s then PosInf else if s < 0 then NegInf else NotANumber)"

fun fadd :: "gofloat \<Rightarrow> gofloat \<Rightarrow> gofloat" where
  "fadd (Finite a) (Finite b) = fround (a + b)"
| "fadd NotANumber b = NotANumber"
| "fadd a NotANumber = NotANumber"
| "fadd PosInf NegInf = NotANumber"
| "fadd NegInf PosInf = NotANumber"
| "fadd PosInf b = PosInf"
| "fadd NegInf b = NegInf"
| "fadd a PosInf = PosInf"
| "fadd a NegInf = NegInf"

fun fneg :: "gofloat \<Rightarrow> gofloat" where
  "fneg (Finite a) = Finite (- a)"
| "fneg PosInf = NegInf"
| "fneg NegInf = PosInf"
| "fneg NotANumber = NotANumber"

definition fsub :: "gofloat \<Rightarrow> gofloat \<Rightarrow> gofloat" where
  "fsub a b = fadd a (fneg b)"

fun fmul :: "gofloat \<Rightarrow> gofloat \<Rightarrow> gofloat" where
  "fmul (Finite a) (Finite b) = fround (a * b)"
| "fmul NotANumber b = NotANumber"
| "fmul a NotANumber = NotANumber"
| "fmul a b = infinity_of (fsign a * fsign b)"

fun fdiv :: "gofloat \<Rightarrow> gofloat \<Rightarrow> gofloat" where
  "fdiv (Finite a) (Finite b) = (if b = 0 then infinity_of (fsign (Finite a)) else fround (a / b))"
| "fdiv NotANumber b = NotANumber"
| "fdiv a NotANumber = NotANumber"
| "fdiv (Finite a) b = Finite 0"
| "fdiv a (Finite b) = infinity_of (fsign a * (if b < 0 then - 1 else 1))"
| "fdiv a b = NotANumber"

definition float_of_int :: "int \<Rightarrow> gofloat" where
  "float_of_int n = fround (of_int n)"

definition truncate_rat :: "rat \<Rightarrow> int" where
  "truncate_rat a = (if 0 \<le> a then \<lfloor>a\<rfloor> else \<lceil>a\<rceil>)"

fun int_of_float :: "gofloat \<Rightarrow> int" where
  "int_of_float (Finite a) =
     (let n = truncate_rat a in if n < min_i64 \<or> max_i64 < n then min_i64 else n)"
| "int_of_float _ = min_i64"

text \<open>\<open>time.Duration.Seconds\<close>: whole seconds plus the fraction, each converted and added.\<close>

definition duration_seconds :: "duration \<Rightarrow> gofloat" where
  "duration_seconds d =
     fadd (float_of_int (sgn d * (\<bar>d\<bar> div second)))
       (fdiv (float_of_int (sgn d * (\<bar>d\<bar> mod second))) (Finite 1000000000))"

section \<open>Order\<close>

text \<open>
  A linear order of the floats for sorting: the usual one, with the NaN above everything. Wherever no
  NaN occurs it is the order of \<open><\<close>.
\<close>

instantiation gofloat :: linorder
begin

definition less_eq_gofloat :: "gofloat \<Rightarrow> gofloat \<Rightarrow> bool" where
  "less_eq_gofloat a b \<longleftrightarrow> a = b \<or> fless a b \<or> (b = NotANumber \<and> a \<noteq> NotANumber)"

definition less_gofloat :: "gofloat \<Rightarrow> gofloat \<Rightarrow> bool" where
  "less_gofloat a b \<longleftrightarrow> fless a b \<or> (b = NotANumber \<and> a \<noteq> NotANumber)"

instance
proof
  fix a b c :: gofloat
  show "a < b \<longleftrightarrow> a \<le> b \<and> \<not> b \<le> a"
    by (cases a; cases b) (auto simp: less_eq_gofloat_def less_gofloat_def)
  show "a \<le> b \<Longrightarrow> b \<le> c \<Longrightarrow> a \<le> c"
    by (cases a; cases b; cases c) (auto simp: less_eq_gofloat_def)
qed (auto simp: less_eq_gofloat_def elim: fless.elims)

end

lemma less_gofloat_fless: "\<not> is_nan b \<Longrightarrow> a < b \<longleftrightarrow> fless a b"
  by (cases b) (auto simp: less_gofloat_def)

section \<open>Rounding\<close>

lemma pow2_pos [simp]: "0 < pow2 e"
  by (simp add: pow2_def)

lemma round_half_even_sign:
  "0 \<le> y \<Longrightarrow> 0 \<le> round_half_even y" "y \<le> 0 \<Longrightarrow> round_half_even y \<le> 0"
proof -
  show "0 \<le> round_half_even y" if "0 \<le> y"
  proof -
    from that have "0 \<le> \<lfloor>y\<rfloor>" by simp
    then show ?thesis by (simp add: round_half_even_def Let_def)
  qed
  show "round_half_even y \<le> 0" if "y \<le> 0"
  proof (cases "y = 0")
    case False
    with that have "y < 0" by simp
    then have "\<lfloor>y\<rfloor> \<le> - 1" by (simp add: floor_le_iff)
    then show ?thesis by (auto simp: round_half_even_def Let_def)
  qed (simp add: round_half_even_def)
qed

definition fnonneg :: "gofloat \<Rightarrow> bool" where
  "fnonneg a \<longleftrightarrow> (case a of Finite x \<Rightarrow> 0 \<le> x | PosInf \<Rightarrow> True | _ \<Rightarrow> False)"

lemma fround_nonneg:
  assumes "0 \<le> x"
  shows "fnonneg (fround x)"
proof (cases "x = 0")
  case False
  let ?e = "round_exponent x"
  have "0 \<le> x / pow2 ?e" using assms by (simp add: less_imp_le)
  then have "0 \<le> round_half_even (x / pow2 ?e)" by (rule round_half_even_sign)
  then have "0 \<le> of_int (round_half_even (x / pow2 ?e)) * pow2 ?e"
    by (simp add: less_imp_le)
  moreover have "\<not> r \<le> - (2 ^ 1024)" if "0 \<le> r" for r :: rat
  proof -
    have "(0 :: rat) < 2 ^ 1024" by (rule zero_less_power) simp
    with that show ?thesis by linarith
  qed
  ultimately show ?thesis using False by (simp add: fround_def Let_def fnonneg_def)
qed (simp add: fround_def fnonneg_def)

lemma fround_not_nan: "fround x \<noteq> NotANumber"
  by (simp add: fround_def Let_def)

lemma fnonneg_finite [simp]: "fnonneg (Finite x) \<longleftrightarrow> 0 \<le> x"
  by (simp add: fnonneg_def)

lemma fnonneg_add: "fnonneg a \<Longrightarrow> fnonneg b \<Longrightarrow> fnonneg (fadd a b)"
  by (cases a; cases b) (auto simp: fnonneg_def [of PosInf] fnonneg_def [of NegInf] fnonneg_def [of NotANumber]
      intro: fround_nonneg)

lemma fnonneg_mul_finite: "0 \<le> a \<Longrightarrow> 0 \<le> b \<Longrightarrow> fnonneg (fmul (Finite a) (Finite b))"
  by (simp add: fround_nonneg)

lemma fnonneg_div: "0 \<le> a \<Longrightarrow> 0 < b \<Longrightarrow> fnonneg (fdiv (Finite a) (Finite b))"
  by (simp add: fround_nonneg)

lemma fnonneg_iff: "fnonneg a \<longleftrightarrow> \<not> is_nan a \<and> \<not> fless a fzero"
  by (cases a) (auto simp: fnonneg_def)

end
