(* ===== verification/Usage.thy ===== *)
theory Usage
  imports Compatibility Floats Json "HOL-Library.Sublist"
begin

text \<open>
  Usage accounting (\<open>internal/kernel/usage.go\<close>, \<open>usage_capture.go\<close>, \<open>usage_attempt.go\<close> with the data
  of \<open>contract.go\<close>): the usage event, its sanitation, the merge of provider observations, the bounded
  admission of extension values and the accounting of one dispatched attempt.

  A pointer to a number is an \<open>option\<close>; \<open>Clone\<close> copies against aliasing and is the identity on values.
  Two things are parameters: the usage catalog's validation (\<open>ValidateUsageValueWithin\<close>, a JSON schema
  library) and the JSON encoding of a value with its re-reading (\<open>json.Marshal\<close> and \<open>Unmarshal\<close> in
  \<open>OwnedEncoding\<close>).
\<close>

section \<open>Data\<close>

record usage_limits =
  ul_max_values :: int
  ul_max_extension_bytes :: int

definition default_usage_limits :: usage_limits where
  "default_usage_limits = \<lparr>ul_max_values = 32, ul_max_extension_bytes = 65536\<rparr>"

definition max_accounting_issues :: nat where
  "max_accounting_issues = 32"

datatype usage_update_kind = UpdateUnset | UsagePartialSnapshot | UsageFullSnapshot | UpdateOther string

record usage_issue =
  ui_code :: string
  ui_type_ref :: ext_ref

definition issue_of :: "string \<Rightarrow> usage_issue" where
  "issue_of code = \<lparr>ui_code = code, ui_type_ref = no_ref\<rparr>"

definition overflow_issue :: usage_issue where
  "overflow_issue = issue_of ''overflow''"

record usage_value =
  uv_type_ref :: ext_ref
  uv_value :: string

record raw_usage =
  ru_provider_definition :: ext_ref
  ru_api :: string
  ru_value :: string

record usage_capture_policy =
  cp_enabled :: bool
  cp_max_bytes :: int

definition default_usage_capture_policy :: usage_capture_policy where
  "default_usage_capture_policy = \<lparr>cp_enabled = False, cp_max_bytes = 262144\<rparr>"

record usage_event =
  ue_raw_usage :: "raw_usage option"
  ue_invocation_id :: string
  ue_attempt_id :: string
  ue_update_kind :: usage_update_kind
  ue_at :: go_time
  ue_logical_model :: string
  ue_provider_node_id :: string
  ue_external_model :: string
  ue_connection_id :: string
  ue_status :: string
  ue_latency :: duration
  ue_first_byte_at :: go_time
  ue_ttft :: duration
  ue_output_rate :: "gofloat option"
  ue_request_class :: string
  ue_session_id :: string
  ue_input_tokens :: "int option"
  ue_output_tokens :: "int option"
  ue_cached_read_tokens :: "int option"
  ue_cached_write_tokens :: "int option"
  ue_reasoning_tokens :: "int option"
  ue_estimated_cost :: "gofloat option"
  ue_extensions :: "usage_value list"
  ue_issues :: "usage_issue list"
  ue_fidelity :: compatibility_fidelity
  ue_losses :: "loss_record list"
  ue_plan :: "plan_summary option"

definition zero_usage :: usage_event where
  "zero_usage =
     \<lparr>ue_raw_usage = None, ue_invocation_id = [], ue_attempt_id = [], ue_update_kind = UpdateUnset, ue_at = 0,
      ue_logical_model = [], ue_provider_node_id = [], ue_external_model = [], ue_connection_id = [],
      ue_status = [], ue_latency = 0, ue_first_byte_at = 0, ue_ttft = 0, ue_output_rate = None,
      ue_request_class = [], ue_session_id = [], ue_input_tokens = None, ue_output_tokens = None,
      ue_cached_read_tokens = None, ue_cached_write_tokens = None, ue_reasoning_tokens = None,
      ue_estimated_cost = None, ue_extensions = [], ue_issues = [], ue_fidelity = CompatFidelityUnset,
      ue_losses = [], ue_plan = None\<rparr>"

section \<open>Sanitation\<close>

text \<open>
  \<open>UsageEvent.Clone\<close> copies the loss records through JSON (\<open>cloneLossRecords\<close>); \<open>canon\<close> is that round trip
  of an encoded value.
\<close>

definition clone_losses :: "(string \<Rightarrow> loss_value option) \<Rightarrow> loss_record list \<Rightarrow> loss_record list" where
  "clone_losses canon ls = map (clone_loss canon) ls"

definition clone_usage :: "(string \<Rightarrow> loss_value option) \<Rightarrow> usage_event \<Rightarrow> usage_event" where
  "clone_usage canon e = e\<lparr>ue_losses := clone_losses canon (ue_losses e)\<rparr>"

definition has_reported_usage :: "usage_event \<Rightarrow> bool" where
  "has_reported_usage e \<longleftrightarrow>
     ue_input_tokens e \<noteq> None \<or> ue_output_tokens e \<noteq> None \<or> ue_cached_read_tokens e \<noteq> None \<or>
     ue_cached_write_tokens e \<noteq> None \<or> ue_reasoning_tokens e \<noteq> None \<or> ue_estimated_cost e \<noteq> None \<or>
     ue_output_rate e \<noteq> None \<or> ue_extensions e \<noteq> []"

definition invalid_counter :: "int option \<Rightarrow> bool" where
  "invalid_counter v = (case v of None \<Rightarrow> False | Some n \<Rightarrow> n < 0)"

definition invalid_measure :: "gofloat option \<Rightarrow> bool" where
  "invalid_measure v = (case v of None \<Rightarrow> False | Some x \<Rightarrow> is_nan x \<or> is_inf x \<or> fless x fzero)"

definition valid_update_kind :: "usage_update_kind \<Rightarrow> bool" where
  "valid_update_kind k \<longleftrightarrow> k = UpdateUnset \<or> k = UsagePartialSnapshot \<or> k = UsageFullSnapshot"

text \<open>
  The issues of several groups in order, without repetitions, at most 32 of them and a final overflow
  marker when one was dropped (or was itself among the groups). The code's \<open>seen\<close> set always holds
  exactly the issues of \<open>result\<close>.
\<close>

fun coalesce_into :: "usage_issue list \<Rightarrow> bool \<Rightarrow> usage_issue list \<Rightarrow> usage_issue list \<times> bool" where
  "coalesce_into res overflow [] = (res, overflow)"
| "coalesce_into res overflow (i # rest) =
     (if i = overflow_issue then coalesce_into res True rest
      else if i \<in> set res then coalesce_into res overflow rest
      else if length res = max_accounting_issues then coalesce_into res True rest
      else coalesce_into (res @ [i]) overflow rest)"

definition coalesce_issues :: "usage_issue list list \<Rightarrow> usage_issue list" where
  "coalesce_issues groups =
     (case coalesce_into [] False (concat groups) of
        (res, overflow) \<Rightarrow> if overflow then res @ [overflow_issue] else res)"

definition bounded_issues :: "usage_event \<Rightarrow> usage_issue list" where
  "bounded_issues e = coalesce_issues [ue_issues e]"

definition keep_counter :: "int option \<Rightarrow> int option" where
  "keep_counter v = (if invalid_counter v then None else v)"

definition keep_measure :: "gofloat option \<Rightarrow> gofloat option" where
  "keep_measure v = (if invalid_measure v then None else v)"

definition common_invalid :: "usage_event \<Rightarrow> bool" where
  "common_invalid e \<longleftrightarrow>
     \<not> valid_update_kind (ue_update_kind e) \<or>
     list_ex invalid_counter
       [ue_input_tokens e, ue_output_tokens e, ue_cached_read_tokens e, ue_cached_write_tokens e,
        ue_reasoning_tokens e] \<or>
     list_ex invalid_measure [ue_estimated_cost e, ue_output_rate e]"

definition sanitize_common :: "(string \<Rightarrow> loss_value option) \<Rightarrow> usage_event \<Rightarrow> usage_event" where
  "sanitize_common canon e =
     (clone_usage canon e)\<lparr>ue_update_kind := (if valid_update_kind (ue_update_kind e) then ue_update_kind e else UsagePartialSnapshot),
       ue_input_tokens := keep_counter (ue_input_tokens e),
       ue_output_tokens := keep_counter (ue_output_tokens e),
       ue_cached_read_tokens := keep_counter (ue_cached_read_tokens e),
       ue_cached_write_tokens := keep_counter (ue_cached_write_tokens e),
       ue_reasoning_tokens := keep_counter (ue_reasoning_tokens e),
       ue_estimated_cost := keep_measure (ue_estimated_cost e),
       ue_output_rate := keep_measure (ue_output_rate e),
       ue_issues := coalesce_issues
         [ue_issues e @ (if common_invalid e then [issue_of ''invalid_usage_counter''] else [])]\<rparr>"

datatype usage_error = UnsupportedUpdateKind | NegativeCounter string | InvalidMeasure string

fun first_invalid :: "('a \<Rightarrow> bool) \<Rightarrow> (string \<times> 'a) list \<Rightarrow> string option" where
  "first_invalid bad [] = None"
| "first_invalid bad ((n, v) # nvs) = (if bad v then Some n else first_invalid bad nvs)"

definition validate_common :: "usage_event \<Rightarrow> usage_error option" where
  "validate_common e =
     (if \<not> valid_update_kind (ue_update_kind e) then Some UnsupportedUpdateKind
      else case first_invalid invalid_counter
             [(''input tokens'', ue_input_tokens e), (''output tokens'', ue_output_tokens e),
              (''cached read tokens'', ue_cached_read_tokens e), (''cached write tokens'', ue_cached_write_tokens e),
              (''reasoning tokens'', ue_reasoning_tokens e)] of
             Some n \<Rightarrow> Some (NegativeCounter n)
           | None \<Rightarrow>
               map_option InvalidMeasure
                 (first_invalid invalid_measure
                   [(''estimated cost'', ue_estimated_cost e), (''output tokens per second'', ue_output_rate e)]))"

section \<open>Merging provider observations\<close>

fun put_usage_value :: "usage_value \<Rightarrow> usage_value list \<Rightarrow> usage_value list" where
  "put_usage_value v [] = [v]"
| "put_usage_value v (w # ws) = (if uv_type_ref w = uv_type_ref v then v # ws else w # put_usage_value v ws)"

definition merge_usage_values :: "usage_value list \<Rightarrow> usage_value list \<Rightarrow> usage_value list" where
  "merge_usage_values current update = foldl (\<lambda>res v. put_usage_value v res) current update"

definition newest :: "'a option \<Rightarrow> 'a option \<Rightarrow> 'a option" where
  "newest current update = (case update of None \<Rightarrow> current | Some v \<Rightarrow> Some v)"

definition newest_text :: "string \<Rightarrow> string \<Rightarrow> string" where
  "newest_text current update = (if update \<noteq> [] then update else current)"

definition newest_int :: "int \<Rightarrow> int \<Rightarrow> int" where
  "newest_int current update = (if update \<noteq> 0 then update else current)"

definition clear_common :: "usage_event \<Rightarrow> usage_event" where
  "clear_common e =
     e\<lparr>ue_input_tokens := None, ue_output_tokens := None, ue_cached_read_tokens := None,
       ue_cached_write_tokens := None, ue_reasoning_tokens := None, ue_estimated_cost := None,
       ue_output_rate := None, ue_extensions := []\<rparr>"

definition merge_provider_usage :: "(string \<Rightarrow> loss_value option) \<Rightarrow> usage_event \<Rightarrow> usage_event \<Rightarrow> usage_event" where
  "merge_provider_usage canon current update =
     (let full = (ue_update_kind update = UsageFullSnapshot);
          own = clone_usage canon current;
          m = (if full then clear_common own else own)
      in m\<lparr>ue_at := (if is_zero (ue_at update) then ue_at m else ue_at update),
           ue_raw_usage := newest (ue_raw_usage m) (ue_raw_usage update),
           ue_logical_model := newest_text (ue_logical_model m) (ue_logical_model update),
           ue_provider_node_id := newest_text (ue_provider_node_id m) (ue_provider_node_id update),
           ue_external_model := newest_text (ue_external_model m) (ue_external_model update),
           ue_connection_id := newest_text (ue_connection_id m) (ue_connection_id update),
           ue_status := newest_text (ue_status m) (ue_status update),
           ue_latency := newest_int (ue_latency m) (ue_latency update),
           ue_first_byte_at := (if is_zero (ue_first_byte_at update) then ue_first_byte_at m else ue_first_byte_at update),
           ue_ttft := newest_int (ue_ttft m) (ue_ttft update),
           ue_request_class := newest_text (ue_request_class m) (ue_request_class update),
           ue_session_id := newest_text (ue_session_id m) (ue_session_id update),
           ue_fidelity := (if ue_fidelity update = CompatFidelityUnset then ue_fidelity m else ue_fidelity update),
           ue_losses := (if ue_losses update = [] then ue_losses m else clone_losses canon (ue_losses update)),
           ue_plan := newest (ue_plan m) (ue_plan update),
           ue_input_tokens := newest (ue_input_tokens m) (ue_input_tokens update),
           ue_output_tokens := newest (ue_output_tokens m) (ue_output_tokens update),
           ue_cached_read_tokens := newest (ue_cached_read_tokens m) (ue_cached_read_tokens update),
           ue_cached_write_tokens := newest (ue_cached_write_tokens m) (ue_cached_write_tokens update),
           ue_reasoning_tokens := newest (ue_reasoning_tokens m) (ue_reasoning_tokens update),
           ue_estimated_cost := newest (ue_estimated_cost m) (ue_estimated_cost update),
           ue_output_rate := newest (ue_output_rate m) (ue_output_rate update),
           ue_extensions := (if full then ue_extensions update
                             else merge_usage_values (ue_extensions m) (ue_extensions update)),
           ue_issues := coalesce_issues [ue_issues m, ue_issues update],
           ue_update_kind := UsageFullSnapshot\<rparr>)"

section \<open>Bounded admission\<close>

text \<open>
  \<open>unicode.IsControl\<close> on the runes of a string: the bytes below 0x20, 0x7F, and U+0080 to U+009F, which
  are encoded as 0xC2 and a byte from 0x80 to 0x9F (0xC2 never continues another rune).
\<close>

fun has_control :: "string \<Rightarrow> bool" where
  "has_control [] = False"
| "has_control (c # cs) =
     ((of_char c :: nat) < 0x20 \<or> (of_char c :: nat) = 0x7F \<or>
      c = CHR 0xC2 \<and> (case cs of [] \<Rightarrow> False | d # _ \<Rightarrow> 0x80 \<le> (of_char d :: nat) \<and> (of_char d :: nat) \<le> 0x9F) \<or>
      has_control cs)"

definition valid_raw_usage_api :: "string \<Rightarrow> bool" where
  "valid_raw_usage_api api \<longleftrightarrow> trim_space api \<noteq> [] \<and> \<not> has_control api"

definition valid_raw_usage_object :: "string \<Rightarrow> bool" where
  "valid_raw_usage_object v \<longleftrightarrow>
     (let t = trim_space v in t \<noteq> [] \<and> hd t = CHR ''{'' \<and> json_valid t)"

definition select_raw_usage ::
  "usage_capture_policy \<Rightarrow> ext_ref \<Rightarrow> string \<Rightarrow> string \<Rightarrow> raw_usage option \<times> usage_issue list" where
  "select_raw_usage policy provider api value =
     (if \<not> cp_enabled policy then (None, [])
      else if cp_max_bytes policy \<le> 0 \<or> cp_max_bytes policy < int (length value) \<or>
              ref_kind provider \<noteq> ''provider-definition'' \<or> \<not> ref_ok provider \<or>
              \<not> valid_raw_usage_api api \<or> \<not> valid_raw_usage_object value
      then (None, [issue_of ''invalid_raw_usage''])
      else (Some \<lparr>ru_provider_definition = provider, ru_api = api, ru_value = value\<rparr>, []))"

text \<open>\<open>enc\<close> is the JSON encoding of a usage value with what reading the encoding gives back.\<close>

type_synonym usage_encoder = "usage_value \<Rightarrow> (string \<times> usage_value option) option"

definition owned_encoding :: "usage_encoder \<Rightarrow> usage_value \<Rightarrow> int \<Rightarrow> (usage_value \<times> int) option" where
  "owned_encoding enc v max_bytes =
     (if max_bytes \<le> 0 \<or> max_bytes < int (length (uv_value v)) \<or>
         max_bytes < int (length (ref_kind (uv_type_ref v))) \<or> max_bytes < int (length (ref_id (uv_type_ref v)))
      then None
      else case enc v of
             None \<Rightarrow> None
           | Some (encoded, decoded) \<Rightarrow>
               if max_bytes < int (length encoded) then None
               else map_option (\<lambda>owned. (owned, int (length encoded))) decoded)"

text \<open>The catalog: whether a value within a byte limit satisfies its registered contract.\<close>

type_synonym usage_catalog = "usage_value \<Rightarrow> int \<Rightarrow> bool"

definition bounded_issue :: "usage_issue \<Rightarrow> usage_issue" where
  "bounded_issue i =
     (if 128 < length (ui_code i) \<or> 256 < length (ref_id (ui_type_ref i)) \<or> 64 < length (ref_kind (ui_type_ref i))
      then issue_of ''invalid_usage_issue'' else i)"

definition admit_issues :: "usage_issue list \<Rightarrow> usage_issue list" where
  "admit_issues issues =
     map bounded_issue (take max_accounting_issues issues) @
     (if max_accounting_issues < length issues then [overflow_issue] else [])"

record admission =
  ad_retained :: int
  ad_seen :: "ext_ref list"
  ad_values :: "usage_value list"
  ad_issues :: "usage_issue list"

definition value_issue :: "usage_catalog option \<Rightarrow> int \<Rightarrow> admission \<Rightarrow> usage_value \<Rightarrow> string" where
  "value_issue catalog max_bytes a v =
     (let room = max_bytes - ad_retained a
      in if room < int (length (ref_id (uv_type_ref v))) \<or> room < int (length (ref_kind (uv_type_ref v))) \<or>
            room < int (length (uv_value v)) then ''usage_bytes_limit''
         else case catalog of
                None \<Rightarrow> ''unregistered_usage_value''
              | Some valid \<Rightarrow>
                  if uv_type_ref v \<in> set (ad_seen a) then ''duplicate_usage_value''
                  else if \<not> valid v room then ''invalid_usage_value'' else [])"

definition admit_value :: "usage_catalog option \<Rightarrow> usage_encoder \<Rightarrow> int \<Rightarrow> admission \<Rightarrow> usage_value \<Rightarrow> admission" where
  "admit_value catalog enc max_bytes a v =
     (let issue = value_issue catalog max_bytes a v;
          separator = (if ad_values a \<noteq> [] then 1 else 0)
      in if issue \<noteq> [] then a\<lparr>ad_issues := ad_issues a @ [issue_of issue]\<rparr>
         else case owned_encoding enc v (max_bytes - ad_retained a - separator) of
                None \<Rightarrow> a\<lparr>ad_issues := ad_issues a @ [issue_of ''usage_bytes_limit'']\<rparr>
              | Some (owned, bytes) \<Rightarrow>
                  a\<lparr>ad_retained := ad_retained a + bytes + separator, ad_seen := uv_type_ref v # ad_seen a,
                    ad_values := ad_values a @ [owned]\<rparr>)"

fun admit_values ::
  "usage_catalog option \<Rightarrow> usage_encoder \<Rightarrow> usage_limits \<Rightarrow> int \<Rightarrow> admission \<Rightarrow> usage_value list \<Rightarrow> admission" where
  "admit_values catalog enc limits index a [] = a"
| "admit_values catalog enc limits index a (v # vs) =
     (if ul_max_values limits \<le> index then a\<lparr>ad_issues := ad_issues a @ [issue_of ''usage_values_limit'']\<rparr>
      else admit_values catalog enc limits (index + 1) (admit_value catalog enc (ul_max_extension_bytes limits) a v) vs)"

definition resolved_usage_limits :: "usage_limits \<Rightarrow> usage_limits" where
  "resolved_usage_limits l =
     (if ul_max_values l \<le> 0 \<or> ul_max_extension_bytes l \<le> 0 then default_usage_limits else l)"

definition admit_raw :: "usage_capture_policy \<Rightarrow> raw_usage option \<Rightarrow> raw_usage option \<times> usage_issue list" where
  "admit_raw capture raw =
     (case raw of
        None \<Rightarrow> (None, [])
      | Some r \<Rightarrow> select_raw_usage capture (ru_provider_definition r) (ru_api r) (ru_value r))"

definition admit_usage_with_capture ::
  "(string \<Rightarrow> loss_value option) \<Rightarrow> usage_catalog option \<Rightarrow> usage_encoder \<Rightarrow> usage_event \<Rightarrow> usage_limits \<Rightarrow>
   usage_capture_policy \<Rightarrow> usage_event" where
  "admit_usage_with_capture canon catalog enc e limits capture =
     (let clean = sanitize_common canon (e\<lparr>ue_raw_usage := None, ue_extensions := [], ue_issues := []\<rparr>);
          (raw, raw_issues) = admit_raw capture (ue_raw_usage e);
          a = admit_values catalog enc limits 0
                \<lparr>ad_retained = 2, ad_seen = [], ad_values = [],
                 ad_issues = ue_issues clean @ raw_issues @ admit_issues (ue_issues e)\<rparr> (ue_extensions e)
      in clean\<lparr>ue_raw_usage := raw, ue_extensions := ad_values a, ue_issues := coalesce_issues [ad_issues a]\<rparr>)"

section \<open>What sanitation and merging guarantee\<close>

lemma coalesce_into_inv:
  assumes "coalesce_into res ov is' = (res', ov')" and "length res \<le> max_accounting_issues" and "distinct res"
    and "overflow_issue \<notin> set res"
  shows "length res' \<le> max_accounting_issues \<and> distinct res' \<and> overflow_issue \<notin> set res' \<and>
         set res \<subseteq> set res' \<and> set res' \<subseteq> set res \<union> set is' \<and> (ov \<longrightarrow> ov') \<and>
         (\<not> ov' \<longrightarrow> set is' \<subseteq> set res' \<and> overflow_issue \<notin> set is')"
  using assms
proof (induction is' arbitrary: res ov)
  case (Cons i rest)
  show ?case
  proof (cases "i = overflow_issue \<or> i \<in> set res \<or> length res = max_accounting_issues")
    case True
    define ov1 where "ov1 = (if i = overflow_issue \<or> i \<notin> set res then True else ov)"
    with True Cons.prems(1) have eq: "coalesce_into res ov1 rest = (res', ov')"
      by (auto split: if_splits)
    have "ov \<longrightarrow> ov1" by (simp add: ov1_def)
    with Cons.IH [OF eq Cons.prems(2-4)] Cons.prems(4) show ?thesis
      by (auto simp: ov1_def split: if_splits)
  next
    case False
    then have eq: "coalesce_into (res @ [i]) ov rest = (res', ov')" using Cons.prems(1) by auto
    have "length (res @ [i]) \<le> max_accounting_issues" "distinct (res @ [i])" "overflow_issue \<notin> set (res @ [i])"
      using False Cons.prems(2-4) by auto
    with Cons.IH [OF eq this] False show ?thesis by auto
  qed
qed auto

lemma coalesce_issues_bound: "length (coalesce_issues gs) \<le> Suc max_accounting_issues"
  and coalesce_issues_distinct: "distinct (coalesce_issues gs)"
  and coalesce_issues_from: "set (coalesce_issues gs) \<subseteq> insert overflow_issue (set (concat gs))"
  and coalesce_issues_all: "overflow_issue \<notin> set (coalesce_issues gs) \<Longrightarrow> set (concat gs) \<subseteq> set (coalesce_issues gs)"
proof -
  obtain res ov where eq: "coalesce_into [] False (concat gs) = (res, ov)" by fastforce
  note inv = coalesce_into_inv [OF eq]
  from eq have co: "coalesce_issues gs = (if ov then res @ [overflow_issue] else res)"
    by (simp add: coalesce_issues_def)
  show "length (coalesce_issues gs) \<le> Suc max_accounting_issues" using inv by (simp add: co)
  show "distinct (coalesce_issues gs)" using inv by (simp add: co)
  show "set (coalesce_issues gs) \<subseteq> insert overflow_issue (set (concat gs))" using inv by (auto simp: co)
  show "overflow_issue \<notin> set (coalesce_issues gs) \<Longrightarrow> set (concat gs) \<subseteq> set (coalesce_issues gs)"
    using inv by (simp add: co split: if_splits)
qed

lemma keep_valid [simp]: "\<not> invalid_counter (keep_counter c)" "\<not> invalid_measure (keep_measure m)"
  by (auto simp: keep_counter_def keep_measure_def invalid_counter_def invalid_measure_def split: option.splits)

lemma validate_common_iff: "validate_common e = None \<longleftrightarrow> \<not> common_invalid e"
  by (auto simp: validate_common_def common_invalid_def)

lemma sanitize_common_valid: "\<not> common_invalid (sanitize_common canon e)"
  by (simp add: common_invalid_def sanitize_common_def valid_update_kind_def)

lemma sanitize_common_keeps:
  assumes "\<not> common_invalid e"
  shows "sanitize_common canon e = (clone_usage canon e)\<lparr>ue_issues := coalesce_issues [ue_issues e]\<rparr>"
  using assms by (simp add: sanitize_common_def common_invalid_def keep_counter_def keep_measure_def clone_usage_def)

section \<open>What admission guarantees\<close>

definition encoded_length :: "usage_encoder \<Rightarrow> usage_value \<Rightarrow> int" where
  "encoded_length enc v = (case enc v of None \<Rightarrow> 0 | Some (s, _) \<Rightarrow> int (length s))"

definition encodes_to :: "usage_encoder \<Rightarrow> usage_value \<Rightarrow> usage_value \<Rightarrow> bool" where
  "encodes_to enc v w \<longleftrightarrow> (\<exists>s. enc v = Some (s, Some w))"

text \<open>The size of the JSON array of the encoded values: brackets, encodings and commas.\<close>

definition array_size :: "usage_encoder \<Rightarrow> usage_value list \<Rightarrow> int" where
  "array_size enc vs = (if vs = [] then 2 else 1 + sum_list (map (\<lambda>v. encoded_length enc v + 1) vs))"

definition admission_ok :: "usage_encoder \<Rightarrow> int \<Rightarrow> usage_value list \<Rightarrow> admission \<Rightarrow> bool" where
  "admission_ok enc max_bytes vs a \<longleftrightarrow>
     distinct (map uv_type_ref vs) \<and> set (ad_seen a) = uv_type_ref ` set vs \<and>
     list_all2 (encodes_to enc) vs (ad_values a) \<and> ad_retained a = array_size enc vs \<and>
     (vs \<noteq> [] \<longrightarrow> array_size enc vs \<le> max_bytes)"

lemma owned_encoding_Some:
  "owned_encoding enc v m = Some (w, n) \<Longrightarrow> encodes_to enc v w \<and> n = encoded_length enc v \<and> n \<le> m"
  by (auto simp: owned_encoding_def encodes_to_def encoded_length_def split: if_splits option.splits)

lemma admit_value_ok:
  assumes "admission_ok enc max_bytes vs a"
  shows "admission_ok enc max_bytes vs (admit_value catalog enc max_bytes a v) \<or>
         admission_ok enc max_bytes (vs @ [v]) (admit_value catalog enc max_bytes a v)"
proof (cases "value_issue catalog max_bytes a v = []")
  case False
  with assms show ?thesis by (simp add: admit_value_def Let_def admission_ok_def)
next
  case True
  let ?sep = "if ad_values a \<noteq> [] then 1 else 0 :: int"
  have sep: "ad_values a = [] \<longleftrightarrow> vs = []"
    using assms by (auto simp: admission_ok_def)
  from True have fresh: "uv_type_ref v \<notin> uv_type_ref ` set vs"
    using assms by (auto simp: value_issue_def Let_def admission_ok_def split: option.splits if_splits)
  show ?thesis
  proof (cases "owned_encoding enc v (max_bytes - ad_retained a - ?sep)")
    case None
    with assms True show ?thesis by (simp add: admit_value_def Let_def admission_ok_def)
  next
    case (Some p)
    then obtain w n where p: "owned_encoding enc v (max_bytes - ad_retained a - ?sep) = Some (w, n)"
      by (cases p) auto
    have res: "admit_value catalog enc max_bytes a v =
        a\<lparr>ad_retained := ad_retained a + n + ?sep, ad_seen := uv_type_ref v # ad_seen a,
          ad_values := ad_values a @ [w]\<rparr>"
      using True p by (simp add: admit_value_def Let_def)
    note enc = owned_encoding_Some [OF p]
    have "array_size enc (vs @ [v]) = array_size enc vs + encoded_length enc v + ?sep"
      using sep by (simp add: array_size_def)
    with assms enc fresh have "admission_ok enc max_bytes (vs @ [v]) (admit_value catalog enc max_bytes a v)"
      unfolding res admission_ok_def by (auto simp: list_all2_appendI)
    then show ?thesis ..
  qed
qed

lemma admit_values_ok:
  assumes "admission_ok enc (ul_max_extension_bytes limits) vs a" and "int (length vs) \<le> index"
    and "int (length vs) \<le> max 0 (ul_max_values limits)"
  shows "\<exists>ws. subseq ws input \<and>
           admission_ok enc (ul_max_extension_bytes limits) (vs @ ws) (admit_values catalog enc limits index a input) \<and>
           int (length (vs @ ws)) \<le> max 0 (ul_max_values limits)"
  using assms
proof (induction input arbitrary: vs a index)
  case Nil
  then show ?case by (intro exI [of _ "[]"]) simp
next
  case (Cons v input)
  let ?m = "ul_max_extension_bytes limits"
  show ?case
  proof (cases "ul_max_values limits \<le> index")
    case True
    with Cons.prems show ?thesis by (intro exI [of _ "[]"]) (simp add: admission_ok_def)
  next
    case False
    let ?a = "admit_value catalog enc ?m a v"
    from admit_value_ok [OF Cons.prems(1), of catalog v] show ?thesis
    proof
      assume "admission_ok enc ?m vs ?a"
      from Cons.IH [OF this, of "index + 1"] Cons.prems(2,3) obtain ws where
        "subseq ws input" "admission_ok enc ?m (vs @ ws) (admit_values catalog enc limits (index + 1) ?a input)"
        "int (length (vs @ ws)) \<le> max 0 (ul_max_values limits)" by auto
      with False show ?thesis by (intro exI [of _ ws]) auto
    next
      assume "admission_ok enc ?m (vs @ [v]) ?a"
      from Cons.IH [OF this, of "index + 1"] False Cons.prems(2) obtain ws where
        "subseq ws input" "admission_ok enc ?m (vs @ [v] @ ws) (admit_values catalog enc limits (index + 1) ?a input)"
        "int (length (vs @ [v] @ ws)) \<le> max 0 (ul_max_values limits)" by auto
      with False show ?thesis by (intro exI [of _ "v # ws"]) auto
    qed
  qed
qed

text \<open>
  C23. Whatever an extension reports, an admitted usage event is bounded and valid: its common metrics
  satisfy \<open>ValidateCommon\<close>, it carries at most 33 distinct accounting issues, and its extension values
  are the encodings of a subsequence of the reported ones, with pairwise different contracts, at most
  \<open>MaxValues\<close> many, whose JSON array is at most \<open>MaxExtensionBytes\<close> long.
\<close>

theorem admitted_usage_bounded:
  "\<exists>vs. subseq vs (ue_extensions e) \<and> distinct (map uv_type_ref vs) \<and>
     list_all2 (encodes_to enc) vs (ue_extensions (admit_usage_with_capture canon catalog enc e limits capture)) \<and>
     int (length vs) \<le> max 0 (ul_max_values limits) \<and>
     (vs = [] \<or> array_size enc vs \<le> ul_max_extension_bytes limits) \<and>
     validate_common (admit_usage_with_capture canon catalog enc e limits capture) = None \<and>
     length (ue_issues (admit_usage_with_capture canon catalog enc e limits capture)) \<le> 33 \<and>
     distinct (ue_issues (admit_usage_with_capture canon catalog enc e limits capture))"
proof -
  let ?e = "admit_usage_with_capture canon catalog enc e limits capture"
  define clean where "clean = sanitize_common canon (e\<lparr>ue_raw_usage := None, ue_extensions := [], ue_issues := []\<rparr>)"
  define start where "start = \<lparr>ad_retained = 2, ad_seen = [], ad_values = [],
     ad_issues = ue_issues clean @ snd (admit_raw capture (ue_raw_usage e)) @ admit_issues (ue_issues e)\<rparr>"
  define a where "a = admit_values catalog enc limits 0 start (ue_extensions e)"
  have eq: "?e = clean\<lparr>ue_raw_usage := fst (admit_raw capture (ue_raw_usage e)), ue_extensions := ad_values a,
      ue_issues := coalesce_issues [ad_issues a]\<rparr>"
    by (simp add: admit_usage_with_capture_def Let_def clean_def start_def a_def case_prod_unfold)
  have "admission_ok enc (ul_max_extension_bytes limits) [] start"
    by (simp add: admission_ok_def start_def array_size_def)
  from admit_values_ok [OF this, of 0 "ue_extensions e" catalog] obtain vs where
    "subseq vs (ue_extensions e)" "admission_ok enc (ul_max_extension_bytes limits) vs a"
    "int (length vs) \<le> max 0 (ul_max_values limits)" by (auto simp: a_def)
  moreover have "validate_common ?e = None"
    using sanitize_common_valid [of canon "e\<lparr>ue_raw_usage := None, ue_extensions := [], ue_issues := []\<rparr>"]
    unfolding validate_common_iff eq clean_def common_invalid_def by simp
  ultimately show ?thesis
    using coalesce_issues_bound [of "[ad_issues a]"] coalesce_issues_distinct [of "[ad_issues a]"]
    by (intro exI [of _ vs]) (auto simp: eq admission_ok_def max_accounting_issues_def)
qed

lemma put_usage_value_lookup:
  "map_of (map (\<lambda>v. (uv_type_ref v, v)) (put_usage_value u vs)) r =
     (if r = uv_type_ref u then Some u else map_of (map (\<lambda>v. (uv_type_ref v, v)) vs) r)"
  by (induction u vs rule: put_usage_value.induct) auto

definition usage_value_of :: "usage_value list \<Rightarrow> ext_ref \<Rightarrow> usage_value option" where
  "usage_value_of vs r = map_of (map (\<lambda>v. (uv_type_ref v, v)) vs) r"

lemma merge_usage_values_lookup:
  "usage_value_of (merge_usage_values current update) r =
     newest (usage_value_of current r) (usage_value_of (rev update) r)"
proof (induction update rule: rev_induct)
  case Nil
  then show ?case by (simp add: merge_usage_values_def usage_value_of_def newest_def)
next
  case (snoc u us)
  then show ?case
    by (simp add: merge_usage_values_def usage_value_of_def newest_def put_usage_value_lookup split: option.splits)
qed

text \<open>
  Merging provider observations: a full snapshot replaces every common quantity and the extension
  values, also by "unknown"; a partial one replaces exactly the quantities it reports and adds or
  replaces the extension values of the contracts it reports. The result is a full snapshot.
\<close>

theorem merge_provider_usage_correct:
  "let m = merge_provider_usage canon current update;
       merged = (\<lambda>old new. if ue_update_kind update = UsageFullSnapshot then new else newest old new)
   in ue_input_tokens m = merged (ue_input_tokens current) (ue_input_tokens update) \<and>
      ue_output_tokens m = merged (ue_output_tokens current) (ue_output_tokens update) \<and>
      ue_cached_read_tokens m = merged (ue_cached_read_tokens current) (ue_cached_read_tokens update) \<and>
      ue_cached_write_tokens m = merged (ue_cached_write_tokens current) (ue_cached_write_tokens update) \<and>
      ue_reasoning_tokens m = merged (ue_reasoning_tokens current) (ue_reasoning_tokens update) \<and>
      (ue_update_kind update = UsageFullSnapshot \<longrightarrow> ue_extensions m = ue_extensions update) \<and>
      (ue_update_kind update \<noteq> UsageFullSnapshot \<longrightarrow>
         usage_value_of (ue_extensions m) r =
           newest (usage_value_of (ue_extensions current) r) (usage_value_of (rev (ue_extensions update)) r)) \<and>
      ue_update_kind m = UsageFullSnapshot"
  by (simp add: merge_provider_usage_def Let_def clear_common_def clone_usage_def merge_usage_values_lookup
      newest_def split: option.split)

lemma merge_provider_usage_correct_witness:
  "ue_input_tokens (merge_provider_usage (\<lambda>_. None) (zero_usage\<lparr>ue_input_tokens := Some 7\<rparr>)
     (zero_usage\<lparr>ue_update_kind := UsagePartialSnapshot\<rparr>)) = Some 7"
  using merge_provider_usage_correct [of "\<lambda>_. None" "zero_usage\<lparr>ue_input_tokens := Some 7\<rparr>"
      "zero_usage\<lparr>ue_update_kind := UsagePartialSnapshot\<rparr>" no_ref]
  by (simp add: Let_def newest_def zero_usage_def)

end
