(* ===== verification/Attempts.thy ===== *)
theory Attempts
  imports Usage
begin

text \<open>
  The accounting of one dispatched attempt (\<open>internal/kernel/usage_attempt.go\<close>): a small state machine
  that merges what is observed of the attempt and emits one event for it.
\<close>

section \<open>Accounting of one attempt\<close>

text \<open>
  A \<open>usageAttempt\<close> belongs to one dispatched request. What it asks its kernel is the environment: the
  catalog and encoder of admission, the usage source of the route (\<open>EnrichUsage\<close>, which may fail) and
  the usage requirements of its operation. Contexts appear as the one fact the code reads of them: whether
  the request was cancelled for another reason than the operation deadline.
\<close>

record usage_evidence =
  ev_status_code :: int
  ev_headers :: "(string, string list) gomap"
  ev_error_body :: string

definition no_evidence :: usage_evidence where
  "no_evidence = \<lparr>ev_status_code = 0, ev_headers = [], ev_error_body = []\<rparr>"

record usage_requirements =
  ur_require_reported :: bool
  ur_required_extensions :: "ext_ref list"

record usage_env =
  env_canon :: "string \<Rightarrow> loss_value option"
  env_catalog :: "usage_catalog option"
  env_encoder :: usage_encoder
  env_source :: "(route \<Rightarrow> usage_evidence \<Rightarrow> usage_event \<Rightarrow> usage_event option) option"
  env_requirements :: "usage_requirements option"

record usage_attempt =
  ua_invocation_id :: string
  ua_id :: string
  ua_route :: route
  ua_logical_model :: string
  ua_workload :: string
  ua_session :: string
  ua_started :: go_time
  ua_evidence :: usage_evidence
  ua_usage :: usage_event
  ua_enriched :: bool
  ua_completed :: bool
  ua_finalized :: bool
  ua_completion_failed :: bool
  ua_compatibility :: "plan_summary option"
  ua_fidelity :: compatibility_fidelity
  ua_losses :: "loss_record list"
  ua_limits :: usage_limits
  ua_capture :: usage_capture_policy

text \<open>The bounds of the operation tighten the host's limits; \<open>bounds\<close> are its positive resource bounds.\<close>

definition tighten_limits :: "int list \<Rightarrow> usage_limits \<Rightarrow> usage_limits" where
  "tighten_limits bounds l =
     foldl (\<lambda>l b. if 0 < b then l\<lparr>ul_max_extension_bytes := min (ul_max_extension_bytes l) b\<rparr> else l) l bounds"

definition tighten_capture :: "int list \<Rightarrow> usage_capture_policy \<Rightarrow> usage_capture_policy" where
  "tighten_capture bounds c =
     foldl (\<lambda>c b. if 0 < b then c\<lparr>cp_max_bytes := min (cp_max_bytes c) b\<rparr> else c) c bounds"

definition new_usage_attempt ::
  "string \<Rightarrow> string \<Rightarrow> route \<Rightarrow> string \<Rightarrow> string \<Rightarrow> string \<Rightarrow> usage_limits \<Rightarrow> usage_capture_policy \<Rightarrow>
   (int \<times> int) option \<Rightarrow> go_time \<Rightarrow> usage_attempt" where
  "new_usage_attempt invocation i r model workload session limits capture bounds now =
     (let bs = (case bounds of None \<Rightarrow> [] | Some (buffered, out) \<Rightarrow> [buffered, out])
      in \<lparr>ua_invocation_id = invocation, ua_id = i, ua_route = r, ua_logical_model = model,
          ua_workload = workload, ua_session = session, ua_started = now, ua_evidence = no_evidence,
          ua_usage = zero_usage, ua_enriched = False, ua_completed = False, ua_finalized = False,
          ua_completion_failed = False, ua_compatibility = None, ua_fidelity = CompatFidelityUnset,
          ua_losses = [], ua_limits = tighten_limits bs (resolved_usage_limits limits),
          ua_capture = tighten_capture bs capture\<rparr>)"

definition attempt_admit :: "usage_env \<Rightarrow> usage_attempt \<Rightarrow> usage_event \<Rightarrow> usage_event" where
  "attempt_admit env a e =
     (let mismatch = (case ue_raw_usage e of
                        None \<Rightarrow> False
                      | Some raw \<Rightarrow> ru_provider_definition raw \<noteq> rt_definition_ref (ua_route a));
          e1 = (if mismatch
                then e\<lparr>ue_raw_usage := None, ue_issues := ue_issues e @ [issue_of ''raw_usage_issuer_mismatch'']\<rparr>
                else e)
      in admit_usage_with_capture (env_canon env) (env_catalog env) (env_encoder env) e1 (ua_limits a) (ua_capture a))"

definition attempt_merge :: "usage_env \<Rightarrow> usage_attempt \<Rightarrow> usage_event \<Rightarrow> usage_event" where
  "attempt_merge env a e =
     attempt_admit env a (merge_provider_usage (env_canon env) (ua_usage a) (attempt_admit env a e))"

definition attempt_observe :: "usage_env \<Rightarrow> usage_attempt \<Rightarrow> usage_event \<Rightarrow> usage_attempt" where
  "attempt_observe env a e =
     (if ua_finalized a \<or> ua_completed a then a else a\<lparr>ua_usage := attempt_merge env a e\<rparr>)"

definition attempt_set_evidence :: "usage_attempt \<Rightarrow> usage_evidence \<Rightarrow> usage_attempt" where
  "attempt_set_evidence a ev = a\<lparr>ua_evidence := ev\<rparr>"

definition attempt_enrich :: "usage_env \<Rightarrow> usage_attempt \<Rightarrow> usage_attempt" where
  "attempt_enrich env a =
     (if ua_enriched a then a
      else let a1 = a\<lparr>ua_enriched := True\<rparr>
           in case env_source env of
                None \<Rightarrow> a1
              | Some enrich \<Rightarrow>
                  (case enrich (ua_route a) (ua_evidence a) (clone_usage (env_canon env) (ua_usage a)) of
                     None \<Rightarrow>
                       a1\<lparr>ua_usage := (ua_usage a)\<lparr>ue_issues :=
                         coalesce_issues [ue_issues (ua_usage a), [issue_of ''usage_enrichment_failed'']]\<rparr>\<rparr>
                   | Some enriched \<Rightarrow> a1\<lparr>ua_usage := attempt_merge env a1 enriched\<rparr>))"

text \<open>\<open>now\<close> and \<open>now'\<close> are the readings for the event's time and for the latency since the start.\<close>

definition attempt_snapshot :: "usage_env \<Rightarrow> go_time \<Rightarrow> go_time \<Rightarrow> usage_attempt \<Rightarrow> string \<Rightarrow> usage_event" where
  "attempt_snapshot env now now' a status =
     (let e = clone_usage (env_canon env) (ua_usage a);
          latency = time_sub now' (ua_started a)
      in e\<lparr>ue_update_kind := UsageFullSnapshot, ue_invocation_id := ua_invocation_id a, ue_attempt_id := ua_id a,
           ue_at := now, ue_status := status, ue_logical_model := ua_logical_model a,
           ue_provider_node_id := rt_node_id (ua_route a), ue_connection_id := rt_credential_id (ua_route a),
           ue_external_model := rt_external_model (ua_route a), ue_latency := latency,
           ue_request_class := ua_workload a, ue_session_id := ua_session a, ue_fidelity := ua_fidelity a,
           ue_losses := clone_losses (env_canon env) (ua_losses a),
           ue_plan := newest (ue_plan e) (ua_compatibility a),
           ue_output_rate :=
             (case ue_output_tokens e of
                None \<Rightarrow> None
              | Some n \<Rightarrow> if 0 < latency then Some (fdiv (float_of_int n) (duration_seconds latency)) else None)\<rparr>)"

definition requirements_missing :: "usage_requirements option \<Rightarrow> usage_event \<Rightarrow> bool" where
  "requirements_missing req e =
     (case req of
        None \<Rightarrow> False
      | Some q \<Rightarrow>
          (ur_require_reported q \<and> \<not> has_reported_usage e) \<or>
          list_ex (\<lambda>r. \<not> list_ex (\<lambda>v. uv_type_ref v = r) (ue_extensions e)) (ur_required_extensions q))"

text \<open>\<open>complete\<close> returns the event and whether it failed with \<open>ErrRequiredUsage\<close>.\<close>

definition attempt_complete ::
  "usage_env \<Rightarrow> go_time \<Rightarrow> go_time \<Rightarrow> usage_attempt \<Rightarrow> usage_event \<Rightarrow> usage_attempt \<times> usage_event \<times> bool" where
  "attempt_complete env now now' a e =
     (if ua_completed a then (a, attempt_snapshot env now now' a ''ok'', ua_completion_failed a)
      else let a1 = (attempt_enrich env (a\<lparr>ua_usage := attempt_merge env a e\<rparr>))\<lparr>ua_completed := True\<rparr>;
               result = attempt_snapshot env now now' a1 ''ok''
           in if requirements_missing (env_requirements env) result
              then let a2 = a1\<lparr>ua_usage := (ua_usage a1)\<lparr>ue_issues :=
                           coalesce_issues [ue_issues (ua_usage a1), [issue_of ''required_usage_missing'']]\<rparr>,
                             ua_completion_failed := True\<rparr>
                   in (a2, attempt_snapshot env now now' a2 ''error'', True)
              else (a1, result, False))"

definition attempt_finish ::
  "usage_env \<Rightarrow> go_time \<Rightarrow> go_time \<Rightarrow> bool \<Rightarrow> usage_attempt \<Rightarrow> string \<Rightarrow> usage_attempt \<times> usage_event list" where
  "attempt_finish env now now' cancelled a status =
     (if ua_finalized a then (a, [])
      else let a1 = (attempt_enrich env a)\<lparr>ua_finalized := True\<rparr>;
               e = attempt_snapshot env now now' a1 (if cancelled then ''cancelled'' else status)
           in (a1\<lparr>ua_usage := zero_usage, ua_evidence := no_evidence, ua_compatibility := None, ua_losses := []\<rparr>, [e]))"

definition attempt_finish_success ::
  "usage_env \<Rightarrow> go_time \<Rightarrow> go_time \<Rightarrow> bool \<Rightarrow> usage_attempt \<Rightarrow> usage_event \<Rightarrow> usage_attempt \<times> usage_event list" where
  "attempt_finish_success env now now' cancelled a e =
     (if ua_finalized a then (a, [])
      else attempt_finish env now now' cancelled
             (a\<lparr>ua_usage := attempt_admit env a e, ua_compatibility := ue_plan e, ua_fidelity := ue_fidelity e,
                ua_losses := ue_losses e\<rparr>) ''ok'')"

definition attempt_set_compatibility :: "usage_env \<Rightarrow> usage_attempt \<Rightarrow> compat_plan \<Rightarrow> usage_attempt" where
  "attempt_set_compatibility env a plan =
     a\<lparr>ua_compatibility := Some (summarize_plan plan), ua_fidelity := pn_fidelity plan,
       ua_losses := clone_losses (env_canon env) (pn_losses plan)\<rparr>"

text \<open>The calls the kernel makes on an attempt, in any order and number; the events they emit.\<close>

datatype attempt_op =
    OpObserve usage_event
  | OpEvidence usage_evidence
  | OpCompatibility compat_plan
  | OpComplete go_time go_time usage_event
  | OpFinish go_time go_time bool string
  | OpFinishSuccess go_time go_time bool usage_event

fun attempt_exec :: "usage_env \<Rightarrow> attempt_op \<Rightarrow> usage_attempt \<Rightarrow> usage_attempt \<times> usage_event list" where
  "attempt_exec env (OpObserve e) a = (attempt_observe env a e, [])"
| "attempt_exec env (OpEvidence ev) a = (attempt_set_evidence a ev, [])"
| "attempt_exec env (OpCompatibility plan) a = (attempt_set_compatibility env a plan, [])"
| "attempt_exec env (OpComplete now now' e) a = (fst (attempt_complete env now now' a e), [])"
| "attempt_exec env (OpFinish now now' cancelled status) a = attempt_finish env now now' cancelled a status"
| "attempt_exec env (OpFinishSuccess now now' cancelled e) a = attempt_finish_success env now now' cancelled a e"

fun attempt_run :: "usage_env \<Rightarrow> attempt_op list \<Rightarrow> usage_attempt \<Rightarrow> usage_attempt \<times> usage_event list" where
  "attempt_run env [] a = (a, [])"
| "attempt_run env (x # xs) a =
     (case attempt_exec env x a of (a1, es1) \<Rightarrow> case attempt_run env xs a1 of (a2, es2) \<Rightarrow> (a2, es1 @ es2))"

fun finishing :: "attempt_op \<Rightarrow> bool" where
  "finishing (OpFinish _ _ _ _) = True"
| "finishing (OpFinishSuccess _ _ _ _) = True"
| "finishing _ = False"

definition same_attempt :: "usage_attempt \<Rightarrow> usage_attempt \<Rightarrow> bool" where
  "same_attempt a b \<longleftrightarrow>
     ua_invocation_id b = ua_invocation_id a \<and> ua_id b = ua_id a \<and> ua_route b = ua_route a \<and>
     ua_logical_model b = ua_logical_model a \<and> ua_session b = ua_session a"

definition accounts_for :: "usage_attempt \<Rightarrow> usage_event \<Rightarrow> bool" where
  "accounts_for a e \<longleftrightarrow>
     ue_update_kind e = UsageFullSnapshot \<and> ue_invocation_id e = ua_invocation_id a \<and> ue_attempt_id e = ua_id a \<and>
     ue_provider_node_id e = rt_node_id (ua_route a) \<and> ue_connection_id e = rt_credential_id (ua_route a) \<and>
     ue_external_model e = rt_external_model (ua_route a) \<and> ue_logical_model e = ua_logical_model a \<and>
     ue_session_id e = ua_session a"

lemma same_attempt_trans: "same_attempt a b \<Longrightarrow> same_attempt b c \<Longrightarrow> same_attempt a c"
  by (simp add: same_attempt_def)

lemma accounts_for_same: "same_attempt a b \<Longrightarrow> accounts_for b e \<Longrightarrow> accounts_for a e"
  by (simp add: same_attempt_def accounts_for_def)

lemma attempt_enrich_frame:
  "same_attempt a (attempt_enrich env a)" "ua_finalized (attempt_enrich env a) = ua_finalized a"
  by (simp_all add: attempt_enrich_def same_attempt_def Let_def split: option.split)

lemma snapshot_accounts: "accounts_for a (attempt_snapshot env now now' a status)"
  by (simp add: attempt_snapshot_def accounts_for_def Let_def)

lemma attempt_complete_frame:
  "same_attempt a (fst (attempt_complete env now now' a e))"
  "ua_finalized (fst (attempt_complete env now now' a e)) = ua_finalized a"
  using attempt_enrich_frame [where a = "a\<lparr>ua_usage := attempt_merge env a e\<rparr>" and env = env]
  by (simp_all add: attempt_complete_def same_attempt_def Let_def)

lemma attempt_finish_frame:
  "same_attempt a (fst (attempt_finish env now now' cancelled a status)) \<and>
   ua_finalized (fst (attempt_finish env now now' cancelled a status)) \<and>
   length (snd (attempt_finish env now now' cancelled a status)) = (if ua_finalized a then 0 else 1) \<and>
   list_all (accounts_for a) (snd (attempt_finish env now now' cancelled a status))"
  using attempt_enrich_frame [where a = a and env = env]
    snapshot_accounts [of "(attempt_enrich env a)\<lparr>ua_finalized := True\<rparr>" env now now' "if cancelled then ''cancelled'' else status"]
  by (auto simp: attempt_finish_def same_attempt_def accounts_for_def Let_def)

lemma attempt_exec_frame:
  "same_attempt a (fst (attempt_exec env x a)) \<and>
   ua_finalized (fst (attempt_exec env x a)) = (ua_finalized a \<or> finishing x) \<and>
   length (snd (attempt_exec env x a)) = (if finishing x \<and> \<not> ua_finalized a then 1 else 0) \<and>
   list_all (accounts_for a) (snd (attempt_exec env x a))"
proof (cases x)
  case (OpFinish now now' cancelled status)
  with attempt_finish_frame [of a env now now' cancelled status] show ?thesis by auto
next
  case (OpFinishSuccess now now' cancelled e)
  with attempt_finish_frame [of "a\<lparr>ua_usage := attempt_admit env a e, ua_compatibility := ue_plan e,
      ua_fidelity := ue_fidelity e, ua_losses := ue_losses e\<rparr>" env now now' cancelled "''ok''"]
  show ?thesis by (auto simp: attempt_finish_success_def same_attempt_def accounts_for_def [abs_def])
qed (use attempt_complete_frame in
    \<open>auto simp: attempt_observe_def attempt_set_evidence_def attempt_set_compatibility_def same_attempt_def\<close>)

text \<open>
  C22. One dispatched attempt is accounted for at most once, and exactly once as soon as it was finished:
  whatever calls are made in whatever order, repeated finishes included, the events emitted are
  none before the first finish and one after it, and that event is a full snapshot under the attempt's
  own identity, route, model and session.
\<close>

theorem attempt_accounted_once:
  "length (snd (attempt_run env ops a)) = (if list_ex finishing ops \<and> \<not> ua_finalized a then 1 else 0) \<and>
   list_all (accounts_for a) (snd (attempt_run env ops a))"
proof (induction ops arbitrary: a)
  case (Cons x xs)
  let ?a = "fst (attempt_exec env x a)"
  have run: "snd (attempt_run env (x # xs) a) = snd (attempt_exec env x a) @ snd (attempt_run env xs ?a)"
    by (simp add: case_prod_unfold)
  note frame = attempt_exec_frame [of a env x]
  have "list_all (accounts_for a) (snd (attempt_run env xs ?a))"
    using Cons.IH [of ?a] frame by (auto simp: list_all_iff intro: accounts_for_same)
  with Cons.IH [of ?a] frame show ?case
    unfolding run by auto
qed simp

end
