(* ===== verification/Outcomes.thy ===== *)
theory Outcomes
  imports Contract
begin

text \<open>
  The classified outcome of one attempt (\<open>internal/kernel/contract.go\<close>) and the bounded failure shown
  to the client (\<open>internal/kernel/client_failure.go\<close>).
\<close>

section \<open>Client failures\<close>

record client_failure =
  cf_code :: string
  cf_type :: string
  cf_message :: string

definition no_client_failure :: client_failure where
  "no_client_failure = \<lparr>cf_code = [], cf_type = [], cf_message = []\<rparr>"

definition identifier_char :: "char \<Rightarrow> bool" where
  "identifier_char c \<longleftrightarrow>
     (let n = (of_char c :: nat)
      in 97 \<le> n \<and> n \<le> 122 \<or> 65 \<le> n \<and> n \<le> 90 \<or> 48 \<le> n \<and> n \<le> 57 \<or> c \<in> set ''_.-:'')"

definition valid_failure_identifier :: "string \<Rightarrow> nat \<Rightarrow> bool" where
  "valid_failure_identifier v mx \<longleftrightarrow> v \<noteq> [] \<and> length v \<le> mx \<and> list_all identifier_char v"

text \<open>
  \<open>utf8.ValidString\<close>: a sequence of well-formed UTF-8 encodings (no overlong form, no surrogate, at
  most U+10FFFF), read byte by byte. The state is the range the next continuation byte must be in and
  the number of continuation bytes after it.
\<close>

definition utf8_first :: "nat \<Rightarrow> ((nat \<times> nat) \<times> nat) option option" where
  "utf8_first n =
     (if n < 0x80 then Some None
      else if 0xC2 \<le> n \<and> n \<le> 0xDF then Some (Some ((0x80, 0xBF), 0))
      else if n = 0xE0 then Some (Some ((0xA0, 0xBF), 1))
      else if 0xE1 \<le> n \<and> n \<le> 0xEC \<or> n = 0xEE \<or> n = 0xEF then Some (Some ((0x80, 0xBF), 1))
      else if n = 0xED then Some (Some ((0x80, 0x9F), 1))
      else if n = 0xF0 then Some (Some ((0x90, 0xBF), 2))
      else if 0xF1 \<le> n \<and> n \<le> 0xF3 then Some (Some ((0x80, 0xBF), 2))
      else if n = 0xF4 then Some (Some ((0x80, 0x8F), 2))
      else None)"

fun utf8_scan :: "((nat \<times> nat) \<times> nat) option \<Rightarrow> string \<Rightarrow> bool" where
  "utf8_scan st [] \<longleftrightarrow> st = None"
| "utf8_scan None (c # cs) =
     (case utf8_first (of_char c) of None \<Rightarrow> False | Some st \<Rightarrow> utf8_scan st cs)"
| "utf8_scan (Some ((lo, hi), k)) (c # cs) =
     (lo \<le> (of_char c :: nat) \<and> (of_char c :: nat) \<le> hi \<and>
      utf8_scan (if k = 0 then None else Some ((0x80, 0xBF), k - 1)) cs)"

definition valid_utf8 :: "string \<Rightarrow> bool" where
  "valid_utf8 s = utf8_scan None s"

definition max_failure_message :: nat where
  "max_failure_message = 4096"

definition client_failure_valid :: "client_failure \<Rightarrow> bool" where
  "client_failure_valid f \<longleftrightarrow>
     valid_failure_identifier (cf_code f) 128 \<and> valid_failure_identifier (cf_type f) 64 \<and>
     cf_message f \<noteq> [] \<and> length (cf_message f) \<le> max_failure_message \<and> valid_utf8 (cf_message f)"

text \<open>
  An error as this component sees it: the safe carrier found in its chain, if any, and which of the
  kernel's own errors the chain holds.
\<close>

record error_view =
  ew_carrier :: "client_failure option"
  ew_continuity_restart :: bool
  ew_not_published :: bool
  ew_no_route :: bool
  ew_operation_required :: bool
  ew_input_error :: bool

definition failure_of :: "string \<Rightarrow> string \<Rightarrow> string \<Rightarrow> client_failure" where
  "failure_of c t m = \<lparr>cf_code = c, cf_type = t, cf_message = m\<rparr>"

definition default_client_failure :: client_failure where
  "default_client_failure = failure_of ''upstream_error'' ''upstream_error'' ''upstream request failed''"

definition continuity_restart_message :: string where
  "continuity_restart_message =
     ''provider continuation is no longer valid; resend the complete conversation without rejected continuation state''"

definition client_failure_known :: "error_view \<Rightarrow> client_failure \<Rightarrow> client_failure" where
  "client_failure_known e fallback =
     (if ew_continuity_restart e
      then failure_of ''continuity_restart_required'' ''invalid_request_error'' continuity_restart_message
      else if ew_not_published e then failure_of ''model_not_found'' ''invalid_request_error'' ''model is not published''
      else if ew_no_route e then failure_of ''no_route'' ''upstream_error'' ''no usable route''
      else if ew_operation_required e
      then failure_of ''invalid_request'' ''invalid_request_error'' ''semantic operation is required''
      else if ew_input_error e then failure_of ''invalid_request'' ''invalid_request_error'' ''invalid request''
      else if \<not> client_failure_valid fallback then default_client_failure
      else fallback)"

definition client_failure_with_fallback :: "error_view option \<Rightarrow> client_failure \<Rightarrow> client_failure" where
  "client_failure_with_fallback err fallback =
     (case err of
        None \<Rightarrow> no_client_failure
      | Some e \<Rightarrow>
          (case ew_carrier e of
             Some d \<Rightarrow> if client_failure_valid d then d else client_failure_known e fallback
           | None \<Rightarrow> client_failure_known e fallback))"

definition client_failure_for_error :: "error_view option \<Rightarrow> client_failure" where
  "client_failure_for_error err = client_failure_with_fallback err default_client_failure"

text \<open>Whatever an error carries, the failure a client sees for it is bounded and well formed.\<close>

lemma default_client_failure_valid: "client_failure_valid default_client_failure"
  by code_simp

lemma known_failures_valid:
  "client_failure_valid
     (failure_of ''continuity_restart_required'' ''invalid_request_error'' continuity_restart_message)"
  "client_failure_valid (failure_of ''model_not_found'' ''invalid_request_error'' ''model is not published'')"
  "client_failure_valid (failure_of ''no_route'' ''upstream_error'' ''no usable route'')"
  "client_failure_valid (failure_of ''invalid_request'' ''invalid_request_error'' ''semantic operation is required'')"
  "client_failure_valid (failure_of ''invalid_request'' ''invalid_request_error'' ''invalid request'')"
  by code_simp+

lemma client_failure_known_valid: "client_failure_valid (client_failure_known e fallback)"
  by (simp add: client_failure_known_def known_failures_valid default_client_failure_valid)

text \<open>
  The failure shown to a client for any error, with any fallback, is valid: identifiers from a
  fixed alphabet, a nonempty message of at most 4096 bytes of well-formed UTF-8.
\<close>

theorem client_failure_always_valid: "client_failure_valid (client_failure_with_fallback (Some e) fallback)"
  by (simp add: client_failure_with_fallback_def client_failure_known_valid split: option.split)

section \<open>Classified outcomes\<close>

record limit_window =
  lw_name :: string
  lw_kind :: string
  lw_limit :: "gofloat option"
  lw_used :: "gofloat option"
  lw_remaining :: "gofloat option"
  lw_reset_at :: "go_time option"
  lw_source :: evidence_source

record classified_outcome =
  oc_class :: error_class
  oc_cause :: outcome_cause
  oc_effect :: upstream_effect
  oc_scope :: outcome_scope
  oc_retry :: retry_action
  oc_recovery :: credential_recovery
  oc_continuity :: continuity_recovery
  oc_retry_at :: go_time
  oc_confidence :: gofloat
  oc_evidence :: "evidence_source list"
  oc_limits :: "limit_window list"
  oc_status_code :: int
  oc_message :: string
  oc_client_failure :: client_failure

definition success_outcome :: "outcome_scope \<Rightarrow> classified_outcome" where
  "success_outcome scope =
     \<lparr>oc_class = ErrorTerminal, oc_cause = CauseSuccess, oc_effect = EffectAccepted, oc_scope = scope,
      oc_retry = RetryUnset, oc_recovery = RecoveryUnset, oc_continuity = ContinuityUnset, oc_retry_at = 0,
      oc_confidence = Finite 1, oc_evidence = [EvidenceSuccessBody], oc_limits = [], oc_status_code = 200,
      oc_message = [], oc_client_failure = no_client_failure\<rparr>"

end
