(* ===== verification/Quota.thy ===== *)
theory Quota
  imports Contract
begin

text \<open>
  Budget evidence (\<open>internal/quota/quota.go\<close>): one observation of a provider window, whether it
  exhausts a route, and how competing observations of the same window merge.
\<close>

datatype evidence_authority =
    AuthorityUnknown
  | AuthorityInferred
  | AuthorityQuotaAPI
  | AuthorityErrorBody
  | AuthoritySuccessBody
  | AuthorityResponseHeader
  | AuthorityExplicit

text \<open>The constants are numbered in this order; a tie of freshness goes to the greater one.\<close>

fun authority_rank :: "evidence_authority \<Rightarrow> nat" where
  "authority_rank AuthorityUnknown = 0"
| "authority_rank AuthorityInferred = 1"
| "authority_rank AuthorityQuotaAPI = 2"
| "authority_rank AuthorityErrorBody = 3"
| "authority_rank AuthoritySuccessBody = 4"
| "authority_rank AuthorityResponseHeader = 5"
| "authority_rank AuthorityExplicit = 6"

instantiation evidence_authority :: linorder
begin

definition less_eq_evidence_authority :: "evidence_authority \<Rightarrow> evidence_authority \<Rightarrow> bool" where
  "less_eq_evidence_authority a b \<longleftrightarrow> authority_rank a \<le> authority_rank b"

definition less_evidence_authority :: "evidence_authority \<Rightarrow> evidence_authority \<Rightarrow> bool" where
  "less_evidence_authority a b \<longleftrightarrow> authority_rank a < authority_rank b"

instance
proof
  fix a b :: evidence_authority
  show "a \<le> b \<Longrightarrow> b \<le> a \<Longrightarrow> a = b"
    by (cases a; cases b) (simp_all add: less_eq_evidence_authority_def)
qed (auto simp: less_eq_evidence_authority_def less_evidence_authority_def)

end

datatype routing_effect = EffectDefault | RoutingEffectEnforce | RoutingEffectObserve | RoutingEffectOther string

record quota_snapshot =
  qs_operation_ref :: ext_ref
  qs_provider :: string
  qs_connection :: string
  qs_model :: string
  qs_window :: string
  qs_generation :: string
  qs_authority :: evidence_authority
  qs_observed_at :: go_time
  qs_used :: gofloat
  qs_limit :: "gofloat option"
  qs_remaining :: "gofloat option"
  qs_reset_at :: "go_time option"
  qs_source :: string
  qs_effect :: routing_effect

record quota_identity =
  qi_provider :: string
  qi_connection :: string
  qi_model :: string
  qi_window :: string
  qi_operation :: ext_ref

definition quota_id :: "quota_snapshot \<Rightarrow> quota_identity" where
  "quota_id s =
     \<lparr>qi_provider = qs_provider s, qi_connection = qs_connection s, qi_model = qs_model s,
      qi_window = qs_window s, qi_operation = qs_operation_ref s\<rparr>"

definition operation_kind :: string where
  "operation_kind = ''operation''"

definition operation_scope_ok :: "quota_snapshot \<Rightarrow> bool" where
  "operation_scope_ok s \<longleftrightarrow>
     qs_operation_ref s = no_ref \<or>
     ref_kind (qs_operation_ref s) = operation_kind \<and> ref_ok (qs_operation_ref s)"

definition exhausted :: "quota_snapshot \<Rightarrow> go_time \<Rightarrow> bool" where
  "exhausted s now \<longleftrightarrow>
     (if qs_effect s = RoutingEffectObserve then False
      else case qs_remaining s of
        None \<Rightarrow> False
      | Some r \<Rightarrow>
          if fless fzero r then False
          else case qs_reset_at s of None \<Rightarrow> True | Some t \<Rightarrow> after t now)"

definition quota_usable :: "quota_snapshot \<Rightarrow> go_time \<Rightarrow> bool" where
  "quota_usable s now \<longleftrightarrow> \<not> exhausted s now"

definition authority_string :: "evidence_authority \<Rightarrow> string" where
  "authority_string a =
     (case a of
        AuthorityInferred \<Rightarrow> ''inferred''
      | AuthorityQuotaAPI \<Rightarrow> ''quota_api''
      | AuthorityErrorBody \<Rightarrow> ''error_body''
      | AuthoritySuccessBody \<Rightarrow> ''success_body''
      | AuthorityResponseHeader \<Rightarrow> ''response_header''
      | AuthorityExplicit \<Rightarrow> ''explicit''
      | AuthorityUnknown \<Rightarrow> ''unknown'')"

definition authority_of_string :: "string \<Rightarrow> evidence_authority option" where
  "authority_of_string v =
     (if v = ''unknown'' then Some AuthorityUnknown
      else if v = ''inferred'' then Some AuthorityInferred
      else if v = ''quota_api'' then Some AuthorityQuotaAPI
      else if v = ''error_body'' then Some AuthorityErrorBody
      else if v = ''success_body'' then Some AuthoritySuccessBody
      else if v = ''response_header'' then Some AuthorityResponseHeader
      else if v = ''explicit'' then Some AuthorityExplicit
      else None)"

definition authority_from_source :: "string \<Rightarrow> evidence_authority" where
  "authority_from_source v =
     (if v = ''response_header'' then AuthorityResponseHeader
      else if v = ''success_body'' then AuthoritySuccessBody
      else if v = ''error_body'' then AuthorityErrorBody
      else if v = ''inferred'' then AuthorityInferred
      else if v = ''quota_api'' \<or> v = ''http-json-quota'' then AuthorityQuotaAPI
      else AuthorityUnknown)"

lemma authority_roundtrip: "authority_of_string (authority_string a) = Some a"
  by (cases a) (simp_all add: authority_string_def authority_of_string_def)

section \<open>Merging observations\<close>

definition merge_known :: "quota_snapshot \<Rightarrow> quota_snapshot \<Rightarrow> quota_snapshot" where
  "merge_known current incoming =
     incoming\<lparr>qs_limit := (if qs_limit incoming = None then qs_limit current else qs_limit incoming),
              qs_remaining := (if qs_remaining incoming = None then qs_remaining current else qs_remaining incoming),
              qs_reset_at := (if qs_reset_at incoming = None then qs_reset_at current else qs_reset_at incoming)\<rparr>"

definition merge_snapshot :: "quota_snapshot \<Rightarrow> quota_snapshot \<Rightarrow> quota_snapshot" where
  "merge_snapshot current incoming =
     (if after (qs_observed_at incoming) (qs_observed_at current) then merge_known current incoming
      else if before (qs_observed_at incoming) (qs_observed_at current) then current
      else if qs_authority current < qs_authority incoming then merge_known current incoming
      else if qs_authority incoming < qs_authority current then current
      else if qs_source current \<le> qs_source incoming then merge_known current incoming
      else current)"

text \<open>The precedence of an observation; a merge keeps the greater one.\<close>

definition precedes :: "quota_snapshot \<Rightarrow> quota_snapshot \<Rightarrow> bool" where
  "precedes a b \<longleftrightarrow>
     qs_observed_at a < qs_observed_at b \<or>
     qs_observed_at a = qs_observed_at b \<and>
       (qs_authority a < qs_authority b \<or> qs_authority a = qs_authority b \<and> qs_source a \<le> qs_source b)"

lemma merge_snapshot_cases:
  "merge_snapshot current incoming = (if precedes current incoming then merge_known current incoming else current)"
  by (auto simp: merge_snapshot_def precedes_def after_def before_def not_less)

lemma precedes_refl: "precedes a a"
  by (simp add: precedes_def)

lemma precedes_trans: "precedes a b \<Longrightarrow> precedes b c \<Longrightarrow> precedes a c"
  by (auto simp: precedes_def)

lemma precedes_total: "precedes a b \<or> precedes b a"
  by (auto simp: precedes_def)

lemma merge_known_fields [simp]:
  "precedes a (merge_known b c) \<longleftrightarrow> precedes a c" "precedes (merge_known b c) a \<longleftrightarrow> precedes c a"
  "quota_id (merge_known b c) = quota_id c" "qs_observed_at (merge_known b c) = qs_observed_at c"
  by (simp_all add: precedes_def merge_known_def quota_id_def)

text \<open>
  C21. Merging observations of one window in any number and order keeps the greatest precedence seen
  (freshness first, then authority, then source): the result is preceded by every observation, and a
  limit, remaining amount or reset time the state knew is never forgotten.
\<close>

theorem merge_snapshots_latest:
  "(\<forall>s \<in> set (start # incoming). precedes s (foldl merge_snapshot start incoming)) \<and>
   (\<exists>s \<in> set (start # incoming). precedes (foldl merge_snapshot start incoming) s) \<and>
   (qs_limit start \<noteq> None \<longrightarrow> qs_limit (foldl merge_snapshot start incoming) \<noteq> None) \<and>
   (qs_remaining start \<noteq> None \<longrightarrow> qs_remaining (foldl merge_snapshot start incoming) \<noteq> None) \<and>
   (qs_reset_at start \<noteq> None \<longrightarrow> qs_reset_at (foldl merge_snapshot start incoming) \<noteq> None)"
proof (induction incoming rule: rev_induct)
  case Nil
  then show ?case by (simp add: precedes_refl)
next
  case (snoc x xs)
  let ?m = "foldl merge_snapshot start xs"
  have eq: "foldl merge_snapshot start (xs @ [x]) = (if precedes ?m x then merge_known ?m x else ?m)"
    by (simp add: merge_snapshot_cases)
  show ?case
  proof (cases "precedes ?m x")
    case True
    then have "\<forall>s \<in> set (start # xs @ [x]). precedes s (merge_known ?m x)"
      using snoc precedes_trans [OF _ True] precedes_refl [of x] by auto
    moreover have "precedes (merge_known ?m x) x" by (simp add: precedes_refl)
    ultimately show ?thesis
      using snoc True unfolding eq by (auto simp: merge_known_def)
  next
    case False
    with precedes_total [of ?m x] have "precedes x ?m" by blast
    with snoc False show ?thesis unfolding eq by auto
  qed
qed

definition example_quota :: quota_snapshot where
  "example_quota =
     \<lparr>qs_operation_ref = no_ref, qs_provider = ''p'', qs_connection = ''c'', qs_model = [], qs_window = ''day'',
      qs_generation = [], qs_authority = AuthorityErrorBody, qs_observed_at = 10, qs_used = fzero,
      qs_limit = Some (Finite 100), qs_remaining = Some fzero, qs_reset_at = Some 50, qs_source = [],
      qs_effect = EffectDefault\<rparr>"

lemma merge_snapshots_latest_witness:
  "qs_limit (foldl merge_snapshot example_quota
      [example_quota\<lparr>qs_observed_at := 20, qs_limit := None\<rparr>]) \<noteq> None"
  using merge_snapshots_latest [of example_quota "[example_quota\<lparr>qs_observed_at := 20, qs_limit := None\<rparr>]"]
  by (simp add: example_quota_def)

end
