(* ===== verification/Health.thy ===== *)
theory Health
  imports Outcomes Quota "HOL-Library.Product_Lexorder"
begin

text \<open>
  The circuit breaker of the routes (\<open>internal/runtime/health.go\<close>). Evidence of request attempts is
  kept per scope (route, operation, route and connection, connection, provider) and per lane
  (operational, authentication) under a breaker key; a route is open while none of its keys is invalid
  or cooling down, and a key whose cooldown has expired admits one trial request at a time.

  Each method is a function on the gate's record (the mutex makes a method atomic). A method that
  calls the observer returns the observations it delivers, in order. \<open>time.Now()\<close> is an argument: the
  reading a method stores is \<open>now\<close>; the readings \<open>routeProjectionLocked\<close> takes while it walks the
  keys are a function \<open>clk\<close> of the key.
\<close>

section \<open>State\<close>

datatype health_lane = LaneUnset | HealthOperational | HealthAuthentication | LaneOther string

definition lane_normalized :: "health_lane \<Rightarrow> health_lane" where
  "lane_normalized l = (if l = HealthAuthentication then l else HealthOperational)"

record route_health =
  rh_lane :: health_lane
  rh_operation_ref :: ext_ref
  rh_failures :: int
  rh_successes :: int
  rh_invalid :: bool
  rh_generation :: string
  rh_cooldown_until :: go_time
  rh_last_error :: string
  rh_last_cause :: outcome_cause
  rh_last_scope :: outcome_scope
  rh_last_evidence :: evidence_source
  rh_confidence :: gofloat
  rh_last_attempt :: go_time
  rh_last_success :: go_time

definition zero_health :: route_health where
  "zero_health =
     \<lparr>rh_lane = LaneUnset, rh_operation_ref = no_ref, rh_failures = 0, rh_successes = 0, rh_invalid = False,
      rh_generation = [], rh_cooldown_until = 0, rh_last_error = [], rh_last_cause = CauseUnset,
      rh_last_scope = ScopeUnset, rh_last_evidence = EvidenceNone, rh_confidence = fzero,
      rh_last_attempt = 0, rh_last_success = 0\<rparr>"

record route_health_view =
  hv_health :: route_health
  hv_operations :: "route_health list"
  hv_authentication :: "route_health list"

record breaker_key =
  bk_scope :: outcome_scope
  bk_lane :: health_lane
  bk_route :: string
  bk_connection :: string
  bk_provider :: string
  bk_operation :: ext_ref

record quota_generation_identity =
  qg_provider :: string
  qg_connection :: string
  qg_model :: string
  qg_operation :: ext_ref

record health_gate =
  hg_routes :: "(string, route_health) gomap"
  hg_scoped :: "(breaker_key, route_health) gomap"
  hg_trials :: "(breaker_key, bool) gomap"
  hg_generations :: "(breaker_key, string) gomap"
  hg_quota_generations :: "(quota_generation_identity, string) gomap"
  hg_route_generations :: "(string, string) gomap"
  hg_route_refs :: "(string, route) gomap"
  hg_generation_enabled :: bool

definition new_health_gate :: health_gate where
  "new_health_gate =
     \<lparr>hg_routes = [], hg_scoped = [], hg_trials = [], hg_generations = [], hg_quota_generations = [],
      hg_route_generations = [], hg_route_refs = [], hg_generation_enabled = False\<rparr>"

type_synonym health_observation = "route \<times> route_health"

section \<open>Breaker keys\<close>

definition scope_key :: "route \<Rightarrow> breaker_key" where
  "scope_key r =
     \<lparr>bk_scope = ScopeRoute, bk_lane = HealthOperational, bk_route = rt_id r, bk_connection = [],
      bk_provider = [], bk_operation = no_ref\<rparr>"

definition outcome_lane_key :: "route \<Rightarrow> outcome_scope \<Rightarrow> health_lane \<Rightarrow> breaker_key" where
  "outcome_lane_key r scope lane =
     (case scope of
        ScopeOperation \<Rightarrow>
          \<lparr>bk_scope = scope, bk_lane = lane_normalized lane, bk_route = rt_id r,
           bk_connection = rt_credential_id r, bk_provider = [], bk_operation = rt_session_operation_ref r\<rparr>
      | ScopeConnection \<Rightarrow>
          \<lparr>bk_scope = scope, bk_lane = lane_normalized lane, bk_route = [],
           bk_connection = rt_credential_id r, bk_provider = [], bk_operation = no_ref\<rparr>
      | ScopeProvider \<Rightarrow>
          \<lparr>bk_scope = scope, bk_lane = lane_normalized lane, bk_route = [], bk_connection = [],
           bk_provider = rt_node_id r, bk_operation = no_ref\<rparr>
      | ScopeRouteConnection \<Rightarrow>
          \<lparr>bk_scope = scope, bk_lane = lane_normalized lane, bk_route = rt_id r,
           bk_connection = rt_credential_id r, bk_provider = [], bk_operation = no_ref\<rparr>
      | _ \<Rightarrow> (scope_key r)\<lparr>bk_lane := lane_normalized lane\<rparr>)"

definition outcome_scope_key :: "route \<Rightarrow> outcome_scope \<Rightarrow> breaker_key" where
  "outcome_scope_key r scope = outcome_lane_key r scope HealthOperational"

definition health_keys :: "route \<Rightarrow> breaker_key list" where
  "health_keys r =
     [scope_key r, outcome_lane_key r ScopeRoute HealthAuthentication] @
     (if ref_id (rt_session_operation_ref r) \<noteq> []
      then [outcome_scope_key r ScopeOperation, outcome_lane_key r ScopeOperation HealthAuthentication] else []) @
     (if rt_credential_id r \<noteq> []
      then [outcome_scope_key r ScopeRouteConnection, outcome_scope_key r ScopeConnection,
            outcome_lane_key r ScopeRouteConnection HealthAuthentication,
            outcome_lane_key r ScopeConnection HealthAuthentication] else []) @
     (if rt_node_id r \<noteq> []
      then [outcome_scope_key r ScopeProvider, outcome_lane_key r ScopeProvider HealthAuthentication] else [])"

definition health_key_applies :: "breaker_key \<Rightarrow> route \<Rightarrow> bool" where
  "health_key_applies k r \<longleftrightarrow>
     (case bk_scope k of
        ScopeProvider \<Rightarrow> bk_provider k \<noteq> [] \<and> bk_provider k = rt_node_id r
      | ScopeConnection \<Rightarrow> bk_connection k \<noteq> [] \<and> bk_connection k = rt_credential_id r
      | ScopeRouteConnection \<Rightarrow> bk_route k = rt_id r \<and> bk_connection k = rt_credential_id r
      | _ \<Rightarrow> bk_route k = rt_id r)"

definition quota_generation_key :: "string \<Rightarrow> string \<Rightarrow> string \<Rightarrow> ext_ref \<Rightarrow> quota_generation_identity" where
  "quota_generation_key provider connection model operation =
     \<lparr>qg_provider = provider, qg_connection = connection, qg_model = model, qg_operation = operation\<rparr>"

section \<open>Generations\<close>

definition lane_generation :: "route \<Rightarrow> outcome_scope \<Rightarrow> health_lane \<Rightarrow> string" where
  "lane_generation r scope lane =
     (if lane_normalized lane = HealthAuthentication then gen_for_authentication (rt_health_generation r) scope
      else gen_for (rt_health_generation r) scope)"

definition operation_scope_valid :: "route \<Rightarrow> outcome_scope \<Rightarrow> bool" where
  "operation_scope_valid r scope \<longleftrightarrow>
     \<not> (scope = ScopeOperation \<and>
        (ref_kind (rt_session_operation_ref r) \<noteq> operation_kind \<or> \<not> ref_ok (rt_session_operation_ref r)))"

definition lane_generation_current :: "health_gate \<Rightarrow> route \<Rightarrow> outcome_scope \<Rightarrow> health_lane \<Rightarrow> bool" where
  "lane_generation_current g r scope lane \<longleftrightarrow>
     scope \<noteq> ScopeRequest \<and> operation_scope_valid r scope \<and>
     (\<not> hg_generation_enabled g \<or>
      gm_get (hg_generations g) (outcome_lane_key r scope lane) = Some (lane_generation r scope lane))"

definition generation_current :: "health_gate \<Rightarrow> route \<Rightarrow> outcome_scope \<Rightarrow> bool" where
  "generation_current g r scope \<longleftrightarrow>
     scope \<noteq> ScopeRequest \<and> operation_scope_valid r scope \<and>
     (\<not> hg_generation_enabled g \<or>
      gm_get (hg_generations g) (outcome_scope_key r scope) = Some (gen_for (rt_health_generation r) scope))"

definition accepts_outcome :: "health_gate \<Rightarrow> route \<Rightarrow> outcome_scope \<Rightarrow> bool" where
  "accepts_outcome g r scope = lane_generation_current g r scope HealthOperational"

definition accepts_lane_outcome :: "health_gate \<Rightarrow> route \<Rightarrow> outcome_scope \<Rightarrow> health_lane \<Rightarrow> bool" where
  "accepts_lane_outcome g r scope lane = lane_generation_current g r scope lane"

text \<open>The snapshot is nil-able in \<open>AttachQuotaGeneration\<close>; attaching writes through the pointer.\<close>

definition quota_snapshot_key :: "quota_snapshot \<Rightarrow> quota_generation_identity" where
  "quota_snapshot_key s = quota_generation_key (qs_provider s) (qs_connection s) (qs_model s) (qs_operation_ref s)"

definition attach_quota_generation :: "health_gate \<Rightarrow> quota_snapshot option \<Rightarrow> bool \<times> quota_snapshot option" where
  "attach_quota_generation g snapshot =
     (case snapshot of
        None \<Rightarrow> (False, None)
      | Some s \<Rightarrow>
          if \<not> operation_scope_ok s then (False, Some s)
          else if \<not> hg_generation_enabled g then (True, Some s)
          else case gm_get (hg_quota_generations g) (quota_snapshot_key s) of
                 None \<Rightarrow> (False, Some s)
               | Some generation \<Rightarrow> (True, Some (s\<lparr>qs_generation := generation\<rparr>)))"

definition quota_generation_current :: "health_gate \<Rightarrow> quota_snapshot \<Rightarrow> bool" where
  "quota_generation_current g s \<longleftrightarrow>
     operation_scope_ok s \<and>
     (\<not> hg_generation_enabled g \<or>
      (qs_generation s \<noteq> [] \<and> gm_get (hg_quota_generations g) (quota_snapshot_key s) = Some (qs_generation s)))"

section \<open>Admission\<close>

abbreviation scoped_state :: "health_gate \<Rightarrow> breaker_key \<Rightarrow> route_health" where
  "scoped_state g k \<equiv> gm_or (hg_scoped g) k zero_health"

abbreviation on_trial :: "health_gate \<Rightarrow> breaker_key \<Rightarrow> bool" where
  "on_trial g k \<equiv> gm_or (hg_trials g) k False"

definition suppressed :: "route_health \<Rightarrow> go_time \<Rightarrow> bool" where
  "suppressed st now \<longleftrightarrow> rh_invalid st \<or> after (rh_cooldown_until st) now"

definition half_open :: "route_health \<Rightarrow> bool" where
  "half_open st \<longleftrightarrow> 0 < rh_failures st \<and> \<not> is_zero (rh_cooldown_until st)"

definition operation_current :: "health_gate \<Rightarrow> route \<Rightarrow> bool" where
  "operation_current g r \<longleftrightarrow> ref_id (rt_session_operation_ref r) = [] \<or> generation_current g r ScopeOperation"

definition health_usable :: "health_gate \<Rightarrow> route \<Rightarrow> go_time \<Rightarrow> bool" where
  "health_usable g r now \<longleftrightarrow>
     operation_current g r \<and>
     (\<not> hg_generation_enabled g \<or>
      gm_get (hg_generations g) (outcome_scope_key r ScopeRoute) = Some (gen_for (rt_health_generation r) ScopeRoute)) \<and>
     list_all (\<lambda>k. \<not> suppressed (scoped_state g k) now) (health_keys r)"

fun del_keys :: "'k list \<Rightarrow> ('k, 'v) gomap \<Rightarrow> ('k, 'v) gomap" where
  "del_keys [] m = m"
| "del_keys (k # ks) m = del_keys ks (gm_del k m)"

fun acquire_keys ::
  "health_gate \<Rightarrow> go_time \<Rightarrow> breaker_key list \<Rightarrow> breaker_key list \<Rightarrow> (breaker_key, bool) gomap \<Rightarrow>
   bool \<times> (breaker_key, bool) gomap" where
  "acquire_keys g now acquired [] trials = (True, trials)"
| "acquire_keys g now acquired (k # ks) trials =
     (let st = scoped_state g k
      in if suppressed st now then (False, del_keys acquired trials)
         else if half_open st
         then if gm_or trials k False then (False, del_keys acquired trials)
              else acquire_keys g now (acquired @ [k]) ks (gm_put k True trials)
         else acquire_keys g now acquired ks trials)"

definition health_acquire :: "health_gate \<Rightarrow> route \<Rightarrow> go_time \<Rightarrow> bool \<times> health_gate" where
  "health_acquire g r now =
     (if \<not> operation_current g r then (False, g)
      else if \<not> generation_current g r ScopeRoute then (False, g)
      else case acquire_keys g now [] (health_keys r) (hg_trials g) of
             (ok, trials) \<Rightarrow> (ok, g\<lparr>hg_trials := trials\<rparr>))"

definition end_trials :: "breaker_key list \<Rightarrow> health_gate \<Rightarrow> health_gate" where
  "end_trials ks g = g\<lparr>hg_trials := del_keys ks (hg_trials g)\<rparr>"

definition health_release :: "health_gate \<Rightarrow> route \<Rightarrow> health_gate" where
  "health_release g r =
     (if \<not> generation_current g r ScopeRoute then g
      else end_trials (health_keys r) g)"

section \<open>Writing the state\<close>

definition put_scoped :: "breaker_key \<Rightarrow> route_health \<Rightarrow> health_gate \<Rightarrow> health_gate" where
  "put_scoped k st g = g\<lparr>hg_scoped := gm_put k st (hg_scoped g)\<rparr>"

definition end_trial :: "breaker_key \<Rightarrow> health_gate \<Rightarrow> health_gate" where
  "end_trial k g = g\<lparr>hg_trials := gm_del k (hg_trials g)\<rparr>"

definition note_route :: "route \<Rightarrow> health_gate \<Rightarrow> health_gate" where
  "note_route r g = (if rt_id r \<noteq> [] then g\<lparr>hg_route_refs := gm_put (rt_id r) r (hg_route_refs g)\<rparr> else g)"

definition put_projection :: "route \<Rightarrow> route_health \<Rightarrow> health_gate \<Rightarrow> health_gate" where
  "put_projection r st g = g\<lparr>hg_routes := gm_put (rt_id r) st (hg_routes g)\<rparr>"

definition drop_projection :: "route \<Rightarrow> health_gate \<Rightarrow> health_gate" where
  "drop_projection r g = g\<lparr>hg_routes := gm_del (rt_id r) (hg_routes g)\<rparr>"

lemmas gate_writes = put_scoped_def end_trial_def note_route_def put_projection_def drop_projection_def

section \<open>The projection of a route's operational keys\<close>

fun project_keys ::
  "health_gate \<Rightarrow> (breaker_key \<Rightarrow> go_time) \<Rightarrow> breaker_key list \<Rightarrow> route_health \<times> bool \<Rightarrow> route_health \<times> bool" where
  "project_keys g clk [] acc = acc"
| "project_keys g clk (k # ks) (latest, blocked) =
     project_keys g clk ks
       (if bk_lane k \<noteq> HealthOperational then (latest, blocked)
        else case gm_get (hg_scoped g) k of
               None \<Rightarrow> (latest, blocked)
             | Some st \<Rightarrow>
                 let active = suppressed st (clk k)
                 in if active \<and> \<not> blocked then (st, True)
                    else if active = blocked \<and>
                            (is_zero (rh_last_attempt latest) \<or> after (rh_last_attempt st) (rh_last_attempt latest))
                    then (st, blocked) else (latest, blocked))"

definition route_projection :: "health_gate \<Rightarrow> (breaker_key \<Rightarrow> go_time) \<Rightarrow> route \<Rightarrow> route_health \<times> bool" where
  "route_projection g clk r = project_keys g clk (health_keys r) (zero_health, False)"

fun latest_keys :: "health_gate \<Rightarrow> breaker_key list \<Rightarrow> route_health option \<Rightarrow> route_health option" where
  "latest_keys g [] found = found"
| "latest_keys g (k # ks) found =
     latest_keys g ks
       (if bk_lane k \<noteq> HealthOperational then found
        else case gm_get (hg_scoped g) k of
               None \<Rightarrow> found
             | Some st \<Rightarrow>
                 (case found of
                    None \<Rightarrow> Some st
                  | Some latest \<Rightarrow> if after (rh_last_attempt st) (rh_last_attempt latest) then Some st else found))"

definition latest_operational_state :: "health_gate \<Rightarrow> route \<Rightarrow> route_health option" where
  "latest_operational_state g r = latest_keys g (health_keys r) None"

section \<open>Feedback\<close>

definition error_cause :: "error_class \<Rightarrow> outcome_cause" where
  "error_cause c = (case c of ErrorAuth \<Rightarrow> CauseAuth | ErrorCooldown \<Rightarrow> CauseRateLimited | _ \<Rightarrow> CauseUnknown)"

definition delay_base :: "outcome_cause \<Rightarrow> duration" where
  "delay_base c =
     (if c = CauseAuth \<or> c = CausePermission then 5 * minute
      else if c = CauseQuotaExhausted then 10 * minute
      else if c = CauseRateLimited \<or> c = CauseCapacity \<or> c = CauseOverloaded then 30 * second
      else 5 * second)"

definition failure_delay :: "int \<Rightarrow> outcome_cause \<Rightarrow> duration" where
  "failure_delay failures c =
     (let n = (if failures < 1 then 1 else failures);
          delay = wrap64 (n * delay_base c)
      in if 10 * minute < delay then 10 * minute else delay)"

definition permanently_invalidates :: "classified_outcome \<Rightarrow> bool" where
  "permanently_invalidates oc \<longleftrightarrow>
     \<not> (oc_scope oc = ScopeRequest \<or> oc_effect oc \<noteq> EffectRejected) \<and>
     (oc_cause oc = CauseAuth \<or> oc_cause oc = CausePermission \<or> oc_cause oc = CauseModelNotFound)"

definition outcome_lane :: "classified_outcome \<Rightarrow> health_lane" where
  "outcome_lane oc = (if oc_cause oc = CauseAuth then HealthAuthentication else HealthOperational)"

text \<open>A success within a rate-limit or quota cooldown is counted, and does not end the cooldown.\<close>

definition success_within_cooldown :: "route_health \<Rightarrow> classified_outcome \<Rightarrow> go_time \<Rightarrow> bool" where
  "success_within_cooldown st oc now \<longleftrightarrow>
     oc_cause oc = CauseSuccess \<and> after (rh_cooldown_until st) now \<and> \<not> rh_invalid st \<and>
     (rh_last_cause st = CauseRateLimited \<or> rh_last_cause st = CauseQuotaExhausted)"

definition record_attempt :: "route \<Rightarrow> classified_outcome \<Rightarrow> health_lane \<Rightarrow> go_time \<Rightarrow> route_health \<Rightarrow> route_health" where
  "record_attempt r oc lane now st =
     st\<lparr>rh_last_attempt := now, rh_last_cause := oc_cause oc, rh_last_scope := oc_scope oc,
        rh_operation_ref := (if oc_scope oc = ScopeOperation then rt_session_operation_ref r else rh_operation_ref st),
        rh_lane := lane, rh_generation := lane_generation r (oc_scope oc) lane, rh_confidence := oc_confidence oc,
        rh_last_evidence := (case oc_evidence oc of [] \<Rightarrow> rh_last_evidence st | e # _ \<Rightarrow> e)\<rparr>"

definition record_success :: "go_time \<Rightarrow> route_health \<Rightarrow> route_health" where
  "record_success now st =
     st\<lparr>rh_successes := wrap64 (rh_successes st + 1), rh_failures := 0, rh_invalid := False,
        rh_cooldown_until := 0, rh_last_success := now, rh_last_error := []\<rparr>"

definition record_failure :: "classified_outcome \<Rightarrow> go_time \<Rightarrow> route_health \<Rightarrow> route_health" where
  "record_failure oc now st =
     (let failures = wrap64 (rh_failures st + 1);
          invalid = rh_invalid st \<or> permanently_invalidates oc
      in st\<lparr>rh_failures := failures, rh_invalid := invalid,
            rh_last_error := (if oc_message oc \<noteq> [] then oc_message oc else rh_last_error st),
            rh_cooldown_until :=
              (if invalid then 0
               else if after (oc_retry_at oc) now then oc_retry_at oc
               else if oc_retry oc \<noteq> RetryNever then time_add now (failure_delay failures (oc_cause oc))
               else rh_cooldown_until st)\<rparr>)"

definition outcome_state :: "route \<Rightarrow> classified_outcome \<Rightarrow> go_time \<Rightarrow> route_health \<Rightarrow> route_health" where
  "outcome_state r oc now st =
     (let st1 = record_attempt r oc (outcome_lane oc) now st
      in if oc_cause oc = CauseSuccess then record_success now st1 else record_failure oc now st1)"

definition project_outcome ::
  "(breaker_key \<Rightarrow> go_time) \<Rightarrow> route \<Rightarrow> classified_outcome \<Rightarrow> route_health \<Rightarrow> health_gate \<Rightarrow> health_gate" where
  "project_outcome clk r oc st g =
     (case route_projection g clk r of
        (projection, True) \<Rightarrow> put_projection r projection g
      | (_, False) \<Rightarrow>
          (let current = gm_or (hg_routes g) (rt_id r) zero_health
           in if (outcome_lane oc = HealthOperational \<and> oc_scope oc = ScopeRoute) \<or>
                 is_zero (rh_last_attempt current) \<or> after (rh_last_attempt st) (rh_last_attempt current)
              then put_projection r st g else g))"

definition recovered_state :: "breaker_key \<Rightarrow> health_lane \<Rightarrow> go_time \<Rightarrow> route_health \<Rightarrow> route_health" where
  "recovered_state k lane now st =
     st\<lparr>rh_failures := 0, rh_invalid := False, rh_cooldown_until := 0, rh_last_error := [],
        rh_successes := wrap64 (rh_successes st + 1), rh_last_attempt := now, rh_last_success := now,
        rh_last_cause := CauseSuccess, rh_last_scope := bk_scope k, rh_lane := lane,
        rh_last_evidence := EvidenceSuccessBody, rh_confidence := Finite 1\<rparr>"

fun recover_trials ::
  "route \<Rightarrow> breaker_key \<Rightarrow> health_lane \<Rightarrow> go_time \<Rightarrow> breaker_key list \<Rightarrow> health_gate \<Rightarrow>
   health_gate \<times> health_observation list" where
  "recover_trials r key lane now [] g = (g, [])"
| "recover_trials r key lane now (k # ks) g =
     (if k = key \<or> bk_lane k \<noteq> lane \<or> \<not> on_trial g k then recover_trials r key lane now ks g
      else let prior = scoped_state g k
           in if suppressed prior now then recover_trials r key lane now ks g
              else let st = recovered_state k lane now prior
                   in case recover_trials r key lane now ks (end_trial k (put_scoped k st g)) of
                        (g', obs) \<Rightarrow> (g', (r, st) # obs))"

definition health_observe ::
  "go_time \<Rightarrow> (breaker_key \<Rightarrow> go_time) \<Rightarrow> health_gate \<Rightarrow> route \<Rightarrow> classified_outcome \<Rightarrow>
   health_gate \<times> health_observation list" where
  "health_observe now clk g r oc =
     (let lane = outcome_lane oc;
          key = outcome_lane_key r (oc_scope oc) lane
      in if \<not> lane_generation_current g r (oc_scope oc) lane then (g, [])
         else let st = scoped_state g key;
                  g1 = note_route r g
              in if success_within_cooldown st oc now
                 then let st1 = st\<lparr>rh_successes := wrap64 (rh_successes st + 1), rh_last_attempt := now,
                                   rh_last_success := now\<rparr>
                      in (end_trial key (put_scoped key st1 g1), [(r, st1)])
                 else let st1 = outcome_state r oc now st;
                          g2 = project_outcome clk r oc st1 (end_trial key (put_scoped key st1 g1))
                      in if oc_cause oc = CauseSuccess
                         then case recover_trials r key lane now (health_keys r) g2 of
                                (g3, obs) \<Rightarrow> (g3, (r, st1) # obs)
                         else (g2, [(r, st1)]))"

section \<open>Resets\<close>

definition neutral_state :: "route_health \<Rightarrow> route_health" where
  "neutral_state st =
     st\<lparr>rh_failures := 0, rh_invalid := False, rh_cooldown_until := 0, rh_last_error := [],
        rh_last_cause := CauseUnknown, rh_last_evidence := EvidenceNone, rh_confidence := fzero,
        rh_last_attempt := 0, rh_last_success := 0\<rparr>"

definition reset_state :: "route \<Rightarrow> outcome_scope \<Rightarrow> health_lane \<Rightarrow> route_health \<Rightarrow> route_health" where
  "reset_state r scope lane st =
     (neutral_state st)
       \<lparr>rh_last_scope := scope,
        rh_operation_ref := (if scope = ScopeOperation then rt_session_operation_ref r else rh_operation_ref st),
        rh_lane := lane_normalized lane, rh_generation := lane_generation r scope lane\<rparr>"

definition project_reset ::
  "(breaker_key \<Rightarrow> go_time) \<Rightarrow> route \<Rightarrow> health_lane \<Rightarrow> route_health \<Rightarrow> health_gate \<Rightarrow> health_gate" where
  "project_reset clk r lane st g =
     (if lane = HealthOperational then put_projection r st g
      else case route_projection g clk r of
             (projection, True) \<Rightarrow> put_projection r projection g
           | (_, False) \<Rightarrow>
               (case latest_operational_state g r of
                  Some projection \<Rightarrow> put_projection r projection g
                | None \<Rightarrow> drop_projection r g))"

definition reset_scope_lane ::
  "(breaker_key \<Rightarrow> go_time) \<Rightarrow> health_gate \<Rightarrow> route \<Rightarrow> outcome_scope \<Rightarrow> health_lane \<Rightarrow> bool \<Rightarrow>
   bool \<times> health_gate \<times> health_observation list" where
  "reset_scope_lane clk g r scope lane invalid_only =
     (let key = outcome_lane_key r scope lane
      in if \<not> lane_generation_current g r scope lane then (False, g, [])
         else let st = scoped_state g key;
                  present = gm_has (hg_scoped g) key
              in if invalid_only \<and> (\<not> present \<or> \<not> rh_invalid st) then (False, g, [])
                 else let st1 = reset_state r scope lane st;
                          g1 = note_route r (put_scoped key st1 g);
                          g2 = (if present \<and> rt_id r \<noteq> [] then project_reset clk r lane st1 g1 else g1)
                      in (True, end_trial key g2, [(r, st1)]))"

definition health_reset_scope ::
  "(breaker_key \<Rightarrow> go_time) \<Rightarrow> health_gate \<Rightarrow> route \<Rightarrow> outcome_scope \<Rightarrow> bool \<times> health_gate \<times> health_observation list" where
  "health_reset_scope clk g r scope =
     (case reset_scope_lane clk g r scope HealthOperational False of
        (op_changed, g1, obs1) \<Rightarrow>
          (case reset_scope_lane clk g1 r scope HealthAuthentication False of
             (auth_changed, g2, obs2) \<Rightarrow> (op_changed \<or> auth_changed, g2, obs1 @ obs2)))"

definition health_clear_invalid ::
  "(breaker_key \<Rightarrow> go_time) \<Rightarrow> health_gate \<Rightarrow> route \<Rightarrow> outcome_scope \<Rightarrow> bool \<times> health_gate \<times> health_observation list" where
  "health_clear_invalid clk g r scope = reset_scope_lane clk g r scope HealthOperational True"

section \<open>Feedback by error class\<close>

definition health_mark_failure_after ::
  "go_time \<Rightarrow> go_time \<Rightarrow> (breaker_key \<Rightarrow> go_time) \<Rightarrow> health_gate \<Rightarrow> route \<Rightarrow> error_class \<Rightarrow> string option \<Rightarrow>
   duration \<Rightarrow> health_gate \<times> health_observation list" where
  "health_mark_failure_after now now' clk g r cls err override =
     (let lane = (if cls = ErrorAuth then HealthAuthentication else HealthOperational)
      in if \<not> lane_generation_current g r ScopeRoute lane then (g, [])
         else let key = outcome_lane_key r ScopeRoute lane;
                  st = scoped_state g key;
                  failures = wrap64 (rh_failures st + 1);
                  delay = failure_delay failures (error_cause cls);
                  st1 = st\<lparr>rh_lane := lane, rh_last_scope := ScopeRoute, rh_last_cause := error_cause cls,
                           rh_last_attempt := now, rh_generation := lane_generation r ScopeRoute lane,
                           rh_failures := failures,
                           rh_cooldown_until := time_add now' (if delay < override then override else delay),
                           rh_last_error := (case err of None \<Rightarrow> rh_last_error st | Some e \<Rightarrow> e)\<rparr>;
                  g1 = note_route r (put_scoped key st1 g);
                  g2 = (case route_projection g1 clk r of
                          (projection, True) \<Rightarrow> put_projection r projection g1
                        | (_, False) \<Rightarrow> put_projection r st1 g1)
              in (end_trial key g2, [(r, st1)]))"

definition health_mark_failure ::
  "go_time \<Rightarrow> go_time \<Rightarrow> (breaker_key \<Rightarrow> go_time) \<Rightarrow> health_gate \<Rightarrow> route \<Rightarrow> error_class \<Rightarrow> string option \<Rightarrow>
   health_gate \<times> health_observation list" where
  "health_mark_failure now now' clk g r cls err = health_mark_failure_after now now' clk g r cls err 0"

definition health_mark_success :: "go_time \<Rightarrow> health_gate \<Rightarrow> route \<Rightarrow> health_gate \<times> health_observation list" where
  "health_mark_success now g r =
     (if \<not> generation_current g r ScopeRoute then (g, [])
      else let key = outcome_scope_key r ScopeRoute;
               st = (scoped_state g key)\<lparr>rh_lane := HealthOperational\<rparr>
           in if after (rh_cooldown_until st) now \<and> \<not> rh_invalid st
              then let st1 = st\<lparr>rh_successes := wrap64 (rh_successes st + 1), rh_last_attempt := now,
                                rh_last_success := now\<rparr>
                   in (put_scoped key st1 g, [(r, st1)])
              else let st1 = st\<lparr>rh_successes := wrap64 (rh_successes st + 1), rh_failures := 0,
                                rh_cooldown_until := 0, rh_last_error := [], rh_last_cause := CauseSuccess,
                                rh_last_scope := ScopeRoute,
                                rh_generation := gen_for (rt_health_generation r) ScopeRoute,
                                rh_last_attempt := now, rh_last_success := now\<rparr>;
                       g1 = put_projection r st1 (put_scoped key st1 g)
                   in (end_trials (health_keys r) g1, [(r, st1)]))"

section \<open>Restoring and reading\<close>

definition project_restored ::
  "(breaker_key \<Rightarrow> go_time) \<Rightarrow> route \<Rightarrow> health_lane \<Rightarrow> route_health \<Rightarrow> health_gate \<Rightarrow> health_gate" where
  "project_restored clk r lane st g =
     (if rt_id r = [] then g
      else case route_projection g clk r of
             (projection, True) \<Rightarrow> put_projection r projection g
           | (_, False) \<Rightarrow>
               if lane = HealthOperational then put_projection r st g
               else case latest_operational_state g r of
                      Some projection \<Rightarrow> put_projection r projection g
                    | None \<Rightarrow>
                        (let current = gm_or (hg_routes g) (rt_id r) zero_health
                         in if is_zero (rh_last_attempt current) \<or>
                               after (rh_last_attempt st) (rh_last_attempt current)
                            then put_projection r st g else g))"

definition restore_stale :: "health_gate \<Rightarrow> breaker_key \<Rightarrow> route_health \<Rightarrow> bool" where
  "restore_stale g key st \<longleftrightarrow>
     (case gm_get (hg_scoped g) key of
        None \<Rightarrow> False
      | Some current \<Rightarrow>
          rh_generation current = rh_generation st \<and> \<not> is_zero (rh_last_attempt current) \<and>
          \<not> after (rh_last_attempt st) (rh_last_attempt current))"

definition health_restore ::
  "(breaker_key \<Rightarrow> go_time) \<Rightarrow> health_gate \<Rightarrow> route \<Rightarrow> route_health \<Rightarrow> bool \<times> health_gate" where
  "health_restore clk g r st0 =
     (if rh_last_scope st0 = ScopeOperation \<and>
         (rh_operation_ref st0 \<noteq> rt_session_operation_ref r \<or> \<not> ref_ok (rh_operation_ref st0)) then (False, g)
      else let lane = lane_normalized (rh_lane st0);
               st = st0\<lparr>rh_lane := lane\<rparr>;
               key = outcome_lane_key r (rh_last_scope st) lane
           in if hg_generation_enabled g \<and>
                 (\<not> lane_generation_current g r (rh_last_scope st) lane \<or>
                  rh_generation st \<noteq> lane_generation r (rh_last_scope st) lane) then (False, g)
              else if restore_stale g key st then (False, g)
              else (True, project_restored clk r lane st (note_route r (put_scoped key st g))))"

definition health_state_for :: "health_gate \<Rightarrow> route \<Rightarrow> route_health" where
  "health_state_for g r =
     (let state = gm_or (hg_routes g) (rt_id r) zero_health;
          route_state = (if rh_last_scope state = ScopeOperation then zero_health else state)
      in if ref_id (rt_session_operation_ref r) \<noteq> []
         then case gm_get (hg_scoped g) (outcome_scope_key r ScopeOperation) of
                Some st \<Rightarrow> st | None \<Rightarrow> route_state
         else route_state)"

definition health_scoped_state :: "health_gate \<Rightarrow> route \<Rightarrow> outcome_scope \<Rightarrow> route_health option" where
  "health_scoped_state g r scope = gm_get (hg_scoped g) (outcome_scope_key r scope)"

definition health_scoped_auth_state :: "health_gate \<Rightarrow> route \<Rightarrow> outcome_scope \<Rightarrow> route_health option" where
  "health_scoped_auth_state g r scope = gm_get (hg_scoped g) (outcome_lane_key r scope HealthAuthentication)"

definition health_scoped_lane_state :: "health_gate \<Rightarrow> route \<Rightarrow> outcome_scope \<Rightarrow> health_lane \<Rightarrow> route_health option" where
  "health_scoped_lane_state g r scope lane = gm_get (hg_scoped g) (outcome_lane_key r scope lane)"

section \<open>Publishing generations\<close>

record generation_entry =
  ge_route :: route
  ge_scope :: outcome_scope
  ge_value :: string

definition lane_entry :: "route \<Rightarrow> route \<Rightarrow> outcome_scope \<Rightarrow> health_lane \<Rightarrow> breaker_key \<times> generation_entry" where
  "lane_entry r bound scope lane =
     (outcome_lane_key bound scope lane,
      \<lparr>ge_route = bound, ge_scope = scope, ge_value = lane_generation r scope lane\<rparr>)"

definition operation_bound :: "route \<Rightarrow> string \<times> route_operation_binding \<Rightarrow> route" where
  "operation_bound r ob =
     r\<lparr>rt_session_operation_ref := mk_ref operation_kind (fst ob) (ob_contract_version (snd ob))\<rparr>"

definition route_entries :: "route \<Rightarrow> (breaker_key \<times> generation_entry) list" where
  "route_entries r =
     concat (map (\<lambda>scope. [lane_entry r r scope HealthOperational, lane_entry r r scope HealthAuthentication])
               [ScopeRoute, ScopeRouteConnection, ScopeConnection, ScopeProvider]) @
     concat (map (\<lambda>ob. [lane_entry r (operation_bound r ob) ScopeOperation HealthOperational,
                        lane_entry r (operation_bound r ob) ScopeOperation HealthAuthentication])
               (rt_operation_bindings r))"

definition put_all :: "('k \<times> 'v) list \<Rightarrow> ('k, 'v) gomap" where
  "put_all kvs = foldl (\<lambda>m (k, v). gm_put k v m) [] kvs"

definition generation_entries :: "(string, route) gomap \<Rightarrow> (breaker_key, generation_entry) gomap" where
  "generation_entries routes = put_all (concat (map (\<lambda>(_, r). route_entries r) routes))"

definition entry_values :: "(breaker_key, generation_entry) gomap \<Rightarrow> (breaker_key, string) gomap" where
  "entry_values es = map (\<lambda>(k, e). (k, ge_value e)) es"

definition route_quota_entries :: "route \<Rightarrow> (quota_generation_identity \<times> string) list" where
  "route_quota_entries r =
     concat (map (\<lambda>(conn, model).
         (quota_generation_key (rt_node_id r) conn model no_ref, gen_for_quota (rt_health_generation r) conn model) #
         map (\<lambda>(op, b).
             (quota_generation_key (rt_node_id r) conn model (mk_ref operation_kind op (ob_contract_version b)),
              gen_for_quota (rt_health_generation r) conn model))
           (rt_operation_bindings r))
       [([], []), ([], rt_external_model r), (rt_credential_id r, []), (rt_credential_id r, rt_external_model r)])"

definition quota_generation_entries :: "(string, route) gomap \<Rightarrow> (quota_generation_identity, string) gomap" where
  "quota_generation_entries routes = put_all (concat (map (\<lambda>(_, r). route_quota_entries r) routes))"

definition changed_routes :: "(string, string) gomap \<Rightarrow> (string, string) gomap \<Rightarrow> string list" where
  "changed_routes previous current =
     map fst (filter (\<lambda>(i, v). gm_get previous i \<noteq> Some v) current) @
     map fst (filter (\<lambda>(i, v). \<not> gm_has current i) previous)"

definition superseded :: "(breaker_key, string) gomap \<Rightarrow> breaker_key \<Rightarrow> generation_entry \<Rightarrow> route_health \<Rightarrow> bool" where
  "superseded previous k e st \<longleftrightarrow> \<not> (gm_or previous k [] = ge_value e \<and> rh_generation st = ge_value e)"

definition epoch_state :: "breaker_key \<Rightarrow> generation_entry \<Rightarrow> route_health \<Rightarrow> route_health" where
  "epoch_state k e st =
     (neutral_state st)
       \<lparr>rh_generation := ge_value e, rh_last_scope := ge_scope e, rh_lane := lane_normalized (bk_lane k),
        rh_operation_ref :=
          (if ge_scope e = ScopeOperation then rt_session_operation_ref (ge_route e) else rh_operation_ref st)\<rparr>"

fun reset_superseded ::
  "(breaker_key, string) gomap \<Rightarrow> (breaker_key \<times> generation_entry) list \<Rightarrow> health_gate \<Rightarrow>
   health_gate \<times> health_observation list" where
  "reset_superseded previous [] g = (g, [])"
| "reset_superseded previous ((k, e) # es) g =
     (case gm_get (hg_scoped g) k of
        None \<Rightarrow> reset_superseded previous es g
      | Some st \<Rightarrow>
          if \<not> superseded previous k e st then reset_superseded previous es g
          else let st1 = epoch_state k e st
               in case reset_superseded previous es (end_trial k (put_scoped k st1 g)) of
                    (g', obs) \<Rightarrow> (g', (ge_route e, st1) # obs))"

definition project_route :: "(string \<Rightarrow> breaker_key \<Rightarrow> go_time) \<Rightarrow> health_gate \<Rightarrow> string \<times> route \<Rightarrow> health_gate" where
  "project_route clk g ir =
     (case ir of (i, r) \<Rightarrow>
        (case route_projection g (clk i) r of
           (projection, True) \<Rightarrow> put_projection r projection g
         | (_, False) \<Rightarrow>
             (case latest_operational_state g r of
                Some projection \<Rightarrow> put_projection r projection g
              | None \<Rightarrow> drop_projection r g)))"

definition drop_inactive :: "(breaker_key, string) gomap \<Rightarrow> string list \<Rightarrow> health_gate \<Rightarrow> health_gate" where
  "drop_inactive current active g =
     g\<lparr>hg_routes := filter (\<lambda>(i, _). i \<in> set active) (hg_routes g),
       hg_scoped := filter (\<lambda>(k, _). gm_has current k) (hg_scoped g),
       hg_trials := del_keys (map fst (filter (\<lambda>(k, _). \<not> gm_has current k) (hg_scoped g))) (hg_trials g)\<rparr>"

definition health_set_generations ::
  "(string \<Rightarrow> breaker_key \<Rightarrow> go_time) \<Rightarrow> health_gate \<Rightarrow> (string, route) gomap \<Rightarrow>
   health_gate \<times> health_observation list \<times> string list" where
  "health_set_generations clk g routes =
     (let entries = generation_entries routes;
          current = entry_values entries;
          route_generations = put_all (map (\<lambda>(_, r). (rt_id r, gen_for (rt_health_generation r) ScopeRoute)) routes);
          previous = hg_generations g;
          changed = changed_routes (hg_route_generations g) route_generations;
          g1 = g\<lparr>hg_generations := current, hg_generation_enabled := True,
                 hg_quota_generations := quota_generation_entries routes,
                 hg_route_generations := route_generations,
                 hg_route_refs := put_all (map (\<lambda>(_, r). (rt_id r, r)) routes)\<rparr>
      in case reset_superseded previous entries g1 of
           (g2, obs) \<Rightarrow>
             (drop_inactive current (map (rt_id \<circ> snd) routes) (foldl (project_route clk) g2 routes),
              filter (\<lambda>(_, st). lane_normalized (rh_lane st) \<noteq> HealthAuthentication) obs,
              sort changed))"

section \<open>The status view\<close>

definition scope_text :: "outcome_scope \<Rightarrow> string" where
  "scope_text s =
     (case s of
        ScopeUnset \<Rightarrow> []
      | ScopeRequest \<Rightarrow> ''request''
      | ScopeRoute \<Rightarrow> ''route''
      | ScopeOperation \<Rightarrow> ''operation''
      | ScopeRouteConnection \<Rightarrow> ''route_connection''
      | ScopeConnection \<Rightarrow> ''connection''
      | ScopeProvider \<Rightarrow> ''provider'')"

definition zero_view :: route_health_view where
  "zero_view = \<lparr>hv_health = zero_health, hv_operations = [], hv_authentication = []\<rparr>"

definition add_authentication ::
  "breaker_key \<Rightarrow> route_health \<Rightarrow> (string, route_health_view) gomap \<Rightarrow> string \<times> route \<Rightarrow>
   (string, route_health_view) gomap" where
  "add_authentication k st result ir =
     (if health_key_applies k (snd ir)
      then let view = gm_or result (fst ir) zero_view
           in gm_put (fst ir) (view\<lparr>hv_authentication := hv_authentication view @ [st]\<rparr>) result
      else result)"

definition add_view ::
  "(string, route) gomap \<Rightarrow> (string, route_health_view) gomap \<Rightarrow> breaker_key \<times> route_health \<Rightarrow>
   (string, route_health_view) gomap" where
  "add_view refs result kst =
     (case kst of (k, st) \<Rightarrow>
        if bk_lane k = HealthAuthentication then foldl (add_authentication k st) result refs
        else if bk_scope k \<noteq> ScopeOperation then result
        else let view = gm_or result (bk_route k) zero_view
             in gm_put (bk_route k) (view\<lparr>hv_operations := hv_operations view @ [st]\<rparr>) result)"

definition sort_view :: "route_health_view \<Rightarrow> route_health_view" where
  "sort_view v =
     v\<lparr>hv_operations := sort_key (\<lambda>st. ref_key (rh_operation_ref st)) (hv_operations v),
       hv_authentication :=
         sort_key (\<lambda>st. (scope_text (rh_last_scope st), ref_key (rh_operation_ref st))) (hv_authentication v)\<rparr>"

definition health_snapshot :: "health_gate \<Rightarrow> (string, route_health_view) gomap" where
  "health_snapshot g =
     map (\<lambda>(i, v). (i, sort_view v))
       (foldl (add_view (hg_route_refs g))
          (map (\<lambda>(i, st). (i, \<lparr>hv_health = st, hv_operations = [], hv_authentication = []\<rparr>)) (hg_routes g))
          (hg_scoped g))"

section \<open>Keys and trials\<close>

lemmas key_defs = health_keys_def outcome_scope_key_def outcome_lane_key_def scope_key_def lane_normalized_def

lemma distinct_health_keys [simp]: "distinct (health_keys r)"
proof -
  have "distinct (map (\<lambda>k. (bk_scope k, bk_lane k)) (health_keys r))"
    by (cases "ref_id (rt_session_operation_ref r) = []"; cases "rt_credential_id r = []"; cases "rt_node_id r = []")
      (simp_all add: key_defs)
  then show ?thesis by (simp add: distinct_map)
qed

lemma gm_get_del_keys [gomap_simps]: "gm_get (del_keys ks m) k = (if k \<in> set ks then None else gm_get m k)"
  by (induction ks m rule: del_keys.induct) (auto simp: gomap_simps)

lemma gm_or_del_keys [gomap_simps]: "gm_or (del_keys ks m) k z = (if k \<in> set ks then z else gm_or m k z)"
  by (simp add: gm_or_def gomap_simps)

definition admits :: "health_gate \<Rightarrow> go_time \<Rightarrow> breaker_key \<Rightarrow> bool" where
  "admits g now k \<longleftrightarrow>
     \<not> suppressed (scoped_state g k) now \<and> \<not> (half_open (scoped_state g k) \<and> on_trial g k)"

lemma acquire_keys_correct:
  assumes "distinct ks" and "set acquired \<inter> set ks = {}" and "\<forall>k \<in> set acquired. \<not> on_trial g k"
    and "\<forall>k. gm_or trials k False \<longleftrightarrow> on_trial g k \<or> k \<in> set acquired"
    and "acquire_keys g now acquired ks trials = (ok, trials')"
  shows "ok = list_all (admits g now) ks \<and>
         (\<forall>k. gm_or trials' k False \<longleftrightarrow>
            on_trial g k \<or> ok \<and> (k \<in> set acquired \<or> k \<in> set ks \<and> half_open (scoped_state g k)))"
  using assms
proof (induction ks arbitrary: acquired trials)
  case Nil
  then show ?case by auto
next
  case (Cons k ks)
  let ?st = "scoped_state g k"
  have notrial: "gm_or trials k False \<longleftrightarrow> on_trial g k" using Cons.prems by auto
  have restore: "gm_or (del_keys acquired trials) j False \<longleftrightarrow> on_trial g j" for j
    using Cons.prems by (auto simp: gomap_simps)
  show ?case
  proof (cases "admits g now k")
    case False
    then have "\<not> ok \<and> trials' = del_keys acquired trials"
      using Cons.prems(5) notrial by (auto simp: admits_def Let_def split: if_splits)
    with False restore show ?thesis by simp
  next
    case admitted: True
    show ?thesis
    proof (cases "half_open ?st")
      case True
      with admitted Cons.prems(5) notrial
      have "acquire_keys g now (acquired @ [k]) ks (gm_put k True trials) = (ok, trials')"
        by (auto simp: admits_def Let_def split: if_splits)
      then have "ok = list_all (admits g now) ks \<and>
         (\<forall>j. gm_or trials' j False \<longleftrightarrow>
            on_trial g j \<or> ok \<and> (j \<in> set (acquired @ [k]) \<or> j \<in> set ks \<and> half_open (scoped_state g j)))"
        using Cons.prems admitted True
        by (intro Cons.IH [of "acquired @ [k]" "gm_put k True trials"]) (auto simp: gomap_simps admits_def)
      with admitted True show ?thesis by auto
    next
      case False
      with admitted Cons.prems(5) have "acquire_keys g now acquired ks trials = (ok, trials')"
        by (auto simp: admits_def Let_def split: if_splits)
      then have "ok = list_all (admits g now) ks \<and>
         (\<forall>j. gm_or trials' j False \<longleftrightarrow>
            on_trial g j \<or> ok \<and> (j \<in> set acquired \<or> j \<in> set ks \<and> half_open (scoped_state g j)))"
        using Cons.prems by (intro Cons.IH [of acquired trials]) auto
      with admitted False show ?thesis by auto
    qed
  qed
qed

definition admissible :: "health_gate \<Rightarrow> route \<Rightarrow> go_time \<Rightarrow> bool" where
  "admissible g r now \<longleftrightarrow>
     operation_current g r \<and> generation_current g r ScopeRoute \<and> (\<forall>k \<in> set (health_keys r). admits g now k)"

lemma health_acquire_fst: "fst (health_acquire g r now) \<longleftrightarrow> admissible g r now"
proof -
  obtain ok trials where eq: "acquire_keys g now [] (health_keys r) (hg_trials g) = (ok, trials)" by fastforce
  from acquire_keys_correct [OF _ _ _ _ eq] have "ok = list_all (admits g now) (health_keys r)" by simp
  with eq show ?thesis by (auto simp: health_acquire_def admissible_def list_all_iff)
qed

lemma health_acquire_trials:
  "on_trial (snd (health_acquire g r now)) k \<longleftrightarrow>
     on_trial g k \<or> admissible g r now \<and> k \<in> set (health_keys r) \<and> half_open (scoped_state g k)"
proof -
  obtain ok trials where eq: "acquire_keys g now [] (health_keys r) (hg_trials g) = (ok, trials)" by fastforce
  from acquire_keys_correct [OF _ _ _ _ eq] have
    "ok = list_all (admits g now) (health_keys r)"
    "gm_or trials k False \<longleftrightarrow> on_trial g k \<or> ok \<and> k \<in> set (health_keys r) \<and> half_open (scoped_state g k)"
    by simp_all
  with eq show ?thesis by (auto simp: health_acquire_def admissible_def list_all_iff)
qed

lemma health_acquire_only_trials: "(snd (health_acquire g r now))\<lparr>hg_trials := t\<rparr> = g\<lparr>hg_trials := t\<rparr>"
  by (simp add: health_acquire_def split: prod.split)

lemma health_acquire_selectors [simp]:
  "hg_scoped (snd (health_acquire g r now)) = hg_scoped g"
  "hg_generations (snd (health_acquire g r now)) = hg_generations g"
  "hg_generation_enabled (snd (health_acquire g r now)) = hg_generation_enabled g"
  by (simp_all add: health_acquire_def split: prod.split)

lemma current_cong:
  assumes "hg_generations g' = hg_generations g" and "hg_generation_enabled g' = hg_generation_enabled g"
  shows "generation_current g' r scope = generation_current g r scope"
    "lane_generation_current g' r scope lane = lane_generation_current g r scope lane"
    "operation_current g' r = operation_current g r"
  using assms by (simp_all add: generation_current_def lane_generation_current_def operation_current_def)

lemma outcome_scope_key_lane [simp]: "outcome_lane_key r scope HealthOperational = outcome_scope_key r scope"
  by (simp add: outcome_scope_key_def)

lemma lane_generation_operational [simp]:
  "lane_generation r scope HealthOperational = gen_for (rt_health_generation r) scope"
  by (simp add: lane_generation_def lane_normalized_def)

lemma generation_current_lane: "generation_current g r scope = lane_generation_current g r scope HealthOperational"
  by (simp add: generation_current_def lane_generation_current_def)

text \<open>Acquiring on any number of routes keeps a running trial.\<close>

definition acquire_run :: "health_gate \<Rightarrow> (route \<times> go_time) list \<Rightarrow> health_gate" where
  "acquire_run g attempts = foldl (\<lambda>g (r, t). snd (health_acquire g r t)) g attempts"

lemma acquire_run_keeps:
  "hg_scoped (acquire_run g attempts) = hg_scoped g \<and> (on_trial g k \<longrightarrow> on_trial (acquire_run g attempts) k)"
  unfolding acquire_run_def
  by (induction attempts arbitrary: g) (auto simp: health_acquire_trials split: prod.split)

lemma trial_refuses:
  assumes "half_open (scoped_state g k)" and "on_trial g k" and "k \<in> set (health_keys r)"
  shows "\<not> fst (health_acquire g r now)"
  using assms by (auto simp: health_acquire_fst admissible_def admits_def)

lemma trial_refuses_run:
  assumes "half_open (scoped_state g k)" and "on_trial g k" and "k \<in> set (health_keys r)"
  shows "\<not> fst (health_acquire (acquire_run g attempts) r now)"
proof (rule trial_refuses [OF _ _ assms(3)])
  show "half_open (scoped_state (acquire_run g attempts) k)" "on_trial (acquire_run g attempts) k"
    using acquire_run_keeps [of g attempts k] assms(1,2) by simp_all
qed

text \<open>
  C9. Admission: a request is admitted exactly when its generations are current, no breaker key of
  its route is invalid or cooling down and no half-open key is already on trial. An admission puts
  exactly the route's half-open keys on trial, a refusal leaves the trials as they were (keys acquired
  on the way are given back), and nothing but trials changes.
\<close>

theorem health_acquire_correct:
  "(fst (health_acquire g r now) \<longleftrightarrow>
      operation_current g r \<and> generation_current g r ScopeRoute \<and>
      (\<forall>k \<in> set (health_keys r).
         \<not> suppressed (scoped_state g k) now \<and> \<not> (half_open (scoped_state g k) \<and> on_trial g k))) \<and>
   (\<forall>k. on_trial (snd (health_acquire g r now)) k \<longleftrightarrow>
      on_trial g k \<or>
      fst (health_acquire g r now) \<and> k \<in> set (health_keys r) \<and> half_open (scoped_state g k)) \<and>
   (snd (health_acquire g r now))\<lparr>hg_trials := hg_trials g\<rparr> = g"
  by (simp add: health_acquire_fst health_acquire_trials health_acquire_only_trials admissible_def admits_def)

definition trial_route :: "string \<Rightarrow> route" where
  "trial_route i = zero_route\<lparr>rt_id := i, rt_node_id := ''node'', rt_external_model := ''m'',
     rt_health_generation := \<lparr>gen_provider = ''p1'', gen_connection = ''c1'', gen_credential = ''k1'', gen_model = ''m1''\<rparr>\<rparr>"

definition provider_key :: breaker_key where
  "provider_key = outcome_scope_key (trial_route ''a'') ScopeProvider"

definition recovering_gate :: health_gate where
  "recovering_gate = new_health_gate\<lparr>hg_scoped :=
     [(provider_key, zero_health\<lparr>rh_lane := HealthOperational, rh_failures := 1, rh_cooldown_until := 50,
        rh_generation := ''p1'', rh_last_scope := ScopeProvider, rh_last_cause := CauseOverloaded\<rparr>)]\<rparr>"

lemmas trial_defs = trial_route_def provider_key_def recovering_gate_def zero_route_def zero_generation_def
  new_health_gate_def zero_health_def half_open_def suppressed_def time_defs gm_or_def

lemma recovering_gate_admits: "fst (health_acquire recovering_gate (trial_route ''a'') 100)"
  by (simp add: health_acquire_def acquire_keys.simps key_defs trial_defs Let_def no_ref_def
      operation_current_def generation_current_def operation_scope_valid_def)

lemma recovering_key: "provider_key \<in> set (health_keys (trial_route i))" "half_open (scoped_state recovering_gate provider_key)"
  by (simp_all add: key_defs trial_defs)

lemma health_acquire_correct_witness:
  "on_trial (snd (health_acquire recovering_gate (trial_route ''a'') 100)) provider_key"
  using health_acquire_correct [of recovering_gate "trial_route ''a''" 100] recovering_gate_admits
    recovering_key by blast

text \<open>
  C10. One trial per half-open key: once a request was admitted on a route with a half-open key, every
  request on a route that shares the key is refused, at any time and after any further admissions.
\<close>

theorem half_open_single_trial:
  assumes "fst (health_acquire g r now)" and "k \<in> set (health_keys r)" and "half_open (scoped_state g k)"
    and "k \<in> set (health_keys r')"
  shows "\<not> fst (health_acquire (acquire_run (snd (health_acquire g r now)) attempts) r' now')"
  using assms by (intro trial_refuses_run [of _ k]) (simp_all add: health_acquire_trials health_acquire_fst)

lemma half_open_single_trial_witness:
  "\<not> fst (health_acquire (acquire_run (snd (health_acquire recovering_gate (trial_route ''a'') 100))
      [(trial_route ''c'', 150)]) (trial_route ''b'') 200)"
  by (rule half_open_single_trial [OF recovering_gate_admits recovering_key(1) recovering_key(2) recovering_key(1)])

lemma health_release_trials:
  "on_trial (health_release g r) k \<longleftrightarrow>
     on_trial g k \<and> \<not> (generation_current g r ScopeRoute \<and> k \<in> set (health_keys r))"
  by (auto simp: health_release_def end_trials_def gomap_simps)

lemma health_release_selectors [simp]:
  "hg_scoped (health_release g r) = hg_scoped g"
  "hg_generations (health_release g r) = hg_generations g"
  "hg_generation_enabled (health_release g r) = hg_generation_enabled g"
  by (simp_all add: health_release_def end_trials_def)

text \<open>
  \<open>Release\<close> does not remember which request owns a trial. After a request was admitted on half-open
  keys, the release of any other request on a route with these keys (one admitted before the failure,
  say) ends the trial, and a second request on the same route is admitted while the first still runs.
\<close>

theorem foreign_release_ends_trial:
  assumes "fst (health_acquire g r now)" and "generation_current g other ScopeRoute"
    and "\<forall>k \<in> set (health_keys r). half_open (scoped_state g k) \<longrightarrow> k \<in> set (health_keys other)"
    and "now \<le> now'"
  shows "fst (health_acquire (health_release (snd (health_acquire g r now)) other) r now')"
proof -
  let ?g1 = "snd (health_acquire g r now)"
  have cur: "generation_current ?g1 other ScopeRoute"
    using assms(2) by (simp add: current_cong [of ?g1 g])
  have "admits (health_release ?g1 other) now' k" if "k \<in> set (health_keys r)" for k
  proof -
    have "admits g now k" using assms(1) that by (simp add: health_acquire_fst admissible_def)
    with assms(3,4) that cur show ?thesis
      by (auto simp: admits_def suppressed_def after_def health_release_trials health_acquire_trials)
  qed
  then show ?thesis
    using assms(1) by (simp add: health_acquire_fst admissible_def current_cong [of "health_release ?g1 other" g])
qed

lemma recovering_half_open: "half_open (scoped_state recovering_gate k) \<Longrightarrow> k = provider_key"
  by (auto simp: trial_defs split: if_splits)

lemma foreign_release_ends_trial_witness:
  "fst (health_acquire (health_release (snd (health_acquire recovering_gate (trial_route ''a'') 100))
     (trial_route ''b'')) (trial_route ''a'') 100)"
proof (rule foreign_release_ends_trial [OF recovering_gate_admits])
  show "generation_current recovering_gate (trial_route ''b'') ScopeRoute"
    by (simp add: generation_current_def operation_scope_valid_def recovering_gate_def new_health_gate_def)
  show "\<forall>k\<in>set (health_keys (trial_route ''a'')).
       half_open (scoped_state recovering_gate k) \<longrightarrow> k \<in> set (health_keys (trial_route ''b''))"
    using recovering_half_open recovering_key(1) by blast
qed simp

section \<open>The gate's invariant\<close>

text \<open>
  Once generations are published, stored evidence belongs to the published generation of its key; and
  only a key with evidence is ever on trial.
\<close>

definition evidence_current :: "health_gate \<Rightarrow> bool" where
  "evidence_current g \<longleftrightarrow>
     (hg_generation_enabled g \<longrightarrow>
      (\<forall>k st. gm_get (hg_scoped g) k = Some st \<longrightarrow> gm_get (hg_generations g) k = Some (rh_generation st)))"

definition trials_known :: "health_gate \<Rightarrow> bool" where
  "trials_known g \<longleftrightarrow> (\<forall>k. on_trial g k \<longrightarrow> gm_get (hg_scoped g) k \<noteq> None)"

definition gate_inv :: "health_gate \<Rightarrow> bool" where
  "gate_inv g \<longleftrightarrow> gm_wf (hg_scoped g) \<and> evidence_current g \<and> trials_known g"

named_theorems gate_invs \<open>what preserves the invariant of the gate\<close>

lemma gate_writes_selectors [simp]:
  "hg_scoped (put_scoped k st g) = gm_put k st (hg_scoped g)" "hg_scoped (end_trial k g) = hg_scoped g"
  "hg_scoped (note_route r g) = hg_scoped g" "hg_scoped (put_projection r st g) = hg_scoped g"
  "hg_scoped (drop_projection r g) = hg_scoped g"
  "hg_trials (put_scoped k st g) = hg_trials g" "hg_trials (end_trial k g) = gm_del k (hg_trials g)"
  "hg_trials (note_route r g) = hg_trials g" "hg_trials (put_projection r st g) = hg_trials g"
  "hg_trials (drop_projection r g) = hg_trials g"
  "hg_generations (put_scoped k st g) = hg_generations g" "hg_generations (end_trial k g) = hg_generations g"
  "hg_generations (note_route r g) = hg_generations g" "hg_generations (put_projection r st g) = hg_generations g"
  "hg_generations (drop_projection r g) = hg_generations g"
  "hg_generation_enabled (put_scoped k st g) = hg_generation_enabled g"
  "hg_generation_enabled (end_trial k g) = hg_generation_enabled g"
  "hg_generation_enabled (note_route r g) = hg_generation_enabled g"
  "hg_generation_enabled (put_projection r st g) = hg_generation_enabled g"
  "hg_generation_enabled (drop_projection r g) = hg_generation_enabled g"
  by (simp_all add: gate_writes)

lemma gate_inv_cong:
  assumes "hg_scoped g' = hg_scoped g" and "hg_generations g' = hg_generations g"
    and "hg_generation_enabled g' = hg_generation_enabled g" and "\<And>k. on_trial g' k \<Longrightarrow> on_trial g k"
    and "gate_inv g"
  shows "gate_inv g'"
  using assms by (simp add: gate_inv_def evidence_current_def trials_known_def)

lemma gate_inv_writes [gate_invs]:
  assumes "gate_inv g"
  shows "gate_inv (end_trial k g)" "gate_inv (note_route r g)" "gate_inv (put_projection r st g)"
    "gate_inv (drop_projection r g)" "gate_inv (end_trials ks g)"
  by (rule gate_inv_cong [OF _ _ _ _ assms]; simp add: end_trials_def gomap_simps split: if_splits)+

lemma gate_inv_put:
  assumes "gate_inv g" and "hg_generation_enabled g \<Longrightarrow> gm_get (hg_generations g) k = Some (rh_generation st)"
  shows "gate_inv (put_scoped k st g)"
  using assms by (auto simp: gate_inv_def evidence_current_def trials_known_def gomap_simps)

text \<open>Evidence that is stored back with its own generation.\<close>

lemma gate_inv_put_same:
  assumes "gate_inv g" and "gm_get (hg_scoped g) k = Some st" and "rh_generation st' = rh_generation st"
  shows "gate_inv (put_scoped k st' g)"
  using assms by (intro gate_inv_put) (auto simp: gate_inv_def evidence_current_def)

lemma scoped_state_nonzero: "scoped_state g k \<noteq> zero_health \<Longrightarrow> gm_get (hg_scoped g) k = Some (scoped_state g k)"
  by (auto simp: gm_or_def split: option.splits)

lemma zero_not_half_open [simp]: "\<not> half_open zero_health"
  by (simp add: half_open_def zero_health_def)

lemma half_open_known: "half_open (scoped_state g k) \<Longrightarrow> gm_get (hg_scoped g) k \<noteq> None"
  by (auto simp: gm_or_def split: option.splits)

lemma gate_inv_acquire [gate_invs]:
  assumes "gate_inv g"
  shows "gate_inv (snd (health_acquire g r now))"
proof -
  have "on_trial (snd (health_acquire g r now)) k \<Longrightarrow> gm_get (hg_scoped g) k \<noteq> None" for k
    using assms half_open_known [of g k] by (auto simp: health_acquire_trials gate_inv_def trials_known_def)
  with assms show ?thesis by (simp add: gate_inv_def evidence_current_def trials_known_def)
qed

lemma gate_inv_release [gate_invs]: "gate_inv g \<Longrightarrow> gate_inv (health_release g r)"
  by (simp add: health_release_def gate_invs)

lemma lane_generation_currentD:
  "lane_generation_current g r scope lane \<Longrightarrow> hg_generation_enabled g \<Longrightarrow>
   gm_get (hg_generations g) (outcome_lane_key r scope lane) = Some (lane_generation r scope lane)"
  by (simp add: lane_generation_current_def)

lemma outcome_state_generation [simp]:
  "rh_generation (outcome_state r oc now st) = lane_generation r (oc_scope oc) (outcome_lane oc)"
  by (simp add: outcome_state_def record_attempt_def record_success_def record_failure_def Let_def)

lemma recover_trials_effect:
  "gate_inv g \<Longrightarrow> gate_inv (fst (recover_trials r key lane now ks g)) \<and>
   hg_generations (fst (recover_trials r key lane now ks g)) = hg_generations g \<and>
   hg_generation_enabled (fst (recover_trials r key lane now ks g)) = hg_generation_enabled g"
proof (induction ks arbitrary: g)
  case (Cons k ks)
  show ?case
  proof (cases "k = key \<or> bk_lane k \<noteq> lane \<or> \<not> on_trial g k \<or> suppressed (scoped_state g k) now")
    case True
    with Cons show ?thesis by (auto simp: Let_def)
  next
    case False
    with Cons.prems have "gm_get (hg_scoped g) k = Some (scoped_state g k)"
      by (auto simp: gate_inv_def trials_known_def gm_or_def split: option.splits)
    then have "gate_inv (end_trial k (put_scoped k (recovered_state k lane now (scoped_state g k)) g))"
      using Cons.prems by (intro gate_invs gate_inv_put_same [of _ k "scoped_state g k"]) (simp_all add: recovered_state_def)
    from Cons.IH [OF this] False show ?thesis by (simp add: Let_def case_prod_unfold)
  qed
qed simp

lemma gate_inv_project_outcome [gate_invs]: "gate_inv g \<Longrightarrow> gate_inv (project_outcome clk r oc st g)"
  by (simp add: project_outcome_def Let_def gate_invs split: prod.split bool.split)

lemma project_outcome_selectors [simp]:
  "hg_scoped (project_outcome clk r oc st g) = hg_scoped g"
  "hg_trials (project_outcome clk r oc st g) = hg_trials g"
  "hg_generations (project_outcome clk r oc st g) = hg_generations g"
  "hg_generation_enabled (project_outcome clk r oc st g) = hg_generation_enabled g"
  by (simp_all add: project_outcome_def Let_def split: prod.split bool.split)

lemma gate_inv_observe [gate_invs]:
  assumes "gate_inv g"
  shows "gate_inv (fst (health_observe now clk g r oc))"
proof (cases "lane_generation_current g r (oc_scope oc) (outcome_lane oc)")
  case True
  let ?key = "outcome_lane_key r (oc_scope oc) (outcome_lane oc)"
  let ?st = "scoped_state g ?key"
  let ?late = "?st\<lparr>rh_successes := wrap64 (rh_successes ?st + 1), rh_last_attempt := now, rh_last_success := now\<rparr>"
  let ?g2 = "project_outcome clk r oc (outcome_state r oc now ?st)
     (end_trial ?key (put_scoped ?key (outcome_state r oc now ?st) (note_route r g)))"
  have cool: "gate_inv (end_trial ?key (put_scoped ?key ?late (note_route r g)))"
    if "success_within_cooldown ?st oc now"
  proof -
    have "?st \<noteq> zero_health" using that by (auto simp: success_within_cooldown_def zero_health_def)
    from scoped_state_nonzero [OF this] show ?thesis
      using assms by (intro gate_invs gate_inv_put_same [of _ ?key ?st]) (simp_all add: gate_invs)
  qed
  have inv2: "gate_inv ?g2"
    using assms lane_generation_currentD [OF True] by (intro gate_invs gate_inv_put) simp_all
  show ?thesis
    using cool recover_trials_effect [OF inv2] inv2
    by (simp add: health_observe_def True Let_def case_prod_unfold)
qed (simp add: health_observe_def Let_def assms)

lemma gate_inv_project_reset [gate_invs]: "gate_inv g \<Longrightarrow> gate_inv (project_reset clk r lane st g)"
  by (simp add: project_reset_def gate_invs split: prod.split bool.split option.split)

lemma gate_inv_reset_lane [gate_invs]:
  assumes "gate_inv g"
  shows "gate_inv (fst (snd (reset_scope_lane clk g r scope lane only)))"
proof (cases "lane_generation_current g r scope lane")
  case True
  let ?key = "outcome_lane_key r scope lane"
  have "gate_inv (put_scoped ?key (reset_state r scope lane (scoped_state g ?key)) g)"
    using assms lane_generation_currentD [OF True] by (intro gate_inv_put) (simp_all add: reset_state_def)
  then show ?thesis
    by (simp add: reset_scope_lane_def Let_def True assms gate_invs)
qed (simp add: reset_scope_lane_def Let_def assms)

lemma gate_inv_reset [gate_invs]: "gate_inv g \<Longrightarrow> gate_inv (fst (snd (health_reset_scope clk g r scope)))"
  using gate_inv_reset_lane [of g clk r scope HealthOperational False]
  by (auto simp: health_reset_scope_def split: prod.split dest: gate_inv_reset_lane [of _ clk r scope HealthAuthentication False])

lemma gate_inv_clear [gate_invs]: "gate_inv g \<Longrightarrow> gate_inv (fst (snd (health_clear_invalid clk g r scope)))"
  by (simp add: health_clear_invalid_def gate_invs)

lemma gate_inv_failure [gate_invs]:
  assumes "gate_inv g"
  shows "gate_inv (fst (health_mark_failure_after now now' clk g r cls err override))"
proof -
  define lane where "lane = (if cls = ErrorAuth then HealthAuthentication else HealthOperational)"
  show ?thesis
  proof (cases "lane_generation_current g r ScopeRoute lane")
    case True
    have put: "gate_inv (put_scoped (outcome_lane_key r ScopeRoute lane) st g)"
      if "rh_generation st = lane_generation r ScopeRoute lane" for st
      using assms lane_generation_currentD [OF True] that by (intro gate_inv_put) simp_all
    show ?thesis
      unfolding health_mark_failure_after_def lane_def [symmetric]
      by (auto simp: Let_def True split: prod.split bool.split intro!: gate_invs put)
  next
    case False
    then show ?thesis by (simp add: health_mark_failure_after_def Let_def assms flip: lane_def)
  qed
qed

lemma gate_inv_success [gate_invs]:
  assumes "gate_inv g" and "0 \<le> now"
  shows "gate_inv (fst (health_mark_success now g r))"
proof (cases "generation_current g r ScopeRoute")
  case True
  let ?key = "outcome_scope_key r ScopeRoute"
  let ?st = "scoped_state g ?key"
  have cur: "hg_generation_enabled g \<Longrightarrow> gm_get (hg_generations g) ?key = Some (gen_for (rt_health_generation r) ScopeRoute)"
    using True by (simp add: generation_current_def)
  have late: "gate_inv (put_scoped ?key st' g)"
    if "after (rh_cooldown_until ?st) now" "rh_generation st' = rh_generation ?st" for st'
  proof -
    have "?st \<noteq> zero_health" using that assms(2) by (auto simp: zero_health_def after_def)
    from scoped_state_nonzero [OF this] that(2) show ?thesis using assms(1) by (intro gate_inv_put_same)
  qed
  have fresh: "gate_inv (put_scoped ?key st' g)"
    if "rh_generation st' = gen_for (rt_health_generation r) ScopeRoute" for st'
    using assms(1) cur that by (intro gate_inv_put) simp_all
  show ?thesis
  proof (cases "after (rh_cooldown_until ?st) now \<and> \<not> rh_invalid ?st")
    case True
    with \<open>generation_current g r ScopeRoute\<close> show ?thesis
      by (simp add: health_mark_success_def Let_def late)
  next
    case False
    then have "health_mark_success now g r = (let st1 = ?st\<lparr>rh_lane := HealthOperational,
        rh_successes := wrap64 (rh_successes ?st + 1), rh_failures := 0, rh_cooldown_until := 0,
        rh_last_error := [], rh_last_cause := CauseSuccess, rh_last_scope := ScopeRoute,
        rh_generation := gen_for (rt_health_generation r) ScopeRoute, rh_last_attempt := now, rh_last_success := now\<rparr>
      in (end_trials (health_keys r) (put_projection r st1 (put_scoped ?key st1 g)), [(r, st1)]))"
      using True by (auto simp: health_mark_success_def Let_def)
    then show ?thesis by (simp add: Let_def gate_invs fresh)
  qed
qed (simp add: health_mark_success_def assms)

lemma gate_inv_project_restored [gate_invs]: "gate_inv g \<Longrightarrow> gate_inv (project_restored clk r lane st g)"
  by (simp add: project_restored_def Let_def gate_invs split: prod.split bool.split option.split)

lemma gate_inv_restore [gate_invs]:
  assumes "gate_inv g"
  shows "gate_inv (snd (health_restore clk g r st))"
proof -
  define lane where "lane = lane_normalized (rh_lane st)"
  define key where "key = outcome_lane_key r (rh_last_scope st) lane"
  have put: "gate_inv (put_scoped key (st\<lparr>rh_lane := lane\<rparr>) g)"
    if "\<not> (hg_generation_enabled g \<and> (\<not> lane_generation_current g r (rh_last_scope st) lane \<or>
          rh_generation st \<noteq> lane_generation r (rh_last_scope st) lane))"
    using assms that lane_generation_currentD [of g r "rh_last_scope st" lane]
    by (intro gate_inv_put) (auto simp: key_def)
  show ?thesis
    unfolding health_restore_def Let_def
    by (simp add: assms gate_invs put flip: lane_def key_def)
qed

section \<open>What publishing generations does\<close>

lemma gm_wf_foldl_put: "gm_wf m \<Longrightarrow> gm_wf (foldl (\<lambda>m (k, v). gm_put k v m) m kvs)"
  by (induction kvs arbitrary: m) (simp_all split: prod.split)

lemma gm_wf_put_all [simp]: "gm_wf (put_all kvs)"
  by (simp add: put_all_def gm_wf_foldl_put)

lemma gm_wf_generation_entries [simp]: "gm_wf (generation_entries routes)"
  by (simp add: generation_entries_def)

lemma gm_get_entry_values: "gm_get (entry_values es) k = map_option ge_value (gm_get es k)"
  by (induction es) (auto simp: entry_values_def)

definition epoch_of :: "(breaker_key, string) gomap \<Rightarrow> breaker_key \<Rightarrow> generation_entry \<Rightarrow> route_health \<Rightarrow> route_health" where
  "epoch_of previous k e st = (if superseded previous k e st then epoch_state k e st else st)"

lemma epoch_of_generation [simp]: "rh_generation (epoch_of previous k e st) = ge_value e"
  by (simp add: epoch_of_def epoch_state_def superseded_def)

lemma reset_superseded_effect:
  assumes "gm_wf es"
  shows "gm_get (hg_scoped (fst (reset_superseded previous es g))) k =
           (case gm_get es k of
              None \<Rightarrow> gm_get (hg_scoped g) k
            | Some e \<Rightarrow> map_option (epoch_of previous k e) (gm_get (hg_scoped g) k)) \<and>
         (on_trial (fst (reset_superseded previous es g)) k \<longleftrightarrow>
            on_trial g k \<and>
            (\<forall>e st. gm_get es k = Some e \<longrightarrow> gm_get (hg_scoped g) k = Some st \<longrightarrow> \<not> superseded previous k e st))"
  using assms
proof (induction es arbitrary: g)
  case (Cons p es)
  obtain j e where p: "p = (j, e)" by fastforce
  from Cons.prems p have wf: "gm_wf es" and fresh: "gm_get es j = None"
    by (auto simp: gm_wf_def map_of_eq_None_iff)
  note IH = Cons.IH [OF wf]
  show ?case
  proof (cases "gm_get (hg_scoped g) j")
    case None
    with p fresh show ?thesis by (simp add: IH)
  next
    case (Some st)
    show ?thesis
    proof (cases "superseded previous j e st")
      case True
      then show ?thesis
        using Some p fresh
        by (auto simp: IH Let_def case_prod_unfold gomap_simps epoch_of_def split: option.split)
    next
      case False
      then show ?thesis
        using Some p fresh by (auto simp: IH epoch_of_def)
    qed
  qed
qed simp

lemma reset_superseded_selectors:
  "hg_generations (fst (reset_superseded previous es g)) = hg_generations g \<and>
   hg_generation_enabled (fst (reset_superseded previous es g)) = hg_generation_enabled g \<and>
   (gm_wf (hg_scoped g) \<longrightarrow> gm_wf (hg_scoped (fst (reset_superseded previous es g))))"
proof (induction es arbitrary: g)
  case (Cons p es)
  obtain j e where p: "p = (j, e)" by fastforce
  show ?case
  proof (cases "gm_get (hg_scoped g) j")
    case None
    with Cons.IH [of g] p show ?thesis by simp
  next
    case (Some st)
    with Cons.IH [of g] Cons.IH [of "end_trial j (put_scoped j (epoch_state j e st) g)"] p show ?thesis
      by (simp add: case_prod_unfold Let_def)
  qed
qed simp

lemma project_route_selectors:
  "hg_scoped (foldl (project_route clk) g routes) = hg_scoped g \<and>
   hg_trials (foldl (project_route clk) g routes) = hg_trials g \<and>
   hg_generations (foldl (project_route clk) g routes) = hg_generations g \<and>
   hg_generation_enabled (foldl (project_route clk) g routes) = hg_generation_enabled g"
  by (induction routes arbitrary: g) (auto simp: project_route_def split: prod.split bool.split option.split)

lemma set_generations_selectors [simp]:
  "hg_generations (fst (health_set_generations clk g routes)) = entry_values (generation_entries routes)"
  "hg_generation_enabled (fst (health_set_generations clk g routes)) = True"
  by (simp_all add: health_set_generations_def Let_def case_prod_unfold drop_inactive_def
      project_route_selectors reset_superseded_selectors)

lemma set_generations_effect:
  assumes "gm_wf (hg_scoped g)"
  shows "gm_wf (hg_scoped (fst (health_set_generations clk g routes))) \<and>
   gm_get (hg_scoped (fst (health_set_generations clk g routes))) k =
     (case gm_get (generation_entries routes) k of
        None \<Rightarrow> None
      | Some e \<Rightarrow> map_option (epoch_of (hg_generations g) k e) (gm_get (hg_scoped g) k)) \<and>
   (on_trial (fst (health_set_generations clk g routes)) k \<longleftrightarrow>
      on_trial g k \<and>
      (\<forall>st. gm_get (hg_scoped g) k = Some st \<longrightarrow>
        (\<exists>e. gm_get (generation_entries routes) k = Some e \<and> \<not> superseded (hg_generations g) k e st)))"
proof -
  define es where "es = generation_entries routes"
  define g1 where "g1 = g\<lparr>hg_generations := entry_values es, hg_generation_enabled := True,
      hg_quota_generations := quota_generation_entries routes,
      hg_route_generations :=
        put_all (map (\<lambda>(_, r). (rt_id r, gen_for (rt_health_generation r) ScopeRoute)) routes),
      hg_route_refs := put_all (map (\<lambda>(_, r). (rt_id r, r)) routes)\<rparr>"
  define g2 where "g2 = fst (reset_superseded (hg_generations g) es g1)"
  define g3 where "g3 = foldl (project_route clk) g2 routes"
  have eq: "fst (health_set_generations clk g routes) = drop_inactive (entry_values es) (map (rt_id \<circ> snd) routes) g3"
    by (simp add: health_set_generations_def Let_def case_prod_unfold g1_def g2_def g3_def es_def)
  have start: "gm_wf es" "hg_scoped g1 = hg_scoped g" "hg_trials g1 = hg_trials g"
    by (simp_all add: es_def g1_def)
  have wf: "gm_wf (hg_scoped g2)"
    using reset_superseded_selectors [of "hg_generations g" es g1] assms by (simp add: g2_def g1_def)
  have same: "hg_scoped g3 = hg_scoped g2" "hg_trials g3 = hg_trials g2"
    using project_route_selectors [of clk g2 routes] by (simp_all add: g3_def)
  have effect: "gm_get (hg_scoped g2) k =
           (case gm_get es k of
              None \<Rightarrow> gm_get (hg_scoped g) k
            | Some e \<Rightarrow> map_option (epoch_of (hg_generations g) k e) (gm_get (hg_scoped g) k))"
    "on_trial g2 k \<longleftrightarrow> on_trial g k \<and>
       (\<forall>e st. gm_get es k = Some e \<longrightarrow> gm_get (hg_scoped g) k = Some st \<longrightarrow> \<not> superseded (hg_generations g) k e st)"
    using reset_superseded_effect [of es "hg_generations g" g1 k, folded g2_def, unfolded start(2,3), OF start(1)]
    by simp_all
  have has: "gm_has (entry_values es) k \<longleftrightarrow> gm_get es k \<noteq> None"
    by (simp add: gm_has_def gm_get_entry_values)
  have dropped: "k \<in> set (map fst (filter (\<lambda>(k, _). \<not> gm_has (entry_values es) k) (hg_scoped g2))) \<longleftrightarrow>
      gm_get (hg_scoped g2) k \<noteq> None \<and> gm_get es k = None"
    using has by (force simp: map_of_eq_None_iff)
  show ?thesis
    unfolding eq es_def [symmetric]
    using wf has dropped effect
    by (cases "gm_get es k"; cases "gm_get (hg_scoped g) k")
      (simp_all add: drop_inactive_def same gm_get_filter gomap_simps)
qed

lemma gate_inv_set_generations [gate_invs]:
  assumes "gate_inv g"
  shows "gate_inv (fst (health_set_generations clk g routes))"
proof -
  let ?g' = "fst (health_set_generations clk g routes)"
  have wf: "gm_wf (hg_scoped g)" using assms by (simp add: gate_inv_def)
  note effect = set_generations_effect [OF wf, of clk routes]
  have "evidence_current ?g'"
    using effect
    by (auto simp: evidence_current_def gm_get_entry_values split: option.splits)
  moreover have "gm_get (hg_scoped ?g') k \<noteq> None" if "on_trial ?g' k" for k
  proof -
    from that effect [of k] have "on_trial g k" and only: "\<forall>st. gm_get (hg_scoped g) k = Some st \<longrightarrow>
        (\<exists>e. gm_get (generation_entries routes) k = Some e \<and> \<not> superseded (hg_generations g) k e st)"
      by blast+
    with assms obtain st where "gm_get (hg_scoped g) k = Some st" by (auto simp: gate_inv_def trials_known_def)
    with only effect [of k] show ?thesis by auto
  qed
  ultimately show ?thesis using effect by (simp add: gate_inv_def trials_known_def)
qed

section \<open>Runs of the gate\<close>

text \<open>Every method that changes the gate, with the clock readings it takes.\<close>

inductive health_step :: "health_gate \<Rightarrow> health_gate \<Rightarrow> bool" where
  step_acquire: "health_step g (snd (health_acquire g r now))"
| step_release: "health_step g (health_release g r)"
| step_observe: "health_step g (fst (health_observe now clk g r oc))"
| step_failure: "health_step g (fst (health_mark_failure_after now now' clk g r cls err override))"
| step_success: "0 \<le> now \<Longrightarrow> health_step g (fst (health_mark_success now g r))"
| step_reset: "health_step g (fst (snd (health_reset_scope clk g r scope)))"
| step_clear: "health_step g (fst (snd (health_clear_invalid clk g r scope)))"
| step_restore: "health_step g (snd (health_restore clk g r st))"
| step_generations: "health_step g (fst (health_set_generations clk' g routes))"

inductive health_reachable :: "health_gate \<Rightarrow> bool" where
  reach_new: "health_reachable new_health_gate"
| reach_step: "health_reachable g \<Longrightarrow> health_step g g' \<Longrightarrow> health_reachable g'"

inductive_cases health_stepE: "health_step g g'"

lemma gate_inv_step: "health_step g g' \<Longrightarrow> gate_inv g \<Longrightarrow> gate_inv g'"
  by (erule health_stepE) (simp_all add: gate_invs)

lemma gate_inv_new: "gate_inv new_health_gate"
  by (simp add: gate_inv_def evidence_current_def trials_known_def new_health_gate_def gm_or_def)

lemma gate_inv_reachable: "health_reachable g \<Longrightarrow> gate_inv g"
  by (induction rule: health_reachable.induct) (simp_all add: gate_inv_new gate_inv_step)

text \<open>
  C11. In every state the gate can reach, with generations published, evidence is stored only for
  published keys and belongs to the published generation of its key, and every key on trial has
  evidence; publishing new generations drops the evidence and the trials of the keys it retires.
\<close>

theorem health_evidence_current:
  assumes "health_reachable g"
  shows "(hg_generation_enabled g \<longrightarrow>
           (\<forall>k st. gm_get (hg_scoped g) k = Some st \<longrightarrow> gm_get (hg_generations g) k = Some (rh_generation st))) \<and>
         (\<forall>k. on_trial g k \<longrightarrow> gm_get (hg_scoped g) k \<noteq> None) \<and>
         (\<forall>clk routes k. gm_get (generation_entries routes) k = None \<longrightarrow>
           gm_get (hg_scoped (fst (health_set_generations clk g routes))) k = None \<and>
           \<not> on_trial (fst (health_set_generations clk g routes)) k)"
proof -
  have inv: "gate_inv g" using assms by (rule gate_inv_reachable)
  then have wf: "gm_wf (hg_scoped g)" by (simp add: gate_inv_def)
  have "\<not> on_trial (fst (health_set_generations clk g routes)) k"
    if "gm_get (generation_entries routes) k = None" for clk routes k
  proof -
    have "gm_get (hg_scoped (fst (health_set_generations clk g routes))) k = None"
      using set_generations_effect [OF wf, of clk routes k] that by simp
    with gate_inv_set_generations [OF inv, of clk routes] show ?thesis
      by (auto simp: gate_inv_def trials_known_def)
  qed
  with inv set_generations_effect [OF wf] show ?thesis
    by (auto simp: gate_inv_def evidence_current_def trials_known_def)
qed

definition published_gate :: health_gate where
  "published_gate = fst (health_set_generations (\<lambda>_ _. 0) new_health_gate [(''a'', trial_route ''a'')])"

lemma health_evidence_current_witness:
  "gm_get (hg_scoped (fst (health_set_generations (\<lambda>_ _. 0) published_gate []))) provider_key = None"
proof -
  have "health_reachable published_gate"
    unfolding published_gate_def by (rule reach_step [OF reach_new step_generations])
  from health_evidence_current [OF this] show ?thesis
    by (simp add: generation_entries_def put_all_def)
qed


definition recovering_published_gate :: health_gate where
  "recovering_published_gate = published_gate\<lparr>hg_scoped := hg_scoped recovering_gate\<rparr>"

definition republished_route :: route where
  "republished_route = (trial_route ''a'')\<lparr>rt_health_generation :=
     (rt_health_generation (trial_route ''a''))\<lparr>gen_model := ''m2''\<rparr>\<rparr>"

definition provider_entry :: generation_entry where
  "provider_entry = \<lparr>ge_route = republished_route, ge_scope = ScopeProvider, ge_value = ''p1''\<rparr>"

lemma republished_facts:
  "fst (health_acquire recovering_published_gate (trial_route ''a'') 100)"
  "half_open (scoped_state recovering_published_gate provider_key)"
  "\<not> generation_current (fst (health_set_generations (\<lambda>_ _. 0)
       (snd (health_acquire recovering_published_gate (trial_route ''a'') 100)) [(''a'', republished_route)]))
     (trial_route ''a'') ScopeRoute"
  "gm_get (generation_entries [(''a'', republished_route)]) provider_key = Some provider_entry"
  "\<not> superseded (hg_generations recovering_published_gate) provider_key provider_entry
     (scoped_state recovering_published_gate provider_key)"
  by code_simp+


section \<open>What an outcome does\<close>

lemma recover_trials_scoped:
  assumes "distinct ks"
  shows "gm_get (hg_scoped (fst (recover_trials r key lane now ks g))) k =
           (if k \<in> set ks \<and> k \<noteq> key \<and> bk_lane k = lane \<and> on_trial g k \<and> \<not> suppressed (scoped_state g k) now
            then Some (recovered_state k lane now (scoped_state g k)) else gm_get (hg_scoped g) k) \<and>
         (on_trial (fst (recover_trials r key lane now ks g)) k \<longleftrightarrow>
            on_trial g k \<and>
            \<not> (k \<in> set ks \<and> k \<noteq> key \<and> bk_lane k = lane \<and> \<not> suppressed (scoped_state g k) now))"
  using assms
proof (induction ks arbitrary: g)
  case (Cons j ks)
  then have fresh: "j \<notin> set ks" and IH: "\<And>g. gm_get (hg_scoped (fst (recover_trials r key lane now ks g))) k =
           (if k \<in> set ks \<and> k \<noteq> key \<and> bk_lane k = lane \<and> on_trial g k \<and> \<not> suppressed (scoped_state g k) now
            then Some (recovered_state k lane now (scoped_state g k)) else gm_get (hg_scoped g) k)"
     "\<And>g. on_trial (fst (recover_trials r key lane now ks g)) k \<longleftrightarrow>
            on_trial g k \<and>
            \<not> (k \<in> set ks \<and> k \<noteq> key \<and> bk_lane k = lane \<and> \<not> suppressed (scoped_state g k) now)"
    by simp_all
  show ?case
  proof (cases "j = key \<or> bk_lane j \<noteq> lane \<or> \<not> on_trial g j \<or> suppressed (scoped_state g j) now")
    case True
    then have "recover_trials r key lane now (j # ks) g = recover_trials r key lane now ks g"
      by (auto simp: Let_def)
    with True show ?thesis by (auto simp: IH)
  next
    case False
    show ?thesis
    proof (cases "k = j")
      case True
      note IH' = IH [unfolded True]
      show ?thesis unfolding True
        using False fresh by (simp add: IH' Let_def case_prod_unfold gomap_simps)
    next
      case other: False
      with False show ?thesis by (auto simp: IH Let_def case_prod_unfold gomap_simps)
    qed
  qed
qed simp

definition outcome_accepted :: "health_gate \<Rightarrow> route \<Rightarrow> classified_outcome \<Rightarrow> bool" where
  "outcome_accepted g r oc = lane_generation_current g r (oc_scope oc) (outcome_lane oc)"

abbreviation outcome_key :: "route \<Rightarrow> classified_outcome \<Rightarrow> breaker_key" where
  "outcome_key r oc \<equiv> outcome_lane_key r (oc_scope oc) (outcome_lane oc)"

definition observed_state :: "route \<Rightarrow> classified_outcome \<Rightarrow> go_time \<Rightarrow> route_health \<Rightarrow> route_health" where
  "observed_state r oc now st =
     (if success_within_cooldown st oc now
      then st\<lparr>rh_successes := wrap64 (rh_successes st + 1), rh_last_attempt := now, rh_last_success := now\<rparr>
      else outcome_state r oc now st)"

lemma observe_rejected: "\<not> outcome_accepted g r oc \<Longrightarrow> health_observe now clk g r oc = (g, [])"
  by (simp add: health_observe_def outcome_accepted_def Let_def)

definition trial_recovers :: "health_gate \<Rightarrow> route \<Rightarrow> classified_outcome \<Rightarrow> go_time \<Rightarrow> breaker_key \<Rightarrow> bool" where
  "trial_recovers g r oc now k \<longleftrightarrow>
     oc_cause oc = CauseSuccess \<and>
     \<not> success_within_cooldown (scoped_state g (outcome_key r oc)) oc now \<and>
     k \<in> set (health_keys r) \<and> bk_lane k = outcome_lane oc \<and> \<not> suppressed (scoped_state g k) now"

lemma observe_effect:
  assumes "outcome_accepted g r oc"
  shows "gm_get (hg_scoped (fst (health_observe now clk g r oc))) k =
           (if k = outcome_key r oc then Some (observed_state r oc now (scoped_state g k))
            else if on_trial g k \<and> trial_recovers g r oc now k then Some (recovered_state k (outcome_lane oc) now (scoped_state g k))
            else gm_get (hg_scoped g) k) \<and>
         (on_trial (fst (health_observe now clk g r oc)) k \<longleftrightarrow>
            on_trial g k \<and> k \<noteq> outcome_key r oc \<and> \<not> trial_recovers g r oc now k)"
proof -
  let ?key = "outcome_key r oc"
  let ?st = "scoped_state g ?key"
  note accepted = assms(1) [unfolded outcome_accepted_def]
  show ?thesis
  proof (cases "success_within_cooldown ?st oc now")
    case True
    with accepted show ?thesis
      by (auto simp: health_observe_def Let_def observed_state_def gomap_simps trial_recovers_def)
  next
    case False
    let ?g2 = "project_outcome clk r oc (outcome_state r oc now ?st)
      (end_trial ?key (put_scoped ?key (outcome_state r oc now ?st) (note_route r g)))"
    note recover = recover_trials_scoped [OF distinct_health_keys, of r ?key "outcome_lane oc" now r ?g2 k]
    have eq: "fst (health_observe now clk g r oc) = (if oc_cause oc = CauseSuccess
        then fst (recover_trials r ?key (outcome_lane oc) now (health_keys r) ?g2) else ?g2)"
      using accepted False by (simp add: health_observe_def Let_def case_prod_unfold)
    show ?thesis
      unfolding eq
      using recover False by (cases "k = ?key") (auto simp: observed_state_def gomap_simps trial_recovers_def)
  qed
qed

lemma observe_current [simp]:
  "hg_generations (fst (health_observe now clk g r oc)) = hg_generations g"
  "hg_generation_enabled (fst (health_observe now clk g r oc)) = hg_generation_enabled g"
proof -
  have recover: "hg_generations (fst (recover_trials r key lane now ks g)) = hg_generations g \<and>
    hg_generation_enabled (fst (recover_trials r key lane now ks g)) = hg_generation_enabled g" for key lane ks g
    by (induction ks arbitrary: g) (simp_all add: Let_def case_prod_unfold)
  then show "hg_generations (fst (health_observe now clk g r oc)) = hg_generations g"
    "hg_generation_enabled (fst (health_observe now clk g r oc)) = hg_generation_enabled g"
    by (simp_all add: health_observe_def Let_def case_prod_unfold)
qed

lemma blocked_by_key:
  assumes "k \<in> set (health_keys r)" and "suppressed (scoped_state g k) now"
  shows "\<not> health_usable g r now" "\<not> fst (health_acquire g r now)"
  using assms by (auto simp: health_usable_def list_all_iff health_acquire_fst admissible_def admits_def)

lemma scoped_state_eqI: "gm_get (hg_scoped g') k = gm_get (hg_scoped g) k \<Longrightarrow> scoped_state g' k = scoped_state g k"
  by (simp add: gm_or_def)

lemma observe_scoped_key:
  "outcome_accepted g r oc \<Longrightarrow>
   scoped_state (fst (health_observe now clk g r oc)) (outcome_key r oc) =
     observed_state r oc now (scoped_state g (outcome_key r oc))"
  using observe_effect [of g r oc now clk "outcome_key r oc"] by (simp add: gm_or_def)

lemma observe_other_key:
  assumes "k \<noteq> outcome_key r oc" and "\<not> trial_recovers g r oc now k"
  shows "scoped_state (fst (health_observe now clk g r oc)) k = scoped_state g k"
    and "on_trial (fst (health_observe now clk g r oc)) k = on_trial g k"
proof -
  show "scoped_state (fst (health_observe now clk g r oc)) k = scoped_state g k"
    using assms observe_effect [of g r oc now clk k] observe_rejected [of g r oc now clk]
    by (cases "outcome_accepted g r oc") (auto intro: scoped_state_eqI)
  show "on_trial (fst (health_observe now clk g r oc)) k = on_trial g k"
    using assms observe_effect [of g r oc now clk k] observe_rejected [of g r oc now clk]
    by (cases "outcome_accepted g r oc") auto
qed

lemma admissible_cong:
  assumes "hg_generations g' = hg_generations g" and "hg_generation_enabled g' = hg_generation_enabled g"
    and "\<And>k. k \<in> set (health_keys r) \<Longrightarrow> scoped_state g' k = scoped_state g k \<and> on_trial g' k = on_trial g k"
  shows "fst (health_acquire g' r t) = fst (health_acquire g r t)" "health_usable g' r t = health_usable g r t"
  using assms(3)
  by (auto simp: health_acquire_fst admissible_def admits_def health_usable_def list_all_iff assms(1,2)
      current_cong [OF assms(1,2)])

text \<open>
  Evidence stays in its scope and lane. A failure changes neither the eligibility nor the
  admission of a route that does not have the breaker key it was classified to, and no outcome, success
  or failure, touches the evidence of the other lane.
\<close>

theorem outcome_isolated:
  "(oc_cause oc \<noteq> CauseSuccess \<longrightarrow> outcome_lane_key r (oc_scope oc) (outcome_lane oc) \<notin> set (health_keys r') \<longrightarrow>
      health_usable (fst (health_observe now clk g r oc)) r' t = health_usable g r' t \<and>
      fst (health_acquire (fst (health_observe now clk g r oc)) r' t) = fst (health_acquire g r' t)) \<and>
   (bk_lane k \<noteq> outcome_lane oc \<longrightarrow>
      scoped_state (fst (health_observe now clk g r oc)) k = scoped_state g k)"
proof -
  have "bk_lane (outcome_lane_key r (oc_scope oc) (outcome_lane oc)) = outcome_lane oc"
    by (simp add: outcome_lane_def key_defs split: outcome_scope.split)
  then have lane: "scoped_state (fst (health_observe now clk g r oc)) k = scoped_state g k"
    if "bk_lane k \<noteq> outcome_lane oc" using that
    by (intro observe_other_key(1)) (auto simp: trial_recovers_def)
  have scope: "scoped_state (fst (health_observe now clk g r oc)) j = scoped_state g j \<and>
     on_trial (fst (health_observe now clk g r oc)) j = on_trial g j"
    if "oc_cause oc \<noteq> CauseSuccess" "outcome_key r oc \<notin> set (health_keys r')" "j \<in> set (health_keys r')" for j
    using that observe_other_key [of j r oc g now clk] by (auto simp: trial_recovers_def)
  then have "health_usable (fst (health_observe now clk g r oc)) r' t = health_usable g r' t \<and>
      fst (health_acquire (fst (health_observe now clk g r oc)) r' t) = fst (health_acquire g r' t)"
    if "oc_cause oc \<noteq> CauseSuccess" "outcome_key r oc \<notin> set (health_keys r')"
    using that admissible_cong [of "fst (health_observe now clk g r oc)" g r' t] by simp
  with lane show ?thesis by blast
qed

definition rejected_key_outcome :: classified_outcome where
  "rejected_key_outcome = (success_outcome ScopeConnection)
     \<lparr>oc_cause := CauseAuth, oc_effect := EffectRejected, oc_class := ErrorAuth, oc_retry := RetryNever\<rparr>"

definition connected_route :: "string \<Rightarrow> string \<Rightarrow> route" where
  "connected_route i conn = (trial_route i)\<lparr>rt_credential_id := conn\<rparr>"

lemma outcome_isolated_witness:
  "health_usable (fst (health_observe 10 (\<lambda>_. 10) new_health_gate (connected_route ''a'' ''c1'') rejected_key_outcome))
     (connected_route ''b'' ''c2'') 20 = health_usable new_health_gate (connected_route ''b'' ''c2'') 20"
  using outcome_isolated [of rejected_key_outcome "connected_route ''a'' ''c1''" "connected_route ''b'' ''c2''"
      10 "\<lambda>_. 10" new_health_gate 20 provider_key]
  by (simp add: rejected_key_outcome_def success_outcome_def outcome_lane_def connected_route_def key_defs trial_defs)

text \<open>Until when a failure keeps its key closed, when it is not invalidated.\<close>

definition failure_until :: "classified_outcome \<Rightarrow> go_time \<Rightarrow> route_health \<Rightarrow> go_time" where
  "failure_until oc now st =
     (if after (oc_retry_at oc) now then oc_retry_at oc
      else if oc_retry oc \<noteq> RetryNever then now + failure_delay (wrap64 (rh_failures st + 1)) (oc_cause oc)
      else rh_cooldown_until st)"

lemma failure_state_suppressed:
  assumes "oc_cause oc \<noteq> CauseSuccess" and "permanently_invalidates oc \<or> t < failure_until oc now st"
  shows "suppressed (observed_state r oc now st) t"
  using assms
  by (auto simp: suppressed_def observed_state_def success_within_cooldown_def outcome_state_def Let_def
      record_failure_def record_attempt_def failure_until_def after_def time_add_def split: if_splits)

text \<open>
  C12. A failure closes every route of its scope: once it was accepted, each route that has its breaker
  key (each route of the connection, of the provider) is neither usable nor admitted, forever after a
  confirmed permanent rejection, and otherwise up to the retry time upstream gave or the computed delay.
\<close>

theorem failure_closes_scope:
  assumes "lane_generation_current g r (oc_scope oc) (outcome_lane oc)" and "oc_cause oc \<noteq> CauseSuccess"
    and "outcome_lane_key r (oc_scope oc) (outcome_lane oc) \<in> set (health_keys r')"
    and "permanently_invalidates oc \<or>
         t < failure_until oc now (scoped_state g (outcome_lane_key r (oc_scope oc) (outcome_lane oc)))"
  shows "\<not> health_usable (fst (health_observe now clk g r oc)) r' t \<and>
         \<not> fst (health_acquire (fst (health_observe now clk g r oc)) r' t)"
  using failure_state_suppressed [OF assms(2,4), of r] observe_scoped_key [of g r oc now clk]
    blocked_by_key [OF assms(3)] assms(1)
  by (simp add: outcome_accepted_def)

lemma failure_closes_scope_witness:
  "\<not> health_usable (fst (health_observe 10 (\<lambda>_. 10) new_health_gate (connected_route ''a'' ''c1'') rejected_key_outcome))
      (connected_route ''b'' ''c1'') 1000000 \<and>
   \<not> fst (health_acquire (fst (health_observe 10 (\<lambda>_. 10) new_health_gate (connected_route ''a'' ''c1'') rejected_key_outcome))
      (connected_route ''b'' ''c1'') 1000000)"
  by (rule failure_closes_scope)
    (simp_all add: rejected_key_outcome_def success_outcome_def outcome_lane_def permanently_invalidates_def
      lane_generation_current_def operation_scope_valid_def connected_route_def key_defs trial_defs)

text \<open>
  C14. A success accepted for a scope reopens it: no failure, no invalidation, no cooldown and no trial is
  left on its key, nor on any other key of the route and lane that was on trial with its cooldown
  over. Only a rate-limit or quota cooldown outlives a success: then nothing but counters changes.
\<close>

theorem success_reopens:
  assumes "lane_generation_current g r (oc_scope oc) (outcome_lane oc)" and "oc_cause oc = CauseSuccess"
    and "k = outcome_lane_key r (oc_scope oc) (outcome_lane oc) \<or>
         k \<in> set (health_keys r) \<and> bk_lane k = HealthOperational \<and> on_trial g k \<and>
         \<not> suppressed (scoped_state g k) now"
  shows "let key = outcome_lane_key r (oc_scope oc) (outcome_lane oc);
             g' = fst (health_observe now clk g r oc)
         in if success_within_cooldown (scoped_state g key) oc now
         then rh_cooldown_until (scoped_state g' key) = rh_cooldown_until (scoped_state g key) \<and>
              rh_failures (scoped_state g' key) = rh_failures (scoped_state g key)
         else \<not> on_trial g' k \<and> rh_failures (scoped_state g' k) = 0 \<and> \<not> rh_invalid (scoped_state g' k) \<and>
              rh_cooldown_until (scoped_state g' k) = 0"
proof -
  define key where "key = outcome_lane_key r (oc_scope oc) (outcome_lane oc)"
  define g' where "g' = fst (health_observe now clk g r oc)"
  have accepted: "outcome_accepted g r oc" using assms(1) by (simp add: outcome_accepted_def)
  have lane: "outcome_lane oc = HealthOperational" by (simp add: outcome_lane_def assms(2))
  note effect = observe_effect [OF accepted, of now clk k, folded g'_def key_def]
  have "if success_within_cooldown (scoped_state g key) oc now
         then rh_cooldown_until (scoped_state g' key) = rh_cooldown_until (scoped_state g key) \<and>
              rh_failures (scoped_state g' key) = rh_failures (scoped_state g key)
         else \<not> on_trial g' k \<and> rh_failures (scoped_state g' k) = 0 \<and> \<not> rh_invalid (scoped_state g' k) \<and>
              rh_cooldown_until (scoped_state g' k) = 0"
  proof (cases "success_within_cooldown (scoped_state g key) oc now")
    case True
    then have "scoped_state g' key = observed_state r oc now (scoped_state g key)"
      using observe_scoped_key [OF accepted, of now clk] by (simp add: g'_def key_def)
    with True show ?thesis by (simp add: observed_state_def)
  next
    case False
    show ?thesis
    proof (cases "k = key")
      case True
      with effect False show ?thesis
        by (simp add: gm_or_def observed_state_def outcome_state_def assms(2) record_success_def Let_def)
    next
      case other: False
      with assms(3) have "on_trial g k" "trial_recovers g r oc now k"
        using False assms(2) lane by (auto simp: trial_recovers_def key_def)
      with effect other False show ?thesis by (simp add: gm_or_def recovered_state_def)
    qed
  qed
  then show ?thesis unfolding Let_def key_def g'_def .
qed

lemma success_reopens_witness:
  "\<not> on_trial (fst (health_observe 100 (\<lambda>_. 100) (snd (health_acquire recovering_gate (trial_route ''a'') 100))
      (trial_route ''a'') (success_outcome ScopeRoute))) provider_key"
proof -
  let ?g = "snd (health_acquire recovering_gate (trial_route ''a'') 100)"
  have trial: "on_trial ?g provider_key"
    using recovering_gate_admits recovering_key by (simp add: health_acquire_trials health_acquire_fst)
  have "\<not> success_within_cooldown (scoped_state ?g (outcome_lane_key (trial_route ''a'')
      (oc_scope (success_outcome ScopeRoute)) (outcome_lane (success_outcome ScopeRoute)))) (success_outcome ScopeRoute) 100"
    by (simp add: success_within_cooldown_def success_outcome_def outcome_lane_def key_defs trial_defs)
  with success_reopens [of ?g "trial_route ''a''" "success_outcome ScopeRoute" provider_key 100 "\<lambda>_. 100"] trial recovering_key(1)
  show ?thesis
    by (simp add: Let_def success_outcome_def outcome_lane_def lane_generation_current_def operation_scope_valid_def)
      (simp add: key_defs trial_defs)
qed

section \<open>Permanent rejections\<close>

text \<open>
  A step of the request path that brings no success evidence for the key \<open>k\<close>: admissions, releases,
  outcomes of other keys, failures of any key, and the coarse feedback of the error classes.
\<close>

inductive quiet_step :: "breaker_key \<Rightarrow> health_gate \<Rightarrow> health_gate \<Rightarrow> bool" for k where
  quiet_acquire: "quiet_step k g (snd (health_acquire g r now))"
| quiet_release: "quiet_step k g (health_release g r)"
| quiet_observe: "oc_cause oc \<noteq> CauseSuccess \<or> outcome_key r oc \<noteq> k \<Longrightarrow>
    quiet_step k g (fst (health_observe now clk g r oc))"
| quiet_failure: "quiet_step k g (fst (health_mark_failure_after now now' clk g r cls err override))"
| quiet_success: "quiet_step k g (fst (health_mark_success now g r))"

lemma observe_keeps_invalid:
  assumes "rh_invalid (scoped_state g k)" and "oc_cause oc \<noteq> CauseSuccess \<or> outcome_key r oc \<noteq> k"
  shows "rh_invalid (scoped_state (fst (health_observe now clk g r oc)) k)"
proof (cases "k = outcome_key r oc")
  case True
  then show ?thesis
    using assms observe_scoped_key [of g r oc now clk] observe_rejected [of g r oc now clk]
    by (cases "outcome_accepted g r oc")
      (auto simp: observed_state_def outcome_state_def success_within_cooldown_def Let_def record_failure_def
        record_attempt_def)
next
  case False
  with assms(1) show ?thesis
    by (simp add: observe_other_key(1) trial_recovers_def suppressed_def)
qed

lemma mark_failure_scoped:
  "\<exists>key st. (rh_invalid (scoped_state g key) \<longrightarrow> rh_invalid st) \<and>
     hg_scoped (fst (health_mark_failure_after now now' clk g r cls err override)) \<in>
       {hg_scoped g, gm_put key st (hg_scoped g)}"
proof -
  define lane where "lane = (if cls = ErrorAuth then HealthAuthentication else HealthOperational)"
  define key where "key = outcome_lane_key r ScopeRoute lane"
  define st where "st = snd (hd (snd (health_mark_failure_after now now' clk g r cls err override)))"
  have "rh_invalid (scoped_state g key) \<longrightarrow> rh_invalid st"
    "hg_scoped (fst (health_mark_failure_after now now' clk g r cls err override)) = gm_put key st (hg_scoped g)"
    if "lane_generation_current g r ScopeRoute lane"
    using that
    by (simp_all add: st_def health_mark_failure_after_def Let_def key_def split: prod.split bool.split flip: lane_def)
  moreover have "hg_scoped (fst (health_mark_failure_after now now' clk g r cls err override)) = hg_scoped g"
    if "\<not> lane_generation_current g r ScopeRoute lane"
    using that by (simp add: health_mark_failure_after_def Let_def flip: lane_def)
  ultimately show ?thesis by (cases "lane_generation_current g r ScopeRoute lane") auto
qed

lemma mark_success_scoped:
  "\<exists>key st. (rh_invalid (scoped_state g key) \<longrightarrow> rh_invalid st) \<and>
     hg_scoped (fst (health_mark_success now g r)) \<in> {hg_scoped g, gm_put key st (hg_scoped g)}"
proof -
  define key where "key = outcome_scope_key r ScopeRoute"
  define st where "st = snd (hd (snd (health_mark_success now g r)))"
  have "rh_invalid (scoped_state g key) \<longrightarrow> rh_invalid st"
    "hg_scoped (fst (health_mark_success now g r)) = gm_put key st (hg_scoped g)"
    if "generation_current g r ScopeRoute"
    using that by (simp_all add: st_def health_mark_success_def Let_def key_def end_trials_def)
  moreover have "hg_scoped (fst (health_mark_success now g r)) = hg_scoped g"
    if "\<not> generation_current g r ScopeRoute"
    using that by (simp add: health_mark_success_def)
  ultimately show ?thesis by (cases "generation_current g r ScopeRoute") auto
qed

lemma quiet_keeps_invalid:
  assumes "quiet_step k g g'" and "rh_invalid (scoped_state g k)"
  shows "rh_invalid (scoped_state g' k)"
  using assms(1)
proof (cases rule: quiet_step.cases)
  case (quiet_failure now now' clk r cls err override)
  with mark_failure_scoped [of g now now' clk r cls err override] assms(2) show ?thesis
    by (auto simp: gomap_simps)
next
  case (quiet_success now r)
  with mark_success_scoped [of g now r] assms(2) show ?thesis by (auto simp: gomap_simps)
qed (use assms(2) observe_keeps_invalid in simp_all)

text \<open>
  C13. A confirmed permanent rejection is not forgotten: along any run of admissions, releases,
  failures and coarse feedback, and of outcomes of other keys, each route that has the rejected key
  stays closed at every time. Only success evidence for the key itself (or a reset, a restore or new
  generations) reopens it.
\<close>

theorem rejection_persists:
  assumes "rh_invalid (scoped_state g k)" and "(quiet_step k)\<^sup>*\<^sup>* g g'" and "k \<in> set (health_keys r)"
  shows "\<not> health_usable g' r now \<and> \<not> fst (health_acquire g' r now)"
proof -
  have "rh_invalid (scoped_state g' k)"
    using assms(2,1) by (induction rule: rtranclp_induct) (simp_all add: quiet_keeps_invalid)
  then have "suppressed (scoped_state g' k) now" by (simp add: suppressed_def)
  with blocked_by_key [OF assms(3)] show ?thesis by blast
qed

definition rejected_gate :: health_gate where
  "rejected_gate = fst (health_observe 10 (\<lambda>_. 10) new_health_gate (connected_route ''a'' ''c1'') rejected_key_outcome)"

lemma rejection_persists_witness:
  "\<not> health_usable (fst (health_mark_success 50 rejected_gate (connected_route ''a'' ''c1'')))
      (connected_route ''b'' ''c1'') 1000000 \<and>
   \<not> fst (health_acquire (fst (health_mark_success 50 rejected_gate (connected_route ''a'' ''c1'')))
      (connected_route ''b'' ''c1'') 1000000)"
proof (rule rejection_persists)
  show "rh_invalid (scoped_state rejected_gate (outcome_lane_key (connected_route ''a'' ''c1'') ScopeConnection HealthAuthentication))"
    by code_simp
  show "(quiet_step (outcome_lane_key (connected_route ''a'' ''c1'') ScopeConnection HealthAuthentication))\<^sup>*\<^sup>*
      rejected_gate (fst (health_mark_success 50 rejected_gate (connected_route ''a'' ''c1'')))"
    by (rule r_into_rtranclp [of "quiet_step k" for k]) (rule quiet_success)
  show "outcome_lane_key (connected_route ''a'' ''c1'') ScopeConnection HealthAuthentication
      \<in> set (health_keys (connected_route ''b'' ''c1''))"
    by (simp add: connected_route_def key_defs trial_defs)
qed

section \<open>Delays\<close>

lemma delay_base_bounds: "5 * second \<le> delay_base c" "delay_base c \<le> 10 * minute"
  by (simp_all add: delay_base_def duration_units)

text \<open>
  The backoff grows linearly with the failures of a key, from its cause's base delay up to ten
  minutes, for up to fifteen million failures in a row (beyond, the 64-bit product may wrap); it never
  exceeds ten minutes.
\<close>

theorem failure_delay_bounds:
  "failure_delay n c \<le> 10 * minute \<and>
   (n \<le> 15000000 \<longrightarrow> failure_delay n c = min (max 1 n * delay_base c) (10 * minute) \<and>
      delay_base c \<le> failure_delay n c \<and> (m \<le> n \<longrightarrow> failure_delay m c \<le> failure_delay n c))"
proof -
  have base: "0 < delay_base c" "delay_base c \<le> 600000000000"
    using delay_base_bounds [of c] by (simp_all add: duration_units)
  have eq: "failure_delay i c = min (max 1 i * delay_base c) (10 * minute)" if "i \<le> 15000000" for i
  proof -
    have "max 1 i * delay_base c \<le> 15000000 * 600000000000"
      using base that by (intro mult_mono) auto
    then have "wrap64 (max 1 i * delay_base c) = max 1 i * delay_base c"
      using base by (intro wrap64_id) (auto intro: order_trans [of _ 0])
    moreover have "(if i < 1 then 1 else i) = max 1 i" by simp
    ultimately show ?thesis unfolding failure_delay_def Let_def by (simp add: min_def)
  qed
  have "max 1 m * delay_base c \<le> max 1 n * delay_base c" if "m \<le> n"
    using base that by (intro mult_right_mono) auto
  moreover have "delay_base c \<le> max 1 n * delay_base c" using base by simp
  ultimately show ?thesis
    using eq [of n] eq [of m] delay_base_bounds [of c] by (auto simp: failure_delay_def Let_def min_def)
qed

lemma failure_delay_bounds_witness: "failure_delay 3 CauseRateLimited = 90 * second"
  using failure_delay_bounds [of 3 CauseRateLimited 1] by (simp add: delay_base_def duration_units)

end
