(* ===== verification/Performance.thy ===== *)
theory Performance
  imports Usage
begin

text \<open>
  The performance book (\<open>internal/runtime/performance.go\<close>): bounded summaries of completed requests per
  route and per request class, with exponentially weighted averages.
\<close>

record performance_stats =
  pf_samples :: int
  pf_successes :: int
  pf_latency :: duration
  pf_ttft :: duration
  pf_throughput :: gofloat
  pf_ttft_samples :: int
  pf_throughput_samples :: int
  pf_last_at :: go_time

definition zero_stats :: performance_stats where
  "zero_stats =
     \<lparr>pf_samples = 0, pf_successes = 0, pf_latency = 0, pf_ttft = 0, pf_throughput = fzero,
      pf_ttft_samples = 0, pf_throughput_samples = 0, pf_last_at = 0\<rparr>"

record performance_book =
  pb_alpha :: gofloat
  pb_by_route :: "(string, performance_stats) gomap"
  pb_by_class :: "(string, (string, performance_stats) gomap) gomap"

definition new_performance_book :: performance_book where
  "new_performance_book = \<lparr>pb_alpha = fround (1 / 5), pb_by_route = [], pb_by_class = []\<rparr>"

definition ewma_float :: "gofloat \<Rightarrow> gofloat \<Rightarrow> gofloat \<Rightarrow> gofloat" where
  "ewma_float previous v alpha = fadd (fmul previous (fsub (Finite 1) alpha)) (fmul v alpha)"

definition ewma_duration :: "duration \<Rightarrow> duration \<Rightarrow> gofloat \<Rightarrow> duration" where
  "ewma_duration previous v alpha =
     (if v \<le> 0 then previous
      else if previous \<le> 0 then v
      else int_of_float (ewma_float (float_of_int previous) (float_of_int v) alpha))"

definition observe_stats :: "performance_stats \<Rightarrow> usage_event \<Rightarrow> gofloat \<Rightarrow> performance_stats" where
  "observe_stats st e alpha =
     (let st1 = st\<lparr>pf_samples := wrap64 (pf_samples st + 1),
                   pf_successes := (if ue_status e = ''ok'' then wrap64 (pf_successes st + 1) else pf_successes st),
                   pf_latency := ewma_duration (pf_latency st) (ue_latency e) alpha\<rparr>;
          st2 = (if 0 < ue_ttft e \<or> \<not> is_zero (ue_first_byte_at e)
                 then st1\<lparr>pf_ttft :=
                            (if pf_ttft_samples st1 = 0 then ue_ttft e
                             else int_of_float (ewma_float (float_of_int (pf_ttft st1)) (float_of_int (ue_ttft e)) alpha)),
                          pf_ttft_samples := wrap64 (pf_ttft_samples st1 + 1)\<rparr>
                 else st1);
          st3 = (case ue_output_rate e of
                   None \<Rightarrow> st2
                 | Some rate \<Rightarrow>
                     st2\<lparr>pf_throughput :=
                           (if pf_throughput_samples st2 = 0 then rate else ewma_float (pf_throughput st2) rate alpha),
                         pf_throughput_samples := wrap64 (pf_throughput_samples st2 + 1)\<rparr>)
      in st3\<lparr>pf_last_at := ue_at e\<rparr>)"

definition performance_observe :: "performance_book \<Rightarrow> route \<Rightarrow> usage_event \<Rightarrow> performance_book" where
  "performance_observe b r e =
     (let i = rt_id r;
          b1 = b\<lparr>pb_by_route := gm_put i (observe_stats (gm_or (pb_by_route b) i zero_stats) e (pb_alpha b)) (pb_by_route b)\<rparr>
      in if ue_request_class e = [] then b1
         else let classes = gm_or (pb_by_class b) i [];
                  c = ue_request_class e
              in b1\<lparr>pb_by_class :=
                   gm_put i (gm_put c (observe_stats (gm_or classes c zero_stats) e (pb_alpha b)) classes) (pb_by_class b)\<rparr>)"

definition class_snapshot :: "performance_book \<Rightarrow> string \<Rightarrow> string \<Rightarrow> performance_stats option" where
  "class_snapshot b i c = gm_get (gm_or (pb_by_class b) i []) c"

definition route_snapshot :: "performance_book \<Rightarrow> string \<Rightarrow> performance_stats option" where
  "route_snapshot b i = gm_get (pb_by_route b) i"

definition performance_reset_routes :: "performance_book \<Rightarrow> string list \<Rightarrow> performance_book" where
  "performance_reset_routes b ids =
     b\<lparr>pb_by_route := foldl (\<lambda>m i. gm_del i m) (pb_by_route b) ids,
       pb_by_class := foldl (\<lambda>m i. gm_del i m) (pb_by_class b) ids\<rparr>"

section \<open>Counts\<close>

text \<open>Successes and sampled measurements are counted among the samples; far below the wrap-around.\<close>

definition stats_ok :: "performance_stats \<Rightarrow> bool" where
  "stats_ok st \<longleftrightarrow>
     0 \<le> pf_successes st \<and> pf_successes st \<le> pf_samples st \<and> 0 \<le> pf_ttft_samples st \<and>
     pf_ttft_samples st \<le> pf_samples st \<and> 0 \<le> pf_throughput_samples st \<and>
     pf_throughput_samples st \<le> pf_samples st"

lemma stats_ok_zero [simp]: "stats_ok zero_stats"
  by (simp add: stats_ok_def zero_stats_def)

lemma observe_stats_counts:
  assumes "stats_ok st" and "pf_samples st < max_i64"
  shows "stats_ok (observe_stats st e alpha) \<and> pf_samples (observe_stats st e alpha) = pf_samples st + 1"
proof -
  have "wrap64 (n + 1) = n + 1" if "0 \<le> n" "n \<le> pf_samples st" for n
    using that assms(2) by (intro wrap64_id) (simp_all add: max_i64_def)
  with assms show ?thesis
    by (auto simp: observe_stats_def stats_ok_def Let_def split: option.split)
qed

lemma reset_routes_get:
  "gm_get (foldl (\<lambda>m i. gm_del i m) m ids) k = (if k \<in> set ids then None else gm_get m k)"
  by (induction ids arbitrary: m) (auto simp: gomap_simps)

end
