(* ===== verification/Policy.thy ===== *)
theory Policy
  imports Health Performance Scheduler
begin

text \<open>
  The policy gate of the runtime (\<open>internal/runtime/policy.go\<close>): the gate the daemon gives the
  scheduler. It joins the health gate, the quota observations, the adaptive ranking and the session
  affinity. Its locks are taken in one order and held over a method, so a method is one step.

  What a method tells the outside (the health observer, the quota enricher and observer) is returned
  as a list of effects, in order; a callback that is not set drops its effects.
\<close>

section \<open>State\<close>

record affinity_key =
  ak_session :: string
  ak_operation :: ext_ref

record session_route =
  sr_route_id :: string
  sr_seen_at :: go_time

record policy_gate =
  pg_health :: health_gate
  pg_performance :: "performance_book option"
  pg_quotas :: "(quota_identity, quota_snapshot) gomap"
  pg_affinity :: "(affinity_key, session_route) gomap"

definition new_policy_gate :: policy_gate where
  "new_policy_gate =
     \<lparr>pg_health = new_health_gate, pg_performance = Some new_performance_book, pg_quotas = [], pg_affinity = []\<rparr>"

datatype policy_effect =
    HealthObserved route route_health
  | QuotaEnrich route
  | QuotaObserved quota_snapshot

section \<open>Quotas\<close>

definition normalize_quota :: "go_time \<Rightarrow> quota_snapshot \<Rightarrow> evidence_authority \<Rightarrow> quota_snapshot option" where
  "normalize_quota now s fallback =
     (if \<not> operation_scope_ok s then None
      else let s1 = (if is_zero (qs_observed_at s) then s\<lparr>qs_observed_at := now\<rparr> else s);
               from_source = authority_from_source (qs_source s1);
               s2 = (if qs_authority s1 = AuthorityUnknown
                     then s1\<lparr>qs_authority := (if from_source = AuthorityUnknown then fallback else from_source)\<rparr>
                     else s1)
           in Some (if qs_source s2 = [] \<and> qs_authority s2 \<noteq> AuthorityUnknown
                    then s2\<lparr>qs_source := authority_string (qs_authority s2)\<rparr> else s2))"

definition put_quota :: "policy_gate \<Rightarrow> quota_snapshot \<Rightarrow> quota_snapshot \<times> policy_gate" where
  "put_quota g s =
     (let resolved = (case gm_get (pg_quotas g) (quota_id s) of None \<Rightarrow> s | Some c \<Rightarrow> merge_snapshot c s)
      in (resolved, g\<lparr>pg_quotas := gm_put (quota_id s) resolved (pg_quotas g)\<rparr>))"

definition policy_set_quota :: "go_time \<Rightarrow> policy_gate \<Rightarrow> quota_snapshot \<Rightarrow> policy_gate" where
  "policy_set_quota now g s =
     (case normalize_quota now s AuthorityExplicit of None \<Rightarrow> g | Some s1 \<Rightarrow> snd (put_quota g s1))"

definition policy_upsert_quota :: "go_time \<Rightarrow> policy_gate \<Rightarrow> quota_snapshot \<Rightarrow> quota_snapshot option \<times> policy_gate" where
  "policy_upsert_quota now g s =
     (if \<not> quota_generation_current (pg_health g) s then (None, g)
      else case normalize_quota now s AuthorityQuotaAPI of
             None \<Rightarrow> (None, g)
           | Some s1 \<Rightarrow> (case put_quota g s1 of (resolved, g') \<Rightarrow> (Some resolved, g')))"

definition policy_try_set_quota :: "go_time \<Rightarrow> policy_gate \<Rightarrow> quota_snapshot \<Rightarrow> bool \<times> policy_gate" where
  "policy_try_set_quota now g s = (case policy_upsert_quota now g s of (res, g') \<Rightarrow> (res \<noteq> None, g'))"

definition policy_record_quota :: "go_time \<Rightarrow> policy_gate \<Rightarrow> quota_snapshot \<Rightarrow> bool \<times> policy_gate \<times> policy_effect list" where
  "policy_record_quota now g s =
     (case policy_upsert_quota now g s of
        (None, g') \<Rightarrow> (False, g', [])
      | (Some resolved, g') \<Rightarrow> (True, g', [QuotaObserved resolved]))"

definition prune_stale_quotas :: "policy_gate \<Rightarrow> policy_gate" where
  "prune_stale_quotas g = g\<lparr>pg_quotas := filter (\<lambda>(_, s). quota_generation_current (pg_health g) s) (pg_quotas g)\<rparr>"

definition clear_quotas_for_connection :: "policy_gate \<Rightarrow> string \<Rightarrow> policy_gate" where
  "clear_quotas_for_connection g conn =
     (if conn = [] then g else g\<lparr>pg_quotas := filter (\<lambda>(_, s). qs_connection s \<noteq> conn) (pg_quotas g)\<rparr>)"

definition clear_quotas_for_provider :: "policy_gate \<Rightarrow> string \<Rightarrow> policy_gate" where
  "clear_quotas_for_provider g node =
     (if node = [] then g else g\<lparr>pg_quotas := filter (\<lambda>(_, s). qs_provider s \<noteq> node) (pg_quotas g)\<rparr>)"

definition quota_applies :: "quota_snapshot \<Rightarrow> route \<Rightarrow> bool" where
  "quota_applies s r \<longleftrightarrow>
     qs_provider s = rt_node_id r \<and> (qs_model s = [] \<or> qs_model s = rt_external_model r) \<and>
     (qs_connection s = [] \<or> qs_connection s = rt_credential_id r) \<and>
     (ref_id (qs_operation_ref s) = [] \<or> qs_operation_ref s = rt_session_operation_ref r)"

definition policy_usable :: "policy_gate \<Rightarrow> route \<Rightarrow> go_time \<Rightarrow> bool" where
  "policy_usable g r now \<longleftrightarrow>
     health_usable (pg_health g) r now \<and>
     \<not> list_ex (\<lambda>(_, s). quota_applies s r \<and> exhausted s now) (pg_quotas g)"

section \<open>Session affinity\<close>

definition affinity_limit :: nat where
  "affinity_limit = 2048"

definition affinity_ttl :: duration where
  "affinity_ttl = 30 * minute"

text \<open>A forced expiry removes one more entry when the map is still full: the first of an iteration.\<close>

definition expire_affinity :: "go_time \<Rightarrow> bool \<Rightarrow> policy_gate \<Rightarrow> policy_gate" where
  "expire_affinity now force_one g =
     (let live = filter (\<lambda>(_, a). \<not> affinity_ttl < time_sub now (sr_seen_at a)) (pg_affinity g)
      in g\<lparr>pg_affinity := (if force_one \<and> affinity_limit \<le> length live then tl live else live)\<rparr>)"

definition reset_route_generations :: "policy_gate \<Rightarrow> string list \<Rightarrow> policy_gate" where
  "reset_route_generations g ids =
     (if ids = [] then g
      else g\<lparr>pg_performance := map_option (\<lambda>b. performance_reset_routes b ids) (pg_performance g),
             pg_affinity := filter (\<lambda>(_, a). sr_route_id a \<notin> set ids) (pg_affinity g)\<rparr>)"

definition policy_set_generations ::
  "(string \<Rightarrow> breaker_key \<Rightarrow> go_time) \<Rightarrow> policy_gate \<Rightarrow> (string, route) gomap \<Rightarrow> policy_gate \<times> policy_effect list" where
  "policy_set_generations clk g routes =
     (case health_set_generations clk (pg_health g) routes of
        (h, obs, changed) \<Rightarrow>
          (prune_stale_quotas (reset_route_generations (g\<lparr>pg_health := h\<rparr>) changed),
           map (\<lambda>(r, st). HealthObserved r st) obs))"

definition policy_prune_stale_quotas :: "policy_gate \<Rightarrow> policy_gate" where
  "policy_prune_stale_quotas g = prune_stale_quotas g"

section \<open>Feedback\<close>

definition evidence_text :: "evidence_source \<Rightarrow> string" where
  "evidence_text e =
     (case e of
        EvidenceNone \<Rightarrow> []
      | EvidenceResponseHeader \<Rightarrow> ''response_header''
      | EvidenceSuccessBody \<Rightarrow> ''success_body''
      | EvidenceErrorBody \<Rightarrow> ''error_body''
      | EvidenceInferred \<Rightarrow> ''inferred'')"

definition limit_snapshot :: "route \<Rightarrow> outcome_scope \<Rightarrow> go_time \<Rightarrow> limit_window \<Rightarrow> quota_snapshot" where
  "limit_snapshot r scope now l =
     (let authority = authority_from_source (evidence_text (lw_source l))
      in \<lparr>qs_operation_ref = (if scope = ScopeOperation then rt_session_operation_ref r else no_ref),
          qs_provider = rt_node_id r, qs_connection = rt_credential_id r, qs_model = rt_external_model r,
          qs_window = lw_name l,
          qs_generation = gen_for_quota (rt_health_generation r) (rt_credential_id r) (rt_external_model r),
          qs_authority = (if authority = AuthorityUnknown then AuthorityInferred else authority),
          qs_observed_at = now, qs_used = (case lw_used l of None \<Rightarrow> fzero | Some u \<Rightarrow> u),
          qs_limit = lw_limit l, qs_remaining = lw_remaining l, qs_reset_at = lw_reset_at l,
          qs_source = evidence_text (lw_source l), qs_effect = EffectDefault\<rparr>)"

text \<open>\<open>qnow\<close> are the clock readings of the limits, in order (the second one normalizes a zero time).\<close>

fun observe_limits ::
  "(nat \<Rightarrow> go_time) \<Rightarrow> route \<Rightarrow> outcome_scope \<Rightarrow> nat \<Rightarrow> limit_window list \<Rightarrow> policy_gate \<Rightarrow>
   policy_gate \<times> policy_effect list" where
  "observe_limits qnow r scope i [] g = (g, [])"
| "observe_limits qnow r scope i (l # ls) g =
     (if lw_name l = [] then observe_limits qnow r scope (Suc i) ls g
      else case policy_upsert_quota (qnow (Suc i)) g (limit_snapshot r scope (qnow i) l) of
             (None, g1) \<Rightarrow> observe_limits qnow r scope (Suc (Suc i)) ls g1
           | (Some resolved, g1) \<Rightarrow>
               (case observe_limits qnow r scope (Suc (Suc i)) ls g1 of
                  (g2, effects) \<Rightarrow> (g2, QuotaObserved resolved # effects)))"

definition policy_observe_outcome ::
  "go_time \<Rightarrow> (breaker_key \<Rightarrow> go_time) \<Rightarrow> (nat \<Rightarrow> go_time) \<Rightarrow> policy_gate \<Rightarrow> route \<Rightarrow> classified_outcome \<Rightarrow>
   policy_gate \<times> policy_effect list" where
  "policy_observe_outcome now clk qnow g r oc =
     (if \<not> accepts_outcome (pg_health g) r (oc_scope oc) then (g, [])
      else case health_observe now clk (pg_health g) r oc of
             (h, obs) \<Rightarrow>
               (case observe_limits qnow r (oc_scope oc) 0 (oc_limits oc) (g\<lparr>pg_health := h\<rparr>) of
                  (g', effects) \<Rightarrow>
                    (g', map (\<lambda>(r, st). HealthObserved r st) obs @
                         (if oc_cause oc = CauseQuotaExhausted \<or> oc_cause oc = CauseRateLimited
                          then [QuotaEnrich r] else []) @ effects)))"

definition policy_mark_failure_after ::
  "go_time \<Rightarrow> go_time \<Rightarrow> (breaker_key \<Rightarrow> go_time) \<Rightarrow> policy_gate \<Rightarrow> route \<Rightarrow> error_class \<Rightarrow> string option \<Rightarrow>
   duration \<Rightarrow> policy_gate" where
  "policy_mark_failure_after now now' clk g r cls err delay =
     g\<lparr>pg_health := fst (health_mark_failure_after now now' clk (pg_health g) r cls err delay)\<rparr>"

definition policy_mark_failure ::
  "go_time \<Rightarrow> go_time \<Rightarrow> (breaker_key \<Rightarrow> go_time) \<Rightarrow> policy_gate \<Rightarrow> route \<Rightarrow> error_class \<Rightarrow> string option \<Rightarrow>
   policy_gate" where
  "policy_mark_failure now now' clk g r cls err =
     g\<lparr>pg_health := fst (health_mark_failure now now' clk (pg_health g) r cls err)\<rparr>"

definition policy_mark_success :: "go_time \<Rightarrow> policy_gate \<Rightarrow> route \<Rightarrow> policy_gate" where
  "policy_mark_success now g r = g\<lparr>pg_health := fst (health_mark_success now (pg_health g) r)\<rparr>"

definition policy_observe_usage :: "go_time \<Rightarrow> go_time \<Rightarrow> policy_gate \<Rightarrow> route \<Rightarrow> usage_event \<Rightarrow> policy_gate" where
  "policy_observe_usage now now' g r e =
     (if \<not> accepts_outcome (pg_health g) r ScopeRoute then g
      else let g1 = g\<lparr>pg_performance := map_option (\<lambda>b. performance_observe b r e) (pg_performance g)\<rparr>
           in if ue_session_id e = [] then g1
              else let g2 = (if affinity_limit \<le> length (pg_affinity g1) then expire_affinity now True g1 else g1);
                       key = \<lparr>ak_session = ue_session_id e, ak_operation = rt_session_operation_ref r\<rparr>
                   in g2\<lparr>pg_affinity := gm_put key \<lparr>sr_route_id = rt_id r, sr_seen_at = now'\<rparr> (pg_affinity g2)\<rparr>)"

text \<open>\<open>ReplayHealthObservation\<close> returns whether the observation is current and, if so, the state to queue.\<close>

definition policy_replay_observation ::
  "(breaker_key \<Rightarrow> go_time) \<Rightarrow> policy_gate \<Rightarrow> health_observation \<Rightarrow> health_observation option \<times> policy_gate" where
  "policy_replay_observation clk g obs =
     (case obs of (r, st) \<Rightarrow>
        let scope = rh_last_scope st; lane = lane_normalized (rh_lane st)
        in if \<not> accepts_lane_outcome (pg_health g) r scope lane \<or> rh_generation st \<noteq> lane_generation r scope lane
           then (None, g)
           else let h = snd (health_restore clk (pg_health g) r st); g1 = g\<lparr>pg_health := h\<rparr>
                in case health_scoped_lane_state h r scope lane of
                     None \<Rightarrow> (None, g1)
                   | Some current \<Rightarrow>
                       if rh_generation current \<noteq> rh_generation st then (None, g1) else (Some (r, current), g1))"

section \<open>Ranking\<close>

text \<open>
  The score of a route: zero when its last attempt is older than half an hour, otherwise its successes
  less three times its failures, a bonus for any success, and the reliability and speed seen for the
  request class (from two samples on) or else for the route.
\<close>

definition performance_of :: "performance_book \<Rightarrow> route \<Rightarrow> string \<Rightarrow> performance_stats option" where
  "performance_of b r cls =
     (let by_route = (if ref_id (rt_session_operation_ref r) = [] then route_snapshot b (rt_id r) else None)
      in if cls = [] then by_route
         else case class_snapshot b (rt_id r) cls of
                None \<Rightarrow> by_route
              | Some c \<Rightarrow> if 2 \<le> pf_samples c then Some c else by_route)"

definition performance_score :: "gofloat \<Rightarrow> performance_stats \<Rightarrow> gofloat" where
  "performance_score v p =
     (if 0 < pf_samples p
      then let v1 = fadd v (fdiv (float_of_int (pf_successes p)) (float_of_int (pf_samples p)))
           in if 0 < pf_latency p
              then fadd v1 (fdiv (Finite 1) (fadd (Finite 1) (duration_seconds (pf_latency p)))) else v1
      else v)"

definition route_score :: "policy_gate \<Rightarrow> go_time \<Rightarrow> string \<Rightarrow> route \<Rightarrow> gofloat" where
  "route_score g now cls r =
     (let st = health_state_for (pg_health g) r
      in if \<not> is_zero (rh_last_attempt st) \<and> affinity_ttl < time_sub now (rh_last_attempt st) then Finite 0
         else let v = float_of_int (wrap64 (rh_successes st - wrap64 (rh_failures st * 3)));
                  v1 = (if \<not> is_zero (rh_last_success st) then fadd v (Finite (1 / 4)) else v)
              in case pg_performance g of
                   None \<Rightarrow> v1
                 | Some b \<Rightarrow>
                     (case performance_of b r cls of None \<Rightarrow> v1 | Some p \<Rightarrow> performance_score v1 p))"

text \<open>\<open>sort.SliceStable\<close> by descending score, with each score computed once.\<close>

definition sort_descending :: "('a \<times> gofloat) list \<Rightarrow> ('a \<times> gofloat) list" where
  "sort_descending ps = rev (sort_key snd (rev ps))"

definition policy_rank_routes_for :: "policy_gate \<Rightarrow> route list \<Rightarrow> go_time \<Rightarrow> string \<Rightarrow> route list" where
  "policy_rank_routes_for g routes now cls =
     map fst (sort_descending (map (\<lambda>r. (r, route_score g now cls r)) routes))"

definition policy_rank_routes :: "policy_gate \<Rightarrow> route list \<Rightarrow> go_time \<Rightarrow> route list" where
  "policy_rank_routes g routes now = policy_rank_routes_for g routes now []"

text \<open>The first route after the head that has the ID moves to the front.\<close>

definition promote_affine :: "string \<Rightarrow> route list \<Rightarrow> route list" where
  "promote_affine i routes =
     (case routes of
        [] \<Rightarrow> []
      | x # xs \<Rightarrow>
          (case dropWhile (\<lambda>r. rt_id r \<noteq> i) xs of
             [] \<Rightarrow> x # xs
           | y # ys \<Rightarrow> y # x # takeWhile (\<lambda>r. rt_id r \<noteq> i) xs @ ys))"

definition policy_rank_routes_for_session ::
  "policy_gate \<Rightarrow> route list \<Rightarrow> go_time \<Rightarrow> string \<Rightarrow> string \<Rightarrow> route list \<times> policy_gate" where
  "policy_rank_routes_for_session g routes now cls sid =
     (let result = policy_rank_routes_for g routes now cls
      in if sid = [] then (result, g)
         else let g1 = expire_affinity now False g;
                  operation = (case routes of [] \<Rightarrow> no_ref | r # _ \<Rightarrow> rt_session_operation_ref r)
              in if list_ex (\<lambda>r. rt_session_operation_ref r \<noteq> operation) routes then (result, g1)
                 else case gm_get (pg_affinity g1) \<lparr>ak_session = sid, ak_operation = operation\<rparr> of
                        None \<Rightarrow> (result, g1)
                      | Some a \<Rightarrow>
                          if affinity_ttl < time_sub now (sr_seen_at a) then (result, g1)
                          else (promote_affine (sr_route_id a) result, g1))"

record route_explanation =
  re_route :: route
  re_rank :: int
  re_usable :: bool
  re_reason :: string
  re_health :: route_health
  re_performance :: "performance_stats option"

definition explain_route :: "policy_gate \<Rightarrow> go_time \<Rightarrow> nat \<Rightarrow> route \<Rightarrow> route_explanation" where
  "explain_route g now index r =
     (let st = health_state_for (pg_health g) r; usable = policy_usable g r now
      in \<lparr>re_route = r, re_rank = int index + 1, re_usable = usable,
          re_reason = (if \<not> usable then ''blocked by health/quota''
                       else if \<not> is_zero (rh_last_success st) then ''adaptive success preference''
                       else ''eligible; static order''),
          re_health = st,
          re_performance = (case pg_performance g of None \<Rightarrow> None | Some b \<Rightarrow> route_snapshot b (rt_id r))\<rparr>)"

definition policy_explain_routes ::
  "policy_gate \<Rightarrow> route list \<Rightarrow> go_time \<Rightarrow> string \<Rightarrow> string \<Rightarrow> route_explanation list \<times> policy_gate" where
  "policy_explain_routes g routes now cls sid =
     (case policy_rank_routes_for_session g routes now cls sid of
        (ordered, g1) \<Rightarrow> (map (\<lambda>(i, r). explain_route g1 now i r) (enumerate 0 ordered), g1))"

section \<open>The gate of the scheduler\<close>

text \<open>
  What the scheduler finds by type assertion on a \<open>*PolicyGate\<close>: the three rankers. There is no
  \<open>Acquire\<close> and no \<open>Release\<close> among its methods (the health gate is a named field), so it is not a
  \<open>RouteAdmission\<close>.
\<close>

definition policy_gate_methods :: "policy_gate gate" where
  "policy_gate_methods =
     \<lparr>g_usable = policy_usable, g_rank = Some policy_rank_routes, g_rank_for = Some policy_rank_routes_for,
      g_rank_session = Some policy_rank_routes_for_session, g_acquire = None, g_release = None\<rparr>"

lemma sort_descending_correct:
  "mset (sort_descending ps) = mset ps" "sorted_wrt (\<lambda>a b. snd b \<le> snd a) (sort_descending ps)"
  "filter (\<lambda>p. snd p = s) (sort_descending ps) = filter (\<lambda>p. snd p = s) ps"
proof -
  show "mset (sort_descending ps) = mset ps" by (simp add: sort_descending_def)
  have "sorted_wrt (\<lambda>a b. snd a \<le> snd b) (sort_key snd (rev ps))"
    using sorted_sort_key [of snd "rev ps"] by (simp add: sorted_wrt_map)
  then show "sorted_wrt (\<lambda>a b. snd b \<le> snd a) (sort_descending ps)"
    by (simp add: sort_descending_def sorted_wrt_rev)
  show "filter (\<lambda>p. snd p = s) (sort_descending ps) = filter (\<lambda>p. snd p = s) ps"
    by (simp add: sort_descending_def sort_key_stable flip: rev_filter)
qed

lemma rank_routes_for_mset: "mset (policy_rank_routes_for g routes now cls) = mset routes"
  by (simp only: policy_rank_routes_for_def mset_map sort_descending_correct(1)) (simp add: multiset.map_comp comp_def)

lemma promote_affine_mset: "mset (promote_affine i routes) = mset routes"
proof (cases routes)
  case (Cons x xs)
  have "mset xs = mset (takeWhile (\<lambda>r. rt_id r \<noteq> i) xs) + mset (dropWhile (\<lambda>r. rt_id r \<noteq> i) xs)"
    by (metis mset_append takeWhile_dropWhile_id)
  with Cons show ?thesis by (simp add: promote_affine_def split: list.split)
qed (simp add: promote_affine_def)

lemma rank_routes_for_session_mset:
  "mset (fst (policy_rank_routes_for_session g routes now cls sid)) = mset routes"
  by (simp add: policy_rank_routes_for_session_def Let_def promote_affine_mset rank_routes_for_mset split: option.split)

interpretation policy: ranking_gate policy_gate_methods "\<lambda>_. True"
  by unfold_locales
    (auto simp: policy_gate_methods_def policy_rank_routes_def rank_routes_for_mset rank_routes_for_session_mset)

section \<open>Runs of the gate\<close>

text \<open>
  Every call that changes the policy gate: the request path, the administrator's resets of the health
  gate, and the start-up restore of quotas, which the daemon guards with the current generation.
\<close>

inductive policy_step :: "policy_gate \<Rightarrow> policy_gate \<Rightarrow> bool" where
  pstep_outcome: "policy_step g (fst (policy_observe_outcome now clk qnow g r oc))"
| pstep_usage: "policy_step g (policy_observe_usage now now' g r e)"
| pstep_failure: "policy_step g (policy_mark_failure_after now now' clk g r cls err delay)"
| pstep_success: "policy_step g (policy_mark_success now g r)"
| pstep_quota: "policy_step g (snd (policy_upsert_quota now g s))"
| pstep_restore_quota: "quota_generation_current (pg_health g) s \<Longrightarrow> policy_step g (policy_set_quota now g s)"
| pstep_generations: "policy_step g (fst (policy_set_generations clk' g routes))"
| pstep_prune: "policy_step g (policy_prune_stale_quotas g)"
| pstep_connection: "policy_step g (clear_quotas_for_connection g c)"
| pstep_provider: "policy_step g (clear_quotas_for_provider g n)"
| pstep_rank: "policy_step g (snd (policy_rank_routes_for_session g rs now cls sid))"
| pstep_replay: "policy_step g (snd (policy_replay_observation clk g obs))"
| pstep_reset: "policy_step g (g\<lparr>pg_health := fst (snd (health_reset_scope clk (pg_health g) r scope))\<rparr>)"
| pstep_clear: "policy_step g (g\<lparr>pg_health := fst (snd (health_clear_invalid clk (pg_health g) r scope))\<rparr>)"

inductive policy_reachable :: "policy_gate \<Rightarrow> bool" where
  policy_new: "policy_reachable new_policy_gate"
| policy_next: "policy_reachable g \<Longrightarrow> policy_step g g' \<Longrightarrow> policy_reachable g'"

inductive_cases policy_stepE: "policy_step g g'"

text \<open>Nothing but publishing generations changes which quota evidence is current.\<close>

definition same_epoch :: "health_gate \<Rightarrow> health_gate \<Rightarrow> bool" where
  "same_epoch h h' \<longleftrightarrow>
     hg_quota_generations h' = hg_quota_generations h \<and> hg_generation_enabled h' = hg_generation_enabled h"

named_theorems same_epochs \<open>what keeps the published quota generations\<close>

lemma same_epoch_refl [same_epochs]: "same_epoch h h"
  by (simp add: same_epoch_def)

lemma same_epoch_current: "same_epoch h h' \<Longrightarrow> quota_generation_current h' s = quota_generation_current h s"
  by (simp add: same_epoch_def quota_generation_current_def)

lemma same_epoch_writes [same_epochs]:
  assumes "same_epoch h g"
  shows "same_epoch h (put_scoped k st g)" "same_epoch h (end_trial k g)" "same_epoch h (note_route r g)"
    "same_epoch h (put_projection r st g)" "same_epoch h (drop_projection r g)" "same_epoch h (end_trials ks g)"
  using assms by (simp_all add: same_epoch_def gate_writes end_trials_def)

lemma same_epoch_recover [same_epochs]: "same_epoch h g \<Longrightarrow> same_epoch h (fst (recover_trials r key lane now ks g))"
  by (induction ks arbitrary: g) (simp_all add: Let_def case_prod_unfold same_epochs)

lemma same_epoch_project [same_epochs]:
  assumes "same_epoch h g"
  shows "same_epoch h (project_outcome clk r oc st g)" "same_epoch h (project_reset clk r lane st g)"
    "same_epoch h (project_restored clk r lane st g)"
  using assms
  by (auto simp: project_outcome_def project_reset_def project_restored_def Let_def
      intro!: same_epochs split: prod.split bool.split option.split)

lemma same_epoch_observe [same_epochs]: "same_epoch g (fst (health_observe now clk g r oc))"
  by (simp add: health_observe_def Let_def case_prod_unfold same_epochs)

lemma same_epoch_failure [same_epochs]:
  "same_epoch g (fst (health_mark_failure_after now now' clk g r cls err override))"
  unfolding health_mark_failure_after_def
  by (auto simp: Let_def split: prod.split bool.split intro!: same_epochs)

lemma same_epoch_success [same_epochs]: "same_epoch g (fst (health_mark_success now g r))"
  by (simp add: health_mark_success_def Let_def same_epochs)

lemma same_epoch_reset_lane: "same_epoch h g \<Longrightarrow> same_epoch h (fst (snd (reset_scope_lane clk g r scope lane only)))"
  by (simp add: reset_scope_lane_def Let_def same_epochs)

lemma same_epoch_reset [same_epochs]:
  "same_epoch g (fst (snd (health_reset_scope clk g r scope)))"
  "same_epoch g (fst (snd (health_clear_invalid clk g r scope)))"
  by (simp_all add: health_reset_scope_def health_clear_invalid_def case_prod_unfold same_epoch_reset_lane same_epoch_refl)

lemma same_epoch_restore [same_epochs]: "same_epoch g (snd (health_restore clk g r st))"
  by (simp add: health_restore_def Let_def same_epochs)

section \<open>What the gate keeps\<close>

definition quota_stored :: "policy_gate \<Rightarrow> quota_identity \<Rightarrow> quota_snapshot \<Rightarrow> bool" where
  "quota_stored g k s \<longleftrightarrow> k = quota_id s \<and> quota_generation_current (pg_health g) s"

definition policy_inv :: "policy_gate \<Rightarrow> bool" where
  "policy_inv g \<longleftrightarrow>
     gm_wf (pg_quotas g) \<and> gm_wf (pg_affinity g) \<and> length (pg_affinity g) \<le> affinity_limit \<and>
     (\<forall>(k, s) \<in> set (pg_quotas g). quota_stored g k s)"

lemma policy_inv_cong:
  assumes "policy_inv g" and "same_epoch (pg_health g) (pg_health g')" and "pg_quotas g' = pg_quotas g"
    and "pg_affinity g' = pg_affinity g"
  shows "policy_inv g'"
  using assms by (simp add: policy_inv_def quota_stored_def same_epoch_current)

lemma policy_inv_health:
  "policy_inv g \<Longrightarrow> same_epoch (pg_health g) h \<Longrightarrow> policy_inv (g\<lparr>pg_health := h\<rparr>)"
  by (rule policy_inv_cong) auto

lemma normalize_quota_keeps:
  assumes "normalize_quota now s a = Some s1"
  shows "quota_id s1 = quota_id s" "quota_generation_current h s1 = quota_generation_current h s"
  using assms
  by (auto simp: normalize_quota_def Let_def quota_id_def quota_generation_current_def operation_scope_ok_def
      quota_snapshot_key_def split: if_splits)

lemma merge_snapshot_keeps:
  assumes "quota_id c = quota_id s" and "quota_generation_current h c" and "quota_generation_current h s"
  shows "quota_id (merge_snapshot c s) = quota_id s" "quota_generation_current h (merge_snapshot c s)"
  using assms
  by (auto simp: merge_snapshot_def merge_known_def quota_id_def quota_generation_current_def
      operation_scope_ok_def quota_snapshot_key_def)

lemma set_gm_put: "set (gm_put k v m) \<subseteq> insert (k, v) (set m)"
  by (induction m) auto

lemma put_quota_inv:
  assumes "policy_inv g" and "quota_generation_current (pg_health g) s"
  shows "policy_inv (snd (put_quota g s))" "quota_stored g (quota_id s) (fst (put_quota g s))"
proof -
  have stored: "quota_stored g (quota_id s) (fst (put_quota g s))"
  proof (cases "gm_get (pg_quotas g) (quota_id s)")
    case None
    with assms(2) show ?thesis by (simp add: put_quota_def quota_stored_def)
  next
    case (Some c)
    with assms(1) have "quota_stored g (quota_id s) c"
      by (auto simp: policy_inv_def dest: map_of_SomeD)
    with Some assms(2) merge_snapshot_keeps [of c s "pg_health g"] show ?thesis
      by (simp add: put_quota_def quota_stored_def Let_def)
  qed
  then show "quota_stored g (quota_id s) (fst (put_quota g s))" .
  have "\<forall>(k, q) \<in> set (gm_put (quota_id s) (fst (put_quota g s)) (pg_quotas g)). quota_stored g k q"
    using assms(1) stored by (fastforce simp: policy_inv_def dest: set_gm_put [THEN subsetD])
  with assms(1) show "policy_inv (snd (put_quota g s))"
    by (simp add: put_quota_def policy_inv_def quota_stored_def Let_def)
qed

lemma put_quota_selectors [simp]:
  "pg_health (snd (put_quota g s)) = pg_health g" "pg_affinity (snd (put_quota g s)) = pg_affinity g"
  by (simp_all add: put_quota_def Let_def)

lemma upsert_quota_inv: "policy_inv g \<Longrightarrow> policy_inv (snd (policy_upsert_quota now g s))"
  using put_quota_inv(1) normalize_quota_keeps(2)
  by (auto simp: policy_upsert_quota_def case_prod_unfold split: option.split)

lemma upsert_quota_selectors [simp]: "pg_health (snd (policy_upsert_quota now g s)) = pg_health g"
  by (simp add: policy_upsert_quota_def case_prod_unfold split: option.split)

lemma set_quota_inv:
  "policy_inv g \<Longrightarrow> quota_generation_current (pg_health g) s \<Longrightarrow> policy_inv (policy_set_quota now g s)"
  using put_quota_inv(1) normalize_quota_keeps(2) by (auto simp: policy_set_quota_def split: option.split)

lemma observe_limits_inv: "policy_inv g \<Longrightarrow> policy_inv (fst (observe_limits qnow r scope i ls g))"
proof (induction qnow r scope i ls g rule: observe_limits.induct)
  case (2 qnow r scope i l ls g)
  obtain res g1 where up: "policy_upsert_quota (qnow (Suc i)) g (limit_snapshot r scope (qnow i) l) = (res, g1)"
    by fastforce
  with upsert_quota_inv [OF 2(4)] have "policy_inv g1" by (metis snd_conv)
  with 2 up show ?case by (simp add: case_prod_unfold split: option.split)
qed simp

lemma filter_quotas_inv: "policy_inv g \<Longrightarrow> policy_inv (g\<lparr>pg_quotas := filter P (pg_quotas g)\<rparr>)"
  by (auto simp: policy_inv_def quota_stored_def)

lemma prune_inv:
  assumes "gm_wf (pg_quotas g)" and "gm_wf (pg_affinity g)" and "length (pg_affinity g) \<le> affinity_limit"
    and "\<forall>(k, s) \<in> set (pg_quotas g). k = quota_id s"
  shows "policy_inv (prune_stale_quotas g)"
  using assms by (auto simp: policy_inv_def quota_stored_def prune_stale_quotas_def)

lemma filter_affinity_inv: "policy_inv g \<Longrightarrow> policy_inv (g\<lparr>pg_affinity := filter P (pg_affinity g)\<rparr>)"
  using le_trans [OF length_filter_le] by (auto simp: policy_inv_def quota_stored_def)

lemma expire_affinity_inv:
  assumes "policy_inv g"
  shows "policy_inv (expire_affinity now force g)"
    "affinity_limit \<le> length (pg_affinity g) \<Longrightarrow> length (pg_affinity (expire_affinity now True g)) < affinity_limit"
proof -
  have inv: "policy_inv (g\<lparr>pg_affinity := filter P (pg_affinity g)\<rparr>)" for P
    using filter_affinity_inv [OF assms] .
  have wf_tl: "gm_wf (tl m)" if "gm_wf m" for m :: "('k, 'v) gomap"
    using that by (cases m) (auto simp: gm_wf_def)
  define live where "live = filter (\<lambda>(_, a). \<not> affinity_ttl < time_sub now (sr_seen_at a)) (pg_affinity g)"
  have expire: "expire_affinity now f g =
      g\<lparr>pg_affinity := (if f \<and> affinity_limit \<le> length live then tl live else live)\<rparr>" for f
    by (simp add: expire_affinity_def live_def Let_def)
  have live: "policy_inv (g\<lparr>pg_affinity := live\<rparr>)"
    unfolding live_def by (rule inv)
  then have "policy_inv (g\<lparr>pg_affinity := tl live\<rparr>)"
    by (auto simp: policy_inv_def quota_stored_def wf_tl)
  with live show "policy_inv (expire_affinity now force g)" by (simp add: expire)
  have "length live \<le> affinity_limit" using live by (simp add: policy_inv_def)
  then show "length (pg_affinity (expire_affinity now True g)) < affinity_limit"
    by (simp add: expire affinity_limit_def)
qed

lemma observe_usage_inv:
  assumes "policy_inv g"
  shows "policy_inv (policy_observe_usage now now' g r e)"
proof -
  have put: "policy_inv (h\<lparr>pg_affinity := gm_put k v (pg_affinity h)\<rparr>)"
    if "policy_inv h" "length (pg_affinity h) < affinity_limit" for h k v
    using that by (auto simp: policy_inv_def quota_stored_def length_put)
  define g1 where "g1 = g\<lparr>pg_performance := map_option (\<lambda>b. performance_observe b r e) (pg_performance g)\<rparr>"
  have "policy_inv g1"
    unfolding g1_def by (rule policy_inv_cong [OF assms]) (simp_all add: same_epochs)
  then show ?thesis
    using assms put expire_affinity_inv [where g = g1 and now = now]
    by (simp add: policy_observe_usage_def Let_def not_le flip: g1_def)
qed

lemma set_generations_inv:
  assumes "policy_inv g"
  shows "policy_inv (fst (policy_set_generations clk g routes))"
proof -
  have "policy_inv (prune_stale_quotas (reset_route_generations (g\<lparr>pg_health := h\<rparr>) ids))" for h ids
    using assms le_trans [OF length_filter_le]
    by (intro prune_inv) (auto simp: reset_route_generations_def policy_inv_def quota_stored_def)
  then show ?thesis by (simp add: policy_set_generations_def case_prod_unfold)
qed

lemma policy_inv_step: "policy_step g g' \<Longrightarrow> policy_inv g \<Longrightarrow> policy_inv g'"
proof (induction rule: policy_step.induct)
  case (pstep_outcome g now clk qnow r oc)
  then show ?case
    by (simp add: policy_observe_outcome_def case_prod_unfold observe_limits_inv policy_inv_health same_epochs)
next
  case (pstep_rank g rs now cls sid)
  then show ?case
    by (simp add: policy_rank_routes_for_session_def Let_def expire_affinity_inv split: option.split list.split)
next
  case (pstep_replay g clk obs)
  then show ?case
    by (simp add: policy_replay_observation_def Let_def policy_inv_health same_epochs split: prod.split option.split)
next
  case (pstep_prune g)
  then show ?case
    unfolding policy_prune_stale_quotas_def by (intro prune_inv) (auto simp: policy_inv_def quota_stored_def)
qed (simp_all add: observe_usage_inv policy_mark_failure_after_def policy_mark_success_def policy_inv_health
      same_epochs upsert_quota_inv set_quota_inv set_generations_inv clear_quotas_for_connection_def
      clear_quotas_for_provider_def filter_quotas_inv)

lemma policy_inv_new: "policy_inv new_policy_gate"
  by (simp add: policy_inv_def new_policy_gate_def)

text \<open>
  C24. In every reachable state of the policy gate the affinity map holds at most 2048 sessions, each
  quota is stored under its own identity and only once, and every stored quota belongs to the
  generation published for its connection and model.
\<close>
theorem policy_state_current:
  assumes "policy_reachable g"
  shows "length (pg_affinity g) \<le> 2048 \<and> gm_wf (pg_quotas g) \<and>
    list_all (\<lambda>(k, s). k = quota_id s \<and> quota_generation_current (pg_health g) s) (pg_quotas g)"
proof -
  from assms have "policy_inv g"
    by induction (simp_all add: policy_inv_new policy_inv_step)
  then show ?thesis by (auto simp: policy_inv_def quota_stored_def affinity_limit_def list_all_iff)
qed

definition spent_quota :: quota_snapshot where
  "spent_quota =
     \<lparr>qs_operation_ref = no_ref, qs_provider = ''node'', qs_connection = [], qs_model = [], qs_window = ''day'',
      qs_generation = [], qs_authority = AuthorityQuotaAPI, qs_observed_at = 5, qs_used = Finite 10,
      qs_limit = Some (Finite 10), qs_remaining = Some (Finite 0), qs_reset_at = Some 90, qs_source = [],
      qs_effect = EffectDefault\<rparr>"

lemma policy_state_current_witness:
  "let g = snd (policy_upsert_quota 5 new_policy_gate spent_quota)
   in pg_quotas g \<noteq> [] \<and> length (pg_affinity g) \<le> 2048 \<and> gm_wf (pg_quotas g) \<and>
      list_all (\<lambda>(k, s). k = quota_id s \<and> quota_generation_current (pg_health g) s) (pg_quotas g)"
proof -
  have "policy_reachable (snd (policy_upsert_quota 5 new_policy_gate spent_quota))"
    by (rule policy_next [OF policy_new pstep_quota])
  note current = policy_state_current [OF this]
  have "pg_quotas (snd (policy_upsert_quota 5 new_policy_gate spent_quota)) \<noteq> []"
    by (simp add: policy_upsert_quota_def normalize_quota_def put_quota_def new_policy_gate_def new_health_gate_def
        quota_generation_current_def operation_scope_ok_def spent_quota_def is_zero_def Let_def)
  with current show ?thesis by (simp add: Let_def)
qed

section \<open>Ranking\<close>

lemma sort_descending_scores:
  assumes "ps = map (\<lambda>r. (r, f r)) rs"
  shows "p \<in> set (sort_descending ps) \<Longrightarrow> snd p = f (fst p)"
  using assms by (auto simp: sort_descending_def)

text \<open>
  Adaptive ranking only reorders: the ranked routes are the given ones, by descending score, and
  routes with the same score keep their configured order.
\<close>
theorem policy_ranking_stable:
  shows "mset (policy_rank_routes_for g routes now cls) = mset routes \<and>
    sorted_wrt (\<lambda>a b. route_score g now cls b \<le> route_score g now cls a) (policy_rank_routes_for g routes now cls) \<and>
    (\<forall>s. filter (\<lambda>r. route_score g now cls r = s) (policy_rank_routes_for g routes now cls) =
         filter (\<lambda>r. route_score g now cls r = s) routes)"
proof -
  define f where "f = route_score g now cls"
  define ps where "ps = map (\<lambda>r. (r, f r)) routes"
  have ranked: "policy_rank_routes_for g routes now cls = map fst (sort_descending ps)"
    by (simp add: policy_rank_routes_for_def ps_def f_def)
  have snd: "p \<in> set (sort_descending ps) \<Longrightarrow> snd p = f (fst p)" for p
    by (rule sort_descending_scores [OF ps_def])
  have "sorted_wrt (\<lambda>a b. f (fst b) \<le> f (fst a)) (sort_descending ps)"
    using sort_descending_correct(2) [of ps] snd by (auto simp: intro: sorted_wrt_mono_rel [rotated])
  then have sorted: "sorted_wrt (\<lambda>a b. f b \<le> f a) (map fst (sort_descending ps))"
    by (simp add: sorted_wrt_map)
  have "filter (\<lambda>r. f r = s) (map fst (sort_descending ps)) = filter (\<lambda>r. f r = s) routes" for s
  proof -
    have "filter (\<lambda>r. f r = s) (map fst (sort_descending ps)) = map fst (filter (\<lambda>p. snd p = s) (sort_descending ps))"
      unfolding filter_map using snd by (intro arg_cong [where f = "map fst"] filter_cong) auto
    also have "\<dots> = filter (\<lambda>r. f r = s) routes"
      by (simp add: sort_descending_correct(3) ps_def filter_map comp_def)
    finally show ?thesis .
  qed
  with sorted rank_routes_for_mset [of g routes now cls] show ?thesis
    unfolding f_def [symmetric] ranked by simp
qed

section \<open>The scheduler on the policy gate\<close>

lemma policy_usable_iff:
  "policy_usable g r now \<longleftrightarrow> health_usable (pg_health g) r now \<and>
     (\<forall>(k, s) \<in> set (pg_quotas g). quota_applies s r \<longrightarrow> \<not> exhausted s now)"
  by (auto simp: policy_usable_def list_ex_iff)


lemma upsert_quota_stored:
  assumes "policy_upsert_quota now g s = (Some q, g')"
  shows "\<exists>k. (k, q) \<in> set (pg_quotas g')"
proof -
  from assms obtain s1 where put: "put_quota g s1 = (q, g')"
    by (auto simp: policy_upsert_quota_def split: if_splits option.splits prod.splits)
  then have "gm_get (pg_quotas g') (quota_id s1) = Some q"
    by (auto simp: put_quota_def Let_def gomap_simps)
  then show ?thesis by (auto dest: map_of_SomeD)
qed

text \<open>
  Accepted evidence that a quota is exhausted takes every route it applies to out of the orders of
  the scheduler for as long as the stored observation is exhausted, and the recorder is told the stored
  observation.
\<close>
theorem exhausted_quota_blocks:
  assumes "policy_record_quota now g s = (True, g', [QuotaObserved q])"
    and "quota_applies q r" and "exhausted q t"
    and "order_with_preferred policy_gate_methods g' sch model t preferred = Returns (rs, sch')"
  shows "r \<notin> set rs"
proof
  assume "r \<in> set rs"
  from policy.order_sound [OF TrueI assms(4) this] have "policy_usable g' r t"
    by (simp add: policy_gate_methods_def)
  moreover from assms(1) have "policy_upsert_quota now g s = (Some q, g')"
    by (auto simp: policy_record_quota_def split: option.splits prod.splits)
  from upsert_quota_stored [OF this] obtain k where "(k, q) \<in> set (pg_quotas g')" ..
  ultimately show False using assms(2,3) by (auto simp: policy_usable_iff)
qed

definition quota_model :: resolved_model where
  "quota_model =
     \<lparr>rm_public_name = ''m'', rm_target_ref = ''m'', rm_strategy = StrategyFallback, rm_strategy_ref = no_ref,
      rm_strategy_config = [], rm_sticky_limit = 0,
      rm_candidates = [zero_route\<lparr>rt_id := ''a'', rt_node_id := ''node'', rt_enabled := True\<rparr>,
                       zero_route\<lparr>rt_id := ''b'', rt_node_id := ''other'', rt_enabled := True\<rparr>]\<rparr>"

lemmas quota_example_defs = policy_record_quota_def policy_upsert_quota_def normalize_quota_def put_quota_def
  new_policy_gate_def new_health_gate_def quota_generation_current_def operation_scope_ok_def spent_quota_def
  is_zero_def quota_id_def authority_string_def

lemma spent_quota_recorded:
  "policy_record_quota 5 new_policy_gate spent_quota =
    (True, new_policy_gate\<lparr>pg_quotas := [(quota_id spent_quota, spent_quota\<lparr>qs_source := ''quota_api''\<rparr>)]\<rparr>,
     [QuotaObserved (spent_quota\<lparr>qs_source := ''quota_api''\<rparr>)])"
  by (simp add: quota_example_defs Let_def)

lemma exhausted_quota_blocks_witness:
  "\<exists>rs sch'. order_with_preferred policy_gate_methods
      (new_policy_gate\<lparr>pg_quotas := [(quota_id spent_quota, spent_quota\<lparr>qs_source := ''quota_api''\<rparr>)]\<rparr>)
      new_scheduler quota_model 60 [] = Returns (rs, sch') \<and>
    zero_route\<lparr>rt_id := ''a'', rt_node_id := ''node'', rt_enabled := True\<rparr> \<notin> set rs"
proof -
  let ?g = "new_policy_gate\<lparr>pg_quotas := [(quota_id spent_quota, spent_quota\<lparr>qs_source := ''quota_api''\<rparr>)]\<rparr>"
  let ?r = "zero_route\<lparr>rt_id := ''a'', rt_node_id := ''node'', rt_enabled := True\<rparr>"
  obtain rs sch' where order: "order_with_preferred policy_gate_methods ?g new_scheduler quota_model 60 [] = Returns (rs, sch')"
    by (simp add: order_with_preferred_def quota_model_def is_builtin_strategy_def Let_def)
  have "?r \<notin> set rs"
    by (rule exhausted_quota_blocks [OF spent_quota_recorded _ _ order])
       (simp_all add: quota_applies_def spent_quota_def zero_route_def exhausted_def after_def)
  with order show ?thesis by blast
qed


text \<open>
  The policy gate offers the scheduler no admission, so the single trial of a half-open key is not
  enforced on the path the daemon wires: where the health gate admits one request and refuses the next,
  the scheduler admits both and takes no trial.
\<close>
theorem policy_trials_unlimited:
  assumes "fst (health_acquire (pg_health g) r now)" and "k \<in> set (health_keys r)"
    and "half_open (scoped_state (pg_health g) k)" and "k \<in> set (health_keys r')"
  defines "h \<equiv> snd (health_acquire (pg_health g) r now)"
  shows "\<not> fst (health_acquire h r' now') \<and>
    scheduler_acquire policy_gate_methods g r now = (True, g) \<and>
    scheduler_acquire policy_gate_methods (g\<lparr>pg_health := h\<rparr>) r' now' = (True, g\<lparr>pg_health := h\<rparr>)"
proof -
  have "\<not> fst (health_acquire h r' now')"
    unfolding h_def using assms(1-4)
    by (intro trial_refuses [of _ k]) (simp_all add: health_acquire_trials health_acquire_fst)
  then show ?thesis by (simp add: scheduler_acquire_def policy_gate_methods_def)
qed

lemma policy_trials_unlimited_witness:
  "let g = new_policy_gate\<lparr>pg_health := recovering_gate\<rparr>;
       h = snd (health_acquire recovering_gate (trial_route ''a'') 100)
   in \<not> fst (health_acquire h (trial_route ''b'') 101) \<and>
      scheduler_acquire policy_gate_methods g (trial_route ''a'') 100 = (True, g) \<and>
      scheduler_acquire policy_gate_methods (g\<lparr>pg_health := h\<rparr>) (trial_route ''b'') 101 = (True, g\<lparr>pg_health := h\<rparr>)"
  using policy_trials_unlimited [of "new_policy_gate\<lparr>pg_health := recovering_gate\<rparr>" "trial_route ''a''" 100
      provider_key "trial_route ''b''" 101] recovering_gate_admits recovering_key
  by (simp add: Let_def)

section \<open>Session affinity\<close>

lemma promote_affine_hd:
  assumes "i \<in> set (map rt_id routes)"
  shows "rt_id (hd (promote_affine i routes)) = i"
proof -
  obtain x xs where routes: "routes = x # xs" using assms by (cases routes) auto
  show ?thesis
  proof (cases "dropWhile (\<lambda>r. rt_id r \<noteq> i) xs")
    case Nil
    with assms routes have "rt_id x = i" by (auto simp: dropWhile_eq_Nil_conv)
    then show ?thesis unfolding promote_affine_def routes list.case Nil by simp
  next
    case (Cons y ys)
    then have "rt_id y = i" using hd_dropWhile [of "\<lambda>r. rt_id r \<noteq> i" xs] by simp
    with routes Cons show ?thesis by (simp add: promote_affine_def)
  qed
qed

lemma observe_usage_affinity:
  assumes "accepts_outcome (pg_health g) r ScopeRoute" and "ue_session_id e \<noteq> []"
  shows "gm_get (pg_affinity (policy_observe_usage now now' g r e))
      \<lparr>ak_session = ue_session_id e, ak_operation = rt_session_operation_ref r\<rparr> =
    Some \<lparr>sr_route_id = rt_id r, sr_seen_at = now'\<rparr>"
  using assms by (simp add: policy_observe_usage_def Let_def gomap_simps)

text \<open>
  After an accepted usage report of a session the route that served it heads the session's ranking
  for half an hour, as long as it is among the routes and they all are of its operation.
\<close>
theorem session_affinity_leads:
  assumes "policy_reachable g" and "accepts_outcome (pg_health g) r ScopeRoute" and "ue_session_id e \<noteq> []"
    and "time_sub later now' \<le> affinity_ttl" and "rt_id r \<in> set (map rt_id routes)"
    and "list_all (\<lambda>x. rt_session_operation_ref x = rt_session_operation_ref r) routes"
  shows "rt_id (hd (fst (policy_rank_routes_for_session (policy_observe_usage now now' g r e) routes later cls
      (ue_session_id e)))) = rt_id r"
proof -
  define g1 where "g1 = policy_observe_usage now now' g r e"
  define key where "key = \<lparr>ak_session = ue_session_id e, ak_operation = rt_session_operation_ref r\<rparr>"
  from assms(1) have "policy_inv g" by induction (simp_all add: policy_inv_new policy_inv_step)
  then have wf: "gm_wf (pg_affinity g1)"
    using observe_usage_inv unfolding g1_def by (simp add: policy_inv_def)
  have stored: "gm_get (pg_affinity g1) key = Some \<lparr>sr_route_id = rt_id r, sr_seen_at = now'\<rparr>"
    unfolding g1_def key_def by (rule observe_usage_affinity [OF assms(2,3)])
  then have live: "gm_get (pg_affinity (expire_affinity later False g1)) key = Some \<lparr>sr_route_id = rt_id r, sr_seen_at = now'\<rparr>"
    using assms(4) by (simp add: expire_affinity_def Let_def gm_get_filter [OF wf])
  obtain x xs where routes: "routes = x # xs" using assms(5) by (cases routes) auto
  have ids: "rt_id r \<in> set (map rt_id (policy_rank_routes_for g1 routes later cls))"
    using assms(5) mset_eq_setD [OF rank_routes_for_mset [of g1 routes later cls]] by simp
  have op: "rt_session_operation_ref x = rt_session_operation_ref r"
    "\<not> list_ex (\<lambda>y. rt_session_operation_ref y \<noteq> rt_session_operation_ref r) (x # xs)"
    using assms(6) routes by (auto simp: list_all_iff list_ex_iff)
  have "fst (policy_rank_routes_for_session g1 routes later cls (ue_session_id e)) =
      promote_affine (rt_id r) (policy_rank_routes_for g1 routes later cls)"
    using live assms(3,4) op unfolding policy_rank_routes_for_session_def routes key_def
    by (simp add: Let_def)
  with promote_affine_hd [OF ids] show ?thesis by (simp add: g1_def)
qed

definition affine_route :: "string \<Rightarrow> route" where
  "affine_route i = zero_route\<lparr>rt_id := i, rt_node_id := ''node'', rt_enabled := True\<rparr>"

definition affine_usage :: usage_event where
  "affine_usage = zero_usage\<lparr>ue_session_id := ''s''\<rparr>"

lemma session_affinity_leads_witness:
  "rt_id (hd (fst (policy_rank_routes_for_session (policy_observe_usage 5 6 new_policy_gate (affine_route ''b'') affine_usage)
     [affine_route ''a'', affine_route ''b''] 60 [] ''s''))) = ''b''"
proof -
  have "rt_id (hd (fst (policy_rank_routes_for_session (policy_observe_usage 5 6 new_policy_gate (affine_route ''b'') affine_usage)
     [affine_route ''a'', affine_route ''b''] 60 [] (ue_session_id affine_usage)))) = rt_id (affine_route ''b'')"
    by (rule session_affinity_leads [OF policy_new])
       (simp_all add: affine_route_def affine_usage_def zero_route_def new_policy_gate_def new_health_gate_def
         accepts_outcome_def lane_generation_current_def operation_scope_valid_def time_sub_def saturate64_def
         affinity_ttl_def duration_units min_i64_def)
  then show ?thesis by (simp add: affine_usage_def affine_route_def)
qed

end
