(* ===== verification/Digest.thy ===== *)
theory Digest
  imports Prelude "HOL-Library.Word"
begin

text \<open>
  What the program uses of \<open>crypto/sha256\<close> and \<open>encoding/hex\<close>: the digest of a byte string and its
  hexadecimal text. Both are Go's standard library, modelled here at the width of the machine words
  they compute with.
\<close>

section \<open>SHA-256\<close>

unbundle bit_operations_syntax

type_synonym sha_state = "32 word \<times> 32 word \<times> 32 word \<times> 32 word \<times> 32 word \<times> 32 word \<times> 32 word \<times> 32 word"

text \<open>
  The constants of the rounds are the first 32 bits of the fractional parts of the cube roots of the
  first 64 primes, the initial state those of the square roots of the first eight. \<open>bit_root k n b r\<close>
  adds to \<open>r\<close> the bits below \<open>b\<close> that keep its \<open>k\<close>-th power at most \<open>n\<close>: 35 bits hold the cube root of
  311 scaled by 2 to the 32.
\<close>

fun bit_root :: "nat \<Rightarrow> nat \<Rightarrow> nat \<Rightarrow> nat \<Rightarrow> nat" where
  "bit_root k n 0 r = r"
| "bit_root k n (Suc b) r = bit_root k n b (if (r + 2 ^ b) ^ k \<le> n then r + 2 ^ b else r)"

definition small_primes :: "nat \<Rightarrow> nat list" where
  "small_primes n = filter (\<lambda>p. 1 < p \<and> list_all (\<lambda>d. p mod d \<noteq> 0) [2..<p]) [0..<n]"

definition root_fraction :: "nat \<Rightarrow> nat \<Rightarrow> 32 word" where
  "root_fraction k p = of_nat (bit_root k (p * 2 ^ (32 * k)) 35 0)"

definition sha_constants :: "32 word list" where
  "sha_constants = map (root_fraction 3) (small_primes 312)"

definition sha_init :: sha_state where
  "sha_init =
     (root_fraction 2 2, root_fraction 2 3, root_fraction 2 5, root_fraction 2 7,
      root_fraction 2 11, root_fraction 2 13, root_fraction 2 17, root_fraction 2 19)"

definition rotr32 :: "nat \<Rightarrow> 32 word \<Rightarrow> 32 word" where
  "rotr32 n w = drop_bit n w OR push_bit (32 - n) w"

definition be_word :: "string \<Rightarrow> 32 word" where
  "be_word cs = foldl (\<lambda>w c. push_bit 8 w OR of_char c) 0 cs"

fun be_words :: "string \<Rightarrow> 32 word list" where
  "be_words (a # b # c # d # cs) = be_word [a, b, c, d] # be_words cs"
| "be_words cs = []"

definition be_bytes :: "nat \<Rightarrow> nat \<Rightarrow> string" where
  "be_bytes n v = map (\<lambda>i. char_of (v div 256 ^ (n - 1 - i))) [0..<n]"

definition sha_pad :: "string \<Rightarrow> string" where
  "sha_pad s =
     s @ [char_of (128 :: nat)] @ replicate ((119 - length s mod 64) mod 64) (char_of (0 :: nat)) @
     be_bytes 8 (8 * length s)"

text \<open>The message schedule keeps the last sixteen words, the newest first.\<close>

definition sha_next :: "32 word list \<Rightarrow> 32 word" where
  "sha_next w =
     (let w15 = w ! 14; w2 = w ! 1;
          s0 = rotr32 7 w15 XOR rotr32 18 w15 XOR drop_bit 3 w15;
          s1 = rotr32 17 w2 XOR rotr32 19 w2 XOR drop_bit 10 w2
      in w ! 15 + s0 + w ! 6 + s1)"

fun sha_schedule :: "nat \<Rightarrow> 32 word list \<Rightarrow> 32 word list" where
  "sha_schedule 0 w = []"
| "sha_schedule (Suc n) w = (let x = sha_next w in x # sha_schedule n (x # butlast w))"

fun sha_round :: "sha_state \<Rightarrow> 32 word \<times> 32 word \<Rightarrow> sha_state" where
  "sha_round (a, b, c, d, e, f, g, h) (k, w) =
     (let t1 = h + (rotr32 6 e XOR rotr32 11 e XOR rotr32 25 e) + ((e AND f) XOR (NOT e AND g)) + k + w;
          t2 = (rotr32 2 a XOR rotr32 13 a XOR rotr32 22 a) + ((a AND b) XOR (a AND c) XOR (b AND c))
      in (t1 + t2, a, b, c, d + t1, e, f, g))"

fun sha_add :: "sha_state \<Rightarrow> sha_state \<Rightarrow> sha_state" where
  "sha_add (a, b, c, d, e, f, g, h) (a', b', c', d', e', f', g', h') =
     (a + a', b + b', c + c', d + d', e + e', f + f', g + g', h + h')"

definition sha_block :: "sha_state \<Rightarrow> 32 word list \<Rightarrow> sha_state" where
  "sha_block st ws =
     sha_add st (foldl sha_round st (zip sha_constants (ws @ sha_schedule 48 (rev ws))))"

fun sha_blocks :: "nat \<Rightarrow> sha_state \<Rightarrow> 32 word list \<Rightarrow> sha_state" where
  "sha_blocks 0 st ws = st"
| "sha_blocks (Suc n) st ws = sha_blocks n (sha_block st (take 16 ws)) (drop 16 ws)"

fun sha_bytes :: "sha_state \<Rightarrow> string" where
  "sha_bytes (a, b, c, d, e, f, g, h) = concat (map (\<lambda>w. be_bytes 4 (unat w)) [a, b, c, d, e, f, g, h])"

definition sha256 :: "string \<Rightarrow> string" where
  "sha256 s = (let ws = be_words (sha_pad s) in sha_bytes (sha_blocks (length ws div 16) sha_init ws))"

lemma length_be_bytes [simp]: "length (be_bytes n v) = n"
  by (simp add: be_bytes_def)

lemma length_sha256 [simp]: "length (sha256 s) = 32"
  by (cases "sha_blocks (length (be_words (sha_pad s)) div 16) sha_init (be_words (sha_pad s))" rule: sha_bytes.cases)
    (simp add: sha256_def Let_def)

section \<open>Hexadecimal text\<close>

definition hex_digit :: "nat \<Rightarrow> char" where
  "hex_digit n = char_of (if n < 10 then 48 + n else 87 + n)"

definition hex_value :: "char \<Rightarrow> nat option" where
  "hex_value c =
     (let n = of_char c :: nat
      in if 48 \<le> n \<and> n \<le> 57 then Some (n - 48)
         else if 97 \<le> n \<and> n \<le> 102 then Some (n - 87)
         else if 65 \<le> n \<and> n \<le> 70 then Some (n - 55) else None)"

fun hex_encode :: "string \<Rightarrow> string" where
  "hex_encode [] = []"
| "hex_encode (c # cs) = hex_digit (of_char c div 16) # hex_digit (of_char c mod 16) # hex_encode cs"

text \<open>An odd number of digits is an error, upper and lower case digits are read.\<close>

fun hex_decode :: "string \<Rightarrow> string option" where
  "hex_decode [] = Some []"
| "hex_decode [c] = None"
| "hex_decode (a # b # cs) =
     (case (hex_value a, hex_value b, hex_decode cs) of
        (Some x, Some y, Some bs) \<Rightarrow> Some (char_of (16 * x + y) # bs)
      | _ \<Rightarrow> None)"

lemma hex_value_digit [simp]: "n < 16 \<Longrightarrow> hex_value (hex_digit n) = Some n"
  by (simp add: hex_value_def hex_digit_def)

lemma of_char_bound: "(of_char c :: nat) < 256"
  using of_char_mod_256 [of c, where ?'a = nat] by (metis mod_less_divisor zero_less_numeral)

lemma hex_roundtrip: "hex_decode (hex_encode s) = Some s"
proof (induction s)
  case (Cons c s)
  have "hex_value (hex_digit (of_char c div 16)) = Some (of_char c div 16)"
    "hex_value (hex_digit (of_char c mod 16)) = Some (of_char c mod 16)"
    using of_char_bound [of c] by (simp_all only: hex_value_digit less_mult_imp_div_less mod_less_divisor)
  with Cons show ?case
    by (simp only: hex_encode.simps hex_decode.simps option.case prod.case mult_div_mod_eq char_of_char)
qed simp

lemma hex_encode_inject: "hex_encode s = hex_encode t \<Longrightarrow> s = t"
  by (metis hex_roundtrip option.inject)

end
