(* ===== verification/Signatures.thy ===== *)
theory Signatures
  imports Digest Compatibility
begin

text \<open>
  Signature proofs (\<open>internal/kernel/signatures.go\<close>): a session remembers which opaque provider
  signatures it has seen as digests bound to the issuer, the conversation prefix and the tool call, and
  a later request's signatures are trusted only when a proof attests them.

  What \<open>encoding/json\<close> writes for the prompt, a message or a call is a parameter of the model, the
  record of encoders below; an encoder fails where \<open>json.Marshal\<close> does. The digest of a streamed hash
  is the digest of the concatenated writes.
\<close>

section \<open>Errors and encoders\<close>

datatype session_error =
    ContextDone string
  | SessionInvalid string
  | SignatureInvalid string
  | SignatureProofLimit
  | SessionStateUnavailable
  | SessionStateSuperseded
  | SessionQueueFull

record proof_codec =
  pc_arguments :: "string \<Rightarrow> string option"
  pc_call :: "string \<Rightarrow> string \<Rightarrow> string \<Rightarrow> string"
  pc_context :: "prompt_layer list \<Rightarrow> tool list \<Rightarrow> tool_choice \<Rightarrow> string option"
  pc_message :: "message \<Rightarrow> string option"

section \<open>Proofs\<close>

record signature_proof =
  sp_digest :: string
  sp_issuer :: ext_ref
  sp_context :: string
  sp_target :: string

definition max_signature_proofs :: nat where
  "max_signature_proofs = 256"

definition provider_definition_kind :: string where
  "provider_definition_kind = ''provider-definition''"

definition valid_signature_digest :: "string \<Rightarrow> bool" where
  "valid_signature_digest v = (case hex_decode v of None \<Rightarrow> False | Some d \<Rightarrow> length d = 32)"

definition signature_target_digest :: "proof_codec \<Rightarrow> tool_call \<Rightarrow> session_error + string" where
  "signature_target_digest C c =
     (if call_id c = [] \<or> call_name c = []
      then Inl (SignatureInvalid ''signature proof target requires a tool-call ID and name'')
      else case pc_arguments C (call_arguments c) of
             None \<Rightarrow> Inl (SignatureInvalid ''signature proof tool arguments are not valid JSON'')
           | Some args \<Rightarrow> Inr (hex_encode (sha256 (pc_call C (call_id c) (call_name c) args))))"

definition new_signature_proof ::
  "proof_codec \<Rightarrow> string \<Rightarrow> ext_ref \<Rightarrow> string \<Rightarrow> tool_call \<Rightarrow> session_error + signature_proof" where
  "new_signature_proof C v issuer ctx c =
     (if v = [] \<or> ref_kind issuer \<noteq> provider_definition_kind \<or> \<not> ref_ok issuer
      then Inl (SignatureInvalid ''signature proof requires a value and exact provider-definition issuer'')
      else if \<not> valid_signature_digest ctx
      then Inl (SignatureInvalid ''signature proof requires a valid conversation-context digest'')
      else case signature_target_digest C c of
             Inl e \<Rightarrow> Inl e
           | Inr target \<Rightarrow>
               Inr \<lparr>sp_digest = hex_encode (sha256 v), sp_issuer = issuer, sp_context = ctx, sp_target = target\<rparr>)"

definition validate_signature_proof :: "signature_proof \<Rightarrow> session_error option" where
  "validate_signature_proof p =
     (if \<not> valid_signature_digest (sp_digest p) \<or> ref_kind (sp_issuer p) \<noteq> provider_definition_kind \<or>
         \<not> ref_ok (sp_issuer p) \<or> \<not> valid_signature_digest (sp_context p) \<or> \<not> valid_signature_digest (sp_target p)
      then Some (SignatureInvalid ''invalid provider signature proof'') else None)"

section \<open>The conversation prefix\<close>

definition unsigned_message :: "message \<Rightarrow> message" where
  "unsigned_message m =
     m\<lparr>msg_tool_calls := map (\<lambda>c. c\<lparr>call_signature := [], call_issuer := no_ref\<rparr>) (msg_tool_calls m)\<rparr>"

fun prefix_digests :: "proof_codec \<Rightarrow> string \<Rightarrow> message list \<Rightarrow> string list option" where
  "prefix_digests C hashed [] = Some [hex_encode (sha256 hashed)]"
| "prefix_digests C hashed (m # ms) =
     (case pc_message C (unsigned_message m) of
        None \<Rightarrow> None
      | Some enc \<Rightarrow>
          map_option (\<lambda>ds. hex_encode (sha256 hashed) # ds) (prefix_digests C (hashed @ enc @ nul) ms))"

definition signature_context_digests :: "proof_codec \<Rightarrow> request \<Rightarrow> string list option" where
  "signature_context_digests C q =
     (case pc_context C (rq_prompt q) (rq_tools q) (rq_tool_choice q) of
        None \<Rightarrow> None
      | Some enc \<Rightarrow> prefix_digests C (enc @ nul) (rq_messages q))"

definition signature_context_digest :: "proof_codec \<Rightarrow> request \<Rightarrow> int \<Rightarrow> session_error + string" where
  "signature_context_digest C q n =
     (if n < 0 \<or> int (length (rq_messages q)) < n
      then Inl (SignatureInvalid ''signature context message boundary is out of range'')
      else case signature_context_digests C q of
             None \<Rightarrow> Inl (SignatureInvalid ''json'')
           | Some ds \<Rightarrow> Inr (ds ! nat n))"

section \<open>Attestation\<close>

definition facet_reasoning_signature :: string where
  "facet_reasoning_signature = ''reasoning.signature''"

definition attests :: "signature_proof \<Rightarrow> signature_proof \<Rightarrow> ext_ref \<Rightarrow> string \<Rightarrow> bool" where
  "attests saved p issuer ctx \<longleftrightarrow>
     validate_signature_proof saved = None \<and> sp_digest saved = sp_digest p \<and> sp_issuer saved = issuer \<and>
     sp_context saved = ctx \<and> sp_target saved = sp_target p"

text \<open>A call's new value and whether its facet is reported; \<open>digests\<close> is \<open>None\<close> when encoding failed.\<close>

definition attest_call ::
  "proof_codec \<Rightarrow> signature_proof list \<Rightarrow> ext_ref \<Rightarrow> string list option \<Rightarrow> nat \<Rightarrow> tool_call \<Rightarrow> tool_call \<times> bool" where
  "attest_call C proofs issuer digests i c =
     (if call_signature c = [] then (c, False)
      else case digests of
             None \<Rightarrow> (c, True)
           | Some ds \<Rightarrow>
               let ctx = (if i < length ds then ds ! i else [])
               in case new_signature_proof C (call_signature c) issuer ctx c of
                    Inl _ \<Rightarrow> (c, True)
                  | Inr p \<Rightarrow>
                      if list_ex (\<lambda>saved. attests saved p issuer ctx) proofs
                      then (c\<lparr>call_issuer := issuer\<rparr>, False)
                      else (c\<lparr>call_issuer := no_ref\<rparr>, True))"

definition attest_message ::
  "proof_codec \<Rightarrow> signature_proof list \<Rightarrow> ext_ref \<Rightarrow> string list option \<Rightarrow> nat \<Rightarrow> message \<Rightarrow> message \<times> bool list" where
  "attest_message C proofs issuer digests i m =
     (let rs = map (attest_call C proofs issuer digests i) (msg_tool_calls m)
      in (m\<lparr>msg_tool_calls := map fst rs\<rparr>, map snd rs))"

definition attest_tool_call_signatures ::
  "proof_codec \<Rightarrow> request \<Rightarrow> signature_proof list \<Rightarrow> ext_ref \<Rightarrow> request" where
  "attest_tool_call_signatures C q proofs issuer =
     (let digests = (if request_has_tool_signature (rq_messages q) then signature_context_digests C q else Some []);
          rs = map (\<lambda>(i, m). attest_message C proofs issuer digests i m) (enumerate 0 (rq_messages q));
          reported = filter id (concat (map snd rs))
      in q\<lparr>rq_messages := map fst rs,
           rq_unsupported_facets :=
             unique_sorted (rq_unsupported_facets q @ map (\<lambda>_. facet_reasoning_signature) reported)\<rparr>)"

text \<open>The proofs are returned with the error, as the code returns them.\<close>

definition append_signature_proof ::
  "proof_codec \<Rightarrow> signature_proof list \<Rightarrow> string \<Rightarrow> ext_ref \<Rightarrow> string \<Rightarrow> tool_call \<Rightarrow>
   signature_proof list \<times> session_error option" where
  "append_signature_proof C proofs signature issuer ctx c =
     (case new_signature_proof C signature issuer ctx c of
        Inl e \<Rightarrow> (proofs, Some e)
      | Inr p \<Rightarrow>
          if p \<in> set proofs then (proofs, None)
          else if max_signature_proofs \<le> length proofs then (proofs, Some SignatureProofLimit)
          else (proofs @ [p], None))"

section \<open>Properties\<close>

lemma valid_signature_digest_sha256 [simp]: "valid_signature_digest (hex_encode (sha256 s))"
  by (simp add: valid_signature_digest_def hex_roundtrip)

lemma new_signature_proof_valid:
  assumes "new_signature_proof C v issuer ctx c = Inr p"
  shows "validate_signature_proof p = None" "sp_issuer p = issuer" "sp_context p = ctx"
  using assms
  by (auto simp: new_signature_proof_def validate_signature_proof_def signature_target_digest_def
      split: if_splits sum.splits option.splits)

lemma append_signature_proof_mem:
  assumes "append_signature_proof C proofs v issuer ctx c = (proofs', None)"
  shows "\<exists>p. new_signature_proof C v issuer ctx c = Inr p \<and> p \<in> set proofs'"
  using assms by (auto simp: append_signature_proof_def split: sum.splits if_splits)

lemma append_signature_proof_bounds:
  "length proofs \<le> max_signature_proofs \<Longrightarrow> length (fst (append_signature_proof C proofs v issuer ctx c)) \<le> max_signature_proofs"
  by (auto simp: append_signature_proof_def split: sum.split)

lemma append_signature_proof_valid:
  "\<forall>p \<in> set proofs. validate_signature_proof p = None \<Longrightarrow>
   \<forall>p \<in> set (fst (append_signature_proof C proofs v issuer ctx c)). validate_signature_proof p = None"
  using new_signature_proof_valid(1) by (auto simp: append_signature_proof_def split: sum.split)

text \<open>Messages after a prefix do not change the prefix's digest.\<close>

lemma prefix_digests_append:
  assumes "prefix_digests C h (ms @ ns) = Some ds"
  shows "\<exists>es. prefix_digests C h ms = Some es \<and> length es = Suc (length ms) \<and> take (Suc (length ms)) ds = es"
  using assms
proof (induction ms arbitrary: h ds)
  case Nil
  then show ?case by (cases ns) (auto split: option.splits)
next
  case (Cons m ms)
  then show ?case by (fastforce split: option.splits)
qed

lemma prefix_digests_length: "prefix_digests C h ms = Some ds \<Longrightarrow> length ds = Suc (length ms)"
  using prefix_digests_append [of C h ms "[]"] by fastforce

lemma signature_context_prefix:
  assumes "signature_context_digest C q (int (length (rq_messages q))) = Inr ctx"
    and "rq_prompt q' = rq_prompt q" and "rq_tools q' = rq_tools q" and "rq_tool_choice q' = rq_tool_choice q"
    and "rq_messages q' = rq_messages q @ ms" and "signature_context_digests C q' = Some ds"
  shows "length (rq_messages q) < length ds" "ds ! length (rq_messages q) = ctx"
proof -
  let ?n = "length (rq_messages q)"
  from assms(1) obtain es where es: "signature_context_digests C q = Some es" "ctx = es ! ?n"
    by (auto simp: signature_context_digest_def split: option.splits)
  from es(1) assms(2-6) obtain h where h: "prefix_digests C h (rq_messages q) = Some es"
    "prefix_digests C h (rq_messages q @ ms) = Some ds"
    by (auto simp: signature_context_digests_def split: option.splits)
  from prefix_digests_append [OF h(2)] h(1) have "take (Suc ?n) ds = es" "length es = Suc ?n" by auto
  then show "?n < length ds" by auto
  with \<open>take (Suc ?n) ds = es\<close> es(2) show "ds ! ?n = ctx" by (metis lessI nth_take)
qed

lemma new_signature_proof_cong:
  assumes "call_id c' = call_id c" and "call_name c' = call_name c" and "call_arguments c' = call_arguments c"
  shows "new_signature_proof C v issuer ctx c' = new_signature_proof C v issuer ctx c"
proof -
  have "signature_target_digest C c' = signature_target_digest C c"
    by (simp only: signature_target_digest_def assms)
  then show ?thesis by (simp only: new_signature_proof_def)
qed

lemma attested_call:
  assumes "i < length (rq_messages q)" and "k < length (msg_tool_calls (rq_messages q ! i))"
  defines "c \<equiv> msg_tool_calls (rq_messages q ! i) ! k"
  assumes "call_signature c \<noteq> []"
  shows "msg_tool_calls (rq_messages (attest_tool_call_signatures C q proofs issuer) ! i) ! k =
    fst (attest_call C proofs issuer (signature_context_digests C q) i c)"
proof -
  have "request_has_tool_signature (rq_messages q)"
    using assms unfolding request_has_tool_signature_def list_ex_iff by (metis nth_mem)
  with assms(1,2) show ?thesis
    by (simp add: attest_tool_call_signatures_def Let_def attest_message_def c_def nth_enumerate_eq)
qed

text \<open>
  C30. A signature the provider emitted on a tool call is trusted when the client sends the call back:
  once its proof was recorded, any later request that continues the same prompt, tools and messages and
  holds the call with its ID, name, arguments and signature right after that prefix is attested to the
  issuer, whatever else the session recorded since.
\<close>
theorem signed_call_attested:
  assumes "append_signature_proof C proofs (call_signature c') issuer ctx c = (proofs', None)"
    and "signature_context_digest C q (int (length (rq_messages q))) = Inr ctx"
    and "rq_prompt q' = rq_prompt q" and "rq_tools q' = rq_tools q" and "rq_tool_choice q' = rq_tool_choice q"
    and "rq_messages q' = rq_messages q @ m # ms" and "signature_context_digests C q' \<noteq> None"
    and "k < length (msg_tool_calls m)" and "msg_tool_calls m ! k = c'"
    and "call_id c' = call_id c" and "call_name c' = call_name c" and "call_arguments c' = call_arguments c"
    and "set proofs' \<subseteq> set saved"
  shows "call_issuer (msg_tool_calls (rq_messages (attest_tool_call_signatures C q' saved issuer) !
      length (rq_messages q)) ! k) = issuer"
proof -
  let ?i = "length (rq_messages q)"
  from assms(7) obtain ds where ds: "signature_context_digests C q' = Some ds" by blast
  from signature_context_prefix [OF assms(2-6) ds] have ctx: "?i < length ds" "ds ! ?i = ctx" .
  from append_signature_proof_mem [OF assms(1)] obtain p where
    p: "new_signature_proof C (call_signature c') issuer ctx c = Inr p" "p \<in> set proofs'" by blast
  have p': "new_signature_proof C (call_signature c') issuer ctx c' = Inr p"
    using p(1) assms(10-12) by (metis new_signature_proof_cong)
  from p(1) have signed: "call_signature c' \<noteq> []" by (auto simp: new_signature_proof_def)
  have "attests p p issuer ctx" using new_signature_proof_valid [OF p(1)] by (simp add: attests_def)
  with p(2) assms(13) have "list_ex (\<lambda>s. attests s p issuer ctx) saved" by (auto simp: list_ex_iff)
  with signed ctx p' have "fst (attest_call C saved issuer (Some ds) ?i c') = c'\<lparr>call_issuer := issuer\<rparr>"
    by (simp add: attest_call_def Let_def)
  then show ?thesis
    using attested_call [of ?i q' k C saved issuer] assms(6,8,9) signed ds by simp
qed

text \<open>A codec for the examples: every encoding is the plain text, none fails.\<close>

definition plain_codec :: proof_codec where
  "plain_codec =
     \<lparr>pc_arguments = Some, pc_call = (\<lambda>i n a. i @ nul @ n @ nul @ a), pc_context = (\<lambda>p ts ch. Some (choice_mode ch)),
      pc_message = (\<lambda>m. Some (msg_role m @ nul @ (case msg_content m of ContentText t \<Rightarrow> t | _ \<Rightarrow> [])))\<rparr>"

definition signed_call :: tool_call where
  "signed_call =
     \<lparr>call_id = ''c1'', call_type = ''function'', call_name = ''f'', call_arguments = ''{}'', call_state = [],
      call_provider_data = [], call_signature = ''sig'', call_issuer = no_ref, call_metadata = None\<rparr>"

definition first_turn :: request where
  "first_turn = zero_request\<lparr>rq_messages := [\<lparr>msg_role = ''user'', msg_content = ContentText ''hi'', msg_name = [],
     msg_tool_call_id = [], msg_tool_calls = [], msg_metadata = None\<rparr>]\<rparr>"

definition assistant_turn :: message where
  "assistant_turn = \<lparr>msg_role = ''assistant'', msg_content = ContentNil, msg_name = [], msg_tool_call_id = [],
     msg_tool_calls = [signed_call], msg_metadata = None\<rparr>"

definition example_issuer :: ext_ref where
  "example_issuer = mk_ref ''provider-definition'' ''p'' 1"

lemma example_issuer_ok: "ref_kind example_issuer = provider_definition_kind" "ref_ok example_issuer"
  by code_simp+

lemma signed_call_attested_witness:
  "\<exists>proofs. append_signature_proof plain_codec [] ''sig'' example_issuer
      (hex_encode (sha256 (nul @ ''user'' @ nul @ ''hi'' @ nul))) signed_call = (proofs, None) \<and>
    call_issuer (msg_tool_calls (rq_messages (attest_tool_call_signatures plain_codec
      (first_turn\<lparr>rq_messages := rq_messages first_turn @ [assistant_turn]\<rparr>) proofs example_issuer) ! 1) ! 0) = example_issuer"
proof -
  let ?ctx = "hex_encode (sha256 (nul @ ''user'' @ nul @ ''hi'' @ nul))"
  have ctx: "signature_context_digest plain_codec first_turn (int (length (rq_messages first_turn))) = Inr ?ctx"
    by (simp add: signature_context_digest_def signature_context_digests_def plain_codec_def first_turn_def
        zero_request_def unsigned_message_def)
  obtain proofs where proofs:
    "append_signature_proof plain_codec [] (call_signature signed_call) example_issuer ?ctx signed_call = (proofs, None)"
    using example_issuer_ok
    by (simp add: append_signature_proof_def new_signature_proof_def signature_target_digest_def signed_call_def
        plain_codec_def max_signature_proofs_def)
  have "call_issuer (msg_tool_calls (rq_messages (attest_tool_call_signatures plain_codec
      (first_turn\<lparr>rq_messages := rq_messages first_turn @ [assistant_turn]\<rparr>) proofs example_issuer) !
      length (rq_messages first_turn)) ! 0) = example_issuer"
    by (rule signed_call_attested [OF proofs ctx, where m = assistant_turn and ms = "[]"])
       (simp_all add: assistant_turn_def signature_context_digests_def plain_codec_def first_turn_def
         zero_request_def unsigned_message_def)
  with proofs show ?thesis by (auto simp: signed_call_def first_turn_def)
qed


lemma new_signature_proof_value:
  assumes "new_signature_proof C v issuer ctx c = Inr p"
  shows "\<exists>target. signature_target_digest C c = Inr target \<and>
    p = \<lparr>sp_digest = hex_encode (sha256 v), sp_issuer = issuer, sp_context = ctx, sp_target = target\<rparr>"
  using assms by (auto simp: new_signature_proof_def split: if_splits sum.splits)

lemma attests_unique: "attests saved p issuer ctx \<Longrightarrow> sp_issuer p = issuer \<Longrightarrow> sp_context p = ctx \<Longrightarrow> saved = p"
  by (cases saved; cases p) (simp add: attests_def)

text \<open>
  A tool call that arrives without an issuer is trusted only with a recorded proof of its very
  signature, issuer, conversation prefix and target.
\<close>
theorem attestation_sound:
  assumes "i < length (rq_messages q)" and "k < length (msg_tool_calls (rq_messages q ! i))"
    and "msg_tool_calls (rq_messages q ! i) ! k = c" and "call_signature c \<noteq> []" and "call_issuer c \<noteq> issuer"
    and "issuer \<noteq> no_ref"
    and "call_issuer (msg_tool_calls (rq_messages (attest_tool_call_signatures C q proofs issuer) ! i) ! k) = issuer"
  shows "\<exists>ds target. signature_context_digests C q = Some ds \<and> signature_target_digest C c = Inr target \<and>
    \<lparr>sp_digest = hex_encode (sha256 (call_signature c)), sp_issuer = issuer,
     sp_context = (if i < length ds then ds ! i else []), sp_target = target\<rparr> \<in> set proofs"
proof -
  have trusted: "call_issuer (fst (attest_call C proofs issuer (signature_context_digests C q) i c)) = issuer"
    using assms(7) attested_call [OF assms(1,2), of C proofs issuer] assms(3,4) by simp
  with assms(4-6) obtain ds where ds: "signature_context_digests C q = Some ds"
    by (auto simp: attest_call_def split: option.splits)
  let ?ctx = "if i < length ds then ds ! i else []"
  obtain p where p: "new_signature_proof C (call_signature c) issuer ?ctx c = Inr p"
    using trusted assms(4,5) ds by (cases "new_signature_proof C (call_signature c) issuer ?ctx c")
      (auto simp: attest_call_def Let_def)
  have "list_ex (\<lambda>saved. attests saved p issuer ?ctx) proofs"
  proof (rule ccontr)
    assume "\<not> ?thesis"
    with p ds assms(4) have "fst (attest_call C proofs issuer (Some ds) i c) = c\<lparr>call_issuer := no_ref\<rparr>"
      by (simp add: attest_call_def Let_def)
    with trusted ds assms(6) show False by simp
  qed
  then obtain saved where saved: "saved \<in> set proofs" "attests saved p issuer ?ctx" by (auto simp: list_ex_iff)
  from attests_unique [OF saved(2)] new_signature_proof_valid [OF p] have "saved = p" by simp
  with saved(1) new_signature_proof_value [OF p] ds show ?thesis by metis
qed

lemma attestation_sound_witness:
  "\<exists>proofs ds target. signature_context_digests plain_codec
      (first_turn\<lparr>rq_messages := rq_messages first_turn @ [assistant_turn]\<rparr>) = Some ds \<and>
    signature_target_digest plain_codec signed_call = Inr target \<and>
    \<lparr>sp_digest = hex_encode (sha256 ''sig''), sp_issuer = example_issuer,
     sp_context = (if 1 < length ds then ds ! 1 else []), sp_target = target\<rparr> \<in> set proofs \<and> length proofs = 1"
proof -
  let ?q = "first_turn\<lparr>rq_messages := rq_messages first_turn @ [assistant_turn]\<rparr>"
  let ?proof = "\<lparr>sp_digest = hex_encode (sha256 ''sig''), sp_issuer = example_issuer,
      sp_context = hex_encode (sha256 (nul @ ''user'' @ nul @ ''hi'' @ nul)),
      sp_target = hex_encode (sha256 (''c1'' @ nul @ ''f'' @ nul @ ''{}''))\<rparr>"
  let ?next = "nul @ ''user'' @ nul @ ''hi'' @ nul @ ''assistant'' @ nul @ nul"
  have q: "1 < length (rq_messages ?q)" "0 < length (msg_tool_calls (rq_messages ?q ! 1))"
    "msg_tool_calls (rq_messages ?q ! 1) ! 0 = signed_call"
    by (simp_all add: first_turn_def assistant_turn_def)
  have digests: "signature_context_digests plain_codec ?q = Some
    [hex_encode (sha256 nul), hex_encode (sha256 (nul @ ''user'' @ nul @ ''hi'' @ nul)), hex_encode (sha256 ?next)]"
    by (simp add: signature_context_digests_def plain_codec_def first_turn_def zero_request_def
        assistant_turn_def unsigned_message_def)
  have "attests ?proof ?proof example_issuer (hex_encode (sha256 (nul @ ''user'' @ nul @ ''hi'' @ nul)))"
    using example_issuer_ok by (simp add: attests_def validate_signature_proof_def)
  moreover have "new_signature_proof plain_codec (call_signature signed_call) example_issuer
      (hex_encode (sha256 (nul @ ''user'' @ nul @ ''hi'' @ nul))) signed_call = Inr ?proof"
    using example_issuer_ok
    by (simp add: new_signature_proof_def signature_target_digest_def signed_call_def plain_codec_def)
  moreover have "call_signature signed_call \<noteq> []" by (simp add: signed_call_def)
  ultimately have "call_issuer (fst (attest_call plain_codec [?proof] example_issuer
      (signature_context_digests plain_codec ?q) 1 signed_call)) = example_issuer"
    unfolding attest_call_def digests by simp
  then have trusted: "call_issuer (msg_tool_calls (rq_messages
      (attest_tool_call_signatures plain_codec ?q [?proof] example_issuer) ! 1) ! 0) = example_issuer"
    using attested_call [OF q(1,2), of plain_codec "[?proof]" example_issuer] q(3) by (simp add: signed_call_def)
  have "call_signature signed_call \<noteq> []" "call_issuer signed_call \<noteq> example_issuer" "example_issuer \<noteq> no_ref"
    by (simp_all add: signed_call_def example_issuer_def mk_ref_def no_ref_def)
  from attestation_sound [OF q this trusted] show ?thesis
    by (intro exI [of _ "[?proof]"]) (simp add: signed_call_def)
qed

end
