(* ===== verification/Sessions.thy ===== *)
theory Sessions
  imports Signatures Quota Outcomes
begin

text \<open>
  Provider session state (\<open>internal/kernel/session_store.go\<close>, \<open>session_updates.go\<close>,
  \<open>session_namespace.go\<close>, \<open>candidate_session.go\<close>, \<open>continuity_recovery.go\<close>): the opaque continuation
  data a provider returns, the in-memory store, the private updates of a response and the version-fenced
  invalidation. Copies the code makes to keep buffers private are the values themselves here.

  A context is what its \<open>Err\<close> returns at each reading; the clock is an argument.
\<close>

section \<open>Session state\<close>

record session_state =
  ses_response_id :: string
  ses_data :: string
  ses_signatures :: "signature_proof list"
  ses_expires_at :: go_time
  ses_version :: "64 word"

definition zero_session :: session_state where
  "zero_session = \<lparr>ses_response_id = [], ses_data = [], ses_signatures = [], ses_expires_at = 0, ses_version = 0\<rparr>"

definition no_continuation :: "session_state \<Rightarrow> bool" where
  "no_continuation s \<longleftrightarrow> ses_response_id s = [] \<and> ses_data s = [] \<and> ses_signatures s = []"

definition empty_session_state :: "session_state \<Rightarrow> bool" where
  "empty_session_state s \<longleftrightarrow> no_continuation s \<and> is_zero (ses_expires_at s)"

definition merge_session_state :: "session_state \<Rightarrow> session_state \<Rightarrow> session_state" where
  "merge_session_state target u =
     target\<lparr>ses_response_id := (if ses_response_id u \<noteq> [] then ses_response_id u else ses_response_id target),
            ses_data := (if ses_data u \<noteq> [] then ses_data u else ses_data target),
            ses_signatures := (if ses_signatures u \<noteq> [] then ses_signatures u else ses_signatures target),
            ses_expires_at := (if \<not> is_zero (ses_expires_at u) then ses_expires_at u else ses_expires_at target)\<rparr>"

definition validate_session_state :: "session_state \<Rightarrow> session_error option" where
  "validate_session_state s =
     (if 4096 < length (ses_response_id s)
      then Some (SessionInvalid ''provider response ID exceeds 4 KiB'')
      else if 64 * 1024 < length (ses_data s) \<or> ses_data s \<noteq> [] \<and> \<not> json_valid (ses_data s)
      then Some (SessionInvalid ''provider session state must be valid JSON no larger than 64 KiB'')
      else if max_signature_proofs < length (ses_signatures s) then Some SignatureProofLimit
      else first_error validate_signature_proof (ses_signatures s))"

section \<open>Keys and namespaces\<close>

record session_key =
  sk_connection :: string
  sk_definition :: string
  sk_operation :: string
  sk_model :: string
  sk_session :: string
  sk_principal :: string
  sk_endpoint :: string

definition session_store_key_for :: "route \<Rightarrow> string \<Rightarrow> session_error + session_key" where
  "session_store_key_for r sid =
     (if rt_credential_id r = [] \<or> rt_external_model r = [] \<or> sid = [] \<or> gen_connection (rt_health_generation r) = []
      then Inl (SessionInvalid ''connection, principal generation, physical source model and session IDs are required'')
      else if \<not> ref_ok (rt_definition_ref r)
      then Inl (SessionInvalid ''provider session requires an exact provider definition reference'')
      else if ref_kind (rt_definition_ref r) \<noteq> provider_definition_kind
      then Inl (SessionInvalid ''provider session requires a provider-definition reference'')
      else if \<not> ref_ok (rt_session_operation_ref r) \<or> ref_kind (rt_session_operation_ref r) \<noteq> operation_kind
      then Inl (SessionInvalid ''provider session requires an exact operation reference'')
      else Inr \<lparr>sk_connection = rt_credential_id r, sk_definition = ref_key (rt_definition_ref r),
                sk_operation = ref_key (rt_session_operation_ref r), sk_model = rt_external_model r,
                sk_session = sid, sk_principal = gen_connection (rt_health_generation r),
                sk_endpoint = rt_base_url r\<rparr>)"

record session_namespace =
  ns_version :: nat
  ns_definition_ref :: ext_ref
  ns_operation_ref :: ext_ref
  ns_model_id :: string
  ns_endpoint :: string
  ns_principal :: string

definition namespace_version :: nat where
  "namespace_version = 1"

definition validate_namespace :: "session_namespace \<Rightarrow> session_error option" where
  "validate_namespace n =
     (if ns_version n \<noteq> namespace_version \<or> ref_kind (ns_definition_ref n) \<noteq> provider_definition_kind \<or>
         \<not> ref_ok (ns_definition_ref n) \<or> ref_kind (ns_operation_ref n) \<noteq> operation_kind \<or>
         \<not> ref_ok (ns_operation_ref n) \<or> ns_model_id n = [] \<or> ns_principal n = []
      then Some (SessionInvalid ''provider session requires the current exact authority namespace'')
      else if 4096 < length (ns_model_id n) \<or> 8192 < length (ns_endpoint n) \<or> 4096 < length (ns_principal n)
      then Some (SessionInvalid ''provider session namespace exceeds its bounds'')
      else None)"

definition session_namespace_for :: "route \<Rightarrow> session_error + session_namespace" where
  "session_namespace_for r =
     (let n = \<lparr>ns_version = namespace_version, ns_definition_ref = rt_definition_ref r,
               ns_operation_ref = rt_session_operation_ref r, ns_model_id = rt_external_model r,
               ns_endpoint = rt_base_url r, ns_principal = gen_connection (rt_health_generation r)\<rparr>
      in case validate_namespace n of Some e \<Rightarrow> Inl e | None \<Rightarrow> Inr n)"

section \<open>The in-memory store\<close>

record memory_store =
  ms_entries :: "(session_key, session_state) gomap"
  ms_ttl :: duration
  ms_version :: "64 word"

definition new_memory_store :: memory_store where
  "new_memory_store = \<lparr>ms_entries = [], ms_ttl = 24 * hour, ms_version = 0\<rparr>"

definition expired :: "session_state \<Rightarrow> go_time \<Rightarrow> bool" where
  "expired s now \<longleftrightarrow> \<not> is_zero (ses_expires_at s) \<and> \<not> after (ses_expires_at s) now"

definition memory_load_key :: "go_time \<Rightarrow> memory_store \<Rightarrow> session_key \<Rightarrow> session_state option \<times> memory_store" where
  "memory_load_key now s k =
     (case gm_get (ms_entries s) k of
        None \<Rightarrow> (None, s)
      | Some st \<Rightarrow>
          if expired st now then (None, s\<lparr>ms_entries := gm_del k (ms_entries s)\<rparr>) else (Some st, s))"

definition memory_load ::
  "session_error option \<Rightarrow> go_time \<Rightarrow> memory_store \<Rightarrow> route \<Rightarrow> string \<Rightarrow>
   (session_error + session_state option) \<times> memory_store" where
  "memory_load ctx now s r sid =
     (case ctx of
        Some e \<Rightarrow> (Inl e, s)
      | None \<Rightarrow>
          (case session_store_key_for r sid of
             Inl e \<Rightarrow> (Inl e, s)
           | Inr k \<Rightarrow> (case memory_load_key now s k of (st, s') \<Rightarrow> (Inr st, s'))))"

definition cap_expiry :: "go_time \<Rightarrow> session_state \<Rightarrow> session_state" where
  "cap_expiry limit st =
     (if is_zero (ses_expires_at st) \<or> after (ses_expires_at st) limit then st\<lparr>ses_expires_at := limit\<rparr> else st)"

definition memory_save_key :: "go_time \<Rightarrow> memory_store \<Rightarrow> session_key \<Rightarrow> session_state \<Rightarrow> memory_store" where
  "memory_save_key now s k st =
     (let ttl = (if ms_ttl s \<le> 0 then 24 * hour else ms_ttl s);
          v = ms_version s + 1;
          st' = (cap_expiry (time_add now ttl) st)\<lparr>ses_version := v\<rparr>
      in s\<lparr>ms_version := v, ms_entries := gm_put k st' (ms_entries s)\<rparr>)"

definition memory_save ::
  "session_error option \<Rightarrow> go_time \<Rightarrow> memory_store \<Rightarrow> route \<Rightarrow> string \<Rightarrow> session_state \<Rightarrow>
   session_error option \<times> memory_store" where
  "memory_save ctx now s r sid st =
     (case ctx of
        Some e \<Rightarrow> (Some e, s)
      | None \<Rightarrow>
          (case session_store_key_for r sid of
             Inl e \<Rightarrow> (Some e, s)
           | Inr k \<Rightarrow>
               (case validate_session_state st of
                  Some e \<Rightarrow> (Some e, s)
                | None \<Rightarrow> (None, memory_save_key now s k st))))"

definition memory_invalidate_key :: "memory_store \<Rightarrow> session_key \<Rightarrow> session_state \<Rightarrow> bool \<times> memory_store" where
  "memory_invalidate_key s k expected =
     (if gm_get (ms_entries s) k \<noteq> Some expected then (False, s)
      else (True, s\<lparr>ms_entries := gm_del k (ms_entries s)\<rparr>))"

text \<open>The context is read again under the lock.\<close>

definition memory_invalidate ::
  "session_error option \<Rightarrow> session_error option \<Rightarrow> memory_store \<Rightarrow> route \<Rightarrow> string \<Rightarrow> session_state \<Rightarrow>
   (session_error + bool) \<times> memory_store" where
  "memory_invalidate ctx ctx' s r sid expected =
     (case ctx of
        Some e \<Rightarrow> (Inl e, s)
      | None \<Rightarrow>
          (case session_store_key_for r sid of
             Inl e \<Rightarrow> (Inl e, s)
           | Inr k \<Rightarrow>
               (case ctx' of
                  Some e \<Rightarrow> (Inl e, s)
                | None \<Rightarrow> (case memory_invalidate_key s k expected of (b, s') \<Rightarrow> (Inr b, s')))))"

section \<open>What a session store promises\<close>

text \<open>
  The calls a store serves in some order, each on the key of its route and session. \<open>OpSettle\<close> is the
  store's own background step with the outcome of its backend.
\<close>

datatype 'k session_op =
    OpLoad go_time 'k
  | OpSave go_time 'k session_state
  | OpInvalidate go_time 'k session_state
  | OpSettle "session_error option"

fun run_session_op ::
  "(go_time \<Rightarrow> 's \<Rightarrow> 'k \<Rightarrow> session_state option \<times> 's) \<Rightarrow> (go_time \<Rightarrow> 's \<Rightarrow> 'k \<Rightarrow> session_state \<Rightarrow> bool \<times> 's) \<Rightarrow>
   (go_time \<Rightarrow> 's \<Rightarrow> 'k \<Rightarrow> session_state \<Rightarrow> bool \<times> 's) \<Rightarrow> (session_error option \<Rightarrow> 's \<Rightarrow> 's) \<Rightarrow>
   'k session_op \<Rightarrow> 's \<Rightarrow> 's" where
  "run_session_op load save invalidate settle (OpLoad t k) s = snd (load t s k)"
| "run_session_op load save invalidate settle (OpSave t k st) s = snd (save t s k st)"
| "run_session_op load save invalidate settle (OpInvalidate t k st) s = snd (invalidate t s k st)"
| "run_session_op load save invalidate settle (OpSettle e) s = settle e s"

text \<open>
  \<open>stored\<close> is the entry of a key, \<open>returning\<close> the entries a background step may put back, \<open>issued\<close> the
  last version given out. A store gives every save its own version, invalidates only the very state it
  was asked about, and may drop entries at any time.
\<close>

locale session_contract =
  fixes stored :: "'s \<Rightarrow> 'k \<Rightarrow> session_state option"
    and returning :: "'s \<Rightarrow> 'k \<Rightarrow> session_state set"
    and issued :: "'s \<Rightarrow> 64 word"
    and inv :: "'s \<Rightarrow> bool"
    and load :: "go_time \<Rightarrow> 's \<Rightarrow> 'k \<Rightarrow> session_state option \<times> 's"
    and save :: "go_time \<Rightarrow> 's \<Rightarrow> 'k \<Rightarrow> session_state \<Rightarrow> bool \<times> 's"
    and invalidate :: "go_time \<Rightarrow> 's \<Rightarrow> 'k \<Rightarrow> session_state \<Rightarrow> bool \<times> 's"
    and settle :: "session_error option \<Rightarrow> 's \<Rightarrow> 's"
  assumes stored_issued: "inv s \<Longrightarrow> stored s k = Some st \<Longrightarrow> unat (ses_version st) \<le> unat (issued s)"
    and run_inv: "inv s \<Longrightarrow> unat (issued s) + 1 < 2 ^ 64 \<Longrightarrow> inv (run_session_op load save invalidate settle op s)"
    and load_stored: "load t s k = (Some st, s') \<Longrightarrow> stored s k = Some st"
    and load_keeps: "stored (snd (load t s k)) j = stored s j \<or> stored (snd (load t s k)) j = None"
    and load_returning: "returning (snd (load t s k)) j \<subseteq> returning s j"
    and load_issued: "issued (snd (load t s k)) = issued s"
    and save_stored: "inv s \<Longrightarrow> \<exists>st'. stored (snd (save t s k st)) k = Some st' \<and> ses_version st' = issued s + 1"
    and save_keeps: "inv s \<Longrightarrow> j \<noteq> k \<Longrightarrow> stored (snd (save t s k st)) j = stored s j \<or> stored (snd (save t s k st)) j = None"
    and save_returning: "inv s \<Longrightarrow> unat (issued s) + 1 < 2 ^ 64 \<Longrightarrow>
          returning (snd (save t s k st)) j \<subseteq> (if j = k then {} else returning s j)"
    and save_issued: "inv s \<Longrightarrow> issued (snd (save t s k st)) = issued s + 1"
    and invalidate_expected: "fst (invalidate t s k e) \<Longrightarrow> stored s k = Some e"
    and invalidate_refused: "\<not> fst (invalidate t s k e) \<Longrightarrow>
          stored (snd (invalidate t s k e)) = stored s \<and> returning (snd (invalidate t s k e)) = returning s"
    and invalidate_stored: "fst (invalidate t s k e) \<Longrightarrow> stored (snd (invalidate t s k e)) j =
          (if j = k then stored (snd (invalidate t s k e)) k else stored s j)"
    and invalidate_marker: "fst (invalidate t s k e) \<Longrightarrow> stored (snd (invalidate t s k e)) k = Some st \<Longrightarrow>
          ses_version st = issued s + 1"
    and invalidate_returning: "inv s \<Longrightarrow> unat (issued s) + 1 < 2 ^ 64 \<Longrightarrow> fst (invalidate t s k e) \<Longrightarrow>
          returning (snd (invalidate t s k e)) j \<subseteq> (if j = k then {e} else returning s j)"
    and invalidate_issued: "issued (snd (invalidate t s k e)) = issued s \<or> issued (snd (invalidate t s k e)) = issued s + 1"
    and settle_keeps: "inv s \<Longrightarrow> stored (settle err s) j = Some st \<Longrightarrow> stored s j = Some st \<or> st \<in> returning s j"
    and settle_returning: "inv s \<Longrightarrow> returning (settle err s) j \<subseteq> returning s j"
    and settle_issued: "issued (settle err s) = issued s"
begin

text \<open>Everything that is or may come back under the key is newer than a version.\<close>

definition newer :: "nat \<Rightarrow> 's \<Rightarrow> 'k \<Rightarrow> bool" where
  "newer v s k \<longleftrightarrow> v \<le> unat (issued s) \<and>
     (\<forall>st. stored s k = Some st \<or> st \<in> returning s k \<longrightarrow> v < unat (ses_version st))"

abbreviation step :: "'k session_op \<Rightarrow> 's \<Rightarrow> 's" where
  "step \<equiv> run_session_op load save invalidate settle"

lemma unat_next: "unat (issued s) + 1 < 2 ^ 64 \<Longrightarrow> unat (issued s + 1) = unat (issued s) + 1"
  by (simp add: unat_word_ariths)

lemma step_issued:
  assumes "inv s" and "unat (issued s) + 1 < 2 ^ 64"
  shows "unat (issued s) \<le> unat (issued (step op s))" "unat (issued (step op s)) \<le> unat (issued s) + 1"
proof -
  have "issued (step op s) = issued s \<or> issued (step op s) = issued s + 1"
    using load_issued save_issued [OF assms(1)] invalidate_issued settle_issued by (cases op) auto
  with unat_next [OF assms(2)] show "unat (issued s) \<le> unat (issued (step op s))"
    "unat (issued (step op s)) \<le> unat (issued s) + 1" by auto
qed

lemma save_newer:
  assumes "inv s" and "unat (issued s) + 1 < 2 ^ 64" and "v \<le> unat (issued s)"
  shows "newer v (snd (save t s k st)) k"
proof -
  obtain st' where "stored (snd (save t s k st)) k = Some st'" "ses_version st' = issued s + 1"
    using save_stored [OF assms(1)] by blast
  moreover have "returning (snd (save t s k st)) k = {}"
    using save_returning [OF assms(1,2), of t k st k] by simp
  ultimately show ?thesis
    using assms(3) unat_next [OF assms(2)] by (simp add: newer_def save_issued [OF assms(1)])
qed

lemma step_newer:
  assumes "inv s" and "unat (issued s) + 1 < 2 ^ 64" and "newer v s k"
  shows "newer v (step op s) k"
proof (cases op)
  case (OpLoad t j)
  with assms(3) show ?thesis
    using load_keeps [of t s j k] load_returning [of t s j k] by (auto simp: newer_def load_issued)
next
  case (OpSave t j st)
  show ?thesis
  proof (cases "j = k")
    case True
    with OpSave assms save_newer show ?thesis by (simp add: newer_def)
  next
    case False
    with OpSave assms(3) show ?thesis
      using save_keeps [OF assms(1), of k j t st] save_returning [OF assms(1,2), of t j st k] unat_next [OF assms(2)]
      by (auto simp: newer_def save_issued [OF assms(1)])
  qed
next
  case (OpInvalidate t j e)
  have issued: "v \<le> unat (issued (snd (invalidate t s j e)))"
    using assms(3) step_issued(1) [OF assms(1,2), of op] OpInvalidate by (simp add: newer_def)
  show ?thesis
  proof (cases "fst (invalidate t s j e)")
    case False
    with OpInvalidate assms(3) issued show ?thesis
      using invalidate_refused [OF False] by (simp add: newer_def)
  next
    case True
    have marker: "v < unat (ses_version st)" if "stored (snd (invalidate t s j e)) j = Some st" for st
      using invalidate_marker [OF True that] unat_next [OF assms(2)] assms(3) by (simp add: newer_def)
    show ?thesis
    proof (cases "j = k")
      case True
      with OpInvalidate assms(3) issued marker show ?thesis
        using invalidate_returning [OF assms(1,2) \<open>fst (invalidate t s j e)\<close>, of k]
          invalidate_expected [OF \<open>fst (invalidate t s j e)\<close>]
        by (auto simp: newer_def)
    next
      case False
      with OpInvalidate assms(3) issued show ?thesis
        using invalidate_returning [OF assms(1,2) True, of k] invalidate_stored [OF True, of k]
        by (auto simp: newer_def)
    qed
  qed
next
  case (OpSettle e)
  with assms(3) show ?thesis
    using settle_keeps [OF assms(1), of e k] settle_returning [OF assms(1), of e k]
    by (auto simp: newer_def settle_issued)
qed

text \<open>
  The session that a failed attempt loaded cannot be used to invalidate what a later save stored,
  whatever else the store served in between.
\<close>

lemma run_newer:
  assumes "inv s" and "unat (issued s) + length ops < 2 ^ 64"
  shows "inv (fold step ops s)" "unat (issued s) \<le> unat (issued (fold step ops s))"
    "unat (issued (fold step ops s)) \<le> unat (issued s) + length ops"
    "newer v s k \<Longrightarrow> newer v (fold step ops s) k"
proof -
  have "inv (fold step ops s) \<and> unat (issued s) \<le> unat (issued (fold step ops s)) \<and>
      unat (issued (fold step ops s)) \<le> unat (issued s) + length ops \<and> (newer v s k \<longrightarrow> newer v (fold step ops s) k)"
    using assms
  proof (induction ops arbitrary: s)
    case (Cons op ops)
    then have room: "unat (issued s) + 1 < 2 ^ 64" by simp
    note steps = step_issued [OF Cons.prems(1) room, of op]
    have "inv (step op s)" by (rule run_inv [OF Cons.prems(1) room])
    moreover from steps Cons.prems(2) have "unat (issued (step op s)) + length ops < 2 ^ 64" by simp
    ultimately show ?case
      using Cons.IH [of "step op s"] steps step_newer [OF Cons.prems(1) room] by fastforce
  qed simp
  then show "inv (fold step ops s)" "unat (issued s) \<le> unat (issued (fold step ops s))"
    "unat (issued (fold step ops s)) \<le> unat (issued s) + length ops"
    "newer v s k \<Longrightarrow> newer v (fold step ops s) k" by simp_all
qed

lemma stale_invalidation_refused:
  assumes "inv s" and "load t0 s k = (Some old, s0)"
    and "s1 = snd (save t1 (fold step ops (snd (load t0 s k))) k new)" and "s2 = fold step ops' s1"
    and "unat (issued s) + length ops + length ops' + 1 < 2 ^ 64"
  shows "\<not> fst (invalidate t2 s2 k old) \<and> stored (snd (invalidate t2 s2 k old)) k = stored s2 k"
proof -
  let ?s0 = "snd (load t0 s k)" and ?m = "fold step ops (snd (load t0 s k))"
  have old: "unat (ses_version old) \<le> unat (issued s)"
    by (rule stored_issued [OF assms(1) load_stored [OF assms(2)]])
  have inv0: "inv ?s0" using run_inv [OF assms(1), of "OpLoad t0 k"] assms(5) by simp
  have iss0: "issued ?s0 = issued s" by (rule load_issued)
  note mid = run_newer [OF inv0, of ops] 
  have m: "inv ?m" "unat (issued s) \<le> unat (issued ?m)" "unat (issued ?m) \<le> unat (issued s) + length ops"
    using mid assms(5) by (simp_all add: iss0)
  have room: "unat (issued ?m) + 1 < 2 ^ 64" using m(3) assms(5) by linarith
  have "newer (unat (issued s)) s1 k"
    unfolding assms(3) by (rule save_newer [OF m(1) room m(2)])
  moreover have "inv s1"
    using run_inv [OF m(1) room, of "OpSave t1 k new"] by (simp add: assms(3))
  moreover have "unat (issued s1) + length ops' < 2 ^ 64"
    using m(3) assms(5) unat_next [OF room] by (simp add: assms(3) save_issued [OF m(1)])
  ultimately have fresh: "newer (unat (issued s)) s2 k"
    unfolding assms(4) by (intro run_newer(4))
  have refused: "\<not> fst (invalidate t2 s2 k old)"
  proof
    assume "fst (invalidate t2 s2 k old)"
    from invalidate_expected [OF this] fresh old show False by (auto simp: newer_def)
  qed
  with invalidate_refused [OF refused] show ?thesis by simp
qed

end

section \<open>The in-memory store keeps the contract\<close>

definition memory_inv :: "memory_store \<Rightarrow> bool" where
  "memory_inv s \<longleftrightarrow> gm_wf (ms_entries s) \<and>
     (\<forall>k st. gm_get (ms_entries s) k = Some st \<longrightarrow> unat (ses_version st) \<le> unat (ms_version s))"

lemma memory_op_inv:
  assumes "memory_inv s" and "unat (ms_version s) + 1 < 2 ^ 64"
  shows "memory_inv (run_session_op memory_load_key (\<lambda>t s k st. (True, memory_save_key t s k st))
    (\<lambda>t. memory_invalidate_key) (\<lambda>e s. s) op s)"
proof (cases op)
  case (OpLoad t k)
  with assms show ?thesis
    by (auto simp: memory_load_key_def memory_inv_def gomap_simps split: option.split)
next
  case (OpSave t k st)
  have "unat (ms_version s + 1) = unat (ms_version s) + 1" using assms(2) by (simp add: unat_word_ariths)
  with OpSave assms show ?thesis
    by (fastforce simp: memory_save_key_def Let_def memory_inv_def gomap_simps)
qed (use assms in \<open>auto simp: memory_invalidate_key_def memory_inv_def gomap_simps\<close>)

interpretation memory: session_contract "\<lambda>s. gm_get (ms_entries s)" "\<lambda>s k. {}" ms_version memory_inv memory_load_key
  "\<lambda>t s k st. (True, memory_save_key t s k st)" "\<lambda>t. memory_invalidate_key" "\<lambda>e s. s"
proof (unfold_locales, goal_cases)
  case (2 s op)
  then show ?case by (rule memory_op_inv)
qed (auto simp: memory_inv_def memory_load_key_def memory_save_key_def memory_invalidate_key_def Let_def gomap_simps
      split: option.splits if_splits)

section \<open>Updates of a response\<close>

text \<open>
  The private side channel of a decoder collects session states until it is closed and publishes them
  as at most one reset and one merged state. Once closed or failed it stays so.
\<close>

record session_updates =
  su_closed :: bool
  su_changed :: bool
  su_reset :: bool
  su_state :: session_state
  su_err :: "session_error option"

definition new_session_updates :: session_updates where
  "new_session_updates =
     \<lparr>su_closed = False, su_changed = False, su_reset = False, su_state = zero_session, su_err = None\<rparr>"

definition capture_session :: "session_error option \<Rightarrow> session_state \<Rightarrow> session_updates \<Rightarrow> session_updates" where
  "capture_session ctx st u =
     (if su_closed u \<or> su_err u \<noteq> None then u
      else case ctx of
             Some e \<Rightarrow> u\<lparr>su_err := Some e\<rparr>
           | None \<Rightarrow>
               if validate_session_state st \<noteq> None
               then u\<lparr>su_err := Some (SessionInvalid ''provider emitted invalid private session state'')\<rparr>
               else if empty_session_state st then u\<lparr>su_changed := True, su_state := zero_session, su_reset := True\<rparr>
               else u\<lparr>su_changed := True, su_state := merge_session_state (su_state u) st\<rparr>)"

text \<open>Returns the error and the states given to \<open>publish\<close>, in order.\<close>

definition finish_session_updates ::
  "bool \<Rightarrow> bool \<Rightarrow> session_updates \<Rightarrow> session_error option \<times> session_state list \<times> session_updates" where
  "finish_session_updates has_publish accept u =
     (let u' = u\<lparr>su_closed := True\<rparr>
      in case su_err u of
           Some e \<Rightarrow> (Some e, [], u')
         | None \<Rightarrow>
             (None,
              if accept \<and> su_changed u \<and> has_publish
              then (if su_reset u then [zero_session] else []) @
                   (if empty_session_state (su_state u) then [] else [su_state u])
              else [], u'))"

text \<open>What the kernel does with a published state (\<open>OnSessionState\<close>).\<close>

definition apply_session_update :: "session_state \<Rightarrow> session_state \<Rightarrow> session_state" where
  "apply_session_update current st =
     (if validate_session_state st \<noteq> None then current
      else if empty_session_state st then zero_session else merge_session_state current st)"

section \<open>Using a session\<close>

definition request_session_key :: "request \<Rightarrow> string" where
  "request_session_key q = (if sx_id (rq_session q) \<noteq> [] then sx_id (rq_session q) else sx_conversation (rq_session q))"

text \<open>
  \<open>loaded\<close> is what the session store of the route returns, if there is one. The result is the session
  state, whether one was loaded, and the request with the continuation filled in.
\<close>

definition restore_candidate_session ::
  "proof_codec \<Rightarrow> (session_error + session_state option) option \<Rightarrow> route \<Rightarrow> request \<Rightarrow>
   session_error + session_state \<times> bool \<times> request" where
  "restore_candidate_session C loaded r q =
     (let found =
        (if request_session_key q = [] \<or> ref_id (rt_session_store_ref r) = [] then Inr None
         else case loaded of
                None \<Rightarrow> Inl SessionStateUnavailable
              | Some (Inl e) \<Rightarrow> Inl SessionStateUnavailable
              | Some (Inr None) \<Rightarrow> Inr None
              | Some (Inr (Some saved)) \<Rightarrow>
                  if ses_version saved = 0 then Inl SessionStateUnavailable else Inr (Some saved))
      in case found of
           Inl e \<Rightarrow> Inl e
         | Inr state \<Rightarrow>
             let q1 = (case state of
                         None \<Rightarrow> q
                       | Some saved \<Rightarrow>
                           q\<lparr>rq_session := (rq_session q)\<lparr>sx_provider_state := ses_data saved\<rparr>,
                             rq_continuity := (if cn_previous_response (rq_continuity q) = []
                               then (rq_continuity q)\<lparr>cn_previous_response := ses_response_id saved\<rparr>
                               else rq_continuity q)\<rparr>);
                 st = (case state of None \<Rightarrow> zero_session | Some saved \<Rightarrow> saved);
                 q2 = (if request_has_tool_signature (rq_messages q1)
                       then attest_tool_call_signatures C q1 (ses_signatures st) (rt_definition_ref r) else q1)
             in Inr (st, state \<noteq> None, q2))"

definition valid_continuity_recovery :: "classified_outcome \<Rightarrow> upstream_effect \<Rightarrow> bool" where
  "valid_continuity_recovery oc effect \<longleftrightarrow>
     oc_continuity oc = ContinuityRecoveryInvalidate \<and> oc_cause oc = CauseContinuityInvalid \<and>
     oc_effect oc = effect \<and> oc_scope oc = ScopeRequest \<and> oc_class oc = ErrorTerminal \<and>
     oc_retry oc = RetryNever \<and> recovery_effective (oc_recovery oc) = CredentialRecoveryNone \<and>
     is_zero (oc_retry_at oc) \<and> oc_limits oc = [] \<and>
     (oc_client_failure oc = no_client_failure \<or> client_failure_valid (oc_client_failure oc))"

text \<open>Whether the loaded session has to be invalidated in the store.\<close>

definition invalidates_continuity :: "request \<Rightarrow> session_state \<Rightarrow> bool \<Rightarrow> bool" where
  "invalidates_continuity q saved loaded \<longleftrightarrow>
     loaded \<and> \<not> empty_session_state saved \<and>
     \<not> (ses_response_id saved \<noteq> [] \<and> ses_response_id saved \<noteq> cn_previous_response (rq_continuity q))"

text \<open>
  \<open>store\<close> is the invalidation in the session store of the route, if there is one, and \<open>ctx\<close> the context
  read after it failed.
\<close>

definition invalidate_loaded_continuity ::
  "(session_state \<Rightarrow> session_error + bool) option \<Rightarrow> session_error option \<Rightarrow> request \<Rightarrow> session_state \<Rightarrow> bool \<Rightarrow>
   session_error option" where
  "invalidate_loaded_continuity store ctx q saved loaded =
     (if \<not> invalidates_continuity q saved loaded then None
      else case store of
             None \<Rightarrow> Some SessionStateUnavailable
           | Some invalidate \<Rightarrow>
               (case invalidate saved of
                  Inr _ \<Rightarrow> None
                | Inl _ \<Rightarrow> Some (case ctx of Some e \<Rightarrow> e | None \<Rightarrow> SessionStateUnavailable)))"

section \<open>Properties\<close>

lemma validate_session_state_ok:
  "validate_session_state s = None \<longleftrightarrow>
     length (ses_response_id s) \<le> 4096 \<and> length (ses_data s) \<le> 64 * 1024 \<and>
     (ses_data s = [] \<or> json_valid (ses_data s)) \<and> length (ses_signatures s) \<le> max_signature_proofs \<and>
     (\<forall>p \<in> set (ses_signatures s). validate_signature_proof p = None)"
  by (auto simp: validate_session_state_def not_less first_error_None)

lemma merge_session_state_valid:
  "validate_session_state a = None \<Longrightarrow> validate_session_state b = None \<Longrightarrow>
   validate_session_state (merge_session_state a b) = None"
  by (auto simp: validate_session_state_ok merge_session_state_def)

lemma merge_session_state_assoc:
  "merge_session_state (merge_session_state s a) b = merge_session_state s (merge_session_state a b)"
  by (simp add: merge_session_state_def)

lemma merge_zero_session [simp]: "merge_session_state s zero_session = s"
  by (simp add: merge_session_state_def zero_session_def is_zero_def)

lemma zero_session_valid [simp]: "validate_session_state zero_session = None" "empty_session_state zero_session"
  by (simp_all add: validate_session_state_ok zero_session_def empty_session_state_def no_continuation_def is_zero_def)

lemma merge_empty_session: "empty_session_state b \<Longrightarrow> merge_session_state s b = s"
  by (simp add: merge_session_state_def empty_session_state_def no_continuation_def)

text \<open>What an open collection will publish, applied to a state.\<close>

definition collected :: "session_updates \<Rightarrow> session_state \<Rightarrow> session_state" where
  "collected u s = merge_session_state (if su_reset u then zero_session else s) (su_state u)"

lemma capture_session_collects:
  assumes "su_err u = None" and "\<not> su_closed u" and "validate_session_state (su_state u) = None"
    and "su_err (capture_session ctx st u) = None"
  shows "collected (capture_session ctx st u) s = apply_session_update (collected u s) st \<and>
    \<not> su_closed (capture_session ctx st u) \<and> su_changed (capture_session ctx st u) \<and>
    validate_session_state (su_state (capture_session ctx st u)) = None"
  using assms
  by (auto simp: capture_session_def collected_def apply_session_update_def merge_session_state_assoc
      merge_session_state_valid split: option.splits if_splits)

lemma capture_session_err: "su_err u = Some e \<Longrightarrow> su_err (fold (\<lambda>(ctx, st). capture_session ctx st) cs u) = Some e"
  by (induction cs arbitrary: u) (auto simp: capture_session_def)

lemma capture_all_collects:
  assumes "su_err u = None" and "\<not> su_closed u" and "validate_session_state (su_state u) = None"
    and "su_err (fold (\<lambda>(ctx, st). capture_session ctx st) cs u) = None"
  shows "collected (fold (\<lambda>(ctx, st). capture_session ctx st) cs u) s =
      fold (\<lambda>(ctx, st) s. apply_session_update s st) cs (collected u s) \<and>
    su_changed (fold (\<lambda>(ctx, st). capture_session ctx st) cs u) = (su_changed u \<or> cs \<noteq> []) \<and>
    validate_session_state (su_state (fold (\<lambda>(ctx, st). capture_session ctx st) cs u)) = None"
  using assms
proof (induction cs arbitrary: u)
  case (Cons c cs)
  obtain ctx st where c: "c = (ctx, st)" by fastforce
  have err: "su_err (capture_session ctx st u) = None"
    using Cons.prems(4) capture_session_err [of "capture_session ctx st u" _ cs] by (fastforce simp: c)
  note step = capture_session_collects [OF Cons.prems(1-3) err]
  show ?case
    using Cons.IH [OF err] step Cons.prems(4) by (simp add: c)
qed simp

text \<open>
  C31. The decoder's side channel loses nothing and adds nothing: when collection did not fail, applying
  the states that are published at the end is applying every captured state in turn, resets included;
  when it failed, nothing is published.
\<close>
theorem session_updates_equivalent:
  "case finish_session_updates True True (fold (\<lambda>(ctx, st). capture_session ctx st) cs new_session_updates) of
     (Some e, published, _) \<Rightarrow> published = []
   | (None, published, _) \<Rightarrow>
       fold (\<lambda>st s. apply_session_update s st) published s = fold (\<lambda>(ctx, st) s. apply_session_update s st) cs s"
proof -
  define u where "u = fold (\<lambda>(ctx, st). capture_session ctx st) cs new_session_updates"
  show ?thesis
  proof (cases "su_err u")
    case (Some e)
    then show ?thesis by (simp add: finish_session_updates_def Let_def flip: u_def)
  next
    case None
    have all: "collected u s = fold (\<lambda>(ctx, st) s. apply_session_update s st) cs s"
      "su_changed u = (cs \<noteq> [])" "validate_session_state (su_state u) = None"
      using capture_all_collects [of new_session_updates cs s] None unfolding u_def [symmetric]
      by (simp_all add: new_session_updates_def collected_def)
    have zero: "apply_session_update s zero_session = zero_session" by (simp add: apply_session_update_def)
    show ?thesis
    proof (cases "cs = []")
      case True
      then show ?thesis by (simp add: finish_session_updates_def new_session_updates_def Let_def)
    next
      case False
      with all None zero show ?thesis
        by (auto simp: finish_session_updates_def Let_def collected_def apply_session_update_def
            merge_empty_session simp flip: u_def)
    qed
  qed
qed

lemma session_store_key_value:
  assumes "session_store_key_for r sid = Inr k"
  shows "ref_kind (rt_definition_ref r) = provider_definition_kind" "ref_kind (rt_session_operation_ref r) = operation_kind"
    "k = \<lparr>sk_connection = rt_credential_id r, sk_definition = ref_key (rt_definition_ref r),
          sk_operation = ref_key (rt_session_operation_ref r), sk_model = rt_external_model r,
          sk_session = sid, sk_principal = gen_connection (rt_health_generation r), sk_endpoint = rt_base_url r\<rparr>"
  using assms by (simp_all add: session_store_key_for_def split: if_splits)

text \<open>
  Session isolation: two sessions share a store key only if they agree on connection, provider
  definition, operation, source model, client session, principal generation and endpoint.
\<close>
theorem session_key_isolates:
  assumes "session_store_key_for r sid = Inr k" and "session_store_key_for r' sid' = Inr k"
  shows "sid = sid' \<and> rt_credential_id r = rt_credential_id r' \<and> rt_definition_ref r = rt_definition_ref r' \<and>
    rt_session_operation_ref r = rt_session_operation_ref r' \<and> rt_external_model r = rt_external_model r' \<and>
    rt_base_url r = rt_base_url r' \<and>
    gen_connection (rt_health_generation r) = gen_connection (rt_health_generation r')"
  using session_store_key_value [OF assms(1)] session_store_key_value [OF assms(2)]
    ref_key_inject [of "rt_definition_ref r" "rt_definition_ref r'"]
    ref_key_inject [of "rt_session_operation_ref r" "rt_session_operation_ref r'"]
  by simp

definition session_route :: "string \<Rightarrow> route" where
  "session_route c = zero_route\<lparr>rt_credential_id := c, rt_external_model := ''m'', rt_definition_ref := example_issuer,
     rt_session_operation_ref := mk_ref ''operation'' ''chat.generate'' 1,
     rt_health_generation := zero_generation\<lparr>gen_connection := ''g''\<rparr>\<rparr>"

lemma session_route_key:
  "session_store_key_for (session_route c) ''s'' = (if c = [] then Inl (SessionInvalid
      ''connection, principal generation, physical source model and session IDs are required'')
   else Inr \<lparr>sk_connection = c, sk_definition = ref_key example_issuer,
     sk_operation = ref_key (mk_ref ''operation'' ''chat.generate'' 1), sk_model = ''m'', sk_session = ''s'',
     sk_principal = ''g'', sk_endpoint = []\<rparr>)"
proof -
  have "ref_ok (mk_ref ''operation'' ''chat.generate'' 1)" by code_simp
  with example_issuer_ok show ?thesis
    by (simp add: session_store_key_for_def session_route_def zero_route_def operation_kind_def mk_ref_def)
qed

lemma session_key_isolates_witness:
  "rt_definition_ref (session_route ''c'') = rt_definition_ref (session_route ''c'' \<lparr>rt_id := ''x''\<rparr>)"
proof -
  have key: "session_store_key_for (session_route ''c'' \<lparr>rt_id := ''x''\<rparr>) ''s'' = session_store_key_for (session_route ''c'') ''s''"
    by (simp add: session_store_key_for_def)
  obtain k where k: "session_store_key_for (session_route ''c'') ''s'' = Inr k"
    by (simp add: session_route_key)
  from session_key_isolates [OF k] key k show ?thesis by metis
qed

text \<open>
  A session that a failed attempt loaded cannot invalidate what a later success saved under the
  same key, whatever calls the store served before and after that save: the invalidation is refused and
  the newer session stays.
\<close>
theorem memory_invalidation_fenced:
  fixes run defines "run \<equiv> fold (run_session_op memory_load_key (\<lambda>t s k st. (True, memory_save_key t s k st))
      (\<lambda>t. memory_invalidate_key) (\<lambda>e s. s))"
  assumes "memory_inv s" and "memory_load_key t0 s k = (Some old, s0)"
    and "s2 = run ops' (memory_save_key t1 (run ops s0) k new)"
    and "unat (ms_version s) + length ops + length ops' + 1 < 2 ^ 64"
  shows "memory_invalidate_key s2 k old = (False, s2)"
proof -
  have "s0 = snd (memory_load_key t0 s k)" using assms(3) by simp
  with assms(4) have "s2 = fold memory.step ops' (snd (True, memory_save_key t1 (fold memory.step ops (snd (memory_load_key t0 s k))) k new))"
    by (simp add: run_def)
  from memory.stale_invalidation_refused [OF assms(2,3) refl this assms(5)]
  have "\<not> fst (memory_invalidate_key s2 k old)" by blast
  then show ?thesis by (auto simp: memory_invalidate_key_def split: if_splits)
qed

lemma memory_invalidation_fenced_witness:
  "let k = \<lparr>sk_connection = ''c'', sk_definition = [], sk_operation = [], sk_model = ''m'', sk_session = ''s'',
            sk_principal = [], sk_endpoint = []\<rparr>;
       st = zero_session\<lparr>ses_response_id := ''r1''\<rparr>;
       s = memory_save_key 10 new_memory_store k st;
       old = st\<lparr>ses_expires_at := 10 + 24 * hour, ses_version := 1\<rparr>;
       s2 = memory_save_key 30 s k (zero_session\<lparr>ses_response_id := ''r2''\<rparr>)
   in memory_invalidate_key s2 k old = (False, s2)"
proof -
  let ?k = "\<lparr>sk_connection = ''c'', sk_definition = [], sk_operation = [], sk_model = ''m'', sk_session = ''s'',
            sk_principal = [], sk_endpoint = []\<rparr>"
  let ?s = "memory_save_key 10 new_memory_store ?k (zero_session\<lparr>ses_response_id := ''r1''\<rparr>)"
  have inv: "memory_inv ?s"
    by (auto simp: memory_inv_def memory_save_key_def new_memory_store_def Let_def gm_wf_def)
  have load: "memory_load_key 20 ?s ?k =
      (Some (zero_session\<lparr>ses_response_id := ''r1'', ses_expires_at := 10 + 24 * hour, ses_version := 1\<rparr>), ?s)"
    by (simp add: memory_load_key_def memory_save_key_def new_memory_store_def Let_def cap_expiry_def zero_session_def
        expired_def time_defs duration_units)
  have room: "unat (ms_version ?s) + length ([] :: session_key session_op list) +
      length ([] :: session_key session_op list) + 1 < 2 ^ 64"
    by (simp add: memory_save_key_def new_memory_store_def Let_def)
  show ?thesis
    using memory_invalidation_fenced [OF inv load _ room, of _ 30 "zero_session\<lparr>ses_response_id := ''r2''\<rparr>"]
    by (simp add: Let_def)
qed

end
