(* ===== verification/SessionCache.thy ===== *)
theory SessionCache
  imports Sessions "HOL-Library.Product_Lexorder"
begin

text \<open>
  The durable session cache of the daemon (\<open>internal/runtime/sessionstore/cache.go\<close> and
  \<open>preload.go\<close>): entries in memory, a bounded queue of writes to the repository, and the invalidation
  that waits for its tombstone to be persisted.

  The encoded namespace of a route is a parameter (\<open>encoding/json\<close> on a struct). Times that the code
  formats and parses as RFC 3339 with nanoseconds are the times; a text that does not parse is \<open>None\<close>.
  A call holds the cache's lock, so it is one step; the worker's step is \<open>cache_settle\<close>.
\<close>

section \<open>State\<close>

record cache_key =
  ck_connection :: string
  ck_namespace :: string
  ck_session :: string

record cache_entry =
  ce_state :: session_state
  ce_updated_at :: go_time

record provider_session =
  pr_connection :: string
  pr_namespace :: string
  pr_session :: string
  pr_state :: session_state
  pr_expires_at :: "go_time option"
  pr_last_used :: "go_time option"

text \<open>\<open>completed\<close> of an invalidation: its key, its marker and the entry it replaced.\<close>

record cache_write =
  cw_row :: provider_session
  cw_completed :: "(cache_key \<times> cache_entry \<times> cache_entry) option"

record session_cache =
  sc_entries :: "(cache_key, cache_entry) gomap"
  sc_writes :: "cache_write list"
  sc_ttl :: duration
  sc_max :: nat
  sc_received :: "64 word"
  sc_persisted :: "64 word"
  sc_failed :: "64 word"
  sc_discarded :: "64 word"
  sc_dropped :: "64 word"
  sc_version :: "64 word"

definition write_queue_limit :: nat where
  "write_queue_limit = 1024"

definition empty_cache :: session_cache where
  "empty_cache =
     \<lparr>sc_entries = [], sc_writes = [], sc_ttl = 24 * hour, sc_max = 16384, sc_received = 0, sc_persisted = 0,
      sc_failed = 0, sc_discarded = 0, sc_dropped = 0, sc_version = 0\<rparr>"

definition cache_make_key :: "(session_namespace \<Rightarrow> string) \<Rightarrow> route \<Rightarrow> string \<Rightarrow> session_error + cache_key" where
  "cache_make_key enc r sid =
     (if rt_credential_id r = [] \<or> rt_external_model r = [] \<or> sid = []
      then Inl (SessionInvalid ''connection, physical source model and session IDs are required'')
      else case session_store_key_for r sid of
             Inl e \<Rightarrow> Inl e
           | Inr k \<Rightarrow>
               (case session_namespace_for r of
                  Inl e \<Rightarrow> Inl e
                | Inr n \<Rightarrow>
                    Inr \<lparr>ck_connection = sk_connection k, ck_namespace = enc n, ck_session = sk_session k\<rparr>))"

section \<open>Reading and writing\<close>

definition cache_load_key :: "go_time \<Rightarrow> session_cache \<Rightarrow> cache_key \<Rightarrow> session_state option \<times> session_cache" where
  "cache_load_key now c k =
     (case gm_get (sc_entries c) k of
        None \<Rightarrow> (None, c)
      | Some e \<Rightarrow>
          if expired (ce_state e) now then (None, c\<lparr>sc_entries := gm_del k (sc_entries c)\<rparr>)
          else if no_continuation (ce_state e) then (None, c)
          else (Some (ce_state e), c))"

text \<open>
  One pass over the map: expired entries go, the oldest of the others is remembered (the first of equal
  ages) and goes too when the map is still full. A zero time is never the oldest one that is deleted.
\<close>

definition oldest_entry :: "(cache_key, cache_entry) gomap \<Rightarrow> cache_key \<times> go_time" where
  "oldest_entry m =
     foldl (\<lambda>(k, t) (j, e). if is_zero t \<or> before (ce_updated_at e) t then (j, ce_updated_at e) else (k, t))
       (\<lparr>ck_connection = [], ck_namespace = [], ck_session = []\<rparr>, 0) m"

definition cache_evict :: "go_time \<Rightarrow> session_cache \<Rightarrow> session_cache" where
  "cache_evict now c =
     (let live = filter (\<lambda>(_, e). \<not> expired (ce_state e) now) (sc_entries c)
      in case oldest_entry live of
           (k, t) \<Rightarrow>
             c\<lparr>sc_entries := (if sc_max c \<le> length live \<and> \<not> is_zero t then gm_del k live else live)\<rparr>)"

definition make_row :: "cache_key \<Rightarrow> session_state \<Rightarrow> go_time \<Rightarrow> provider_session" where
  "make_row k st now =
     \<lparr>pr_connection = ck_connection k, pr_namespace = ck_namespace k, pr_session = ck_session k, pr_state = st,
      pr_expires_at = Some (ses_expires_at st), pr_last_used = Some now\<rparr>"

text \<open>
  A state that is already expired is saved as a clear marker. Returns whether the write was queued; the
  entry is live either way, and a full queue notifies the failure observer.
\<close>

definition saved_state :: "go_time \<Rightarrow> duration \<Rightarrow> session_state \<Rightarrow> session_state" where
  "saved_state now ttl st =
     (let limit = time_add now ttl;
          st1 = (if expired st now then zero_session\<lparr>ses_expires_at := limit\<rparr> else st)
      in cap_expiry limit st1)"

definition cache_save_key :: "go_time \<Rightarrow> session_cache \<Rightarrow> cache_key \<Rightarrow> session_state \<Rightarrow> bool \<times> session_cache" where
  "cache_save_key now c k st =
     (let v = sc_version c + 1;
          st' = (saved_state now (sc_ttl c) st)\<lparr>ses_version := v\<rparr>;
          c1 = c\<lparr>sc_version := v\<rparr>;
          c2 = (if \<not> gm_has (sc_entries c) k \<and> sc_max c \<le> length (sc_entries c) then cache_evict now c1 else c1);
          c3 = c2\<lparr>sc_entries := gm_put k \<lparr>ce_state = st', ce_updated_at = now\<rparr> (sc_entries c2)\<rparr>
      in if length (sc_writes c3) < write_queue_limit
         then (True, c3\<lparr>sc_writes := sc_writes c3 @ [\<lparr>cw_row = make_row k st' now, cw_completed = None\<rparr>]\<rparr>)
         else (False, c3\<lparr>sc_dropped := sc_dropped c3 + 1\<rparr>))"

section \<open>Invalidation\<close>

datatype invalidation = InvalidationRefused | InvalidationQueueFull | InvalidationPending

definition cache_invalidate_begin ::
  "go_time \<Rightarrow> session_cache \<Rightarrow> cache_key \<Rightarrow> session_state \<Rightarrow> invalidation \<times> session_cache" where
  "cache_invalidate_begin now c k expected =
     (case gm_get (sc_entries c) k of
        None \<Rightarrow> (InvalidationRefused, c)
      | Some current \<Rightarrow>
          if ce_state current \<noteq> expected then (InvalidationRefused, c)
          else let v = sc_version c + 1;
                   tombstone = zero_session\<lparr>ses_expires_at := time_add now (sc_ttl c), ses_version := v\<rparr>;
                   marker = \<lparr>ce_state = tombstone, ce_updated_at = now\<rparr>;
                   c1 = c\<lparr>sc_version := v\<rparr>
               in if length (sc_writes c1) < write_queue_limit
                  then (InvalidationPending,
                        c1\<lparr>sc_writes := sc_writes c1 @
                             [\<lparr>cw_row = make_row k tombstone now, cw_completed = Some (k, marker, current)\<rparr>],
                           sc_entries := gm_put k marker (sc_entries c1)\<rparr>)
                  else (InvalidationQueueFull, c1\<lparr>sc_dropped := sc_dropped c1 + 1\<rparr>))"

definition cache_complete ::
  "session_error option \<Rightarrow> (cache_key \<times> cache_entry \<times> cache_entry) option \<Rightarrow> session_cache \<Rightarrow> session_cache" where
  "cache_complete err completed c =
     (case completed of
        None \<Rightarrow> c
      | Some (k, marker, current) \<Rightarrow>
          if gm_get (sc_entries c) k = Some marker
          then c\<lparr>sc_entries := (if err \<noteq> None then gm_put k current (sc_entries c) else gm_del k (sc_entries c))\<rparr>
          else c)"

text \<open>The worker takes the head of the queue; \<open>err\<close> is what the repository answered.\<close>

definition cache_persist :: "session_error option \<Rightarrow> cache_write \<Rightarrow> session_cache \<Rightarrow> session_cache" where
  "cache_persist err w c =
     (let c1 = c\<lparr>sc_received := sc_received c + 1\<rparr>;
          c2 = (case err of
                  None \<Rightarrow> c1\<lparr>sc_persisted := sc_persisted c1 + 1\<rparr>
                | Some SessionStateSuperseded \<Rightarrow> c1\<lparr>sc_discarded := sc_discarded c1 + 1\<rparr>
                | Some _ \<Rightarrow> c1\<lparr>sc_failed := sc_failed c1 + 1\<rparr>)
      in cache_complete err (cw_completed w) c2)"

definition cache_settle :: "session_error option \<Rightarrow> session_cache \<Rightarrow> session_cache" where
  "cache_settle err c =
     (case sc_writes c of [] \<Rightarrow> c | w # ws \<Rightarrow> cache_persist err w (c\<lparr>sc_writes := ws\<rparr>))"

section \<open>The store interface\<close>

definition cache_load ::
  "(session_namespace \<Rightarrow> string) \<Rightarrow> session_error option \<Rightarrow> go_time \<Rightarrow> session_cache \<Rightarrow> route \<Rightarrow> string \<Rightarrow>
   (session_error + session_state option) \<times> session_cache" where
  "cache_load enc ctx now c r sid =
     (case ctx of
        Some e \<Rightarrow> (Inl e, c)
      | None \<Rightarrow>
          (case cache_make_key enc r sid of
             Inl e \<Rightarrow> (Inl e, c)
           | Inr k \<Rightarrow> (case cache_load_key now c k of (st, c') \<Rightarrow> (Inr st, c'))))"

definition cache_save ::
  "(session_namespace \<Rightarrow> string) \<Rightarrow> session_error option \<Rightarrow> go_time \<Rightarrow> session_cache \<Rightarrow> route \<Rightarrow> string \<Rightarrow>
   session_state \<Rightarrow> session_error option \<times> session_cache" where
  "cache_save enc ctx now c r sid st =
     (case ctx of
        Some e \<Rightarrow> (Some e, c)
      | None \<Rightarrow>
          (case cache_make_key enc r sid of
             Inl e \<Rightarrow> (Some e, c)
           | Inr k \<Rightarrow>
               (case validate_session_state st of
                  Some e \<Rightarrow> (Some e, c)
                | None \<Rightarrow>
                    (case cache_save_key now c k st of
                       (ok, c') \<Rightarrow> (if ok then None else Some SessionQueueFull, c')))))"

text \<open>Up to the wait for the persistence; \<open>Inr None\<close> is a pending invalidation.\<close>

definition cache_invalidate ::
  "(session_namespace \<Rightarrow> string) \<Rightarrow> session_error option \<Rightarrow> session_error option \<Rightarrow> go_time \<Rightarrow> session_cache \<Rightarrow> route \<Rightarrow>
   string \<Rightarrow> session_state \<Rightarrow> (session_error + bool option) \<times> session_cache" where
  "cache_invalidate enc ctx ctx' now c r sid expected =
     (case ctx of
        Some e \<Rightarrow> (Inl e, c)
      | None \<Rightarrow>
          (case cache_make_key enc r sid of
             Inl e \<Rightarrow> (Inl e, c)
           | Inr k \<Rightarrow>
               (case ctx' of
                  Some e \<Rightarrow> (Inl e, c)
                | None \<Rightarrow>
                    (case cache_invalidate_begin now c k expected of
                       (InvalidationRefused, c') \<Rightarrow> (Inr (Some False), c')
                     | (InvalidationQueueFull, c') \<Rightarrow> (Inl SessionQueueFull, c')
                     | (InvalidationPending, c') \<Rightarrow> (Inr None, c')))))"

text \<open>What the waiting call returns once its write is acknowledged, or once its context is done.\<close>

definition invalidation_result :: "session_error option \<Rightarrow> session_error + bool" where
  "invalidation_result err = (case err of None \<Rightarrow> Inr True | Some e \<Rightarrow> Inl e)"

section \<open>The cache keeps the contract of a session store\<close>

definition cache_stored :: "session_cache \<Rightarrow> cache_key \<Rightarrow> session_state option" where
  "cache_stored c k = map_option ce_state (gm_get (sc_entries c) k)"

definition completions :: "cache_key \<Rightarrow> cache_write list \<Rightarrow> (cache_entry \<times> cache_entry) list" where
  "completions k ws = List.map_filter (\<lambda>w. case cw_completed w of
     None \<Rightarrow> None | Some (j, m, cur) \<Rightarrow> if j = k then Some (m, cur) else None) ws"

text \<open>The entries that the failures of queued invalidations can put back, in the order of the queue.\<close>

fun restorable :: "cache_entry option \<Rightarrow> (cache_entry \<times> cache_entry) list \<Rightarrow> cache_entry set" where
  "restorable e [] = {}"
| "restorable e ((m, cur) # ws) = (if e = Some m then insert cur (restorable (Some cur) ws) else restorable e ws)"

definition cache_returning :: "session_cache \<Rightarrow> cache_key \<Rightarrow> session_state set" where
  "cache_returning c k = ce_state ` restorable (gm_get (sc_entries c) k) (completions k (sc_writes c))"

definition cache_inv :: "session_cache \<Rightarrow> bool" where
  "cache_inv c \<longleftrightarrow> gm_wf (sc_entries c) \<and>
     (\<forall>k e. gm_get (sc_entries c) k = Some e \<longrightarrow> unat (ses_version (ce_state e)) \<le> unat (sc_version c)) \<and>
     (\<forall>w \<in> set (sc_writes c). \<forall>k m cur. cw_completed w = Some (k, m, cur) \<longrightarrow>
        unat (ses_version (ce_state m)) \<le> unat (sc_version c) \<and> unat (ses_version (ce_state cur)) \<le> unat (sc_version c))"

lemma completions_simps [simp]:
  "completions k [] = []"
  "completions k (w # ws) = (case cw_completed w of
     None \<Rightarrow> completions k ws
   | Some (j, m, cur) \<Rightarrow> if j = k then (m, cur) # completions k ws else completions k ws)"
  "completions k (ws @ vs) = completions k ws @ completions k vs"
  by (simp_all add: completions_def List.map_filter_def split: option.split)

lemma restorable_None [simp]: "restorable None ws = {}"
  by (induction ws) auto

lemma restorable_fresh: "e \<notin> fst ` set ws \<Longrightarrow> restorable (Some e) ws = {}"
  by (induction "Some e" ws rule: restorable.induct) auto

lemma restorable_append: "e \<notin> fst ` set ws \<Longrightarrow> restorable (Some e) (ws @ vs) = restorable (Some e) vs"
  by (induction ws) auto

lemma completions_mem:
  "(m, cur) \<in> set (completions k ws) \<Longrightarrow> \<exists>w \<in> set ws. cw_completed w = Some (k, m, cur)"
  by (induction ws) (auto split: option.splits if_splits)

lemma marker_old:
  assumes "cache_inv c" and "unat (sc_version c) + 1 < 2 ^ 64" and "ses_version (ce_state e) = sc_version c + 1"
  shows "e \<notin> fst ` set (completions k (sc_writes c))"
proof
  assume "e \<in> fst ` set (completions k (sc_writes c))"
  then obtain cur where "(e, cur) \<in> set (completions k (sc_writes c))" by auto
  from completions_mem [OF this] assms(1) have "unat (ses_version (ce_state e)) \<le> unat (sc_version c)"
    by (auto simp: cache_inv_def)
  moreover have "unat (sc_version c + 1) = unat (sc_version c) + 1" using assms(2) by (simp add: unat_word_ariths)
  ultimately show False using assms(3) by simp
qed

lemma cache_evict_get:
  "gm_wf (sc_entries c) \<Longrightarrow> gm_get (sc_entries (cache_evict now c)) k = gm_get (sc_entries c) k \<or>
     gm_get (sc_entries (cache_evict now c)) k = None"
  by (auto simp: cache_evict_def Let_def gm_get_filter gomap_simps split: prod.split option.split)

lemma cache_evict_selectors [simp]:
  "sc_writes (cache_evict now c) = sc_writes c" "sc_version (cache_evict now c) = sc_version c"
  "sc_max (cache_evict now c) = sc_max c" "sc_ttl (cache_evict now c) = sc_ttl c"
  by (simp_all add: cache_evict_def Let_def split: prod.split)

lemma cache_evict_wf [simp]: "gm_wf (sc_entries c) \<Longrightarrow> gm_wf (sc_entries (cache_evict now c))"
  by (simp add: cache_evict_def Let_def split: prod.split)

text \<open>What a save does to the entries and the queue.\<close>

lemma cache_save_effect:
  fixes st now c k
  defines "c' \<equiv> snd (cache_save_key now c k st)"
  defines "e' \<equiv> \<lparr>ce_state = (saved_state now (sc_ttl c) st)\<lparr>ses_version := sc_version c + 1\<rparr>, ce_updated_at = now\<rparr>"
  assumes wf: "gm_wf (sc_entries c)"
  shows "gm_get (sc_entries c') k = Some e'" "sc_version c' = sc_version c + 1"
    "j \<noteq> k \<Longrightarrow> gm_get (sc_entries c') j = gm_get (sc_entries c) j \<or> gm_get (sc_entries c') j = None"
    "completions j (sc_writes c') = completions j (sc_writes c)" "gm_wf (sc_entries c')"
    "w \<in> set (sc_writes c') \<Longrightarrow> w \<in> set (sc_writes c) \<or> cw_completed w = None"
proof -
  define c2 where "c2 = (if \<not> gm_has (sc_entries c) k \<and> sc_max c \<le> length (sc_entries c)
    then cache_evict now (c\<lparr>sc_version := sc_version c + 1\<rparr>) else c\<lparr>sc_version := sc_version c + 1\<rparr>)"
  have c2: "sc_writes c2 = sc_writes c" "sc_version c2 = sc_version c + 1" "gm_wf (sc_entries c2)"
    "gm_get (sc_entries c2) j = gm_get (sc_entries c) j \<or> gm_get (sc_entries c2) j = None"
    using cache_evict_get [of "c\<lparr>sc_version := sc_version c + 1\<rparr>" now j] wf by (simp_all add: c2_def)
  have c': "c' = (if length (sc_writes c) < write_queue_limit
      then c2\<lparr>sc_entries := gm_put k e' (sc_entries c2),
              sc_writes := sc_writes c @ [\<lparr>cw_row = make_row k (ce_state e') now, cw_completed = None\<rparr>]\<rparr>
      else c2\<lparr>sc_entries := gm_put k e' (sc_entries c2), sc_dropped := sc_dropped c2 + 1\<rparr>)"
    unfolding c'_def cache_save_key_def Let_def c2_def [symmetric] e'_def [symmetric]
    using c2(1) by (simp add: e'_def)
  show "gm_get (sc_entries c') k = Some e'" "sc_version c' = sc_version c + 1" "gm_wf (sc_entries c')"
    "completions j (sc_writes c') = completions j (sc_writes c)"
    using c2 by (simp_all add: c' gomap_simps)
  show "j \<noteq> k \<Longrightarrow> gm_get (sc_entries c') j = gm_get (sc_entries c) j \<or> gm_get (sc_entries c') j = None"
    using c2(4) by (simp add: c' gomap_simps)
  show "w \<in> set (sc_writes c') \<Longrightarrow> w \<in> set (sc_writes c) \<or> cw_completed w = None"
    using c2(1) by (auto simp: c' split: if_splits)
qed

lemma cache_load_get:
  "gm_get (sc_entries (snd (cache_load_key t c k))) j = gm_get (sc_entries c) j \<or>
     gm_get (sc_entries (snd (cache_load_key t c k))) j = None"
  "sc_writes (snd (cache_load_key t c k)) = sc_writes c" "sc_version (snd (cache_load_key t c k)) = sc_version c"
  by (auto simp: cache_load_key_def gomap_simps split: option.split)

lemma cache_load_some: "cache_load_key t c k = (Some st, c') \<Longrightarrow> cache_stored c k = Some st"
  by (auto simp: cache_load_key_def cache_stored_def split: option.splits if_splits)

lemma cache_load_inv: "cache_inv c \<Longrightarrow> cache_inv (snd (cache_load_key t c k))"
  by (auto simp: cache_load_key_def cache_inv_def gomap_simps split: option.split)

lemma version_next: "unat (v :: 64 word) + 1 < 2 ^ 64 \<Longrightarrow> unat (v + 1) = unat v + 1"
  by (simp add: unat_word_ariths)

lemma cache_save_inv:
  assumes "cache_inv c" and "unat (sc_version c) + 1 < 2 ^ 64"
  shows "cache_inv (snd (cache_save_key now c k st))"
proof -
  have wf: "gm_wf (sc_entries c)" using assms(1) by (simp add: cache_inv_def)
  note effect = cache_save_effect [OF wf, where now = now and k = k and st = st]
  have nxt: "unat (sc_version c + 1) = unat (sc_version c) + 1" by (rule version_next [OF assms(2)])
  have "unat (ses_version (ce_state e)) \<le> unat (sc_version c) + 1"
    if "gm_get (sc_entries (snd (cache_save_key now c k st))) j = Some e" for j e
  proof (cases "j = k")
    case True
    with that effect(1) nxt show ?thesis by auto
  next
    case False
    with that effect(3) [OF False] assms(1) show ?thesis by (fastforce simp: cache_inv_def)
  qed
  moreover have "unat (ses_version (ce_state m)) \<le> unat (sc_version c) + 1 \<and>
      unat (ses_version (ce_state cur)) \<le> unat (sc_version c) + 1"
    if "w \<in> set (sc_writes (snd (cache_save_key now c k st)))" "cw_completed w = Some (j, m, cur)" for w j m cur
    using effect(6) [OF that(1)] that(2) assms(1) by (fastforce simp: cache_inv_def)
  ultimately show ?thesis using effect(2,5) nxt by (auto simp: cache_inv_def)
qed

lemma cache_save_returning:
  assumes "cache_inv c" and "unat (sc_version c) + 1 < 2 ^ 64"
  shows "cache_returning (snd (cache_save_key now c k st)) j \<subseteq> (if j = k then {} else cache_returning c j)"
proof -
  have wf: "gm_wf (sc_entries c)" using assms(1) by (simp add: cache_inv_def)
  note effect = cache_save_effect [OF wf, where now = now and k = k and st = st]
  show ?thesis
  proof (cases "j = k")
    case True
    let ?e = "\<lparr>ce_state = (saved_state now (sc_ttl c) st)\<lparr>ses_version := sc_version c + 1\<rparr>, ce_updated_at = now\<rparr>"
    have "?e \<notin> fst ` set (completions k (sc_writes c))"
      by (rule marker_old [OF assms]) simp
    with True effect(1,4) show ?thesis by (simp add: cache_returning_def restorable_fresh)
  next
    case False
    with effect(3) [OF False] effect(4) show ?thesis by (auto simp: cache_returning_def)
  qed
qed

text \<open>What an invalidation does when it is queued.\<close>

definition tombstone_entry :: "go_time \<Rightarrow> session_cache \<Rightarrow> cache_entry" where
  "tombstone_entry now c =
     \<lparr>ce_state = zero_session\<lparr>ses_expires_at := time_add now (sc_ttl c), ses_version := sc_version c + 1\<rparr>, ce_updated_at = now\<rparr>"

lemma cache_invalidate_effect:
  "case cache_invalidate_begin now c k e of
     (InvalidationPending, c') \<Rightarrow>
       (\<exists>current row. gm_get (sc_entries c) k = Some current \<and> ce_state current = e \<and>
          sc_entries c' = gm_put k (tombstone_entry now c) (sc_entries c) \<and> sc_version c' = sc_version c + 1 \<and>
          sc_writes c' = sc_writes c @ [\<lparr>cw_row = row, cw_completed = Some (k, tombstone_entry now c, current)\<rparr>])
   | (_, c') \<Rightarrow> sc_entries c' = sc_entries c \<and> sc_writes c' = sc_writes c \<and>
       (sc_version c' = sc_version c \<or> sc_version c' = sc_version c + 1)"
  by (auto simp: cache_invalidate_begin_def tombstone_entry_def Let_def split: option.split)

definition cache_invalidate_key ::
  "go_time \<Rightarrow> session_cache \<Rightarrow> cache_key \<Rightarrow> session_state \<Rightarrow> bool \<times> session_cache" where
  "cache_invalidate_key now c k e =
     (case cache_invalidate_begin now c k e of (r, c') \<Rightarrow> (r = InvalidationPending, c'))"

lemma cache_invalidate_accepted:
  assumes "fst (cache_invalidate_key now c k e)"
  obtains current row where "gm_get (sc_entries c) k = Some current" "ce_state current = e"
    "sc_entries (snd (cache_invalidate_key now c k e)) = gm_put k (tombstone_entry now c) (sc_entries c)"
    "sc_version (snd (cache_invalidate_key now c k e)) = sc_version c + 1"
    "sc_writes (snd (cache_invalidate_key now c k e)) =
       sc_writes c @ [\<lparr>cw_row = row, cw_completed = Some (k, tombstone_entry now c, current)\<rparr>]"
  using cache_invalidate_effect [where now = now and c = c and k = k and e = e] assms
  by (cases "cache_invalidate_begin now c k e") (auto simp: cache_invalidate_key_def)

lemma cache_invalidate_rejected:
  assumes "\<not> fst (cache_invalidate_key now c k e)"
  shows "sc_entries (snd (cache_invalidate_key now c k e)) = sc_entries c"
    "sc_writes (snd (cache_invalidate_key now c k e)) = sc_writes c"
    "sc_version (snd (cache_invalidate_key now c k e)) = sc_version c \<or>
     sc_version (snd (cache_invalidate_key now c k e)) = sc_version c + 1"
  using cache_invalidate_effect [where now = now and c = c and k = k and e = e] assms
  by (cases "cache_invalidate_begin now c k e"; cases "fst (cache_invalidate_begin now c k e)";
      auto simp: cache_invalidate_key_def)+

lemma tombstone_version [simp]: "ses_version (ce_state (tombstone_entry now c)) = sc_version c + 1"
  by (simp add: tombstone_entry_def)

lemma cache_invalidate_inv:
  assumes "cache_inv c" and "unat (sc_version c) + 1 < 2 ^ 64"
  shows "cache_inv (snd (cache_invalidate_key now c k e))"
proof (cases "fst (cache_invalidate_key now c k e)")
  case True
  then obtain current row where acc: "gm_get (sc_entries c) k = Some current"
    "sc_entries (snd (cache_invalidate_key now c k e)) = gm_put k (tombstone_entry now c) (sc_entries c)"
    "sc_version (snd (cache_invalidate_key now c k e)) = sc_version c + 1"
    "sc_writes (snd (cache_invalidate_key now c k e)) =
       sc_writes c @ [\<lparr>cw_row = row, cw_completed = Some (k, tombstone_entry now c, current)\<rparr>]"
    by (rule cache_invalidate_accepted)
  have "unat (ses_version (ce_state current)) \<le> unat (sc_version c)"
    using assms(1) acc(1) by (simp add: cache_inv_def)
  with assms(1) version_next [OF assms(2)] show ?thesis
    unfolding cache_inv_def acc(2-4) by (auto simp: gomap_simps le_Suc_eq)
next
  case False
  with cache_invalidate_rejected [OF False] assms(1) version_next [OF assms(2)] show ?thesis
    by (auto simp: cache_inv_def le_Suc_eq)
qed

lemma cache_invalidate_returning:
  assumes "cache_inv c" and "unat (sc_version c) + 1 < 2 ^ 64" and "fst (cache_invalidate_key now c k e)"
  shows "cache_returning (snd (cache_invalidate_key now c k e)) j \<subseteq> (if j = k then {e} else cache_returning c j)"
proof -
  from assms(3) obtain current row where acc: "ce_state current = e"
    "sc_entries (snd (cache_invalidate_key now c k e)) = gm_put k (tombstone_entry now c) (sc_entries c)"
    "sc_writes (snd (cache_invalidate_key now c k e)) =
       sc_writes c @ [\<lparr>cw_row = row, cw_completed = Some (k, tombstone_entry now c, current)\<rparr>]"
    by (rule cache_invalidate_accepted)
  have "tombstone_entry now c \<notin> fst ` set (completions k (sc_writes c))"
    by (rule marker_old [OF assms(1,2)]) simp
  with acc(1) show ?thesis
    unfolding cache_returning_def acc(2,3) by (auto simp: gomap_simps restorable_append)
qed

text \<open>What the worker's step does.\<close>

lemma cache_settle_effect:
  "(case sc_writes c of
      [] \<Rightarrow> cache_settle err c = c
    | w # ws \<Rightarrow> sc_writes (cache_settle err c) = ws \<and>
        sc_entries (cache_settle err c) = sc_entries (cache_complete err (cw_completed w) c)) \<and>
   sc_version (cache_settle err c) = sc_version c"
  by (auto simp: cache_settle_def cache_persist_def cache_complete_def Let_def
      split: list.split option.split session_error.split)

lemma cache_settle_get:
  assumes "gm_get (sc_entries (cache_settle err c)) j = Some e"
  shows "gm_get (sc_entries c) j = Some e \<or>
    e \<in> restorable (gm_get (sc_entries c) j) (completions j (sc_writes c))"
  using assms cache_settle_effect [where c = c and err = err]
  by (cases "sc_writes c") (auto simp: cache_complete_def gomap_simps split: option.splits if_splits)

lemma cache_settle_returning: "cache_returning (cache_settle err c) j \<subseteq> cache_returning c j"
  using cache_settle_effect [where c = c and err = err]
  by (cases "sc_writes c")
    (auto simp: cache_returning_def cache_complete_def gomap_simps split: option.splits if_splits)

lemma restorable_mem: "e \<in> restorable x ws \<Longrightarrow> \<exists>m. (m, e) \<in> set ws"
  by (induction x ws rule: restorable.induct) (auto split: if_splits)

lemma cache_settle_inv:
  assumes "cache_inv c"
  shows "cache_inv (cache_settle err c)"
proof -
  have "gm_wf (sc_entries (cache_settle err c))" "set (sc_writes (cache_settle err c)) \<subseteq> set (sc_writes c)"
    using cache_settle_effect [where c = c and err = err] assms
    by (cases "sc_writes c"; auto simp: cache_inv_def cache_complete_def split: option.splits)+
  moreover have "unat (ses_version (ce_state e)) \<le> unat (sc_version c)"
    if "gm_get (sc_entries (cache_settle err c)) j = Some e" for j e
    using cache_settle_get [OF that] assms completions_mem
    by (fastforce simp: cache_inv_def dest: restorable_mem)
  moreover have "sc_version (cache_settle err c) = sc_version c"
    using cache_settle_effect [where c = c and err = err] by simp
  moreover from calculation(2) have "\<forall>w \<in> set (sc_writes (cache_settle err c)). \<forall>k m cur. cw_completed w = Some (k, m, cur) \<longrightarrow>
      unat (ses_version (ce_state m)) \<le> unat (sc_version c) \<and> unat (ses_version (ce_state cur)) \<le> unat (sc_version c)"
    using assms unfolding cache_inv_def by (meson subsetD)
  ultimately show ?thesis by (simp add: cache_inv_def)
qed

interpretation cache: session_contract cache_stored cache_returning sc_version cache_inv cache_load_key
  cache_save_key cache_invalidate_key cache_settle
proof (unfold_locales, goal_cases)
  case (1 s k st)
  then show ?case by (auto simp: cache_inv_def cache_stored_def)
next
  case (2 s op)
  then show ?case
    by (cases op) (simp_all add: cache_load_inv cache_save_inv cache_invalidate_inv cache_settle_inv)
next
  case (3 t s k st s')
  then show ?case by (rule cache_load_some)
next
  case (4 t s k j)
  then show ?case using cache_load_get(1) [where t = t and c = s and k = k and j = j] by (auto simp: cache_stored_def)
next
  case (5 t s k j)
  then show ?case using cache_load_get [where t = t and c = s and k = k] by (metis cache_returning_def empty_subsetI image_empty order_refl restorable_None)
next
  case (6 t s k)
  then show ?case by (rule cache_load_get(3))
next
  case (7 s t k st)
  then show ?case using cache_save_effect(1) [where c = s and now = t and k = k and st = st] by (auto simp: cache_inv_def cache_stored_def)
next
  case (8 s j k t st)
  then show ?case using cache_save_effect(3) [where c = s and now = t and k = k and st = st and j = j] by (auto simp: cache_inv_def cache_stored_def)
next
  case (9 s t k st j)
  then show ?case by (rule cache_save_returning)
next
  case (10 s t k st)
  then show ?case using cache_save_effect(2) by (simp add: cache_inv_def)
next
  case (11 t s k e)
  then show ?case by (rule cache_invalidate_accepted) (simp add: cache_stored_def)
next
  case (12 t s k e)
  then show ?case using cache_invalidate_rejected [OF 12] by (auto simp: cache_stored_def cache_returning_def fun_eq_iff)
next
  case (13 t s k e j)
  then show ?case by (rule cache_invalidate_accepted) (simp add: cache_stored_def gomap_simps)
next
  case (14 t s k e st)
  show ?case
    by (rule cache_invalidate_accepted [OF 14(1)]) (use 14(2) in \<open>auto simp: cache_stored_def gomap_simps\<close>)
next
  case (15 s t k e j)
  then show ?case by (rule cache_invalidate_returning)
next
  case (16 t s k e)
  then show ?case
    by (cases "fst (cache_invalidate_key t s k e)") (auto dest: cache_invalidate_rejected elim: cache_invalidate_accepted)
next
  case (17 s err j st)
  then show ?case using cache_settle_get [where c = s and err = err and j = j] by (fastforce simp: cache_stored_def cache_returning_def)
next
  case (18 s err j)
  show ?case by (rule cache_settle_returning)
next
  case (19 err s)
  then show ?case using cache_settle_effect [where c = s and err = err] by simp
qed

text \<open>
  C26. The cache fences invalidations: whatever loads, saves, invalidations and answers of the
  repository happened before and after a later save, an invalidation that expects the session loaded
  before is refused and leaves the entry.
\<close>
theorem cache_invalidation_fenced:
  fixes run defines "run \<equiv> fold (run_session_op cache_load_key cache_save_key cache_invalidate_key cache_settle)"
  assumes "cache_inv c" and "cache_load_key t0 c k = (Some old, c0)"
    and "c2 = run ops' (snd (cache_save_key t1 (run ops c0) k new))"
    and "unat (sc_version c) + length ops + length ops' + 1 < 2 ^ 64"
  shows "fst (cache_invalidate_begin t2 c2 k old) \<noteq> InvalidationPending \<and>
    cache_stored (snd (cache_invalidate_begin t2 c2 k old)) k = cache_stored c2 k"
proof -
  have "c0 = snd (cache_load_key t0 c k)" using assms(3) by simp
  with assms(4) have "c2 = fold cache.step ops' (snd (cache_save_key t1 (fold cache.step ops (snd (cache_load_key t0 c k))) k new))"
    by (simp add: run_def)
  from cache.stale_invalidation_refused [OF assms(2,3) refl this assms(5), of t2]
  show ?thesis by (simp add: cache_invalidate_key_def case_prod_unfold)
qed

section \<open>Bounds\<close>

definition cache_bounded :: "session_cache \<Rightarrow> bool" where
  "cache_bounded c \<longleftrightarrow> gm_wf (sc_entries c) \<and> length (sc_entries c) \<le> sc_max c \<and> 0 < sc_max c \<and>
     length (sc_writes c) \<le> write_queue_limit \<and>
     (\<forall>e \<in> snd ` set (sc_entries c). \<not> is_zero (ce_updated_at e)) \<and>
     (\<forall>w \<in> set (sc_writes c). \<forall>k m cur. cw_completed w = Some (k, m, cur) \<longrightarrow>
        \<not> is_zero (ce_updated_at m) \<and> \<not> is_zero (ce_updated_at cur))"

lemma oldest_entry_mem:
  assumes "\<forall>e \<in> snd ` set m. \<not> is_zero (ce_updated_at e)" and "m \<noteq> []"
  shows "\<not> is_zero (snd (oldest_entry m))" "fst (oldest_entry m) \<in> fst ` set m"
proof -
  let ?f = "\<lambda>(k, t) (j :: cache_key, e). if is_zero t \<or> before (ce_updated_at e) t then (j, ce_updated_at e) else (k, t)"
  have "(\<not> is_zero (snd (foldl ?f a ms))) \<and> fst (foldl ?f a ms) \<in> fst ` set m"
    if "set ms \<subseteq> set m" "is_zero (snd a) \<longrightarrow> ms \<noteq> []" "\<not> is_zero (snd a) \<longrightarrow> fst a \<in> fst ` set m" for a ms
    using that
  proof (induction ms arbitrary: a)
    case (Cons p ms)
    obtain k t where a: "a = (k, t)" by fastforce
    obtain j e where p: "p = (j, e)" by fastforce
    have mem: "(j, e) \<in> set m" using Cons.prems(1) p by simp
    then have e: "\<not> is_zero (ce_updated_at e)" "j \<in> fst ` set m" using assms(1) by force+
    have "\<not> is_zero (snd (?f a p))" "fst (?f a p) \<in> fst ` set m"
      using e Cons.prems(3) by (simp_all add: a p)
    with Cons.IH [of "?f a p"] Cons.prems(1) show ?case by simp
  qed auto
  from this [of m] assms(2) show "\<not> is_zero (snd (oldest_entry m))" "fst (oldest_entry m) \<in> fst ` set m"
    by (simp_all add: oldest_entry_def is_zero_def)
qed

lemma cache_evict_room:
  assumes "cache_bounded c"
  shows "length (sc_entries (cache_evict now c)) < sc_max c" "set (sc_entries (cache_evict now c)) \<subseteq> set (sc_entries c)"
proof -
  define live where "live = filter (\<lambda>(_, e). \<not> expired (ce_state e) now) (sc_entries c)"
  have live: "set live \<subseteq> set (sc_entries c)" "length live \<le> sc_max c" "gm_wf live"
    using assms le_trans [OF length_filter_le] by (auto simp: live_def cache_bounded_def)
  have evict: "sc_entries (cache_evict now c) =
      (if sc_max c \<le> length live \<and> \<not> is_zero (snd (oldest_entry live)) then gm_del (fst (oldest_entry live)) live else live)"
    by (simp add: cache_evict_def live_def Let_def case_prod_unfold)
  show "set (sc_entries (cache_evict now c)) \<subseteq> set (sc_entries c)"
    using live(1) unfolding evict by (auto simp: AList.delete_eq split: if_splits)
  show "length (sc_entries (cache_evict now c)) < sc_max c"
  proof (cases "sc_max c \<le> length live")
    case True
    with assms have "live \<noteq> []" by (auto simp: cache_bounded_def)
    moreover have "\<forall>e \<in> snd ` set live. \<not> is_zero (ce_updated_at e)"
      using assms live(1) by (auto simp: cache_bounded_def)
    ultimately have old: "\<not> is_zero (snd (oldest_entry live))" "gm_has live (fst (oldest_entry live))"
      using oldest_entry_mem [of live] by (simp_all add: gm_has_iff)
    have "length (gm_del (fst (oldest_entry live)) live) = length live - 1"
      by (rule length_del [OF live(3) old(2)])
    with True old(1) live(2) \<open>live \<noteq> []\<close> show ?thesis by (simp add: evict)
  qed (simp add: evict)
qed

lemma set_gm_put_subset: "set (gm_put k v m) \<subseteq> insert (k, v) (set m)"
  by (induction m) auto

fun clocked :: "'k session_op \<Rightarrow> bool" where
  "clocked (OpLoad t k) = True"
| "clocked (OpSave t k st) = (\<not> is_zero t)"
| "clocked (OpInvalidate t k st) = (\<not> is_zero t)"
| "clocked (OpSettle e) = True"

abbreviation cache_step :: "cache_key session_op \<Rightarrow> session_cache \<Rightarrow> session_cache" where
  "cache_step \<equiv> run_session_op cache_load_key cache_save_key cache_invalidate_key cache_settle"

lemma cache_bounded_put:
  assumes "cache_bounded c" and "gm_has (sc_entries c) k" and "\<not> is_zero (ce_updated_at e)"
  shows "cache_bounded (c\<lparr>sc_entries := gm_put k e (sc_entries c)\<rparr>)"
  using assms set_gm_put_subset [of k e "sc_entries c"]
  by (auto simp: cache_bounded_def length_put)

lemma cache_bounded_del:
  assumes "cache_bounded c"
  shows "cache_bounded (c\<lparr>sc_entries := gm_del k (sc_entries c)\<rparr>)"
proof -
  have "set (gm_del k (sc_entries c)) \<subseteq> set (sc_entries c)" by (auto simp: AList.delete_eq)
  with assms le_trans [OF length_del_le] show ?thesis by (auto simp: cache_bounded_def)
qed

lemma cache_bounded_cong:
  assumes "cache_bounded c" and "sc_entries c' = sc_entries c" and "sc_max c' = sc_max c"
    and "length (sc_writes c') \<le> write_queue_limit" and "set (sc_writes c') \<subseteq> set (sc_writes c)"
  shows "cache_bounded c'"
  using assms by (auto simp: cache_bounded_def)

lemma cache_bounded_complete:
  assumes "cache_bounded c" and "\<And>k m cur. completed = Some (k, m, cur) \<Longrightarrow> \<not> is_zero (ce_updated_at cur)"
  shows "cache_bounded (cache_complete err completed c)"
proof (cases completed)
  case (Some p)
  obtain k m cur where p: "p = (k, m, cur)" by (cases p)
  have "cache_bounded (c\<lparr>sc_entries := gm_put k cur (sc_entries c)\<rparr>)" if "gm_get (sc_entries c) k = Some m"
    using cache_bounded_put [OF assms(1), of k cur] assms(2) Some p that by (simp add: gm_has_def)
  with Some p assms(1) cache_bounded_del [OF assms(1), of k] show ?thesis by (simp add: cache_complete_def)
qed (simp add: cache_complete_def assms(1))

lemma cache_bounded_save:
  assumes "cache_bounded c" and "\<not> is_zero now"
  shows "cache_bounded (snd (cache_save_key now c k st))"
proof -
  define c1 where "c1 = c\<lparr>sc_version := sc_version c + 1\<rparr>"
  define c2 where "c2 = (if \<not> gm_has (sc_entries c) k \<and> sc_max c \<le> length (sc_entries c) then cache_evict now c1 else c1)"
  define e where "e = \<lparr>ce_state = (saved_state now (sc_ttl c) st)\<lparr>ses_version := sc_version c + 1\<rparr>, ce_updated_at = now\<rparr>"
  have c1: "cache_bounded c1"
    using assms(1) by (simp add: cache_bounded_def c1_def)
  have sub: "set (sc_entries c2) \<subseteq> set (sc_entries c)"
    using cache_evict_room(2) [OF c1, of now] by (simp add: c2_def c1_def)
  have c2: "sc_writes c2 = sc_writes c" "sc_max c2 = sc_max c" "gm_wf (sc_entries c2)"
    using assms(1) by (simp_all add: c2_def c1_def cache_bounded_def)
  have len: "length (gm_put k e (sc_entries c2)) \<le> sc_max c"
    using assms(1) cache_evict_room(1) [OF c1, of now]
    by (auto simp: length_put c2_def c1_def cache_bounded_def)
  have entries: "\<forall>x \<in> snd ` set (gm_put k e (sc_entries c2)). \<not> is_zero (ce_updated_at x)"
    using assms sub set_gm_put_subset [of k e "sc_entries c2"] by (fastforce simp: cache_bounded_def e_def)
  have save: "snd (cache_save_key now c k st) = (if length (sc_writes c) < write_queue_limit
      then c2\<lparr>sc_entries := gm_put k e (sc_entries c2),
              sc_writes := sc_writes c @ [\<lparr>cw_row = make_row k (ce_state e) now, cw_completed = None\<rparr>]\<rparr>
      else c2\<lparr>sc_entries := gm_put k e (sc_entries c2), sc_dropped := sc_dropped c2 + 1\<rparr>)"
    unfolding cache_save_key_def Let_def c2_def [symmetric] c1_def [symmetric] e_def [symmetric]
    using c2(1) by (simp add: e_def)
  from assms(1) len entries c2 show ?thesis
    unfolding save by (auto simp: cache_bounded_def)
qed

lemma cache_bounded_step:
  assumes "cache_bounded c" and "clocked op"
  shows "cache_bounded (cache_step op c)"
proof (cases op)
  case (OpLoad t k)
  with assms cache_bounded_del show ?thesis by (auto simp: cache_load_key_def split: option.split)
next
  case (OpSave t k st)
  with assms cache_bounded_save show ?thesis by simp
next
  case (OpInvalidate t k e)
  show ?thesis
  proof (cases "fst (cache_invalidate_key t c k e)")
    case True
    then obtain current row where acc: "gm_get (sc_entries c) k = Some current"
      "snd (cache_invalidate_key t c k e) = c\<lparr>sc_version := sc_version c + 1,
         sc_writes := sc_writes c @ [\<lparr>cw_row = row, cw_completed = Some (k, tombstone_entry t c, current)\<rparr>],
         sc_entries := gm_put k (tombstone_entry t c) (sc_entries c)\<rparr>"
      "length (sc_writes c) < write_queue_limit"
      by (auto simp: cache_invalidate_key_def cache_invalidate_begin_def tombstone_entry_def Let_def
          split: option.splits if_splits)
    have nz: "\<not> is_zero (ce_updated_at (tombstone_entry t c))" "\<not> is_zero (ce_updated_at current)"
      using assms acc(1) OpInvalidate by (auto simp: tombstone_entry_def cache_bounded_def dest!: map_of_SomeD)
    have "cache_bounded (c\<lparr>sc_entries := gm_put k (tombstone_entry t c) (sc_entries c)\<rparr>)"
      using cache_bounded_put [OF assms(1) _ nz(1)] acc(1) by (simp add: gm_has_def)
    with acc(2,3) nz OpInvalidate show ?thesis by (auto simp: cache_bounded_def)
  next
    case False
    then have "snd (cache_invalidate_key t c k e) = c \<or>
        snd (cache_invalidate_key t c k e) = c\<lparr>sc_version := sc_version c + 1, sc_dropped := sc_dropped c + 1\<rparr>"
      by (auto simp: cache_invalidate_key_def cache_invalidate_begin_def Let_def split: option.splits if_splits)
    with assms(1) OpInvalidate show ?thesis by (auto simp: cache_bounded_def)
  qed
next
  case (OpSettle err)
  show ?thesis
  proof (cases "sc_writes c")
    case (Cons w ws)
    define c1 where "c1 = (case err of
                  None \<Rightarrow> c\<lparr>sc_writes := ws, sc_received := sc_received c + 1, sc_persisted := sc_persisted c + 1\<rparr>
                | Some SessionStateSuperseded \<Rightarrow> c\<lparr>sc_writes := ws, sc_received := sc_received c + 1, sc_discarded := sc_discarded c + 1\<rparr>
                | Some _ \<Rightarrow> c\<lparr>sc_writes := ws, sc_received := sc_received c + 1, sc_failed := sc_failed c + 1\<rparr>)"
    have "cache_bounded c1"
      using Cons assms(1)
      by (intro cache_bounded_cong [OF assms(1)])
        (auto simp: c1_def cache_bounded_def split: option.split session_error.split)
    moreover have "cw_completed w = Some (k, m, cur) \<longrightarrow> \<not> is_zero (ce_updated_at cur)" for k m cur
      using Cons assms(1) by (auto simp: cache_bounded_def)
    moreover have "cache_settle err c = cache_complete err (cw_completed w) c1"
      using Cons by (simp add: cache_settle_def cache_persist_def c1_def Let_def split: option.split session_error.split)
    ultimately show ?thesis
      using OpSettle cache_bounded_complete [of c1 "cw_completed w" err] by simp
  qed (use assms OpSettle in \<open>simp add: cache_settle_def\<close>)
qed



section \<open>Acknowledged invalidations\<close>

text \<open>A load never shows the marker, and no earlier write's answer removes it.\<close>

lemma marker_survives:
  assumes "gm_get (sc_entries c) k = Some m" and "m \<notin> fst ` set (completions k ws)" and "sc_writes c = ws @ vs"
    and "length errs \<le> length ws"
  shows "gm_get (sc_entries (fold cache_settle errs c)) k = Some m \<and>
    sc_writes (fold cache_settle errs c) = drop (length errs) ws @ vs"
  using assms
proof (induction errs arbitrary: c ws)
  case (Cons err errs)
  then obtain w ws' where ws: "ws = w # ws'" by (cases ws) auto
  have writes: "sc_writes (cache_settle err c) = ws' @ vs"
    and entries: "sc_entries (cache_settle err c) = sc_entries (cache_complete err (cw_completed w) c)"
    using cache_settle_effect [where c = c and err = err] Cons.prems(3) by (simp_all add: ws)
  have keep: "gm_get (sc_entries (cache_settle err c)) k = Some m"
  proof (cases "cw_completed w")
    case (Some p)
    obtain j m' cur where p: "p = (j, m', cur)" by (cases p)
    have "j = k \<Longrightarrow> m' \<noteq> m" using Cons.prems(2) by (auto simp: ws Some p)
    with Some p Cons.prems(1) entries show ?thesis by (auto simp: cache_complete_def gomap_simps)
  qed (use Cons.prems(1) entries in \<open>simp add: cache_complete_def\<close>)
  have "set (completions k ws') \<subseteq> set (completions k ws)"
    by (auto simp: ws split: option.split)
  with Cons.prems(2) have "m \<notin> fst ` set (completions k ws')" by blast
  from Cons.IH [OF keep this writes] Cons.prems(4) show ?case by (simp add: ws)
qed simp


definition example_key :: cache_key where
  "example_key = \<lparr>ck_connection = ''c'', ck_namespace = ''n'', ck_session = ''s''\<rparr>"

definition example_session :: session_state where
  "example_session = zero_session\<lparr>ses_response_id := ''r'', ses_expires_at := 90\<rparr>"

definition example_cache :: session_cache where
  "example_cache = empty_cache\<lparr>sc_entries := [(example_key, \<lparr>ce_state = example_session, ce_updated_at = 5\<rparr>)]\<rparr>"

lemma example_cache_inv: "cache_inv example_cache"
  by (auto simp: cache_inv_def example_cache_def empty_cache_def gm_wf_def example_session_def zero_session_def)


lemma cache_invalidation_fenced_witness:
  "let c2 = snd (cache_save_key 30 example_cache example_key (example_session\<lparr>ses_response_id := ''r2''\<rparr>))
   in fst (cache_invalidate_begin 40 c2 example_key example_session) \<noteq> InvalidationPending \<and>
      cache_stored (snd (cache_invalidate_begin 40 c2 example_key example_session)) example_key = cache_stored c2 example_key"
proof -
  have load: "cache_load_key 20 example_cache example_key = (Some example_session, example_cache)"
    by (simp add: cache_load_key_def example_cache_def example_session_def expired_def zero_session_def
        no_continuation_def time_defs)
  have room: "unat (sc_version example_cache) + length ([] :: cache_key session_op list) +
      length ([] :: cache_key session_op list) + 1 < 2 ^ 64"
    by (simp add: example_cache_def empty_cache_def)
  show ?thesis
    using cache_invalidation_fenced [OF example_cache_inv load _ room, of _ 30 "example_session\<lparr>ses_response_id := ''r2''\<rparr>" 40]
    by (simp add: Let_def)
qed

section \<open>Preloading\<close>

text \<open>
  At start the cache takes the newest rows of the repository, at most as many as it has entries. The
  code keeps them in a heap with the oldest on top; of the heap only its minimum is observed, so it is
  a list here. A row is a candidate if it parses, is valid and has not expired; \<open>decodes\<close> tells whether
  its namespace does.
\<close>

record preload_item =
  pi_key :: cache_key
  pi_state :: session_state
  pi_updated_at :: go_time

definition preload_candidate ::
  "(string \<Rightarrow> bool) \<Rightarrow> duration \<Rightarrow> go_time \<Rightarrow> provider_session \<Rightarrow> preload_item option" where
  "preload_candidate decodes ttl now row =
     (if pr_connection row = [] \<or> pr_namespace row = [] \<or> pr_session row = [] then None
      else if \<not> decodes (pr_namespace row) then None
      else if no_continuation (pr_state row) then None
      else if validate_session_state (pr_state row) \<noteq> None then None
      else case pr_last_used row of
             None \<Rightarrow> None
           | Some used \<Rightarrow>
               if after used now \<or> is_zero (ses_expires_at (pr_state row)) then None
               else let limit = time_add used ttl;
                        st = (if after (ses_expires_at (pr_state row)) limit
                              then (pr_state row)\<lparr>ses_expires_at := limit\<rparr> else pr_state row)
                    in if \<not> after (ses_expires_at st) now then None
                       else Some \<lparr>pi_key = \<lparr>ck_connection = pr_connection row, ck_namespace = pr_namespace row,
                                            ck_session = pr_session row\<rparr>,
                                  pi_state = st, pi_updated_at = used\<rparr>)"

definition preload_rank :: "preload_item \<Rightarrow> int \<times> string \<times> string \<times> string" where
  "preload_rank i =
     (pi_updated_at i, ck_connection (pi_key i), ck_namespace (pi_key i), ck_session (pi_key i))"

definition preload_step :: "nat \<Rightarrow> preload_item list \<Rightarrow> preload_item \<Rightarrow> preload_item list" where
  "preload_step n selected c =
     (case find (\<lambda>x. pi_key x = pi_key c) selected of
        Some current \<Rightarrow>
          if preload_rank current < preload_rank c
          then map (\<lambda>x. if pi_key x = pi_key c then c else x) selected else selected
      | None \<Rightarrow>
          if length selected = n
          then let oldest = arg_min_list preload_rank selected
               in if preload_rank c \<le> preload_rank oldest then selected else c # remove1 oldest selected
          else c # selected)"

definition preload_select :: "nat \<Rightarrow> preload_item list \<Rightarrow> preload_item list" where
  "preload_select n cs = foldl (preload_step n) [] cs"

text \<open>The selected items become entries with versions of their own, in the order of a map iteration.\<close>

definition preload_put :: "session_cache \<Rightarrow> preload_item \<Rightarrow> session_cache" where
  "preload_put c i =
     (let v = sc_version c + 1
      in c\<lparr>sc_version := v,
           sc_entries := gm_put (pi_key i) \<lparr>ce_state = (pi_state i)\<lparr>ses_version := v\<rparr>, ce_updated_at = pi_updated_at i\<rparr>
             (sc_entries c)\<rparr>)"

definition cache_preload :: "(string \<Rightarrow> bool) \<Rightarrow> provider_session list \<Rightarrow> go_time \<Rightarrow> session_cache \<Rightarrow> session_cache" where
  "cache_preload decodes rows now c =
     foldl preload_put c
       (preload_select (sc_max c) (List.map_filter (preload_candidate decodes (sc_ttl c) now) rows))"

text \<open>The repository fails to prune or to list, or its rows are preloaded.\<close>

definition new_session_cache ::
  "(string \<Rightarrow> bool) \<Rightarrow> session_error option \<Rightarrow> session_error + provider_session list \<Rightarrow> go_time \<Rightarrow> session_error + session_cache" where
  "new_session_cache decodes pruned rows now =
     (case pruned of
        Some e \<Rightarrow> Inl e
      | None \<Rightarrow>
          (case rows of Inl e \<Rightarrow> Inl e | Inr rs \<Rightarrow> Inr (cache_preload decodes rs now empty_cache)))"

section \<open>The newest rows\<close>

text \<open>What the selection is meant to be: the newest row of each key, of these the newest ones.\<close>

definition latest_step :: "(cache_key, preload_item) gomap \<Rightarrow> preload_item \<Rightarrow> (cache_key, preload_item) gomap" where
  "latest_step m c =
     (case gm_get m (pi_key c) of
        None \<Rightarrow> gm_put (pi_key c) c m
      | Some x \<Rightarrow> if preload_rank x < preload_rank c then gm_put (pi_key c) c m else m)"

definition latest_rows :: "preload_item list \<Rightarrow> preload_item list" where
  "latest_rows cs = map snd (foldl latest_step [] cs)"

definition newest_rows :: "nat \<Rightarrow> preload_item list \<Rightarrow> preload_item list" where
  "newest_rows n cs = take n (rev (sort_key preload_rank (latest_rows cs)))"

lemma preload_rank_key: "preload_rank a = preload_rank b \<Longrightarrow> pi_key a = pi_key b"
  by (auto simp: preload_rank_def intro: cache_key.equality)

text \<open>A selection of the right size that dominates the rest is the newest ones.\<close>

definition dominates :: "preload_item set \<Rightarrow> preload_item set \<Rightarrow> bool" where
  "dominates S M \<longleftrightarrow> S \<subseteq> M \<and> (\<forall>x \<in> S. \<forall>y \<in> M - S. preload_rank y < preload_rank x)"

lemma dominates_unique:
  assumes "dominates S M" and "dominates T M" and "finite M" and "card S = card T"
  shows "S = T"
proof (rule ccontr)
  assume "S \<noteq> T"
  have fin: "finite S" "finite T"
    using assms(1-3) by (auto simp: dominates_def intro: finite_subset)
  have "\<not> S \<subseteq> T" "\<not> T \<subseteq> S"
    using \<open>S \<noteq> T\<close> card_subset_eq fin assms(4) by (metis)+
  then obtain x y where "x \<in> S - T" "y \<in> T - S" by blast
  then have "preload_rank y < preload_rank x" "preload_rank x < preload_rank y"
    using assms(1,2) by (auto simp: dominates_def)
  then show False by simp
qed

lemma dominates_sorted:
  assumes "distinct ms" and "inj_on preload_rank (set ms)"
  shows "dominates (set (take n (rev (sort_key preload_rank ms)))) (set ms)"
proof -
  define xs where "xs = rev (sort_key preload_rank ms)"
  have set: "set xs = set ms" "distinct xs" using assms(1) by (simp_all add: xs_def)
  have sorted: "sorted_wrt (\<lambda>a b. preload_rank b \<le> preload_rank a) xs"
    unfolding xs_def sorted_wrt_rev using sorted_sort_key [of preload_rank ms] by (simp add: sorted_wrt_map)
  have "preload_rank y < preload_rank x" if "x \<in> set (take n xs)" "y \<in> set ms - set (take n xs)" for x y
  proof -
    have y: "y \<in> set (drop n xs)" using that(2) set(1) by (metis DiffE UnE append_take_drop_id set_append)
    have "sorted_wrt (\<lambda>a b. preload_rank b \<le> preload_rank a) (take n xs @ drop n xs)" using sorted by simp
    with that(1) y have "preload_rank y \<le> preload_rank x" unfolding sorted_wrt_append by blast
    moreover have "x \<noteq> y" using that by auto
    moreover have "x \<in> set ms" using that(1) set(1) by (metis in_set_takeD)
    ultimately show ?thesis using assms(2) that(2) by (metis DiffD1 inj_onD order_le_less)
  qed
  then show ?thesis using set(1) set_take_subset [of n xs] by (simp add: dominates_def flip: xs_def)
qed

definition latest_ok :: "(cache_key, preload_item) gomap \<Rightarrow> bool" where
  "latest_ok m \<longleftrightarrow> gm_wf m \<and> (\<forall>(k, x) \<in> set m. pi_key x = k)"

lemma latest_step_ok: "latest_ok m \<Longrightarrow> latest_ok (latest_step m c)"
  using set_gm_put_subset [of "pi_key c" c m]
  by (auto simp: latest_ok_def latest_step_def split: option.split)

lemma latest_mem: "latest_ok m \<Longrightarrow> x \<in> snd ` set m \<longleftrightarrow> gm_get m (pi_key x) = Some x"
  by (force simp: latest_ok_def gm_wf_def dest: map_of_SomeD)

lemma latest_distinct:
  assumes "latest_ok m"
  shows "distinct (map snd m)" "inj_on preload_rank (snd ` set m)"
proof -
  have keys: "map pi_key (map snd m) = map fst m"
    using assms by (auto simp: latest_ok_def)
  with assms show "distinct (map snd m)"
    by (metis distinct_map gm_wf_def latest_ok_def)
  show "inj_on preload_rank (snd ` set m)"
  proof (rule inj_onI)
    fix x y
    assume "x \<in> snd ` set m" "y \<in> snd ` set m" "preload_rank x = preload_rank y"
    with latest_mem [OF assms] preload_rank_key show "x = y" by (metis option.inject)
  qed
qed

text \<open>The value of the newer of a key's old row and the candidate.\<close>

lemma latest_step_mem:
  assumes "latest_ok m"
  shows "y \<in> snd ` set (latest_step m c) \<longleftrightarrow>
    (if pi_key y = pi_key c
     then y = (case gm_get m (pi_key c) of None \<Rightarrow> c | Some x \<Rightarrow> if preload_rank x < preload_rank c then c else x)
     else y \<in> snd ` set m)"
proof -
  have key: "gm_get m (pi_key c) = Some x \<Longrightarrow> pi_key x = pi_key c" for x
    using assms by (auto simp: latest_ok_def dest: map_of_SomeD)
  have "gm_get (latest_step m c) (pi_key y) = Some y \<longleftrightarrow>
    (if pi_key y = pi_key c
     then y = (case gm_get m (pi_key c) of None \<Rightarrow> c | Some x \<Rightarrow> if preload_rank x < preload_rank c then c else x)
     else gm_get m (pi_key y) = Some y)"
  proof (cases "gm_get m (pi_key c)")
    case None
    then show ?thesis by (auto simp: latest_step_def gomap_simps)
  next
    case (Some x)
    with key [OF Some] show ?thesis
      by (cases "preload_rank x < preload_rank c") (auto simp: latest_step_def gomap_simps)
  qed
  then show ?thesis
    unfolding latest_mem [OF assms] latest_mem [OF latest_step_ok [OF assms]] .
qed

definition preload_inv :: "nat \<Rightarrow> preload_item list \<Rightarrow> (cache_key, preload_item) gomap \<Rightarrow> bool" where
  "preload_inv n sel m \<longleftrightarrow> latest_ok m \<and> distinct (map pi_key sel) \<and> dominates (set sel) (snd ` set m) \<and>
     length sel = min n (length m)"

lemma length_latest_step: "length (latest_step m c) = (if gm_has m (pi_key c) then length m else Suc (length m))"
  by (auto simp: latest_step_def length_put gm_has_def split: option.split)

lemma preload_inv_step:
  assumes inv: "preload_inv n sel m" and "0 < n"
  shows "preload_inv n (preload_step n sel c) (latest_step m c)"
proof -
  let ?k = "pi_key c" and ?M = "snd ` set m" and ?M' = "snd ` set (latest_step m c)" and ?S = "set sel"
  have ok: "latest_ok m" and dist: "distinct (map pi_key sel)" and dom: "dominates ?S ?M"
    and len: "length sel = min n (length m)"
    using inv by (simp_all add: preload_inv_def)
  have sub: "?S \<subseteq> ?M" and below: "\<And>x y. x \<in> ?S \<Longrightarrow> y \<in> ?M \<Longrightarrow> y \<notin> ?S \<Longrightarrow> preload_rank y < preload_rank x"
    using dom by (auto simp: dominates_def)
  note mem = latest_step_mem [OF ok]
  note ok' = latest_step_ok [OF ok]
  have old: "gm_get m ?k = Some x" if "x \<in> ?M" "pi_key x = ?k" for x
    using that latest_mem [OF ok] by metis
  have oldM: "x \<in> ?M" "pi_key x = ?k" if "gm_get m ?k = Some x" for x
  proof -
    have "(?k, x) \<in> set m" using that by (rule map_of_SomeD)
    with ok show "x \<in> ?M" "pi_key x = ?k" by (auto simp: latest_ok_def image_iff intro: bexI [of _ "(?k, x)"])
  qed
  have sel_inj: "x = y" if "x \<in> ?S" "y \<in> ?S" "pi_key x = pi_key y" for x y
    using that dist by (auto simp: distinct_map dest: inj_onD)
  show ?thesis
  proof (cases "find (\<lambda>x. pi_key x = ?k) sel")
    case (Some cur)
    then have cur: "cur \<in> ?S" "pi_key cur = ?k" using find_Some_iff_mem [OF Some] by auto
    have get: "gm_get m ?k = Some cur" using old cur sub by blast
    show ?thesis
    proof (cases "preload_rank cur < preload_rank c")
      case True
      let ?sel = "map (\<lambda>x. if pi_key x = ?k then c else x) sel"
      have S': "set ?sel = insert c (?S - {cur})"
        using cur sel_inj by (auto simp: image_iff)
      have M': "y \<in> ?M' \<longleftrightarrow> (if pi_key y = ?k then y = c else y \<in> ?M)" for y
        using mem [of y c] get True by simp
      have "map pi_key ?sel = map pi_key sel" by simp
      with dist have "distinct (map pi_key ?sel)" by (simp only:)
      moreover have "dominates (set ?sel) ?M'"
        unfolding dominates_def S'
      proof (intro conjI ballI subsetI)
        fix x assume "x \<in> insert c (?S - {cur})"
        then show "x \<in> ?M'" using M' sub cur sel_inj by (metis DiffD1 DiffD2 insertE insertI1 subsetD)
      next
        fix x y assume x: "x \<in> insert c (?S - {cur})" and y: "y \<in> ?M' - insert c (?S - {cur})"
        then have "y \<in> ?M" "pi_key y \<noteq> ?k" using M' [of y] by (auto split: if_splits)
        with y cur have "y \<notin> ?S" by auto
        with x below [of cur y] below [of x y] \<open>y \<in> ?M\<close> cur(1) True show "preload_rank y < preload_rank x" by auto
      qed
      moreover have "length (latest_step m c) = length m" by (simp add: length_latest_step gm_has_def get)
      ultimately show ?thesis
        using Some True ok' len unfolding preload_inv_def preload_step_def by (simp only: option.case if_True length_map simp_thms)
    next
      case False
      have "y \<in> ?M' \<longleftrightarrow> y \<in> ?M" for y
      proof (cases "pi_key y = ?k")
        case True
        then have "y \<in> ?M' \<longleftrightarrow> y = cur" using mem [of y c] get False by simp
        moreover have "y \<in> ?M \<longleftrightarrow> y = cur" using True get old oldM(1) by (metis option.inject)
        ultimately show ?thesis by simp
      qed (use mem [of y c] in simp)
      then have M': "?M' = ?M" by blast
      have "length (latest_step m c) = length m" by (simp add: length_latest_step gm_has_def get)
      with Some False inv ok' M' show ?thesis by (simp add: preload_inv_def preload_step_def)
    qed
  next
    case None
    then have fresh: "pi_key x \<noteq> ?k" if "x \<in> ?S" for x using that by (auto simp: find_None_iff)
    have len': "length m \<le> length (latest_step m c)" by (simp add: length_latest_step)
    show ?thesis
    proof (cases "length sel = n")
      case True
      define o' where "o' = arg_min_list preload_rank sel"
      have "sel \<noteq> []" using True assms(2) by auto
      then have o': "o' \<in> ?S" "\<And>x. x \<in> ?S \<Longrightarrow> preload_rank o' \<le> preload_rank x"
        by (simp_all add: o'_def arg_min_list_in f_arg_min_list_f)
      have full: "n \<le> length m" using len True by simp
      show ?thesis
      proof (cases "preload_rank c \<le> preload_rank o'")
        case True
        have "dominates ?S ?M'"
          unfolding dominates_def
        proof (intro conjI ballI subsetI)
          fix x assume "x \<in> ?S"
          then show "x \<in> ?M'" using mem [of x c] fresh sub by auto
        next
          fix x y assume x: "x \<in> ?S" and y: "y \<in> ?M' - ?S"
          show "preload_rank y < preload_rank x"
          proof (cases "y = c")
            case True
            have "preload_rank c \<noteq> preload_rank x" using fresh [OF x] preload_rank_key by metis
            with \<open>preload_rank c \<le> preload_rank o'\<close> o'(2) [OF x] True show ?thesis by (metis order_less_le order_trans)
          next
            case False
            have "y \<in> ?M"
            proof (cases "pi_key y = ?k")
              case True
              with mem [of y c] y False obtain x where "gm_get m ?k = Some x" "y = x"
                by (auto split: option.splits if_splits)
              then show ?thesis using oldM(1) by blast
            next
              case False
              with mem [of y c] y show ?thesis by (simp only: Diff_iff if_False)
            qed
            with x y below show ?thesis by blast
          qed
        qed
        with None True \<open>length sel = n\<close> dist ok' full len' show ?thesis
          by (simp add: preload_inv_def preload_step_def o'_def)
      next
        case False
        let ?sel = "c # remove1 o' sel"
        have dsel: "distinct sel" using dist by (simp add: distinct_map)
        have S': "set ?sel = insert c (?S - {o'})" using dsel by simp
        have M': "y \<in> ?M' \<longleftrightarrow> (if pi_key y = ?k then y = c else y \<in> ?M)" for y
        proof -
          have "preload_rank x < preload_rank c" if "gm_get m ?k = Some x" for x
          proof -
            have "x \<notin> ?S" using fresh oldM [OF that] by blast
            from below [OF o'(1) oldM(1) [OF that] this] False show ?thesis by simp
          qed
          then show ?thesis using mem [of y c] by (auto split: option.split)
        qed
        have "set (remove1 o' sel) \<subseteq> ?S" by (rule set_remove1_subset)
        then have "?k \<notin> pi_key ` set (remove1 o' sel)" using fresh by fastforce
        moreover have "distinct (map pi_key (remove1 o' sel))"
          using dist inj_on_diff [of pi_key ?S "{o'}"] by (simp add: distinct_map)
        ultimately have "distinct (map pi_key ?sel)" by simp
        moreover have "dominates (set ?sel) ?M'"
          unfolding dominates_def S'
        proof (intro conjI ballI subsetI)
          fix x assume "x \<in> insert c (?S - {o'})"
          then show "x \<in> ?M'" using M' sub fresh by auto
        next
          fix x y assume x: "x \<in> insert c (?S - {o'})" and y: "y \<in> ?M' - insert c (?S - {o'})"
          then have yM: "y \<in> ?M" "pi_key y \<noteq> ?k" using M' [of y] by (auto split: if_splits)
          have le: "preload_rank y \<le> preload_rank o'"
            using below [OF o'(1) yM(1)] y by (cases "y = o'") auto
          show "preload_rank y < preload_rank x"
          proof (cases "x = c")
            case True
            with le False show ?thesis by simp
          next
            case False
            with x have xS: "x \<in> ?S" "x \<noteq> o'" by auto
            then have "preload_rank o' \<noteq> preload_rank x" using preload_rank_key sel_inj o'(1) by metis
            with le o'(2) [OF xS(1)] show ?thesis by (metis order_le_less_trans order_less_le)
          qed
        qed
        moreover have "length ?sel = n"
          using \<open>length sel = n\<close> o'(1) assms(2) by (simp add: length_remove1)
        ultimately show ?thesis
          using None False \<open>length sel = n\<close> ok' full len' by (simp add: preload_inv_def preload_step_def o'_def)
      qed
    next
      case False
      with len have less: "length sel = length m" "length m < n" by auto
      have "card ?S = card ?M"
        using less(1) dist latest_distinct(1) [OF ok] by (metis distinct_card distinct_map length_map set_map)
      then have eq: "?S = ?M" using sub by (simp add: card_subset_eq)
      have none: "gm_get m ?k = None" using oldM fresh eq by (metis option.exhaust)
      have "y \<in> ?M' \<longleftrightarrow> y = c \<or> y \<in> ?M" for y
      proof (cases "pi_key y = ?k")
        case True
        then have "y \<in> ?M' \<longleftrightarrow> y = c" using mem [of y c] none by simp
        moreover have "y \<notin> ?M" using True none old by (metis option.distinct(1))
        ultimately show ?thesis by simp
      next
        case False
        then show ?thesis using mem [of y c] by (metis)
      qed
      then have M': "?M' = insert c ?M" by blast
      have "length (latest_step m c) = Suc (length m)" by (simp add: length_latest_step gm_has_def none)
      have "?k \<notin> pi_key ` ?S" by (metis fresh imageE)
      then have "distinct (map pi_key (c # sel))" using dist by simp
      moreover have "dominates (set (c # sel)) ?M'" unfolding M' by (simp add: eq dominates_def)
      moreover have "length (c # sel) = min n (length (latest_step m c))"
        using \<open>length (latest_step m c) = Suc (length m)\<close> less by simp
      moreover have "preload_step n sel c = c # sel" using None False by (simp add: preload_step_def)
      ultimately show ?thesis using ok' [of c] unfolding preload_inv_def by simp
    qed
  qed
qed

text \<open>
  C29. Preloading takes exactly the newest rows: of the valid rows in any order, the cache selects the
  same items as taking each key's newest row and of these the newest as many as the cache holds.
\<close>
theorem preload_selects_newest:
  assumes "0 < n"
  shows "set (preload_select n cs) = set (newest_rows n cs) \<and>
    length (preload_select n cs) = length (newest_rows n cs) \<and> distinct (map pi_key (preload_select n cs))"
proof -
  define m where "m = foldl latest_step [] cs"
  have "preload_inv n (foldl (preload_step n) sel cs) (foldl latest_step m0 cs)" if "preload_inv n sel m0" for sel m0
    using that by (induction cs arbitrary: sel m0) (simp_all add: preload_inv_step assms)
  from this [of "[]" "[]"] have inv: "preload_inv n (preload_select n cs) m"
    by (simp add: preload_inv_def latest_ok_def dominates_def preload_select_def m_def)
  then have ok: "latest_ok m" and dom: "dominates (set (preload_select n cs)) (snd ` set m)"
    and dist: "distinct (map pi_key (preload_select n cs))"
    and len: "length (preload_select n cs) = min n (length m)"
    by (simp_all add: preload_inv_def)
  have newest: "newest_rows n cs = take n (rev (sort_key preload_rank (map snd m)))"
    by (simp add: newest_rows_def latest_rows_def m_def)
  have dist': "distinct (newest_rows n cs)" using latest_distinct(1) [OF ok] by (simp add: newest)
  have dom': "dominates (set (newest_rows n cs)) (snd ` set m)"
    using dominates_sorted [of "map snd m" n] latest_distinct [OF ok] by (simp add: newest)
  have len': "length (newest_rows n cs) = min n (length m)" by (simp add: newest)
  have "card (set (preload_select n cs)) = card (set (newest_rows n cs))"
    using dist dist' len len' by (simp add: distinct_card distinct_map)
  from dominates_unique [OF dom dom' _ this] len len' dist show ?thesis by simp
qed

lemma preload_selects_newest_witness:
  "let item = (\<lambda>s t. \<lparr>pi_key = \<lparr>ck_connection = ''c'', ck_namespace = ''n'', ck_session = s\<rparr>,
                      pi_state = zero_session, pi_updated_at = t\<rparr>);
       cs = [item ''a'' 3, item ''b'' 9, item ''a'' 7, item ''c'' 5]
   in set (preload_select 2 cs) = set (newest_rows 2 cs) \<and> length (preload_select 2 cs) = length (newest_rows 2 cs) \<and>
      distinct (map pi_key (preload_select 2 cs))"
  unfolding Let_def by (rule preload_selects_newest) simp

end
