(* ===== verification/Credentials.thy ===== *)
theory Credentials
  imports ModelGraph
begin

text \<open>
  Credential material and the authority to use it: \<open>credential_presentation.go\<close> (which headers a
  credential may set), \<open>credential_lease.go\<close> with \<open>credential_admission.go\<close> (leases bound to one route
  and operation) and the guards of \<open>credential_http.go\<close> and \<open>credential_transport.go\<close>. Texts that the
  code reads rune by rune are read by bytes: the tests it makes are on ASCII, and every byte of a longer
  encoding is at least 128.
\<close>

section \<open>Header names and values\<close>

definition char_code :: "char \<Rightarrow> nat" where
  "char_code c = of_char c"

definition header_separators :: string where
  "header_separators = ''()<>@,;:'' @ [CHR 0x5C, CHR 0x22] @ ''/[]?={}''"

definition valid_credential_header :: "string \<Rightarrow> bool" where
  "valid_credential_header name \<longleftrightarrow>
     trim_space name = name \<and> name \<noteq> [] \<and>
     list_all (\<lambda>c. 32 < char_code c \<and> char_code c < 127 \<and> c \<notin> set header_separators) name"

definition lower :: "string \<Rightarrow> string" where
  "lower s = map ascii_lower s"

definition restricted_headers :: "string list" where
  "restricted_headers =
     [''proxy-authorization'', ''cookie'', ''set-cookie'', ''host'', ''content-length'', ''content-type'',
      ''transfer-encoding'']"

definition restricted_request_header :: "string \<Rightarrow> bool" where
  "restricted_request_header name \<longleftrightarrow> lower name \<in> set restricted_headers"

definition contains_text :: "string \<Rightarrow> string \<Rightarrow> bool" where
  "contains_text s p \<longleftrightarrow> list_ex (\<lambda>i. has_prefix (drop i s) p) [0..<Suc (length s)]"

definition reserved_static_header :: "string \<Rightarrow> bool" where
  "reserved_static_header name \<longleftrightarrow>
     lower name = ''authorization'' \<or> restricted_request_header name \<or>
     list_ex (contains_text (filter (\<lambda>c. c \<noteq> CHR ''-'' \<and> c \<noteq> CHR ''_'') (lower name)))
       [''authorization'', ''auth'', ''apikey'', ''token'', ''secret'', ''cookie'']"

definition valid_header_value :: "string \<Rightarrow> bool" where
  "valid_header_value v \<longleftrightarrow> list_all (\<lambda>c. (32 \<le> char_code c \<or> char_code c = 9) \<and> char_code c \<noteq> 127) v"

text \<open>\<open>http.CanonicalHeaderKey\<close>: a token gets a capital after each hyphen, any other text stays.\<close>

definition ascii_upper :: "char \<Rightarrow> char" where
  "ascii_upper c = (if 97 \<le> char_code c \<and> char_code c \<le> 122 then char_of (char_code c - 32) else c)"

fun canonical_from :: "bool \<Rightarrow> string \<Rightarrow> string" where
  "canonical_from up [] = []"
| "canonical_from up (c # cs) = (if up then ascii_upper c else ascii_lower c) # canonical_from (c = CHR ''-'') cs"

definition canonical_header :: "string \<Rightarrow> string" where
  "canonical_header name =
     (if list_all (\<lambda>c. 32 < char_code c \<and> char_code c < 127 \<and> c \<notin> set header_separators) name
      then canonical_from True name else name)"

type_synonym headers = "(string, string list) gomap"

definition header_set :: "string \<Rightarrow> string \<Rightarrow> headers \<Rightarrow> headers" where
  "header_set name v h = gm_put (canonical_header name) [v] h"

section \<open>Credentials\<close>

record credential =
  cd_generation :: string
  cd_connection :: string
  cd_type :: string
  cd_secret :: string
  cd_expires_at :: go_time
  cd_headers :: headers
  cd_auth_context :: "(string, string) gomap"

definition zero_credential :: credential where
  "zero_credential =
     \<lparr>cd_generation = [], cd_connection = [], cd_type = [], cd_secret = [], cd_expires_at = 0, cd_headers = [],
      cd_auth_context = []\<rparr>"

definition max_auth_entries :: nat where
  "max_auth_entries = 64"

definition max_auth_bytes :: nat where
  "max_auth_bytes = 32 * 1024"

datatype credential_error =
    AuthTooManyEntries
  | AuthInvalidKey
  | AuthControlCharacter
  | AuthValueTooLong string
  | AuthTooManyBytes
  | HeadersTooMany
  | HeaderNameInvalid string
  | HeaderValuesTooMany string
  | HeaderValueInvalid string
  | HeadersTooManyBytes

definition control_characters :: string where
  "control_characters = [CHR 0x0D, CHR 0x0A, CHR 0x00]"

fun check_auth_entries :: "nat \<Rightarrow> (string, string) gomap \<Rightarrow> credential_error option" where
  "check_auth_entries acc [] = None"
| "check_auth_entries acc ((k, v) # m) =
     (if trim_space k = [] \<or> 128 < length k then Some AuthInvalidKey
      else if contains_any k control_characters \<or> contains_any v control_characters then Some AuthControlCharacter
      else if 8192 < length v then Some (AuthValueTooLong k)
      else if max_auth_bytes < acc + length k + length v then Some AuthTooManyBytes
      else check_auth_entries (acc + length k + length v) m)"

definition validate_auth_context :: "credential \<Rightarrow> credential_error option" where
  "validate_auth_context c =
     (if max_auth_entries < length (cd_auth_context c) then Some AuthTooManyEntries
      else check_auth_entries 0 (cd_auth_context c))"

text \<open>The values of one header: the new total, or the error.\<close>

fun check_header_values :: "string \<Rightarrow> nat \<Rightarrow> string list \<Rightarrow> credential_error + nat" where
  "check_header_values name acc [] = Inr acc"
| "check_header_values name acc (v # vs) =
     (if \<not> valid_header_value v then Inl (HeaderValueInvalid name)
      else if max_auth_bytes < acc + length name + length v then Inl HeadersTooManyBytes
      else check_header_values name (acc + length name + length v) vs)"

fun check_headers :: "nat \<Rightarrow> headers \<Rightarrow> credential_error option" where
  "check_headers acc [] = None"
| "check_headers acc ((name, vs) # m) =
     (if \<not> valid_credential_header name \<or> restricted_request_header name then Some (HeaderNameInvalid name)
      else if 16 < length vs then Some (HeaderValuesTooMany name)
      else case check_header_values name acc vs of
             Inl e \<Rightarrow> Some e
           | Inr acc' \<Rightarrow> check_headers acc' m)"

definition validate_runtime_context :: "credential \<Rightarrow> credential_error option" where
  "validate_runtime_context c =
     (case validate_auth_context c of
        Some e \<Rightarrow> Some e
      | None \<Rightarrow> if max_auth_entries < length (cd_headers c) then Some HeadersTooMany
                else check_headers 0 (cd_headers c))"

section \<open>Presenting a credential\<close>

datatype presentation_error =
    PresentationNoHeaders
  | PresentationCredential credential_error
  | PresentationTokenHeader
  | PresentationPrefix
  | PresentationStaticHeader string
  | PresentationDuplicate string
  | PresentationUndeclared

fun check_static_headers :: "string \<Rightarrow> string list \<Rightarrow> string list \<Rightarrow> presentation_error option" where
  "check_static_headers token seen [] = None"
| "check_static_headers token seen (name # names) =
     (if \<not> valid_credential_header name \<or> reserved_static_header name \<or> lower name = lower token
      then Some (PresentationStaticHeader name)
      else if canonical_header name \<in> set seen then Some (PresentationDuplicate name)
      else check_static_headers token (canonical_header name # seen) names)"

definition validate_presentation :: "credential_presentation \<Rightarrow> presentation_error option" where
  "validate_presentation p =
     (if cp_header p \<noteq> [] \<and> (\<not> valid_credential_header (cp_header p) \<or> restricted_request_header (cp_header p))
      then Some PresentationTokenHeader
      else if cp_header p = [] \<and> cp_prefix p \<noteq> [] then Some PresentationPrefix
      else check_static_headers (cp_header p) [] (gm_keys (cp_headers p)))"

text \<open>The header map may be nil (\<open>None\<close>). An error leaves the headers as far as they were written.\<close>

definition apply_credential_presentation ::
  "headers option \<Rightarrow> credential \<Rightarrow> credential_presentation \<Rightarrow> presentation_error option \<times> headers" where
  "apply_credential_presentation hs c p =
     (case hs of
        None \<Rightarrow> (Some PresentationNoHeaders, [])
      | Some h0 \<Rightarrow>
          (case validate_runtime_context c of
             Some e \<Rightarrow> (Some (PresentationCredential e), h0)
           | None \<Rightarrow>
               (case validate_presentation p of
                  Some e \<Rightarrow> (Some e, h0)
                | None \<Rightarrow>
                    let h1 = foldl (\<lambda>h name. header_set name (gm_or (cp_headers p) name []) h) h0
                               (sort (gm_keys (cp_headers p)));
                        h2 = foldl (\<lambda>h (name, vs). gm_put (canonical_header name) vs h) h1 (cd_headers c)
                    in if cd_secret c = [] then (None, h2)
                       else if cp_header p = [] then (Some PresentationUndeclared, h2)
                       else (None, header_set (cp_header p) (cp_prefix p @ cd_secret c) h2))))"

section \<open>Leases\<close>

record lease_scope =
  lsc_route :: string
  lsc_provider :: string
  lsc_connection :: string
  lsc_credential_type :: string
  lsc_auth_flow :: string
  lsc_base_url :: string
  lsc_model :: string
  lsc_principal :: string
  lsc_definition :: ext_ref
  lsc_protocol :: string
  lsc_operation :: ext_ref
  lsc_use :: ext_ref

definition lease_scope_for_route :: "route \<Rightarrow> lease_scope" where
  "lease_scope_for_route r =
     \<lparr>lsc_route = rt_id r, lsc_provider = rt_node_id r, lsc_connection = rt_credential_id r,
      lsc_credential_type = rt_credential_type r, lsc_auth_flow = rt_auth_flow_id r, lsc_base_url = rt_base_url r,
      lsc_model = rt_external_model r, lsc_principal = gen_connection (rt_health_generation r),
      lsc_definition = rt_definition_ref r, lsc_protocol = rt_protocol r,
      lsc_operation = rt_session_operation_ref r, lsc_use = no_ref\<rparr>"

definition lease_scope_for_consumer :: "route \<Rightarrow> ext_ref \<Rightarrow> lease_scope" where
  "lease_scope_for_consumer r consumer = (lease_scope_for_route r)\<lparr>lsc_operation := no_ref, lsc_use := consumer\<rparr>"

definition lease_scope_for_quota :: "route \<Rightarrow> lease_scope" where
  "lease_scope_for_quota r = lease_scope_for_consumer r (rt_quota_source_ref r)"

datatype lease_error =
    LeaseInvalidScope
  | LeaseConnectionMismatch
  | LeaseTypeMismatch
  | LeaseCredential credential_error
  | LeaseExpiry
  | LeaseCredentialExpired
  | LeaseScopeMismatch
  | LeaseClosed
  | LeaseContext string
  | LeaseRejected string

definition validate_lease_scope :: "lease_scope \<Rightarrow> lease_error option" where
  "validate_lease_scope s =
     (if lsc_route s = [] then Some LeaseInvalidScope
      else if lsc_use s \<noteq> no_ref
      then if lsc_operation s \<noteq> no_ref \<or> \<not> ref_ok (lsc_use s) then Some LeaseInvalidScope else None
      else if ref_kind (lsc_operation s) \<noteq> ''operation'' \<or> \<not> ref_ok (lsc_operation s) then Some LeaseInvalidScope
      else None)"

definition max_lease_duration :: duration where
  "max_lease_duration = hour"

text \<open>\<open>ls_callback\<close>: a release callback is still to be called.\<close>

record lease =
  ls_scope :: lease_scope
  ls_credential :: credential
  ls_expires_at :: go_time
  ls_released :: bool
  ls_generation :: string
  ls_callback :: bool

definition new_credential_lease ::
  "go_time \<Rightarrow> lease_scope \<Rightarrow> credential \<Rightarrow> go_time \<Rightarrow> bool \<Rightarrow> lease_error + lease" where
  "new_credential_lease now s c expires callback =
     (case validate_lease_scope s of
        Some e \<Rightarrow> Inl e
      | None \<Rightarrow>
          if cd_connection c \<noteq> [] \<and> lsc_connection s \<noteq> [] \<and> cd_connection c \<noteq> lsc_connection s
          then Inl LeaseConnectionMismatch
          else if cd_type c \<noteq> [] \<and> lsc_credential_type s \<noteq> [] \<and> cd_type c \<noteq> lsc_credential_type s
          then Inl LeaseTypeMismatch
          else case validate_runtime_context c of
                 Some e \<Rightarrow> Inl (LeaseCredential e)
               | None \<Rightarrow>
                   if \<not> after expires now \<or> after expires (time_add now max_lease_duration) then Inl LeaseExpiry
                   else if \<not> is_zero (cd_expires_at c) \<and> \<not> after (cd_expires_at c) now
                   then Inl LeaseCredentialExpired
                   else Inr \<lparr>ls_scope = s, ls_credential = c,
                             ls_expires_at = (if \<not> is_zero (cd_expires_at c) \<and> before (cd_expires_at c) expires
                                              then cd_expires_at c else expires),
                             ls_released = False, ls_generation = cd_generation c, ls_callback = callback\<rparr>)"

text \<open>\<open>ctx\<close> is the error of the context, \<open>now\<close> the clock when the expiry is read.\<close>

definition lease_check :: "string option \<Rightarrow> go_time \<Rightarrow> lease \<Rightarrow> lease_scope \<Rightarrow> bool \<Rightarrow> lease_error option" where
  "lease_check ctx now l s allow_expired =
     (case validate_lease_scope s of
        Some e \<Rightarrow> Some e
      | None \<Rightarrow>
          (case ctx of
             Some e \<Rightarrow> Some (LeaseContext e)
           | None \<Rightarrow>
               if ls_released l then Some LeaseClosed
               else if ls_scope l \<noteq> s then Some LeaseScopeMismatch
               else if \<not> allow_expired \<and> \<not> before now (ls_expires_at l) then Some LeaseClosed
               else None))"

definition lease_local ::
  "string option \<Rightarrow> go_time \<Rightarrow> lease option \<Rightarrow> lease_scope \<Rightarrow> bool \<Rightarrow> lease_error + credential" where
  "lease_local ctx now lo s allow_expired =
     (case lo of
        None \<Rightarrow> Inl LeaseClosed
      | Some l \<Rightarrow> (case lease_check ctx now l s allow_expired of Some e \<Rightarrow> Inl e | None \<Rightarrow> Inr (ls_credential l)))"

definition lease_borrow :: "string option \<Rightarrow> go_time \<Rightarrow> lease option \<Rightarrow> lease_scope \<Rightarrow> lease_error + credential" where
  "lease_borrow ctx now lo s = lease_local ctx now lo s False"

definition lease_material_for_refresh ::
  "string option \<Rightarrow> go_time \<Rightarrow> lease option \<Rightarrow> lease_scope \<Rightarrow> lease_error + credential" where
  "lease_material_for_refresh ctx now lo s = lease_local ctx now lo s True"

definition lease_validate_local :: "string option \<Rightarrow> go_time \<Rightarrow> lease option \<Rightarrow> lease_scope \<Rightarrow> lease_error option" where
  "lease_validate_local ctx now lo s =
     (case lo of None \<Rightarrow> Some LeaseClosed | Some l \<Rightarrow> lease_check ctx now l s False)"

text \<open>
  The issuer's check runs without the lock, so the lease is read again after it: \<open>lo'\<close>, \<open>ctx'\<close> and
  \<open>now'\<close> are the lease, the context and the clock then; \<open>check\<close> is the issuer's answer.
\<close>

definition lease_validate_for_dispatch ::
  "string option \<Rightarrow> go_time \<Rightarrow> lease option \<Rightarrow> string option \<Rightarrow> string option \<Rightarrow> go_time \<Rightarrow> lease option \<Rightarrow>
   lease_scope \<Rightarrow> lease_error option" where
  "lease_validate_for_dispatch ctx now lo check ctx' now' lo' s =
     (case lease_validate_local ctx now lo s of
        Some e \<Rightarrow> Some e
      | None \<Rightarrow>
          (case check of
             Some e \<Rightarrow> Some (LeaseRejected e)
           | None \<Rightarrow> lease_validate_local ctx' now' lo' s))"

text \<open>The lease afterwards and whether the release callback was called.\<close>

definition lease_release :: "lease \<Rightarrow> lease \<times> bool" where
  "lease_release l =
     (if ls_released l then (l, False)
      else (l\<lparr>ls_released := True, ls_credential := zero_credential, ls_callback := False\<rparr>, ls_callback l))"

text \<open>
  \<open>issuer\<close> is the answer of an installed issuer; without one the kernel issues a lease of at most an
  hour on the caller's material, shortened to the context's deadline.
\<close>

definition acquire_attempt_credential ::
  "(string + lease option) option \<Rightarrow> go_time option \<Rightarrow> go_time \<Rightarrow> go_time \<Rightarrow> route \<Rightarrow> credential \<Rightarrow>
   lease_error + lease option" where
  "acquire_attempt_credential issuer deadline now now' r material =
     (case issuer of
        Some (Inl e) \<Rightarrow> Inl (LeaseRejected e)
      | Some (Inr l) \<Rightarrow> Inr l
      | None \<Rightarrow>
          let expires = time_add now max_lease_duration;
              expires' = (case deadline of Some d \<Rightarrow> if before d expires then d else expires | None \<Rightarrow> expires)
          in map_sum id Some (new_credential_lease now' (lease_scope_for_route r) material expires' False))"

text \<open>A guarded client or transport passes a request on only when the lease allows the dispatch.\<close>

definition guarded_round_trip ::
  "lease_error option \<Rightarrow> ('request \<Rightarrow> lease_error + 'response) \<Rightarrow> 'request \<Rightarrow> lease_error + 'response" where
  "guarded_round_trip authority transport q = (case authority of Some e \<Rightarrow> Inl e | None \<Rightarrow> transport q)"

section \<open>What a presentation writes\<close>

lemma ascii_lower_idem [simp]: "ascii_lower (ascii_lower c) = ascii_lower c"
proof -
  have "(of_char (ascii_lower c) :: nat) < 65 \<or> 90 < (of_char (ascii_lower c) :: nat)"
    by (auto simp: ascii_lower_def Let_def)
  then show ?thesis by (auto simp: ascii_lower_def [of "ascii_lower c"] Let_def)
qed

lemma ascii_lower_upper [simp]: "ascii_lower (ascii_upper c) = ascii_lower c"
proof (cases "97 \<le> char_code c \<and> char_code c \<le> 122")
  case True
  then have "(of_char (ascii_upper c) :: nat) = of_char c - 32"
    by (auto simp: ascii_upper_def char_code_def)
  moreover have "65 \<le> (of_char c :: nat) - 32" "(of_char c :: nat) - 32 \<le> 90" "(of_char c :: nat) - 32 + 32 = of_char c"
    using True unfolding char_code_def by linarith+
  ultimately show ?thesis using True by (simp add: ascii_lower_def Let_def char_code_def)
qed (auto simp: ascii_upper_def)

lemma lower_canonical_from: "map ascii_lower (canonical_from up s) = map ascii_lower s"
  by (induction up s rule: canonical_from.induct) simp_all

lemma lower_canonical_header [simp]: "lower (canonical_header n) = lower n"
  by (simp add: canonical_header_def lower_def lower_canonical_from)

lemma restricted_canonical:
  "canonical_header a = canonical_header b \<Longrightarrow> restricted_request_header a = restricted_request_header b"
  by (metis lower_canonical_header restricted_request_header_def)

lemma check_headers_unrestricted: "check_headers n m = None \<Longrightarrow> (name, vs) \<in> set m \<Longrightarrow> \<not> restricted_request_header name"
  by (induction n m rule: check_headers.induct) (auto split: if_splits sum.splits)

lemma check_static_unrestricted:
  "check_static_headers token seen names = None \<Longrightarrow> name \<in> set names \<Longrightarrow> \<not> restricted_request_header name"
  by (induction token seen names rule: check_static_headers.induct) (auto simp: reserved_static_header_def split: if_splits)

lemma foldl_put_other:
  "\<forall>p \<in> set ps. f p \<noteq> k \<Longrightarrow> gm_get (foldl (\<lambda>h p. gm_put (f p) (v p) h) h ps) k = gm_get h k"
  by (induction ps arbitrary: h) (auto simp: gomap_simps)


definition bearer :: credential_presentation where
  "bearer = \<lparr>cp_header = ''Authorization'', cp_prefix = ''Bearer '', cp_headers = [(''x-version'', ''2'')]\<rparr>"


section \<open>What a lease grants\<close>

datatype lease_op =
    LeaseBorrow "string option" go_time lease_scope
  | LeaseMaterial "string option" go_time lease_scope
  | LeaseRelease

text \<open>One call on a lease, with the number of times its callback has been called.\<close>

fun lease_step :: "lease_op \<Rightarrow> lease \<times> nat \<Rightarrow> lease \<times> nat" where
  "lease_step LeaseRelease (l, n) = (fst (lease_release l), n + (if snd (lease_release l) then 1 else 0))"
| "lease_step (LeaseBorrow ctx now s) (l, n) = (l, n)"
| "lease_step (LeaseMaterial ctx now s) (l, n) = (l, n)"

lemma lease_run:
  "fold lease_step ops (l, n) =
     (if LeaseRelease \<in> set ops then (fst (lease_release l), n + (if snd (lease_release l) then 1 else 0)) else (l, n))"
proof (induction ops arbitrary: l n)
  case (Cons op ops)
  show ?case by (cases op) (simp_all add: Cons.IH lease_release_def)
qed simp


definition leased_route :: route where
  "leased_route = zero_route\<lparr>rt_id := ''r'', rt_session_operation_ref := mk_ref ''operation'' ''chat.generate'' 1\<rparr>"


end
