(* ===== verification/Artifacts.thy ===== *)
theory Artifacts
  imports Transforms Requests Digest
begin

text \<open>
  Artifacts: typed values or body references with an owner and a replay scope
  (\<open>internal/extensions/artifact.go\<close>), and the check of the extension catalog that decides whether one
  may cross to a receiver (\<open>Snapshot.ValidateArtifact\<close> of \<open>internal/extensions/catalog.go\<close>). The JSON
  schema library is a parameter: whether a schema of the catalog accepts a value.
\<close>

section \<open>Policies and descriptors\<close>

definition artifact_kind :: string where
  "artifact_kind = ''artifact''"

definition interpreter_kind :: string where
  "interpreter_kind = ''artifact-interpreter''"

definition scope_request :: string where
  "scope_request = ''request''"

definition scope_session :: string where
  "scope_session = ''session''"

definition scope_connection :: string where
  "scope_connection = ''connection''"

definition scope_provider :: string where
  "scope_provider = ''provider''"

definition scope_portable :: string where
  "scope_portable = ''portable''"

definition valid_replay_scope :: "string \<Rightarrow> bool" where
  "valid_replay_scope s \<longleftrightarrow>
     s \<in> set [scope_request, scope_session, scope_connection, scope_provider, scope_portable]"

definition sensitivity_secret :: string where
  "sensitivity_secret = ''secret''"

definition sensitivity_rank :: "string \<Rightarrow> int" where
  "sensitivity_rank v =
     (if v = ''public'' then 0 else if v = ''private'' then 1 else if v = sensitivity_secret then 2 else - 1)"

record artifact_policy =
  ap_domains :: "string list"
  ap_scopes :: "string list"
  ap_sensitivity :: string
  ap_media_types :: "string list"
  ap_recipients :: "ext_ref list"

definition allows_media_type :: "artifact_policy \<Rightarrow> string \<Rightarrow> bool" where
  "allows_media_type p m \<longleftrightarrow> ap_media_types p = [] \<or> m \<in> set (ap_media_types p)"

text \<open>What a descriptor of the catalog says of an artifact type or an interpreter.\<close>

record descriptor =
  ds_policy :: "artifact_policy option"
  ds_bounds :: resource_bounds
  ds_input_schema :: "ext_ref option"
  ds_result_schema :: "ext_ref option"

record extension_catalog =
  xc_descriptors :: "(ext_ref, descriptor) gomap"
  xc_schema_accepts :: "ext_ref \<Rightarrow> string \<Rightarrow> bool"

section \<open>The shape of an artifact\<close>

datatype artifact_error =
    ArtifactTypeRef
  | ArtifactOwnerDomain
  | ArtifactIssuer
  | ArtifactScopeInvalid
  | ArtifactSecretPortable
  | ArtifactConnectionOwner
  | ArtifactMedia
  | ArtifactSize
  | ArtifactValueAndBody
  | ArtifactInlineSize
  | ArtifactBodyMismatch
  | ArtifactBodyScope
  | ArtifactBodyExpiry
  | ArtifactBodyDigest
  | ArtifactDigestMismatch
  | ArtifactDigest
  | ArtifactNoCatalog
  | ArtifactUnregistered
  | ArtifactDomainNotAllowed
  | ArtifactScopeNotAllowed
  | ArtifactSensitivity
  | ArtifactMediaNotAllowed
  | ArtifactExpired
  | ArtifactBodyExpired
  | ArtifactNoSchema
  | ArtifactSchema
  | ArtifactInlineDigest
  | ArtifactRecipient
  | ArtifactCrossesSession
  | ArtifactCrossesConnection
  | ArtifactCrossesIssuer
  | ArtifactCrossesProvider
  | ArtifactCrossesOwner
  | ArtifactDisclosure

definition valid_sha256 :: "string \<Rightarrow> bool" where
  "valid_sha256 v \<longleftrightarrow> length v = 64 \<and> hex_decode v \<noteq> None"

definition provider_domain :: string where
  "provider_domain = ''provider''"

definition harness_domain :: string where
  "harness_domain = ''harness''"

definition body_shape :: "artifact_ref \<Rightarrow> body_ref \<Rightarrow> artifact_error option" where
  "body_shape a b =
     (if br_id b = [] \<or> br_size b \<noteq> ar_size a \<or> br_media_type b \<noteq> ar_media_type a then Some ArtifactBodyMismatch
      else if ar_replay_scope a \<noteq> scope_request \<and> \<not> br_replayable b then Some ArtifactBodyScope
      else if \<not> is_zero (br_expires_at b) \<and> \<not> is_zero (ar_expires_at a) \<and> before (br_expires_at b) (ar_expires_at a)
      then Some ArtifactBodyExpiry
      else if br_sha256 b \<noteq> [] \<and> \<not> valid_sha256 (br_sha256 b) then Some ArtifactBodyDigest
      else if ar_sha256 a \<noteq> [] \<and> br_sha256 b \<noteq> [] \<and> ar_sha256 a \<noteq> br_sha256 b then Some ArtifactDigestMismatch
      else None)"

text \<open>A connection-scoped artifact of a provider names its connection and its exact issuer.\<close>

definition connection_owner_incomplete :: "artifact_owner \<Rightarrow> bool" where
  "connection_owner_incomplete w \<longleftrightarrow>
     ao_connection w = [] \<or>
     (case ao_issuer w of
        None \<Rightarrow> True
      | Some i \<Rightarrow> ref_kind i \<noteq> ''provider-definition'' \<or> ref_id i \<noteq> ao_provider_definition w)"

definition validate_shape :: "artifact_ref \<Rightarrow> int \<Rightarrow> artifact_error option" where
  "validate_shape a max_bytes =
     (if \<not> ref_ok (ar_type_ref a) \<or> ref_kind (ar_type_ref a) \<noteq> artifact_kind then Some ArtifactTypeRef
      else if trim_space (ao_domain (ar_owner a)) = [] then Some ArtifactOwnerDomain
      else if (case ao_issuer (ar_owner a) of None \<Rightarrow> False | Some i \<Rightarrow> \<not> ref_ok i) then Some ArtifactIssuer
      else if \<not> valid_replay_scope (ar_replay_scope a) \<or> sensitivity_rank (ar_sensitivity a) < 0
      then Some ArtifactScopeInvalid
      else if ar_replay_scope a = scope_portable \<and> ar_sensitivity a = sensitivity_secret then Some ArtifactSecretPortable
      else if ao_domain (ar_owner a) = provider_domain \<and> ar_replay_scope a = scope_connection \<and>
              connection_owner_incomplete (ar_owner a)
      then Some ArtifactConnectionOwner
      else if ar_media_type a = [] \<or> ar_size a < 0 then Some ArtifactMedia
      else if 0 < max_bytes \<and> max_bytes < ar_size a then Some ArtifactSize
      else if (ar_value a \<noteq> []) = (ar_body a \<noteq> None) then Some ArtifactValueAndBody
      else if ar_value a \<noteq> [] \<and> int (length (ar_value a)) \<noteq> ar_size a then Some ArtifactInlineSize
      else case (case ar_body a of None \<Rightarrow> None | Some b \<Rightarrow> body_shape a b) of
             Some e \<Rightarrow> Some e
           | None \<Rightarrow> if ar_sha256 a \<noteq> [] \<and> \<not> valid_sha256 (ar_sha256 a) then Some ArtifactDigest else None)"

section \<open>Crossing an owner's boundary\<close>

text \<open>\<open>artifactOwnersEqual\<close> compares the issuers by value, which is equality of the records.\<close>

definition owners_equal :: "artifact_owner \<Rightarrow> artifact_owner \<Rightarrow> bool" where
  "owners_equal a b \<longleftrightarrow>
     ao_domain a = ao_domain b \<and> ao_provider_definition a = ao_provider_definition b \<and>
     ao_connection a = ao_connection b \<and> ao_model_identity a = ao_model_identity b \<and>
     ao_client_contract a = ao_client_contract b \<and> ao_session a = ao_session b \<and>
     (case ao_issuer a of
        None \<Rightarrow> ao_issuer b = None
      | Some i \<Rightarrow> (case ao_issuer b of None \<Rightarrow> False | Some j \<Rightarrow> i = j))"

definition transfer_refused :: "artifact_ref \<Rightarrow> artifact_owner \<Rightarrow> artifact_error option" where
  "transfer_refused a receiver =
     (let w = ar_owner a; s = ar_replay_scope a
      in if s = scope_request then None
         else if s = scope_session
         then if ao_session w = [] \<or> ao_session w \<noteq> ao_session receiver then Some ArtifactCrossesSession else None
         else if s = scope_connection
         then if ao_connection w = [] \<or> ao_connection w \<noteq> ao_connection receiver then Some ArtifactCrossesConnection
              else if ao_issuer w \<noteq> None \<and> ao_issuer receiver \<noteq> ao_issuer w then Some ArtifactCrossesIssuer
              else None
         else if s = scope_provider
         then if ao_provider_definition w = [] \<or> ao_provider_definition w \<noteq> ao_provider_definition receiver
              then Some ArtifactCrossesProvider else None
         else if s = scope_portable
         then if ar_sensitivity a = sensitivity_secret then Some ArtifactSecretPortable else None
         else Some ArtifactCrossesOwner)"

definition inline_refused :: "extension_catalog \<Rightarrow> descriptor \<Rightarrow> artifact_ref \<Rightarrow> artifact_error option" where
  "inline_refused cat d a =
     (if ar_value a = [] then None
      else case ds_input_schema d of
             None \<Rightarrow> Some ArtifactNoSchema
           | Some s \<Rightarrow>
               if \<not> xc_schema_accepts cat s (ar_value a) then Some ArtifactSchema
               else if ar_sha256 a \<noteq> [] \<and> hex_encode (sha256 (ar_value a)) \<noteq> ar_sha256 a then Some ArtifactInlineDigest
               else None)"

text \<open>\<open>clock\<close> is read when the caller passes the zero time; a nil catalog is \<open>None\<close>.\<close>

definition validate_artifact_for ::
  "extension_catalog option \<Rightarrow> artifact_ref \<Rightarrow> artifact_owner \<Rightarrow> ext_ref \<Rightarrow> go_time \<Rightarrow> go_time \<Rightarrow> bool \<Rightarrow>
   artifact_error option" where
  "validate_artifact_for catalog a receiver recipient clock now disclosure =
     (case catalog of
        None \<Rightarrow> Some ArtifactNoCatalog
      | Some cat \<Rightarrow>
          (case gm_get (xc_descriptors cat) (ar_type_ref a) of
             None \<Rightarrow> Some ArtifactUnregistered
           | Some d \<Rightarrow>
               (case ds_policy d of
                  None \<Rightarrow> Some ArtifactUnregistered
                | Some p \<Rightarrow>
                    if ref_kind (ar_type_ref a) \<noteq> artifact_kind then Some ArtifactUnregistered
                    else case validate_shape a (rb_max_input (ds_bounds d)) of
                      Some e \<Rightarrow> Some e
                    | None \<Rightarrow>
                        let t = (if is_zero now then clock else now)
                        in if ao_domain (ar_owner a) \<notin> set (ap_domains p) then Some ArtifactDomainNotAllowed
                           else if ar_replay_scope a \<notin> set (ap_scopes p) then Some ArtifactScopeNotAllowed
                           else if sensitivity_rank (ap_sensitivity p) < sensitivity_rank (ar_sensitivity a)
                           then Some ArtifactSensitivity
                           else if \<not> allows_media_type p (ar_media_type a) then Some ArtifactMediaNotAllowed
                           else if \<not> is_zero (ar_expires_at a) \<and> \<not> after (ar_expires_at a) t then Some ArtifactExpired
                           else if (case ar_body a of
                                      None \<Rightarrow> False
                                    | Some b \<Rightarrow> \<not> is_zero (br_expires_at b) \<and> \<not> after (br_expires_at b) t)
                           then Some ArtifactBodyExpired
                           else case inline_refused cat d a of
                             Some e \<Rightarrow> Some e
                           | None \<Rightarrow>
                               if owners_equal (ar_owner a) receiver then None
                               else if recipient \<notin> set (ap_recipients p) then Some ArtifactRecipient
                               else if disclosure then None
                               else transfer_refused a receiver)))"

definition validate_artifact ::
  "extension_catalog option \<Rightarrow> artifact_ref \<Rightarrow> artifact_owner \<Rightarrow> ext_ref \<Rightarrow> go_time \<Rightarrow> go_time \<Rightarrow> artifact_error option" where
  "validate_artifact catalog a receiver recipient clock now =
     validate_artifact_for catalog a receiver recipient clock now False"

definition validate_artifact_disclosure ::
  "extension_catalog option \<Rightarrow> artifact_ref \<Rightarrow> artifact_owner \<Rightarrow> ext_ref \<Rightarrow> go_time \<Rightarrow> go_time \<Rightarrow> artifact_error option" where
  "validate_artifact_disclosure catalog a receiver recipient clock now =
     (if ao_domain (ar_owner a) \<noteq> provider_domain \<or> ao_domain receiver \<noteq> harness_domain \<or>
         ref_kind recipient \<noteq> ''operation''
      then Some ArtifactDisclosure
      else validate_artifact_for catalog a receiver recipient clock now True)"

fun check_distinct :: "('a \<Rightarrow> bool) \<Rightarrow> 'a list \<Rightarrow> 'a list \<Rightarrow> bool" where
  "check_distinct ok seen [] = True"
| "check_distinct ok seen (x # xs) = (ok x \<and> x \<notin> set seen \<and> check_distinct ok (x # seen) xs)"

datatype policy_invalid = PolicyIncomplete | PolicyDomain | PolicyScope | PolicyMedia | PolicyRecipient

definition validate_artifact_policy :: "artifact_policy \<Rightarrow> policy_invalid option" where
  "validate_artifact_policy p =
     (if ap_domains p = [] \<or> ap_scopes p = [] \<or> sensitivity_rank (ap_sensitivity p) < 0 then Some PolicyIncomplete
      else if \<not> check_distinct (\<lambda>d. trim_space d \<noteq> []) [] (ap_domains p) then Some PolicyDomain
      else if \<not> check_distinct valid_replay_scope [] (ap_scopes p) then Some PolicyScope
      else if \<not> check_distinct (\<lambda>m. trim_space m \<noteq> []) [] (ap_media_types p) then Some PolicyMedia
      else if \<not> check_distinct ref_ok [] (ap_recipients p) then Some PolicyRecipient
      else None)"

section \<open>Who may receive an artifact\<close>

lemma owners_equal_iff: "owners_equal a b \<longleftrightarrow> a = b"
  by (auto simp: owners_equal_def split: option.splits)

text \<open>
  The authorisation the artifact policy promises: the receiver owns the artifact, or the recipient is
  named by the type's policy and the artifact's scope reaches the receiver.
\<close>

definition scope_reaches :: "artifact_ref \<Rightarrow> artifact_owner \<Rightarrow> bool" where
  "scope_reaches a w \<longleftrightarrow>
     ar_replay_scope a = scope_request \<or>
     ar_replay_scope a = scope_session \<and> ao_session (ar_owner a) \<noteq> [] \<and> ao_session w = ao_session (ar_owner a) \<or>
     ar_replay_scope a = scope_connection \<and> ao_connection (ar_owner a) \<noteq> [] \<and>
       ao_connection w = ao_connection (ar_owner a) \<and>
       (ao_issuer (ar_owner a) \<noteq> None \<longrightarrow> ao_issuer w = ao_issuer (ar_owner a)) \<or>
     ar_replay_scope a = scope_provider \<and> ao_provider_definition (ar_owner a) \<noteq> [] \<and>
       ao_provider_definition w = ao_provider_definition (ar_owner a) \<or>
     ar_replay_scope a = scope_portable \<and> ar_sensitivity a \<noteq> sensitivity_secret"

lemmas scope_names = scope_request_def scope_session_def scope_connection_def scope_provider_def scope_portable_def

lemma transfer_refused_iff:
  "valid_replay_scope (ar_replay_scope a) \<Longrightarrow> transfer_refused a w = None \<longleftrightarrow> scope_reaches a w"
  by (auto simp: transfer_refused_def scope_reaches_def valid_replay_scope_def scope_names Let_def)

text \<open>Within its lifetime, with a body that lives as long, and holding the value its digest names.\<close>

definition artifact_live :: "artifact_ref \<Rightarrow> go_time \<Rightarrow> bool" where
  "artifact_live a t \<longleftrightarrow>
     (is_zero (ar_expires_at a) \<or> t < ar_expires_at a) \<and>
     (\<forall>b. ar_body a = Some b \<longrightarrow> is_zero (br_expires_at b) \<or> t < br_expires_at b) \<and>
     (ar_value a \<noteq> [] \<and> ar_sha256 a \<noteq> [] \<longrightarrow> ar_sha256 a = hex_encode (sha256 (ar_value a)))"

lemma validate_shape_scope: "validate_shape a n = None \<Longrightarrow> valid_replay_scope (ar_replay_scope a)"
  by (auto simp: validate_shape_def split: if_splits)

lemma validate_artifact_for_facts:
  assumes "validate_artifact_for catalog a receiver recipient clock now disclosure = None"
  obtains cat d p where "catalog = Some cat" and "gm_get (xc_descriptors cat) (ar_type_ref a) = Some d"
    and "ds_policy d = Some p" and "validate_shape a (rb_max_input (ds_bounds d)) = None"
    and "ar_replay_scope a \<in> set (ap_scopes p)" and "ao_domain (ar_owner a) \<in> set (ap_domains p)"
    and "sensitivity_rank (ar_sensitivity a) \<le> sensitivity_rank (ap_sensitivity p)"
    and "artifact_live a (if is_zero now then clock else now)"
    and "ar_owner a \<noteq> receiver \<Longrightarrow> recipient \<in> set (ap_recipients p) \<and> (disclosure \<or> scope_reaches a receiver)"
proof -
  let ?t = "if is_zero now then clock else now"
  from assms obtain cat d p where c: "catalog = Some cat" "gm_get (xc_descriptors cat) (ar_type_ref a) = Some d"
      "ds_policy d = Some p"
    by (auto simp: validate_artifact_for_def split: option.splits)
  have shape: "validate_shape a (rb_max_input (ds_bounds d)) = None"
    using assms c by (auto simp: validate_artifact_for_def split: if_splits option.splits)
  have rest: "ar_replay_scope a \<in> set (ap_scopes p)" "ao_domain (ar_owner a) \<in> set (ap_domains p)"
      "sensitivity_rank (ar_sensitivity a) \<le> sensitivity_rank (ap_sensitivity p)"
      "is_zero (ar_expires_at a) \<or> ?t < ar_expires_at a" "inline_refused cat d a = None"
    using assms c shape by (auto simp: validate_artifact_for_def Let_def after_def not_less split: if_splits option.splits)
  have body: "is_zero (br_expires_at b) \<or> ?t < br_expires_at b" if "ar_body a = Some b" for b
    using assms c shape that by (auto simp: validate_artifact_for_def Let_def after_def split: if_splits option.splits)
  have cross: "recipient \<in> set (ap_recipients p) \<and> (disclosure \<or> transfer_refused a receiver = None)"
    if "ar_owner a \<noteq> receiver"
    using assms c shape that
    by (auto simp: validate_artifact_for_def Let_def owners_equal_iff split: if_splits option.splits)
  have "artifact_live a ?t"
    using rest(4,5) body by (auto simp: artifact_live_def inline_refused_def split: option.splits if_splits)
  with that [OF c shape rest(1,2,3)] cross transfer_refused_iff [OF validate_shape_scope [OF shape]]
  show thesis by blast
qed

text \<open>The inline value, if there is one, is accepted by the schema its type declares.\<close>

definition inline_accepted :: "extension_catalog \<Rightarrow> descriptor \<Rightarrow> artifact_ref \<Rightarrow> bool" where
  "inline_accepted cat d a \<longleftrightarrow>
     ar_value a = [] \<or> (\<exists>s. ds_input_schema d = Some s \<and> xc_schema_accepts cat s (ar_value a))"

definition policy_permits :: "artifact_policy \<Rightarrow> artifact_ref \<Rightarrow> bool" where
  "policy_permits p a \<longleftrightarrow>
     ao_domain (ar_owner a) \<in> set (ap_domains p) \<and> ar_replay_scope a \<in> set (ap_scopes p) \<and>
     sensitivity_rank (ar_sensitivity a) \<le> sensitivity_rank (ap_sensitivity p) \<and>
     allows_media_type p (ar_media_type a)"

lemma validate_shape_kind: "validate_shape a n = None \<Longrightarrow> ref_kind (ar_type_ref a) = artifact_kind"
  by (auto simp: validate_shape_def split: if_splits)

text \<open>
  C34. An artifact passes to a receiver exactly when its type is registered with a policy that permits
  it, it is well formed, alive and its inline value is the one its digest and schema name, and the
  receiver owns it or the policy names the recipient and the artifact's scope reaches the receiver
  (a disclosure to a client does not need the scope).
\<close>
theorem artifact_access_exact:
  "validate_artifact_for catalog a receiver recipient clock now disclosure = None \<longleftrightarrow>
     (\<exists>cat d p. catalog = Some cat \<and> gm_get (xc_descriptors cat) (ar_type_ref a) = Some d \<and>
        ds_policy d = Some p \<and> validate_shape a (rb_max_input (ds_bounds d)) = None \<and> policy_permits p a \<and>
        artifact_live a (if is_zero now then clock else now) \<and> inline_accepted cat d a \<and>
        (ar_owner a = receiver \<or>
         recipient \<in> set (ap_recipients p) \<and> (disclosure \<or> scope_reaches a receiver)))"
  (is "?accepted \<longleftrightarrow> ?spec")
proof -
  have case_some: "?accepted \<longleftrightarrow>
      validate_shape a (rb_max_input (ds_bounds d)) = None \<and> policy_permits p a \<and>
      artifact_live a (if is_zero now then clock else now) \<and> inline_accepted cat d a \<and>
      (ar_owner a = receiver \<or> recipient \<in> set (ap_recipients p) \<and> (disclosure \<or> scope_reaches a receiver))"
    if c: "catalog = Some cat" "gm_get (xc_descriptors cat) (ar_type_ref a) = Some d" "ds_policy d = Some p"
    for cat d p
  proof (cases "validate_shape a (rb_max_input (ds_bounds d)) = None")
    case False
    with c show ?thesis by (auto simp: validate_artifact_for_def)
  next
    case shape: True
    let ?t = "if is_zero now then clock else now"
    have expiry: "artifact_live a ?t \<and> inline_accepted cat d a \<longleftrightarrow>
        (is_zero (ar_expires_at a) \<or> after (ar_expires_at a) ?t) \<and>
        \<not> (case ar_body a of None \<Rightarrow> False | Some b \<Rightarrow> \<not> is_zero (br_expires_at b) \<and> \<not> after (br_expires_at b) ?t) \<and>
        inline_refused cat d a = None"
      by (auto simp: artifact_live_def inline_accepted_def inline_refused_def after_def split: option.splits)
    have "?accepted \<longleftrightarrow> policy_permits p a \<and>
        (is_zero (ar_expires_at a) \<or> after (ar_expires_at a) ?t) \<and>
        \<not> (case ar_body a of None \<Rightarrow> False | Some b \<Rightarrow> \<not> is_zero (br_expires_at b) \<and> \<not> after (br_expires_at b) ?t) \<and>
        inline_refused cat d a = None \<and>
        (ar_owner a = receiver \<or> recipient \<in> set (ap_recipients p) \<and> (disclosure \<or> transfer_refused a receiver = None))"
      using c shape validate_shape_kind [OF shape]
      by (simp add: validate_artifact_for_def policy_permits_def owners_equal_iff Let_def not_less split: option.split)
    also have "\<dots> \<longleftrightarrow> policy_permits p a \<and> (artifact_live a ?t \<and> inline_accepted cat d a) \<and>
        (ar_owner a = receiver \<or> recipient \<in> set (ap_recipients p) \<and> (disclosure \<or> scope_reaches a receiver))"
      by (simp only: expiry transfer_refused_iff [OF validate_shape_scope [OF shape]] conj_assoc)
    finally show ?thesis using shape by (simp add: conj_assoc)
  qed
  show ?thesis
  proof
    assume a: ?accepted
    then obtain cat d p where "catalog = Some cat" "gm_get (xc_descriptors cat) (ar_type_ref a) = Some d"
      "ds_policy d = Some p"
      by (rule validate_artifact_for_facts)
    with case_some a show ?spec by blast
  next
    assume ?spec
    with case_some show ?accepted by metis
  qed
qed

end
