(* ===== verification/Operations.thy ===== *)
theory Operations
  imports Artifacts Attempts
begin

text \<open>
  The operation registry (\<open>internal/operations/registry.go\<close>): what an operation declares, the check of the
  artifacts that enter and leave it, and the preparation of a request, which compiles the requirements
  the kernel routes by. Payload encoders, requirement compilers, interpreters and result projectors are
  supplied by modules, so they are functions of a definition; the JSON encoders are a parameter.
\<close>

section \<open>Definitions\<close>

datatype replay_safety =
    ReplayBeforeDispatch
  | ReplayOnRejection
  | ReplayWithKey
  | ReplayNever
  | ReplayOther string

definition valid_replay_safety :: "replay_safety \<Rightarrow> bool" where
  "valid_replay_safety s \<longleftrightarrow> s \<in> {ReplayBeforeDispatch, ReplayOnRejection, ReplayWithKey, ReplayNever}"

text \<open>An input and an output port have the same fields.\<close>

type_synonym artifact_port = artifact_output

record interpreter_binding =
  ib_role :: string
  ib_ref :: ext_ref
  ib_options :: string

record operation_definition =
  od_ref :: ext_ref
  od_display_name :: string
  od_description :: string
  od_input_schema :: ext_ref
  od_result_schema :: "ext_ref option"
  od_event_schemas :: "ext_ref list"
  od_inputs :: "artifact_port list"
  od_outputs :: "artifact_port list"
  od_interpreters :: "interpreter_binding list"
  od_usage :: usage_requirements
  od_projector :: bool
  od_bounds :: resource_bounds
  od_safety :: replay_safety
  od_input_payload :: "(request \<Rightarrow> string + string) option"
  od_validate :: "(request \<Rightarrow> string option) option"
  od_requirements :: "(request \<Rightarrow> string + feature_requirement list) option"
  od_artifact_requirements :: "(request \<Rightarrow> artifact_facts list \<Rightarrow> string + feature_requirement list) option"

datatype operation_error =
    OperationUnregistered ext_ref
  | OperationIncomplete
  | OperationMetadata
  | OperationBounds
  | OperationResultSchema
  | OperationProjector
  | OperationEventSchema
  | OperationPort string
  | OperationInterpreter string
  | OperationDuplicate
  | PortNotAllowed string
  | PortTooMany string
  | PortTooFew string
  | PortArtifact artifact_error
  | InputTooLarge
  | PayloadSchema
  | RequestInvalid string
  | PayloadEncoding string
  | EventSchemas
  | ResultMissing
  | ResultTooLarge
  | ResultSchema
  | FactsUndeclared
  | FactsStale
  | FactsMismatch string
  | FactsUnbound
  | FactsSchema
  | FactsTooLarge
  | FactsDigest
  | InspectionLimit
  | InspectionFailed string
  | RequirementsFailed string

definition operation_kind :: string where
  "operation_kind = ''operation''"

definition schema_kind :: string where
  "schema_kind = ''schema''"

definition operation_ref_of :: "request \<Rightarrow> ext_ref" where
  "operation_ref_of q = mk_ref operation_kind (rq_operation q) (rq_operation_version q)"

definition default_resource_bounds :: resource_bounds where
  "default_resource_bounds =
     \<lparr>rb_max_input = 16 * 2 ^ 20, rb_max_output = 32 * 2 ^ 20, rb_max_buffered = 2 ^ 20, rb_deadline_millis = 300000\<rparr>"

section \<open>Registration\<close>

text \<open>The roles of the ports, which have to be distinct.\<close>

fun ports_invalid :: "string list \<Rightarrow> artifact_port list \<Rightarrow> operation_error option" where
  "ports_invalid seen [] = None"
| "ports_invalid seen (p # ps) =
     (if trim_space (aout_role p) = [] \<or> aout_role p \<in> set seen \<or> aout_min_count p < 0 \<or> aout_max_count p \<le> 0 \<or>
         aout_max_count p < aout_min_count p \<or> \<not> ref_ok (aout_type_ref p) \<or> ref_kind (aout_type_ref p) \<noteq> artifact_kind
      then Some (OperationPort (aout_role p)) else ports_invalid (aout_role p # seen) ps)"

fun interpreters_invalid :: "string list \<Rightarrow> string list \<Rightarrow> bool \<Rightarrow> interpreter_binding list \<Rightarrow> operation_error option" where
  "interpreters_invalid roles seen compiles [] = None"
| "interpreters_invalid roles seen compiles (b # bs) =
     (if ib_role b \<notin> set roles \<or> ib_role b \<in> set seen \<or> \<not> ref_ok (ib_ref b) \<or> ref_kind (ib_ref b) \<noteq> interpreter_kind \<or>
         \<not> compiles \<or> \<not> json_valid (if ib_options b = [] then ''{}'' else ib_options b)
      then Some (OperationInterpreter (ib_role b)) else interpreters_invalid roles (ib_role b # seen) compiles bs)"

definition schema_ref_invalid :: "ext_ref \<Rightarrow> bool" where
  "schema_ref_invalid r \<longleftrightarrow> ref_kind r \<noteq> schema_kind \<or> ref_version r = 0"

text \<open>The checks of \<open>Register\<close> on a definition, before it is put into the shared catalog.\<close>

definition definition_invalid :: "operation_definition \<Rightarrow> operation_error option" where
  "definition_invalid d =
     (if \<not> ref_ok (od_ref d) then Some OperationIncomplete
      else if ref_kind (od_ref d) \<noteq> operation_kind \<or> schema_ref_invalid (od_input_schema d) \<or>
              od_input_payload d = None \<and> od_validate d = None \<or> od_requirements d = None
      then Some OperationIncomplete
      else if od_display_name d = [] \<or> od_description d = [] \<or> \<not> valid_replay_safety (od_safety d)
      then Some OperationMetadata
      else if rb_max_input (od_bounds d) = 0 \<or> rb_max_output (od_bounds d) = 0 \<or> rb_max_buffered (od_bounds d) = 0 \<or>
              rb_deadline_millis (od_bounds d) = 0
      then Some OperationBounds
      else if (case od_result_schema d of None \<Rightarrow> False | Some r \<Rightarrow> schema_ref_invalid r) then Some OperationResultSchema
      else if od_result_schema d \<noteq> None \<and> \<not> od_projector d \<or> od_result_schema d = None \<and> od_projector d
      then Some OperationProjector
      else if list_ex schema_ref_invalid (od_event_schemas d) then Some OperationEventSchema
      else case ports_invalid [] (od_inputs d) of
        Some e \<Rightarrow> Some e
      | None \<Rightarrow>
          (case ports_invalid [] (od_outputs d) of
             Some e \<Rightarrow> Some e
           | None \<Rightarrow> interpreters_invalid (map aout_role (od_inputs d)) [] (od_artifact_requirements d \<noteq> None)
                       (od_interpreters d)))"

section \<open>Artifacts at a port\<close>

text \<open>A map of the code that a loop over the ports fills, so a later port of a role hides an earlier one.\<close>

definition allowed_port :: "artifact_port list \<Rightarrow> string \<Rightarrow> artifact_port option" where
  "allowed_port ports = map_of (rev (map (\<lambda>p. (aout_role p, p)) ports))"

text \<open>
  The loop the registry runs over artifacts: the counts by role so far, and the bytes so far, which only
  the preparation of a request reads. \<open>check\<close> is what it asks of each artifact.
\<close>

fun check_ports ::
  "artifact_port list \<Rightarrow> (int \<Rightarrow> artifact_ref \<Rightarrow> operation_error option) \<Rightarrow> artifact_ref list \<Rightarrow>
   (string, int) gomap \<Rightarrow> int \<Rightarrow> operation_error option \<times> (string, int) gomap \<times> int" where
  "check_ports ports check [] counts bytes = (None, counts, bytes)"
| "check_ports ports check (a # as) counts bytes =
     (case allowed_port ports (ar_role a) of
        None \<Rightarrow> (Some (PortNotAllowed (ar_role a)), counts, bytes)
      | Some p \<Rightarrow>
          if aout_type_ref p \<noteq> ar_type_ref a then (Some (PortNotAllowed (ar_role a)), counts, bytes)
          else let n = gm_or counts (ar_role a) 0 + 1; counts' = gm_put (ar_role a) n counts
               in if aout_max_count p < n then (Some (PortTooMany (ar_role a)), counts', bytes)
                  else case check bytes a of
                         Some e \<Rightarrow> (Some e, counts', bytes)
                       | None \<Rightarrow> check_ports ports check as counts' (bytes + ar_size a))"

definition ports_unfilled :: "artifact_port list \<Rightarrow> (string, int) gomap \<Rightarrow> operation_error option" where
  "ports_unfilled ports counts =
     first_error (\<lambda>p. if gm_or counts (aout_role p) 0 < aout_min_count p then Some (PortTooFew (aout_role p)) else None)
       ports"

type_synonym operation_table = "(ext_ref, operation_definition) gomap"

definition validate_artifacts_for_consumer ::
  "extension_catalog option \<Rightarrow> operation_table \<Rightarrow> go_time \<Rightarrow> ext_ref \<Rightarrow> artifact_ref list \<Rightarrow> artifact_owner \<Rightarrow>
   ext_ref \<Rightarrow> operation_error option" where
  "validate_artifacts_for_consumer cat ops now op as receiver recipient =
     (case gm_get ops op of
        None \<Rightarrow> Some (OperationUnregistered op)
      | Some d \<Rightarrow>
          (case check_ports (od_inputs d)
                  (\<lambda>_ a. map_option PortArtifact (validate_artifact cat a receiver recipient now now)) as [] 0 of
             (Some e, _) \<Rightarrow> Some e
           | (None, counts, _) \<Rightarrow> ports_unfilled (od_inputs d) counts))"

definition artifact_outputs :: "operation_table \<Rightarrow> ext_ref \<Rightarrow> artifact_port list" where
  "artifact_outputs ops op = (case gm_get ops op of None \<Rightarrow> [] | Some d \<Rightarrow> od_outputs d)"

text \<open>The counts of a response are kept over its events, also when an event is refused.\<close>

definition validate_artifact_outputs ::
  "extension_catalog option \<Rightarrow> operation_table \<Rightarrow> go_time \<Rightarrow> ext_ref \<Rightarrow> artifact_ref list \<Rightarrow> artifact_owner \<Rightarrow>
   ext_ref \<Rightarrow> (string, int) gomap \<Rightarrow> operation_error option \<times> (string, int) gomap" where
  "validate_artifact_outputs cat ops now op as receiver recipient counts =
     (case gm_get ops op of
        None \<Rightarrow> (Some (OperationUnregistered op), counts)
      | Some d \<Rightarrow>
          (case check_ports (od_outputs d)
                  (\<lambda>_ a. map_option PortArtifact (validate_artifact_disclosure cat a receiver recipient now now))
                  as counts 0 of
             (err, counts', _) \<Rightarrow> (err, counts')))"

definition validate_output_counts :: "operation_table \<Rightarrow> ext_ref \<Rightarrow> (string, int) gomap \<Rightarrow> operation_error option" where
  "validate_output_counts ops op counts =
     (case gm_get ops op of
        None \<Rightarrow> Some (OperationUnregistered op)
      | Some d \<Rightarrow> ports_unfilled (od_outputs d) counts)"

section \<open>Events and results\<close>

definition validate_operation_event ::
  "extension_catalog \<Rightarrow> operation_table \<Rightarrow> ext_ref \<Rightarrow> string \<Rightarrow> operation_error option" where
  "validate_operation_event cat ops op event =
     (case gm_get ops op of
        None \<Rightarrow> Some (OperationUnregistered op)
      | Some d \<Rightarrow>
          if od_event_schemas d = [] \<or> list_ex (\<lambda>s. xc_schema_accepts cat s event) (od_event_schemas d) then None
          else Some EventSchemas)"

definition validate_operation_result ::
  "extension_catalog \<Rightarrow> operation_table \<Rightarrow> ext_ref \<Rightarrow> string \<Rightarrow> operation_error option" where
  "validate_operation_result cat ops op result =
     (case gm_get ops op of
        None \<Rightarrow> Some ResultMissing
      | Some d \<Rightarrow>
          (case od_result_schema d of
             None \<Rightarrow> Some ResultMissing
           | Some s \<Rightarrow>
               if rb_max_buffered (od_bounds d) < int (length result) then Some ResultTooLarge
               else if \<not> xc_schema_accepts cat s result then Some ResultSchema
               else None))"

section \<open>Facts about artifacts\<close>

text \<open>
  What the preparation asks outside: \<open>ins_artifact\<close> and \<open>ins_request\<close> encode as JSON, \<open>ins_bind\<close> is the
  failure of binding an interpreter, \<open>ins_open\<close> opens a body, \<open>ins_run\<close> is the interpreter on the bytes
  it may read, \<open>ins_ctx\<close> the context's error after it.
\<close>

record inspection =
  ins_artifact :: "artifact_ref \<Rightarrow> string option"
  ins_request :: "request \<Rightarrow> string option"
  ins_bind :: "ext_ref \<Rightarrow> string \<Rightarrow> string option"
  ins_open :: "(artifact_ref \<Rightarrow> ext_ref \<Rightarrow> string + string) option"
  ins_run :: "ext_ref \<Rightarrow> string \<Rightarrow> artifact_ref \<Rightarrow> string \<Rightarrow> string + string"
  ins_ctx :: "artifact_ref \<Rightarrow> string option"

definition artifact_source_digest :: "inspection \<Rightarrow> artifact_ref \<Rightarrow> operation_error + string" where
  "artifact_source_digest I a =
     (case ins_artifact I (a\<lparr>ar_value := []\<rparr>) of
        None \<Rightarrow> Inl FactsDigest
      | Some enc \<Rightarrow> Inr (hex_encode (sha256 (enc @ (if ar_value a = [] then [] else nul @ ar_value a)))))"

definition validate_artifact_facts :: "extension_catalog \<Rightarrow> ext_ref \<Rightarrow> string \<Rightarrow> operation_error option" where
  "validate_artifact_facts cat r v =
     (case gm_get (xc_descriptors cat) r of
        None \<Rightarrow> Some FactsSchema
      | Some d \<Rightarrow>
          (case ds_result_schema d of
             None \<Rightarrow> Some FactsSchema
           | Some s \<Rightarrow> if xc_schema_accepts cat s v then None else Some FactsSchema))"

definition inspect_artifact ::
  "extension_catalog \<Rightarrow> inspection \<Rightarrow> resource_bounds \<Rightarrow> artifact_ref \<Rightarrow> interpreter_binding \<Rightarrow>
   operation_error + artifact_facts" where
  "inspect_artifact cat I bounds a b =
     (case ins_bind I (ib_ref b) (ib_options b) of
        Some e \<Rightarrow> Inl (InspectionFailed e)
      | None \<Rightarrow>
          (case gm_get (xc_descriptors cat) (ib_ref b) of
             None \<Rightarrow> Inl (InspectionFailed ''unregistered'')
           | Some d \<Rightarrow>
               (case ds_result_schema d of
                  None \<Rightarrow> Inl FactsSchema
                | Some s \<Rightarrow>
                    if rb_max_input (ds_bounds d) < ar_size a \<or> rb_max_input bounds < ar_size a then Inl InspectionLimit
                    else case (if ar_value a \<noteq> [] then Inr (ar_value a)
                               else case ins_open I of
                                      None \<Rightarrow> Inl ''artifact body opener is unavailable''
                                    | Some open_body \<Rightarrow> open_body a (ib_ref b)) of
                           Inl e \<Rightarrow> Inl (InspectionFailed e)
                         | Inr source \<Rightarrow>
                             (case ins_run I (ib_ref b) (ib_options b) a (take (nat (ar_size a)) source) of
                                Inl e \<Rightarrow> Inl (InspectionFailed e)
                              | Inr v \<Rightarrow>
                                  (case ins_ctx I a of
                                     Some e \<Rightarrow> Inl (InspectionFailed e)
                                   | None \<Rightarrow>
                                       if rb_max_output (ds_bounds d) < int (length v) \<or>
                                          rb_max_buffered (ds_bounds d) < int (length v)
                                       then Inl FactsTooLarge
                                       else if \<not> xc_schema_accepts cat s v then Inl FactsSchema
                                       else case artifact_source_digest I a of
                                              Inl e \<Rightarrow> Inl e
                                            | Inr dg \<Rightarrow> Inr \<lparr>af_role = ib_role b, af_source_digest = dg,
                                                               af_interpreter = ib_ref b, af_value = v\<rparr>)))))"

text \<open>The artifacts an interpreter is bound to, in the order of the request.\<close>

definition bound_artifacts :: "interpreter_binding list \<Rightarrow> artifact_ref list \<Rightarrow> (artifact_ref \<times> interpreter_binding) list" where
  "bound_artifacts bs as =
     (let bindings = map_of (rev (map (\<lambda>b. (ib_role b, b)) bs))
      in List.map_filter (\<lambda>a. map_option (Pair a) (bindings (ar_role a))) as)"

definition fact_matches :: "interpreter_binding \<Rightarrow> string \<Rightarrow> artifact_facts \<Rightarrow> bool" where
  "fact_matches b dg f \<longleftrightarrow> af_role f = ib_role b \<and> af_interpreter f = ib_ref b \<and> af_source_digest f = dg"

text \<open>Take the first unused entry that matches: the facts given and whether each has been used.\<close>

fun take_fact ::
  "extension_catalog \<Rightarrow> interpreter_binding \<Rightarrow> string \<Rightarrow> (artifact_facts \<times> bool) list \<Rightarrow>
   operation_error + artifact_facts \<times> (artifact_facts \<times> bool) list" where
  "take_fact cat b dg [] = Inl (FactsMismatch (ib_role b))"
| "take_fact cat b dg ((f, used) # fs) =
     (if used \<or> \<not> fact_matches b dg f
      then case take_fact cat b dg fs of Inl e \<Rightarrow> Inl e | Inr (f', fs') \<Rightarrow> Inr (f', (f, used) # fs')
      else case validate_artifact_facts cat (ib_ref b) (af_value f) of
             Some e \<Rightarrow> Inl e
           | None \<Rightarrow> Inr (f, (f, True) # fs))"

fun reuse_facts ::
  "extension_catalog \<Rightarrow> inspection \<Rightarrow> (artifact_ref \<times> interpreter_binding) list \<Rightarrow> (artifact_facts \<times> bool) list \<Rightarrow>
   operation_error + artifact_facts list" where
  "reuse_facts cat I [] fs = (if list_all snd fs then Inr [] else Inl FactsUnbound)"
| "reuse_facts cat I ((a, b) # items) fs =
     (case artifact_source_digest I a of
        Inl e \<Rightarrow> Inl e
      | Inr dg \<Rightarrow>
          (case take_fact cat b dg fs of
             Inl e \<Rightarrow> Inl e
           | Inr (f, fs') \<Rightarrow>
               (case reuse_facts cat I items fs' of Inl e \<Rightarrow> Inl e | Inr rest \<Rightarrow> Inr (f # rest))))"

fun inspect_all ::
  "extension_catalog \<Rightarrow> inspection \<Rightarrow> resource_bounds \<Rightarrow> (artifact_ref \<times> interpreter_binding) list \<Rightarrow>
   operation_error + artifact_facts list" where
  "inspect_all cat I bounds [] = Inr []"
| "inspect_all cat I bounds ((a, b) # items) =
     (case inspect_artifact cat I bounds a b of
        Inl e \<Rightarrow> Inl e
      | Inr f \<Rightarrow> (case inspect_all cat I bounds items of Inl e \<Rightarrow> Inl e | Inr fs \<Rightarrow> Inr (f # fs)))"

definition prepare_artifact_facts ::
  "extension_catalog \<Rightarrow> inspection \<Rightarrow> request \<Rightarrow> operation_definition \<Rightarrow> operation_error + artifact_facts list" where
  "prepare_artifact_facts cat I q d =
     (if od_interpreters d = [] then if rq_facts q \<noteq> [] then Inl FactsUndeclared else Inr []
      else let expected = bound_artifacts (od_interpreters d) (rq_artifacts q)
           in if expected = [] then if rq_facts q \<noteq> [] then Inl FactsStale else Inr []
              else if rq_facts q \<noteq> [] then reuse_facts cat I expected (map (\<lambda>f. (f, False)) (rq_facts q))
              else inspect_all cat I (od_bounds d) expected)"

section \<open>Preparing a request\<close>

record prepared =
  pr_ref :: ext_ref
  pr_payload :: string
  pr_requirements :: "feature_requirement list"
  pr_safety :: replay_safety
  pr_bounds :: resource_bounds
  pr_artifacts :: "artifact_ref list"
  pr_facts :: "artifact_facts list"

text \<open>What the preparation asks of each artifact: its own owner may read it and it fits in the bound.\<close>

definition input_artifact_refused ::
  "extension_catalog option \<Rightarrow> go_time \<Rightarrow> int \<Rightarrow> int \<Rightarrow> artifact_ref \<Rightarrow> operation_error option" where
  "input_artifact_refused cat now limit bytes a =
     (case validate_artifact cat a (ar_owner a) no_ref now now of
        Some e \<Rightarrow> Some (PortArtifact e)
      | None \<Rightarrow> if limit - bytes < ar_size a then Some InputTooLarge else None)"

definition input_payload :: "extension_catalog \<Rightarrow> request \<Rightarrow> operation_definition \<Rightarrow> operation_error + string" where
  "input_payload cat q d =
     (if rq_payload q \<noteq> []
      then if xc_schema_accepts cat (od_input_schema d) (rq_payload q) then Inr (rq_payload q) else Inl PayloadSchema
      else case od_validate d of
             Some validate \<Rightarrow> (case validate q of Some e \<Rightarrow> Inl (RequestInvalid e) | None \<Rightarrow> Inr [])
           | None \<Rightarrow>
               (case od_input_payload d of
                  None \<Rightarrow> Inl OperationIncomplete
                | Some encode \<Rightarrow>
                    (case encode q of
                       Inl e \<Rightarrow> Inl (PayloadEncoding e)
                     | Inr payload \<Rightarrow>
                         if xc_schema_accepts cat (od_input_schema d) payload then Inr payload else Inl PayloadSchema)))"

text \<open>A request without a payload is measured by its client body, or by its own encoding without artifacts.\<close>

definition input_bytes :: "inspection \<Rightarrow> request \<Rightarrow> string \<Rightarrow> operation_error + int" where
  "input_bytes I q payload =
     (if payload \<noteq> [] then Inr (int (length payload))
      else if raw_keys (rq_raw q) \<noteq> [] then Inr (int (length (raw_encoding (rq_raw q))))
      else case ins_request I (q\<lparr>rq_artifacts := []\<rparr>) of
             None \<Rightarrow> Inl (PayloadEncoding ''measure normalized input'')
           | Some enc \<Rightarrow> Inr (int (length enc)))"

definition over_input :: "resource_bounds \<Rightarrow> int \<Rightarrow> int \<Rightarrow> bool" where
  "over_input b artifact_bytes n \<longleftrightarrow> 0 < rb_max_input b \<and> rb_max_input b - artifact_bytes < n"

fun facts_within :: "int \<Rightarrow> int \<Rightarrow> artifact_facts list \<Rightarrow> bool" where
  "facts_within limit n [] = True"
| "facts_within limit n (f # fs) =
     (n + int (length (af_value f)) \<le> limit \<and> facts_within limit (n + int (length (af_value f))) fs)"

definition compile_operation_requirements ::
  "request \<Rightarrow> operation_definition \<Rightarrow> artifact_facts list \<Rightarrow> operation_error + feature_requirement list" where
  "compile_operation_requirements q d facts =
     (case od_requirements d of
        None \<Rightarrow> Inl OperationIncomplete
      | Some compile \<Rightarrow>
          (case compile q of
             Inl e \<Rightarrow> Inl (RequirementsFailed e)
           | Inr rs \<Rightarrow>
               (case od_artifact_requirements d of
                  None \<Rightarrow> Inr rs
                | Some compile_facts \<Rightarrow>
                    (case compile_facts q facts of Inl e \<Rightarrow> Inl (RequirementsFailed e) | Inr ras \<Rightarrow> Inr (rs @ ras)))))"

text \<open>
  \<open>PrepareWithArtifactBodies\<close>, with the clock it reads. The sizes it compares are never negative and the
  artifacts stay below the bound, so no sum of the loop can wrap around.
\<close>

definition prepare_with_artifact_bodies ::
  "extension_catalog \<Rightarrow> operation_table \<Rightarrow> inspection \<Rightarrow> go_time \<Rightarrow> request \<Rightarrow> operation_error + prepared" where
  "prepare_with_artifact_bodies cat ops I now q =
     (case gm_get ops (operation_ref_of q) of
        None \<Rightarrow> Inl (OperationUnregistered (operation_ref_of q))
      | Some d \<Rightarrow>
          (case check_ports (od_inputs d) (input_artifact_refused (Some cat) now (rb_max_input (od_bounds d)))
                  (rq_artifacts q) [] 0 of
             (Some e, _) \<Rightarrow> Inl e
           | (None, counts, bytes) \<Rightarrow>
               (case ports_unfilled (od_inputs d) counts of
                  Some e \<Rightarrow> Inl e
                | None \<Rightarrow>
                    if over_input (od_bounds d) bytes (int (length (rq_payload q))) then Inl InputTooLarge
                    else case input_payload cat q d of
                      Inl e \<Rightarrow> Inl e
                    | Inr payload \<Rightarrow>
                        (case input_bytes I q payload of
                           Inl e \<Rightarrow> Inl e
                         | Inr n \<Rightarrow>
                             if over_input (od_bounds d) bytes n then Inl InputTooLarge
                             else case prepare_artifact_facts cat I q d of
                               Inl e \<Rightarrow> Inl e
                             | Inr facts \<Rightarrow>
                                 if \<not> facts_within (rb_max_buffered (od_bounds d)) 0 facts then Inl FactsTooLarge
                                 else case compile_operation_requirements q d facts of
                                   Inl e \<Rightarrow> Inl e
                                 | Inr rs \<Rightarrow>
                                     Inr \<lparr>pr_ref = operation_ref_of q, pr_payload = payload, pr_requirements = rs,
                                          pr_safety = od_safety d, pr_bounds = od_bounds d,
                                          pr_artifacts = rq_artifacts q, pr_facts = facts\<rparr>))))"

definition validate_chat_request :: "request \<Rightarrow> string option" where
  "validate_chat_request q =
     (if rq_model q = [] then Some ''model is required''
      else if rq_payload q \<noteq> [] then Some ''chat.generate does not accept an opaque operation payload''
      else if list_ex (\<lambda>m. msg_role m = []) (rq_messages q) then Some ''message has no role''
      else if list_ex (\<lambda>l. pl_origin l = []) (rq_prompt q) then Some ''prompt layer has no origin''
      else None)"

text \<open>The operation the kernel is built with.\<close>

definition chat_generate_definition :: operation_definition where
  "chat_generate_definition =
     \<lparr>od_ref = mk_ref operation_kind operation_chat_generate 1,
      od_display_name = ''Chat generation'',
      od_description = ''Generate a chat response from semantic messages, tools, prompt layers and reasoning intent.'',
      od_input_schema = mk_ref schema_kind ''gobroom.operation.chat-generate.input'' 1,
      od_result_schema = None,
      od_event_schemas = [mk_ref schema_kind ''gobroom.operation.chat-generate.event'' 1],
      od_inputs = [], od_outputs = [], od_interpreters = [],
      od_usage = \<lparr>ur_require_reported = False, ur_required_extensions = []\<rparr>,
      od_projector = False, od_bounds = default_resource_bounds, od_safety = ReplayOnRejection,
      od_input_payload = None, od_validate = Some validate_chat_request,
      od_requirements = Some (\<lambda>q. Inr (rq_requirements q)), od_artifact_requirements = None\<rparr>"

text \<open>An operation whose input is opaque to the kernel (\<open>RegisterRawPayloadWithBounds\<close>).\<close>

definition raw_payload_definition ::
  "ext_ref \<Rightarrow> string \<Rightarrow> string \<Rightarrow> replay_safety \<Rightarrow> resource_bounds \<Rightarrow> operation_definition" where
  "raw_payload_definition r name description safety bounds =
     \<lparr>od_ref = r, od_display_name = name, od_description = description,
      od_input_schema = mk_ref schema_kind (ref_id r @ ''.input'') (ref_version r),
      od_result_schema = None, od_event_schemas = [],
      od_inputs = [], od_outputs = [], od_interpreters = [],
      od_usage = \<lparr>ur_require_reported = False, ur_required_extensions = []\<rparr>,
      od_projector = False, od_bounds = bounds, od_safety = safety,
      od_input_payload = Some (\<lambda>q. if rq_payload q = [] then Inl ''operation payload is required'' else Inr (rq_payload q)),
      od_validate = None,
      od_requirements = Some (\<lambda>q. Inr (rq_requirements q)), od_artifact_requirements = None\<rparr>"


section \<open>What passes a port\<close>

abbreviation role_count :: "string \<Rightarrow> artifact_ref list \<Rightarrow> int" where
  "role_count r as \<equiv> int (length (filter (\<lambda>a. ar_role a = r) as))"

lemma check_ports_ConsE:
  assumes "check_ports ports check (a # as) counts bytes = (None, counts', bytes')"
  obtains p where "allowed_port ports (ar_role a) = Some p" and "aout_type_ref p = ar_type_ref a"
    and "gm_or counts (ar_role a) 0 + 1 \<le> aout_max_count p" and "check bytes a = None"
    and "check_ports ports check as (gm_put (ar_role a) (gm_or counts (ar_role a) 0 + 1) counts) (bytes + ar_size a) =
           (None, counts', bytes')"
  using assms by (auto simp: Let_def not_less split: option.splits if_splits)

lemma check_ports_bytes:
  "check_ports ports check as counts bytes = (None, counts', bytes') \<Longrightarrow> bytes' = bytes + sum_list (map ar_size as)"
proof (induction as arbitrary: counts bytes)
  case (Cons a as)
  from Cons.prems show ?case by (rule check_ports_ConsE) (auto dest: Cons.IH)
qed simp

lemma check_ports_counts:
  "check_ports ports check as counts bytes = (None, counts', bytes') \<Longrightarrow>
     gm_or counts' r 0 = gm_or counts r 0 + role_count r as"
proof (induction as arbitrary: counts bytes)
  case (Cons a as)
  from Cons.prems show ?case by (rule check_ports_ConsE) (auto dest: Cons.IH simp: gm_or_def gomap_simps)
qed simp

lemma no_role: "r \<notin> ar_role ` set as \<Longrightarrow> filter (\<lambda>a. ar_role a = r) as = []"
  by (auto simp: filter_empty_conv)

lemma check_ports_typed:
  "check_ports ports check as counts bytes = (None, counts', bytes') \<Longrightarrow> a \<in> set as \<Longrightarrow>
     \<exists>p. allowed_port ports (ar_role a) = Some p \<and> aout_type_ref p = ar_type_ref a \<and>
         gm_or counts' (ar_role a) 0 \<le> aout_max_count p"
proof (induction as arbitrary: a counts bytes)
  case (Cons b as)
  from Cons.prems(1) show ?case
  proof (rule check_ports_ConsE)
    fix p
    assume p: "allowed_port ports (ar_role b) = Some p" "aout_type_ref p = ar_type_ref b"
        "gm_or counts (ar_role b) 0 + 1 \<le> aout_max_count p"
      and rest: "check_ports ports check as (gm_put (ar_role b) (gm_or counts (ar_role b) 0 + 1) counts)
        (bytes + ar_size b) = (None, counts', bytes')"
    have "gm_or counts' (ar_role b) 0 \<le> aout_max_count p"
    proof (cases "ar_role b \<in> ar_role ` set as")
      case True
      then obtain c where "c \<in> set as" "ar_role b = ar_role c" by blast
      with Cons.IH [OF rest] p(1) show ?thesis by fastforce
    next
      case False
      with check_ports_counts [OF rest, of "ar_role b"] p(3) show ?thesis
        by (simp add: no_role gm_or_def gomap_simps)
    qed
    with p Cons.IH [OF rest] Cons.prems(2) show ?thesis by auto
  qed
qed simp

lemma check_ports_each:
  "check_ports ports check as counts bytes = (None, counts', bytes') \<Longrightarrow> a \<in> set as \<Longrightarrow> \<exists>n. check n a = None"
proof (induction as arbitrary: counts bytes)
  case (Cons b as)
  from Cons.prems(1) show ?case by (rule check_ports_ConsE) (use Cons in auto)
qed simp

lemma check_ports_within:
  assumes "\<And>n a. check n a = None \<Longrightarrow> ar_size a \<le> limit - n"
    and "check_ports ports check as counts bytes = (None, counts', bytes')" and "bytes \<le> limit"
  shows "bytes' \<le> limit"
  using assms(2,3)
proof (induction as arbitrary: counts bytes)
  case (Cons a as)
  from Cons.prems(1) show ?case
  proof (rule check_ports_ConsE)
    assume c: "check bytes a = None"
      and rest: "check_ports ports check as (gm_put (ar_role a) (gm_or counts (ar_role a) 0 + 1) counts) (bytes + ar_size a) =
        (None, counts', bytes')"
    from assms(1) [OF c] have "bytes + ar_size a \<le> limit" by simp
    with Cons.IH [OF rest] show ?thesis .
  qed
qed simp

lemma ports_unfilled_None:
  "ports_unfilled ports counts = None \<longleftrightarrow> (\<forall>p \<in> set ports. aout_min_count p \<le> gm_or counts (aout_role p) 0)"
  by (auto simp: ports_unfilled_def first_error_None)

lemma ports_invalid_distinct:
  "ports_invalid seen ps = None \<Longrightarrow> distinct (map aout_role ps) \<and> set seen \<inter> aout_role ` set ps = {}"
proof (induction ps arbitrary: seen)
  case (Cons p ps)
  from Cons.prems have "aout_role p \<notin> set seen" "ports_invalid (aout_role p # seen) ps = None"
    by (simp_all split: if_splits)
  with Cons.IH [of "aout_role p # seen"] show ?case by auto
qed simp

lemma allowed_port_declared: "allowed_port ports r = Some p \<Longrightarrow> p \<in> set ports \<and> aout_role p = r"
  by (auto simp: allowed_port_def dest!: map_of_SomeD)

lemma allowed_port_distinct:
  "distinct (map aout_role ports) \<Longrightarrow> p \<in> set ports \<Longrightarrow> allowed_port ports (aout_role p) = Some p"
  unfolding allowed_port_def by (rule map_of_is_SomeI) (auto simp: comp_def rev_map [symmetric])

text \<open>The artifacts a set of ports admits: each at a port of its role and type, as many as the port takes.\<close>

definition fits_ports :: "artifact_port list \<Rightarrow> artifact_ref list \<Rightarrow> bool" where
  "fits_ports ports as \<longleftrightarrow>
     (\<forall>a \<in> set as. \<exists>p \<in> set ports. aout_role p = ar_role a \<and> aout_type_ref p = ar_type_ref a) \<and>
     (\<forall>p \<in> set ports. aout_min_count p \<le> role_count (aout_role p) as \<and> role_count (aout_role p) as \<le> aout_max_count p)"

lemma counted_fits_ports:
  assumes inv: "ports_invalid [] ports = None"
    and typed: "\<forall>a \<in> set as. \<exists>p. allowed_port ports (ar_role a) = Some p \<and> aout_type_ref p = ar_type_ref a \<and>
      role_count (ar_role a) as \<le> aout_max_count p"
    and filled: "\<forall>p \<in> set ports. aout_min_count p \<le> role_count (aout_role p) as"
    and positive: "\<forall>p \<in> set ports. 0 \<le> aout_max_count p"
  shows "fits_ports ports as"
proof -
  note d = conjunct1 [OF ports_invalid_distinct [OF inv]]
  have "role_count (aout_role p) as \<le> aout_max_count p" if p: "p \<in> set ports" for p
  proof (cases "aout_role p \<in> ar_role ` set as")
    case True
    then obtain a where "a \<in> set as" "ar_role a = aout_role p" by auto
    with typed allowed_port_distinct [OF d p] show ?thesis by fastforce
  next
    case False
    with positive p show ?thesis by (simp add: no_role)
  qed
  moreover have "\<exists>p \<in> set ports. aout_role p = ar_role a \<and> aout_type_ref p = ar_type_ref a" if "a \<in> set as" for a
    using typed that allowed_port_declared by blast
  ultimately show ?thesis using filled by (simp add: fits_ports_def)
qed

lemma ports_invalid_max: "ports_invalid seen ps = None \<Longrightarrow> p \<in> set ps \<Longrightarrow> 0 \<le> aout_max_count p"
  by (induction ps arbitrary: seen) (auto split: if_splits)

lemma facts_within_total:
  "facts_within limit n fs \<Longrightarrow> n \<le> limit \<Longrightarrow> n + sum_list (map (\<lambda>f. int (length (af_value f))) fs) \<le> limit"
  by (induction fs arbitrary: n) (fastforce simp: algebra_simps)+



definition image_type :: ext_ref where
  "image_type = mk_ref artifact_kind ''image'' 1"

definition sizes_ref :: ext_ref where
  "sizes_ref = mk_ref interpreter_kind ''size'' 1"

definition sample_catalog :: extension_catalog where
  "sample_catalog =
     \<lparr>xc_descriptors =
        [(image_type, \<lparr>ds_policy = Some \<lparr>ap_domains = [harness_domain], ap_scopes = [scope_request],
            ap_sensitivity = ''private'', ap_media_types = [], ap_recipients = []\<rparr>,
            ds_bounds = default_resource_bounds, ds_input_schema = Some (mk_ref schema_kind ''image'' 1),
            ds_result_schema = None\<rparr>),
         (sizes_ref, \<lparr>ds_policy = None, ds_bounds = default_resource_bounds, ds_input_schema = None,
            ds_result_schema = Some (mk_ref schema_kind ''size'' 1)\<rparr>)],
      xc_schema_accepts = (\<lambda>_ _. True)\<rparr>"

definition sample_artifact :: artifact_ref where
  "sample_artifact =
     \<lparr>ar_type_ref = image_type, ar_role = ''mask'',
      ar_owner = \<lparr>ao_domain = harness_domain, ao_issuer = None, ao_provider_definition = [], ao_connection = [],
        ao_model_identity = [], ao_client_contract = [], ao_session = []\<rparr>,
      ar_replay_scope = scope_request, ar_sensitivity = ''public'', ar_media_type = ''image/png'', ar_size = 3,
      ar_sha256 = [], ar_expires_at = 0, ar_value = ''abc'', ar_body = None\<rparr>"

definition edit_definition :: operation_definition where
  "edit_definition =
     (raw_payload_definition (mk_ref operation_kind ''image.edit'' 1) ''Edit'' ''Edit an image'' ReplayNever
        default_resource_bounds)
     \<lparr>od_inputs := [\<lparr>aout_role = ''mask'', aout_type_ref = image_type, aout_min_count = 1, aout_max_count = 1\<rparr>]\<rparr>"

definition edit_request :: request where
  "edit_request =
     zero_request\<lparr>rq_operation := ''image.edit'', rq_operation_version := 1, rq_payload := ''{}'',
       rq_artifacts := [sample_artifact]\<rparr>"

definition sample_inspection :: inspection where
  "sample_inspection =
     \<lparr>ins_artifact = (\<lambda>_. Some ''{}''), ins_request = (\<lambda>_. None), ins_bind = (\<lambda>_ _. None), ins_open = None,
      ins_run = (\<lambda>_ _ _ b. Inr ''3''), ins_ctx = (\<lambda>_. None)\<rparr>"


section \<open>Reusing facts\<close>

lemma take_fact_skip:
  "take_fact cat b dg (map (\<lambda>f. (f, True)) used @ rest) =
     (case take_fact cat b dg rest of Inl e \<Rightarrow> Inl e | Inr (f, fs) \<Rightarrow> Inr (f, map (\<lambda>f. (f, True)) used @ fs))"
  by (induction used) (auto split: sum.splits)

text \<open>A fact that describes an artifact to the interpreter bound to its role.\<close>

definition describes :: "extension_catalog \<Rightarrow> inspection \<Rightarrow> artifact_ref \<times> interpreter_binding \<Rightarrow> artifact_facts \<Rightarrow> bool" where
  "describes cat I item f \<longleftrightarrow>
     (case artifact_source_digest I (fst item) of Inl _ \<Rightarrow> False | Inr dg \<Rightarrow> fact_matches (snd item) dg f) \<and>
     validate_artifact_facts cat (ib_ref (snd item)) (af_value f) = None"

lemma reuse_described:
  "list_all2 (describes cat I) items fs \<Longrightarrow>
     reuse_facts cat I items (map (\<lambda>f. (f, True)) used @ map (\<lambda>f. (f, False)) fs) = Inr fs"
proof (induction items arbitrary: fs used)
  case Nil
  then show ?case by (auto simp: list_all_iff)
next
  case (Cons item items)
  from Cons.prems obtain f rest where fs: "fs = f # rest" "describes cat I item f" "list_all2 (describes cat I) items rest"
    by (auto simp: list_all2_Cons1)
  obtain a b where item: "item = (a, b)" by fastforce
  with fs(2) obtain dg where "artifact_source_digest I a = Inr dg" "fact_matches b dg f"
      "validate_artifact_facts cat (ib_ref b) (af_value f) = None"
    by (auto simp: describes_def split: sum.splits)
  with Cons.IH [OF fs(3), of "used @ [f]"] show ?case by (simp add: item fs(1) take_fact_skip)
qed

lemma describesI:
  "artifact_source_digest I a = Inr dg \<Longrightarrow> fact_matches b dg f \<and> validate_artifact_facts cat (ib_ref b) (af_value f) = None \<Longrightarrow>
     describes cat I (a, b) f"
  by (simp add: describes_def)

lemma take_fact_described:
  "take_fact cat b dg fs = Inr (f, fs') \<Longrightarrow> fact_matches b dg f \<and> validate_artifact_facts cat (ib_ref b) (af_value f) = None"
  by (induction fs arbitrary: fs') (auto split: sum.splits option.splits if_splits)

lemma reuse_facts_described: "reuse_facts cat I items fs = Inr r \<Longrightarrow> list_all2 (describes cat I) items r"
proof (induction items arbitrary: fs r)
  case Nil
  then show ?case by (simp split: if_splits)
next
  case (Cons item items)
  obtain a b where "item = (a, b)" by fastforce
  with Cons show ?case
    by (auto intro!: describesI dest: take_fact_described split: sum.splits)
qed

lemma inspect_artifact_described: "inspect_artifact cat I bounds a b = Inr f \<Longrightarrow> describes cat I (a, b) f"
  by (auto simp: inspect_artifact_def describes_def fact_matches_def validate_artifact_facts_def
      split: option.splits sum.splits if_splits)

lemma inspect_all_described: "inspect_all cat I bounds items = Inr r \<Longrightarrow> list_all2 (describes cat I) items r"
proof (induction items arbitrary: r)
  case (Cons item items)
  obtain a b where "item = (a, b)" by fastforce
  with Cons show ?case by (auto dest: inspect_artifact_described split: sum.splits)
qed simp

text \<open>
  Facts that were read from the artifacts of a request, or reused, are reused when the request is
  prepared again with the same artifacts: no body is opened a second time, in whatever state the
  interpreters and bodies are then, and the facts are the same in the same order.
\<close>
theorem prepared_facts_reused:
  assumes "prepare_artifact_facts cat I q d = Inr fs"
    and "rq_artifacts q' = rq_artifacts q" and "rq_facts q' = fs" and "ins_artifact I' = ins_artifact I"
  shows "prepare_artifact_facts cat I' q' d = Inr fs"
proof -
  let ?items = "bound_artifacts (od_interpreters d) (rq_artifacts q)"
  have digest: "artifact_source_digest I' = artifact_source_digest I"
    by (rule ext) (simp add: artifact_source_digest_def assms(4))
  show ?thesis
  proof (cases "od_interpreters d = [] \<or> ?items = []")
    case True
    with assms show ?thesis by (auto simp: prepare_artifact_facts_def split: if_splits)
  next
    case False
    with assms(1) have "list_all2 (describes cat I) ?items fs"
      by (auto simp: prepare_artifact_facts_def Let_def dest: reuse_facts_described inspect_all_described split: if_splits)
    then have d: "list_all2 (describes cat I') ?items fs" by (simp add: describes_def [abs_def] digest)
    with False have "fs \<noteq> []" by auto
    with False reuse_described [OF d, of "[]"] assms(2,3) show ?thesis
      by (simp add: prepare_artifact_facts_def Let_def)
  qed
qed

definition size_binding :: interpreter_binding where
  "size_binding = \<lparr>ib_role = ''mask'', ib_ref = sizes_ref, ib_options = ''{}''\<rparr>"

lemma prepared_facts_reused_witness:
  "\<exists>fs. prepare_artifact_facts sample_catalog sample_inspection edit_request
        (edit_definition\<lparr>od_interpreters := [size_binding]\<rparr>) = Inr fs \<and> length fs = 1 \<and>
     prepare_artifact_facts sample_catalog (sample_inspection\<lparr>ins_bind := \<lambda>_ _. Some ''unavailable''\<rparr>)
        (edit_request\<lparr>rq_facts := fs\<rparr>) (edit_definition\<lparr>od_interpreters := [size_binding]\<rparr>) = Inr fs"
proof -
  let ?d = "edit_definition\<lparr>od_interpreters := [size_binding]\<rparr>"
  let ?fs = "[\<lparr>af_role = ''mask'', af_source_digest = hex_encode (sha256 (''{}'' @ nul @ ''abc'')),
    af_interpreter = sizes_ref, af_value = ''3''\<rparr>]"
  have "sizes_ref \<noteq> image_type" by code_simp
  then have p: "prepare_artifact_facts sample_catalog sample_inspection edit_request ?d = Inr ?fs"
    by (simp add: prepare_artifact_facts_def bound_artifacts_def size_binding_def edit_request_def sample_artifact_def
        inspect_artifact_def sample_inspection_def default_resource_bounds_def edit_definition_def
        raw_payload_definition_def sample_catalog_def artifact_source_digest_def List.map_filter_def
        zero_request_def Let_def)
  from prepared_facts_reused [OF p, of "edit_request\<lparr>rq_facts := ?fs\<rparr>"
      "sample_inspection\<lparr>ins_bind := \<lambda>_ _. Some ''unavailable''\<rparr>"] p
  show ?thesis by auto
qed

end
