(* ===== verification/Failures.thy ===== *)
theory Failures
  imports Outcomes ModelGraph Sessions Credentials Operations
begin

text \<open>
  The errors of an execution (\<open>internal/kernel/response_failure.go\<close>, \<open>client_failure.go\<close> and the errors of
  \<open>contract.go\<close>). A Go error is a chain of wrapped errors; the code looks into it with \<open>errors.Is\<close> and
  \<open>errors.As\<close> only, so an error is a datatype whose wrappers hold their cause. Adapters and modules may
  return any of them, wrapped in any way; \<open>ErrOther\<close> is an error the kernel knows nothing about.
\<close>

section \<open>Errors\<close>

datatype failure_origin =
  OriginUnknown | OriginProvider | OriginTransform | OriginRenderer | OriginClient | OriginOther string

datatype exec_error =
    ErrOther string
  | ErrOperationRequired
  | ErrNoUsableRoute
  | ErrContinuityRestartRequired
  | ErrContinuityRecoveryInvalid
  | ErrRequiredUsage
  | ErrOutputLimit
  | ErrUnexpectedEOF
  | ErrTransformSafety
  | ErrContext string
  | ErrGraph graph_error
  | ErrInput ext_ref operation_error
  | ErrOperation operation_error
  | ErrModelCycle string
  | ErrUnknownNode string
  | ErrSession session_error
  | ErrLease lease_error
  | ErrSignatureIssuerMissing
  | ErrSignatureIssuerMismatch
  | ErrUpstreamStatus int string
  | ErrProviderResponse string
  | ErrClientFailure client_failure exec_error
  | ErrReplaySuppressed string replay_safety upstream_effect exec_error
  | ErrResponse failure_origin exec_error
  | ErrWrapped string exec_error

fun unwrap :: "exec_error \<Rightarrow> exec_error option" where
  "unwrap (ErrClientFailure _ e) = Some e"
| "unwrap (ErrReplaySuppressed _ _ _ e) = Some e"
| "unwrap (ErrResponse _ e) = Some e"
| "unwrap (ErrWrapped _ e) = Some e"
| "unwrap _ = None"

fun error_chain :: "exec_error \<Rightarrow> exec_error list" where
  "error_chain (ErrClientFailure d e) = ErrClientFailure d e # error_chain e"
| "error_chain (ErrReplaySuppressed o' s f e) = ErrReplaySuppressed o' s f e # error_chain e"
| "error_chain (ErrResponse r e) = ErrResponse r e # error_chain e"
| "error_chain (ErrWrapped m e) = ErrWrapped m e # error_chain e"
| "error_chain e = [e]"

definition error_is :: "exec_error \<Rightarrow> exec_error \<Rightarrow> bool" where
  "error_is e target \<longleftrightarrow> target \<in> set (error_chain e)"

text \<open>\<open>errors.As\<close>: the first error of the chain that \<open>view\<close> recognises.\<close>

definition error_as :: "(exec_error \<Rightarrow> 'a option) \<Rightarrow> exec_error \<Rightarrow> 'a option" where
  "error_as view e = (case List.map_filter view (error_chain e) of [] \<Rightarrow> None | v # _ \<Rightarrow> Some v)"

fun origin_view :: "exec_error \<Rightarrow> failure_origin option" where
  "origin_view (ErrResponse r _) = Some r"
| "origin_view _ = None"

fun failure_view :: "exec_error \<Rightarrow> client_failure option" where
  "failure_view (ErrClientFailure d _) = Some d"
| "failure_view _ = None"

fun evidence_view :: "exec_error \<Rightarrow> string option" where
  "evidence_view (ErrProviderResponse d) = Some d"
| "evidence_view _ = None"

fun input_view :: "exec_error \<Rightarrow> ext_ref option" where
  "input_view (ErrInput r _) = Some r"
| "input_view _ = None"

definition is_no_route :: "exec_error \<Rightarrow> bool" where
  "is_no_route e \<longleftrightarrow> error_is e ErrNoUsableRoute"

section \<open>The boundary a response failed at\<close>

definition wrap_response_failure :: "failure_origin \<Rightarrow> exec_error \<Rightarrow> exec_error" where
  "wrap_response_failure origin e = (case error_as origin_view e of Some _ \<Rightarrow> e | None \<Rightarrow> ErrResponse origin e)"

definition response_failure_origin :: "exec_error \<Rightarrow> failure_origin" where
  "response_failure_origin e = (case error_as origin_view e of Some r \<Rightarrow> r | None \<Rightarrow> OriginUnknown)"

text \<open>\<open>ctx\<close> is the error of the context, \<open>deadline\<close> whether its cause is the operation's deadline.\<close>

definition provider_response_failure :: "string option \<Rightarrow> bool \<Rightarrow> exec_error \<Rightarrow> bool" where
  "provider_response_failure ctx deadline e \<longleftrightarrow>
     response_failure_origin e = OriginProvider \<and> (ctx = None \<or> deadline)"

section \<open>Failures shown to a client\<close>

definition error_view_of :: "exec_error \<Rightarrow> error_view" where
  "error_view_of e =
     \<lparr>ew_carrier = error_as failure_view e, ew_continuity_restart = error_is e ErrContinuityRestartRequired,
      ew_not_published = error_is e (ErrGraph ModelNotPublished), ew_no_route = is_no_route e,
      ew_operation_required = error_is e ErrOperationRequired, ew_input_error = error_as input_view e \<noteq> None\<rparr>"

definition failure_for_error :: "exec_error \<Rightarrow> client_failure" where
  "failure_for_error e = client_failure_for_error (Some (error_view_of e))"

definition invalid_descriptor_message :: string where
  "invalid_descriptor_message = ''invalid client failure descriptor''"

definition new_client_failure_error :: "client_failure \<Rightarrow> exec_error \<Rightarrow> exec_error" where
  "new_client_failure_error d cause =
     (if \<not> client_failure_valid d then ErrOther invalid_descriptor_message else ErrClientFailure d cause)"

definition with_outcome_client_failure :: "classified_outcome \<Rightarrow> exec_error \<Rightarrow> exec_error" where
  "with_outcome_client_failure oc cause =
     (if oc_client_failure oc = no_client_failure then cause
      else if \<not> client_failure_valid (oc_client_failure oc)
      then wrap_response_failure OriginUnknown (ErrOther ''invalid classified client failure'')
      else new_client_failure_error (oc_client_failure oc) cause)"

section \<open>What the wrappers keep\<close>

lemma error_as_wrapped [simp]:
  "error_as view (ErrWrapped m e) = (case view (ErrWrapped m e) of Some v \<Rightarrow> Some v | None \<Rightarrow> error_as view e)"
  "error_as view (ErrResponse r e) = (case view (ErrResponse r e) of Some v \<Rightarrow> Some v | None \<Rightarrow> error_as view e)"
  "error_as view (ErrClientFailure d e) =
     (case view (ErrClientFailure d e) of Some v \<Rightarrow> Some v | None \<Rightarrow> error_as view e)"
  "error_as view (ErrReplaySuppressed o' s f e) =
     (case view (ErrReplaySuppressed o' s f e) of Some v \<Rightarrow> Some v | None \<Rightarrow> error_as view e)"
  by (simp_all add: error_as_def List.map_filter_def split: option.split)

lemma error_chain_nonempty [simp]: "error_chain e \<noteq> []"
  by (cases e) simp_all

lemma origin_known: "error_as origin_view e = Some r \<Longrightarrow> response_failure_origin e = r"
  by (simp add: response_failure_origin_def)

lemma wrapped_origin_known: "error_as origin_view (wrap_response_failure origin e) \<noteq> None"
  by (simp add: wrap_response_failure_def split: option.split)

lemma is_no_route_simps [simp]:
  "is_no_route ErrNoUsableRoute"
  "is_no_route (ErrWrapped m e) = is_no_route e"
  "is_no_route (ErrResponse r e) = is_no_route e"
  "is_no_route (ErrClientFailure d e) = is_no_route e"
  "is_no_route (ErrReplaySuppressed o' s f e) = is_no_route e"
  "\<not> is_no_route (ErrOther t)"
  "\<not> is_no_route (ErrContext t)"
  "\<not> is_no_route (ErrSession se)"
  "\<not> is_no_route (ErrLease le)"
  "\<not> is_no_route (ErrInput ref oe)"
  "\<not> is_no_route (ErrOperation oe)"
  "\<not> is_no_route (ErrModelCycle t)"
  "\<not> is_no_route (ErrUnknownNode t)"
  "\<not> is_no_route (ErrGraph ge)"
  "\<not> is_no_route (ErrUpstreamStatus n t)"
  "\<not> is_no_route (ErrProviderResponse t)"
  "\<not> is_no_route ErrContinuityRestartRequired"
  "\<not> is_no_route ErrContinuityRecoveryInvalid"
  "\<not> is_no_route ErrRequiredUsage"
  "\<not> is_no_route ErrOutputLimit"
  "\<not> is_no_route ErrUnexpectedEOF"
  "\<not> is_no_route ErrTransformSafety"
  "\<not> is_no_route ErrOperationRequired"
  "\<not> is_no_route ErrSignatureIssuerMissing"
  "\<not> is_no_route ErrSignatureIssuerMismatch"
  by (simp_all add: is_no_route_def error_is_def)

lemma is_no_route_wrap [simp]: "is_no_route (wrap_response_failure r e) = is_no_route e"
  by (simp add: wrap_response_failure_def split: option.split)

lemma is_no_route_with_outcome:
  "\<not> is_no_route e \<Longrightarrow> \<not> is_no_route (with_outcome_client_failure oc e)"
  by (simp add: with_outcome_client_failure_def new_client_failure_error_def)

end
