(* ===== verification/Responses.thy ===== *)
theory Responses
  imports Failures
begin

text \<open>
  What bounds a response (\<open>internal/kernel/response_budget.go\<close>, \<open>response_commit.go\<close>,
  \<open>provider_response_error.go\<close>): the canonical events a decoder emits, the budget they are counted against,
  and the writer that records whether anything reached the client.
\<close>

section \<open>Events\<close>

record response_event =
  rv_at :: go_time
  rv_kind :: string
  rv_index :: int
  rv_response_id :: string
  rv_item_id :: string
  rv_content_type :: string
  rv_block_type :: string
  rv_stop_reason :: string
  rv_text :: string
  rv_signature :: string
  rv_issuer :: ext_ref
  rv_tool_call_id :: string
  rv_tool_name :: string
  rv_tool_arguments :: string
  rv_usage :: "usage_event option"
  rv_error :: client_failure
  rv_wire_format :: string
  rv_raw :: string
  rv_opaque :: string
  rv_artifacts :: "artifact_ref list"

definition event_started :: string where
  "event_started = ''response_started''"

definition event_thinking_signature :: string where
  "event_thinking_signature = ''thinking_signature''"

definition event_tool_call_delta :: string where
  "event_tool_call_delta = ''tool_call_delta''"

definition event_usage :: string where
  "event_usage = ''usage''"

definition event_artifact :: string where
  "event_artifact = ''artifact''"

definition event_complete :: string where
  "event_complete = ''response_complete''"

definition event_error :: string where
  "event_error = ''response_error''"

definition zero_event :: response_event where
  "zero_event =
     \<lparr>rv_at = 0, rv_kind = [], rv_index = 0, rv_response_id = [], rv_item_id = [], rv_content_type = [],
      rv_block_type = [], rv_stop_reason = [], rv_text = [], rv_signature = [], rv_issuer = no_ref,
      rv_tool_call_id = [], rv_tool_name = [], rv_tool_arguments = [], rv_usage = None,
      rv_error = no_client_failure, rv_wire_format = [], rv_raw = [], rv_opaque = [], rv_artifacts = []\<rparr>"

section \<open>The budget of the events\<close>

record event_budget =
  eb_max_event :: int
  eb_max_output :: int
  eb_total :: int

datatype budget_error = BudgetDescriptor | BudgetEvent string | BudgetOutput

definition text_bytes :: "response_event \<Rightarrow> int" where
  "text_bytes e =
     int (length (rv_raw e)) + int (length (rv_opaque e)) + int (length (rv_text e)) + int (length (rv_signature e)) +
     int (length (ref_id (rv_issuer e))) + int (length (rv_tool_call_id e)) + int (length (rv_tool_name e)) +
     int (length (rv_tool_arguments e)) +
     int (length (cf_code (rv_error e)) + length (cf_type (rv_error e)) + length (cf_message (rv_error e))) +
     int (length (rv_response_id e)) + int (length (rv_item_id e)) + int (length (rv_content_type e)) +
     int (length (rv_block_type e)) + int (length (rv_stop_reason e))"

definition artifact_bytes :: "artifact_ref \<Rightarrow> int" where
  "artifact_bytes a =
     int (length (ref_id (ar_type_ref a)) + length (ar_role a) + length (ar_media_type a) +
          length (ar_sensitivity a) + length (ar_value a)) + 64"

text \<open>The bytes of the events and of the bodies they refer to; \<open>None\<close> when the bodies pass the limit.\<close>

fun count_artifacts :: "int \<Rightarrow> artifact_ref list \<Rightarrow> int \<Rightarrow> int \<Rightarrow> (int \<times> int) option" where
  "count_artifacts limit [] bytes body = Some (bytes, body)"
| "count_artifacts limit (a # as) bytes body =
     (if ar_body a \<noteq> None \<and> 0 < ar_size a \<and> 0 < limit
      then if limit - body < ar_size a then None
           else count_artifacts limit as (bytes + artifact_bytes a) (body + ar_size a)
      else count_artifacts limit as (bytes + artifact_bytes a) body)"

definition budget_consume :: "response_event \<Rightarrow> event_budget \<Rightarrow> budget_error option \<times> event_budget" where
  "budget_consume e b =
     (if rv_kind e = event_error \<and> \<not> client_failure_valid (rv_error e) \<or>
         rv_kind e \<noteq> event_error \<and> rv_error e \<noteq> no_client_failure
      then (Some BudgetDescriptor, b)
      else if eb_max_event b \<le> 0 \<and> eb_max_output b \<le> 0 then (None, b)
      else case count_artifacts (eb_max_output b) (rv_artifacts e) (text_bytes e) 0 of
             None \<Rightarrow> (Some BudgetOutput, b)
           | Some (bytes, body) \<Rightarrow>
               if 0 < eb_max_event b \<and> eb_max_event b < bytes then (Some (BudgetEvent (rv_kind e)), b)
               else if 0 < eb_max_output b
               then let remaining = eb_max_output b - eb_total b
                    in if remaining < bytes \<or> remaining - bytes < body then (Some BudgetOutput, b)
                       else (None, b\<lparr>eb_total := eb_total b + (bytes + body)\<rparr>)
               else (None, b))"

section \<open>The writer of the client\<close>

text \<open>What reaches the wrapped writer: a status line, or bytes of which it took some.\<close>

datatype client_call = ClientHeader int | ClientBytes int | ClientFlush

record commit_writer =
  cw_committed :: bool
  cw_max :: int
  cw_written :: int
  cw_failure :: "exec_error option"

definition new_commit_writer :: "int \<Rightarrow> commit_writer" where
  "new_commit_writer limit = \<lparr>cw_committed = False, cw_max = limit, cw_written = 0, cw_failure = None\<rparr>"

definition latch_failure :: "exec_error option \<Rightarrow> commit_writer \<Rightarrow> commit_writer" where
  "latch_failure e w = (if e \<noteq> None \<and> cw_failure w = None then w\<lparr>cw_failure := e\<rparr> else w)"

definition writer_header :: "string option \<Rightarrow> int \<Rightarrow> commit_writer \<Rightarrow> commit_writer \<times> client_call list" where
  "writer_header ctx status w =
     (if cw_failure w \<noteq> None then (w, [])
      else if ctx \<noteq> None then (w, [])
      else if cw_committed w then (w, [])
      else (w\<lparr>cw_committed := True\<rparr>, [ClientHeader status]))"

text \<open>
  The context is asked again by the header; \<open>ctx'\<close> is its answer. \<open>inner\<close> is the answer of the wrapped
  writer, the bytes it took and its error.
\<close>

definition writer_write ::
  "string option \<Rightarrow> string option \<Rightarrow> int \<times> exec_error option \<Rightarrow> string \<Rightarrow> commit_writer \<Rightarrow>
   (int \<times> exec_error option) \<times> commit_writer \<times> client_call list" where
  "writer_write ctx ctx' inner data w =
     (case cw_failure w of
        Some e \<Rightarrow> ((0, Some e), w, [])
      | None \<Rightarrow>
          (case ctx of
             Some c \<Rightarrow>
               let e = Some (wrap_response_failure OriginClient (ErrContext c))
               in ((0, e), latch_failure e w, [])
           | None \<Rightarrow>
               if 0 < cw_max w \<and> cw_max w - cw_written w < int (length data)
               then let e = Some (wrap_response_failure OriginRenderer ErrOutputLimit)
                    in ((0, e), latch_failure e w, [])
               else let (w1, calls) = (if \<not> cw_committed w then writer_header ctx' 200 w else (w, []));
                        e = map_option (wrap_response_failure OriginClient) (snd inner)
                    in ((fst inner, e), latch_failure e (w1\<lparr>cw_written := cw_written w1 + fst inner\<rparr>),
                        calls @ [ClientBytes (fst inner)])))"

definition writer_flush ::
  "string option \<Rightarrow> string option \<Rightarrow> exec_error option \<Rightarrow> commit_writer \<Rightarrow>
   exec_error option \<times> commit_writer \<times> client_call list" where
  "writer_flush ctx ctx' inner w =
     (case cw_failure w of
        Some e \<Rightarrow> (Some e, w, [])
      | None \<Rightarrow>
          (case ctx of
             Some c \<Rightarrow>
               let e = Some (wrap_response_failure OriginClient (ErrContext c)) in (e, latch_failure e w, [])
           | None \<Rightarrow>
               let (w1, calls) = (if \<not> cw_committed w then writer_header ctx' 200 w else (w, []));
                   e = map_option (wrap_response_failure OriginClient) inner
               in (e, latch_failure e w1, calls @ [ClientFlush])))"

section \<open>Evidence of a provider\<close>

definition max_provider_error_bytes :: nat where
  "max_provider_error_bytes = 64 * 2 ^ 10"

text \<open>\<open>envelope\<close> stands for the JSON decoder: whether the data is an object with an object \<open>error\<close>.\<close>

definition valid_provider_error :: "(string \<Rightarrow> bool) \<Rightarrow> string \<Rightarrow> bool" where
  "valid_provider_error envelope data \<longleftrightarrow>
     data \<noteq> [] \<and> length data \<le> max_provider_error_bytes \<and> envelope data"

definition new_provider_error :: "(string \<Rightarrow> bool) \<Rightarrow> string \<Rightarrow> exec_error + exec_error" where
  "new_provider_error envelope data =
     (if \<not> valid_provider_error envelope data then Inl (ErrOther ''invalid provider response error evidence'')
      else Inr (ErrProviderResponse data))"

section \<open>Properties\<close>

lemma count_artifacts_nonneg:
  "count_artifacts limit as bytes body = Some (bytes', body') \<Longrightarrow> bytes \<le> bytes' \<and> body \<le> body'"
  by (induction as arbitrary: bytes body) (force simp: artifact_bytes_def split: if_splits)+

definition budget_run :: "response_event list \<Rightarrow> event_budget \<Rightarrow> event_budget" where
  "budget_run es b = fold (\<lambda>e b. snd (budget_consume e b)) es b"

text \<open>One call on the writer, with the answers of the context and of the wrapped writer.\<close>

datatype writer_call =
    OpHeader "string option" int
  | OpWrite "string option" "string option" "int \<times> exec_error option" string
  | OpFlush "string option" "string option" "exec_error option"

fun writer_op :: "writer_call \<Rightarrow> commit_writer \<Rightarrow> commit_writer \<times> client_call list" where
  "writer_op (OpHeader ctx status) w = writer_header ctx status w"
| "writer_op (OpWrite ctx ctx' inner data) w = snd (writer_write ctx ctx' inner data w)"
| "writer_op (OpFlush ctx ctx' inner) w = snd (writer_flush ctx ctx' inner w)"

fun writer_run :: "writer_call list \<Rightarrow> commit_writer \<Rightarrow> commit_writer \<times> client_call list" where
  "writer_run [] w = (w, [])"
| "writer_run (x # xs) w =
     (case writer_op x w of (w1, calls1) \<Rightarrow> case writer_run xs w1 of (w2, calls2) \<Rightarrow> (w2, calls1 @ calls2))"

text \<open>The contract of \<open>io.Writer\<close>: it takes at most what it is given.\<close>

fun writer_contract :: "writer_call \<Rightarrow> bool" where
  "writer_contract (OpWrite _ _ inner data) \<longleftrightarrow> 0 \<le> fst inner \<and> fst inner \<le> int (length data)"
| "writer_contract _ \<longleftrightarrow> True"

fun client_bytes :: "client_call list \<Rightarrow> int" where
  "client_bytes [] = 0"
| "client_bytes (ClientBytes n # cs) = n + client_bytes cs"
| "client_bytes (_ # cs) = client_bytes cs"

fun is_header :: "client_call \<Rightarrow> bool" where
  "is_header (ClientHeader _) = True"
| "is_header _ = False"

text \<open>The budget never lets more through than the operation's output bound.\<close>

lemma budget_consume_total:
  assumes "0 < eb_max_output b" and "0 \<le> eb_total b" and "eb_total b \<le> eb_max_output b"
  shows "eb_total b \<le> eb_total (snd (budget_consume e b)) \<and>
    eb_total (snd (budget_consume e b)) \<le> eb_max_output b \<and>
    eb_max_output (snd (budget_consume e b)) = eb_max_output b"
proof -
  have "0 \<le> text_bytes e" by (simp add: text_bytes_def)
  with assms show ?thesis
    by (auto simp: budget_consume_def Let_def not_less dest!: count_artifacts_nonneg split: option.splits if_splits)
qed

lemma budget_run_total:
  "0 < eb_max_output b \<Longrightarrow> 0 \<le> eb_total b \<Longrightarrow> eb_total b \<le> eb_max_output b \<Longrightarrow>
     eb_total (budget_run es b) \<le> eb_max_output b"
proof (induction es arbitrary: b)
  case (Cons e es)
  note step = budget_consume_total [OF Cons.prems, of e]
  from Cons.IH [of "snd (budget_consume e b)"] step Cons.prems have
    "eb_total (budget_run es (snd (budget_consume e b))) \<le> eb_max_output b"
    by linarith
  then show ?case by (simp add: budget_run_def)
qed (simp add: budget_run_def)

lemma client_bytes_append [simp]: "client_bytes (xs @ ys) = client_bytes xs + client_bytes ys"
  by (induction xs rule: client_bytes.induct) simp_all

text \<open>A context that is alive when a call starts is still alive when the call writes the header.\<close>

fun steady :: "writer_call \<Rightarrow> bool" where
  "steady (OpWrite ctx ctx' _ _) \<longleftrightarrow> ctx = None \<longrightarrow> ctx' = None"
| "steady (OpFlush ctx ctx' _) \<longleftrightarrow> ctx = None \<longrightarrow> ctx' = None"
| "steady (OpHeader _ _) \<longleftrightarrow> True"

lemma latch_failure_keeps [simp]:
  "cw_committed (latch_failure e w) = cw_committed w" "cw_written (latch_failure e w) = cw_written w"
  "cw_max (latch_failure e w) = cw_max w"
  by (simp_all add: latch_failure_def)

text \<open>What one call sends: a header only to an uncommitted writer, and no more bytes than are left.\<close>

lemma writer_op_effect:
  assumes "writer_op x w = (w1, calls)" and "writer_contract x" and "0 < cw_max w" and "cw_written w \<le> cw_max w"
  shows "cw_max w1 = cw_max w \<and> cw_written w1 = cw_written w + client_bytes calls \<and> cw_written w1 \<le> cw_max w \<and>
    length (filter is_header calls) = (if cw_committed w1 \<and> \<not> cw_committed w then 1 else 0) \<and>
    (cw_committed w \<longrightarrow> cw_committed w1) \<and> (cw_failure w \<noteq> None \<longrightarrow> w1 = w \<and> calls = []) \<and>
    (steady x \<longrightarrow> \<not> cw_committed w \<longrightarrow> calls \<noteq> [] \<longrightarrow> is_header (hd calls))"
  using assms
  by (cases x) (auto simp: writer_header_def writer_write_def writer_flush_def Let_def latch_failure_def
      split: option.splits if_splits prod.splits)

lemma one_step:
  "n = (if q \<and> \<not> p then 1 else 0) + (if r \<and> \<not> q then 1 else 0 :: nat) \<Longrightarrow> (p \<longrightarrow> q) \<Longrightarrow> (q \<longrightarrow> r) \<Longrightarrow>
     n = (if r \<and> \<not> p then 1 else 0)"
  by (cases p; cases q; cases r) simp_all

lemma writer_run_effect:
  assumes "writer_run xs w = (w', calls)" and "list_all writer_contract xs" and "0 < cw_max w"
    and "cw_written w \<le> cw_max w"
  shows "cw_written w' = cw_written w + client_bytes calls \<and> cw_written w' \<le> cw_max w \<and>
    length (filter is_header calls) = (if cw_committed w' \<and> \<not> cw_committed w then 1 else 0) \<and>
    (cw_committed w \<longrightarrow> cw_committed w') \<and>
    (list_all steady xs \<longrightarrow> \<not> cw_committed w \<longrightarrow> calls \<noteq> [] \<longrightarrow> is_header (hd calls))"
  using assms
proof (induction xs arbitrary: w calls)
  case (Cons x xs)
  obtain w1 c1 where x: "writer_op x w = (w1, c1)" by fastforce
  obtain c2 where xs: "writer_run xs w1 = (w', c2)" and calls: "calls = c1 @ c2"
    using Cons.prems(1) x by (auto split: prod.splits)
  from Cons.prems(2) have contract: "writer_contract x" "list_all writer_contract xs" by simp_all
  note first_call = writer_op_effect [OF x contract(1) Cons.prems(3,4)]
  have "0 < cw_max w1" "cw_written w1 \<le> cw_max w1" using first_call Cons.prems(3) by simp_all
  note rest = Cons.IH [OF xs contract(2) this]
  have bytes: "cw_written w' = cw_written w + client_bytes calls" "cw_written w' \<le> cw_max w"
    unfolding calls client_bytes_append using first_call rest by linarith+
  have c1: "length (filter is_header c1) = (if cw_committed w1 \<and> \<not> cw_committed w then 1 else 0)"
    using first_call by (elim conjE) assumption
  have c2: "length (filter is_header c2) = (if cw_committed w' \<and> \<not> cw_committed w1 then 1 else 0)"
    using rest by (elim conjE) assumption
  have mono: "cw_committed w \<longrightarrow> cw_committed w1"
    using first_call by (elim conjE) assumption
  have mono': "cw_committed w1 \<longrightarrow> cw_committed w'"
    using rest by (elim conjE) assumption
  have "length (filter is_header calls) = length (filter is_header c1) + length (filter is_header c2)"
    by (simp only: calls filter_append length_append)
  then have headers: "length (filter is_header calls) = (if cw_committed w' \<and> \<not> cw_committed w then 1 else 0)"
    unfolding c1 c2 by (rule one_step [OF _ mono mono'])
  have committed: "cw_committed w \<longrightarrow> cw_committed w'" using mono mono' by iprover
  have "is_header (hd calls)" if "list_all steady (x # xs)" "\<not> cw_committed w" "calls \<noteq> []"
  proof (cases "c1 = []")
    case True
    with c1 that(2) have "\<not> cw_committed w1" by (simp split: if_splits)
    moreover have "list_all steady xs" "c2 \<noteq> []" "calls = c2" using that True calls by simp_all
    moreover have "list_all steady xs \<longrightarrow> \<not> cw_committed w1 \<longrightarrow> c2 \<noteq> [] \<longrightarrow> is_header (hd c2)"
      using rest by (elim conjE) assumption
    ultimately show ?thesis by simp
  next
    case False
    have "steady x" using that by simp
    moreover have "steady x \<longrightarrow> \<not> cw_committed w \<longrightarrow> c1 \<noteq> [] \<longrightarrow> is_header (hd c1)"
      using first_call by (elim conjE) assumption
    ultimately have "is_header (hd c1)" using that(2) False by simp
    with False calls show ?thesis by simp
  qed
  then have "list_all steady (x # xs) \<longrightarrow> \<not> cw_committed w \<longrightarrow> calls \<noteq> [] \<longrightarrow> is_header (hd calls)" by iprover
  with bytes headers committed show ?case by (intro conjI)
qed simp

lemma writer_run_failed: "cw_failure w \<noteq> None \<Longrightarrow> writer_run xs w = (w, [])"
proof (induction xs)
  case (Cons x xs)
  then have "writer_op x w = (w, [])"
    by (cases x) (auto simp: writer_header_def writer_write_def writer_flush_def)
  with Cons show ?case by simp
qed simp



end
