(* ===== verification/Rendering.thy ===== *)
theory Rendering
  imports Responses Attempts
begin

text \<open>
  The kernel's side of a response (\<open>internal/kernel/kernel.go\<close>, the hooks it gives to
  \<open>RenderResponse\<close>): the validation of every event, the session it collects, the normalization and report
  of a failure and the completion of a success. An adapter calls the hooks and the client's writer in
  whatever order it likes, so a response is a list of calls; \<open>render_step\<close> is one of them.
\<close>

section \<open>Effects\<close>

text \<open>
  What an execution does to the world outside the kernel, in order. A dispatch carries its idempotency key,
  if there is one, and the numbers of the candidate and of the attempt on it.
\<close>

datatype kernel_effect =
    FxAcquire route
  | FxRelease route
  | FxCloseLease lease
  | FxDispatch route "string option" nat nat
  | FxObserve route classified_outcome
  | FxMarkFailure route error_class exec_error
  | FxMarkFailureAfter route error_class exec_error duration
  | FxMarkSuccess route
  | FxObserveUsage route usage_event
  | FxInvalidate route string session_state
  | FxSave route string session_state
  | FxSaveFailed
  | FxEmit response_event
  | FxUsage usage_event

section \<open>The environment of a response\<close>

text \<open>
  \<open>re_payload\<close> is the JSON encoder of \<open>operationEventPayload\<close>; \<open>re_consume\<close> and \<open>re_finalize\<close> are the answers
  of the operation's result projector at a sequence number; \<open>re_classifier\<close> is the classifier of terminal
  response errors and \<open>re_invalidate\<close> the invalidation of the route's session store.
\<close>

record response_env =
  re_candidate :: route
  re_lease :: "lease option"
  re_request :: request
  re_operation :: ext_ref
  re_outputs :: "artifact_port list"
  re_receiver :: artifact_owner
  re_session_key :: string
  re_projector :: bool
  re_operations :: operation_table
  re_catalog :: extension_catalog
  re_codec :: proof_codec
  re_payload :: "response_event \<Rightarrow> 64 word \<Rightarrow> string option"
  re_consume :: "64 word \<Rightarrow> string \<Rightarrow> string option"
  re_finalize :: "64 word \<Rightarrow> string + string"
  re_classifier :: "(string \<Rightarrow> classified_outcome) option"
  re_invalidate :: "(session_state \<Rightarrow> session_error + bool) option"
  re_usage :: usage_env
  re_loaded :: session_state
  re_was_loaded :: bool
  re_sink :: bool
  re_observes :: bool
  re_feedback :: bool

record response_state =
  rs_session :: session_state
  rs_changed :: bool
  rs_counts :: "(string, int) gomap"
  rs_sequence :: "64 word"
  rs_finalized :: bool
  rs_digest :: "string option"
  rs_failures :: "transform_failure list"
  rs_staged :: "usage_event option"
  rs_terminal :: "exec_error option"
  rs_outcome :: "classified_outcome option"
  rs_first_byte :: go_time
  rs_attempt :: usage_attempt
  rs_writer :: commit_writer
  rs_client :: "client_call list"
  rs_effects :: "kernel_effect list"

definition effect :: "kernel_effect \<Rightarrow> response_state \<Rightarrow> response_state" where
  "effect x rs = rs\<lparr>rs_effects := rs_effects rs @ [x]\<rparr>"

definition emit_event :: "response_env \<Rightarrow> response_event \<Rightarrow> response_state \<Rightarrow> response_state" where
  "emit_event E e rs = (if re_sink E then effect (FxEmit e) rs else rs)"

definition new_response_state :: "session_state \<Rightarrow> usage_attempt \<Rightarrow> int \<Rightarrow> response_state" where
  "new_response_state session attempt limit =
     \<lparr>rs_session = session, rs_changed = False, rs_counts = [], rs_sequence = 0, rs_finalized = False,
      rs_digest = None, rs_failures = [], rs_staged = None, rs_terminal = None, rs_outcome = None,
      rs_first_byte = 0, rs_attempt = attempt, rs_writer = new_commit_writer limit, rs_client = [],
      rs_effects = []\<rparr>"

section \<open>Validating an event\<close>

definition carries_signature :: "response_event \<Rightarrow> bool" where
  "carries_signature e \<longleftrightarrow>
     rv_kind e = event_thinking_signature \<or> rv_signature e \<noteq> [] \<or> ref_id (rv_issuer e) \<noteq> []"

text \<open>A signature has to come from the route's own provider; one of a tool call is recorded as a proof.\<close>

definition record_signature :: "response_env \<Rightarrow> response_event \<Rightarrow> response_state \<Rightarrow> exec_error option \<times> response_state" where
  "record_signature E e rs =
     (if rv_signature e \<noteq> [] \<and> rv_kind e = event_tool_call_delta \<and> rv_tool_call_id e \<noteq> [] \<and>
         rv_tool_name e \<noteq> [] \<and> re_session_key E \<noteq> [] \<and>
         ref_id (rt_session_store_ref (re_candidate E)) \<noteq> []
      then case (case rs_digest rs of
                   Some d \<Rightarrow> Inr d
                 | None \<Rightarrow> signature_context_digest (re_codec E) (re_request E)
                             (int (length (rq_messages (re_request E))))) of
             Inl _ \<Rightarrow> (Some (ErrOther ''could not bind provider signature context''), rs)
           | Inr d \<Rightarrow>
               let rs1 = rs\<lparr>rs_digest := Some d\<rparr>;
                   c = \<lparr>call_id = rv_tool_call_id e, call_type = ''function'', call_name = rv_tool_name e,
                        call_arguments = rv_tool_arguments e, call_state = [], call_provider_data = [],
                        call_signature = [], call_issuer = no_ref, call_metadata = None\<rparr>
               in (case append_signature_proof (re_codec E) (ses_signatures (rs_session rs1)) (rv_signature e)
                          (rv_issuer e) d c of
                     (_, Some err) \<Rightarrow> (Some (ErrSession err), rs1)
                   | (proofs, None) \<Rightarrow>
                       (None, rs1\<lparr>rs_session := (rs_session rs1)\<lparr>ses_signatures := proofs\<rparr>\<rparr>))
      else (None, rs))"

definition check_signature :: "response_env \<Rightarrow> response_event \<Rightarrow> response_state \<Rightarrow> exec_error option \<times> response_state" where
  "check_signature E e rs =
     (let definition_ref = rt_definition_ref (re_candidate E)
      in if \<not> carries_signature e then (None, rs)
         else if ref_id (rv_issuer e) = [] then (Some ErrSignatureIssuerMissing, rs)
         else if ref_kind definition_ref \<noteq> ''provider-definition'' \<or> \<not> ref_ok definition_ref
         then (Some ErrSignatureIssuerMissing, rs)
         else if rv_issuer e \<noteq> definition_ref then (Some ErrSignatureIssuerMismatch, rs)
         else record_signature E e rs)"

definition client_owner :: "request \<Rightarrow> artifact_owner" where
  "client_owner q =
     \<lparr>ao_domain = harness_domain, ao_issuer = None, ao_provider_definition = [], ao_connection = [],
      ao_model_identity = [], ao_client_contract = rq_source_format q, ao_session = request_session_key q\<rparr>"

definition check_artifacts ::
  "response_env \<Rightarrow> go_time \<Rightarrow> response_event \<Rightarrow> response_state \<Rightarrow> exec_error option \<times> response_state" where
  "check_artifacts E now e rs =
     (if rv_artifacts e \<noteq> []
      then if re_outputs E = [] \<or> rv_kind e \<noteq> event_artifact
           then (Some (ErrOther ''artifacts outside the declared artifact event''), rs)
           else if list_ex (\<lambda>a. \<not> owners_equal (ar_owner a) (re_receiver E)) (rv_artifacts e)
           then (Some (ErrOther ''response artifact is not owned by the selected provider route''), rs)
           else case validate_artifact_outputs (Some (re_catalog E)) (re_operations E) now (re_operation E)
                       (rv_artifacts e) (client_owner (re_request E)) (re_operation E) (rs_counts rs) of
                  (err, counts) \<Rightarrow> (map_option ErrOperation err, rs\<lparr>rs_counts := counts\<rparr>)
      else if rv_kind e = event_artifact then (Some (ErrOther ''empty artifact event''), rs)
      else (None, rs))"

definition project_event ::
  "response_env \<Rightarrow> response_event \<Rightarrow> string \<Rightarrow> response_state \<Rightarrow> exec_error option \<times> response_state" where
  "project_event E e payload rs =
     (if \<not> re_projector E then (None, rs)
      else if rs_finalized rs then (Some (ErrOther ''events after the terminal result''), rs)
      else case re_consume E (rs_sequence rs) payload of
             Some m \<Rightarrow> (Some (ErrWrapped ''project operation result'' (ErrOther m)), rs)
           | None \<Rightarrow>
               if rv_kind e \<noteq> event_complete then (None, rs)
               else case re_finalize E (rs_sequence rs) of
                      Inl m \<Rightarrow> (Some (ErrWrapped ''finalize operation result'' (ErrOther m)), rs)
                    | Inr result \<Rightarrow>
                        (case validate_operation_result (re_catalog E) (re_operations E) (re_operation E) result of
                           Some err \<Rightarrow> (Some (ErrOperation err), rs)
                         | None \<Rightarrow> (None, rs\<lparr>rs_finalized := True\<rparr>)))"

text \<open>The parts of \<open>validateEvent\<close> one after the other; what an earlier one wrote stays when a later one fails.\<close>

definition and_then ::
  "exec_error option \<times> response_state \<Rightarrow> (response_state \<Rightarrow> exec_error option \<times> response_state) \<Rightarrow>
   exec_error option \<times> response_state" where
  "and_then p f = (case p of (Some e, rs) \<Rightarrow> (Some e, rs) | (None, rs) \<Rightarrow> f rs)"

definition validate_event ::
  "response_env \<Rightarrow> go_time \<Rightarrow> response_event \<Rightarrow> response_state \<Rightarrow> exec_error option \<times> response_state" where
  "validate_event E now e rs0 =
     (let rs = rs0\<lparr>rs_sequence := rs_sequence rs0 + 1\<rparr>
      in and_then (check_signature E e rs) (\<lambda>rs.
         and_then (check_artifacts E now e rs) (\<lambda>rs.
         and_then
           (if rv_kind e = event_complete
            then (map_option ErrOperation (validate_output_counts (re_operations E) (re_operation E) (rs_counts rs)), rs)
            else (None, rs)) (\<lambda>rs.
         case re_payload E e (rs_sequence rs) of
           None \<Rightarrow> (Some (ErrOther ''encode operation response event''), rs)
         | Some payload \<Rightarrow>
             and_then
               (case gm_get (re_operations E) (re_operation E) of
                  None \<Rightarrow> (None, rs)
                | Some d \<Rightarrow>
                    if od_event_schemas d = [] then (None, rs)
                    else (map_option ErrOperation
                            (validate_operation_event (re_catalog E) (re_operations E) (re_operation E) payload), rs))
               (project_event E e payload)))))"

section \<open>Failures of a response\<close>

definition replace_message :: "classified_outcome \<Rightarrow> string \<Rightarrow> classified_outcome" where
  "replace_message oc m = oc\<lparr>oc_message := m\<rparr>"

definition provider_error_message :: string where
  "provider_error_message = ''provider reported a terminal response error''"

text \<open>
  \<open>normalizeProviderFailure\<close>: \<open>ctx\<close> is the error of the attempt's context when it starts, \<open>ctx'\<close> after an
  invalidation failed.
\<close>

definition normalize_provider_failure ::
  "response_env \<Rightarrow> string option \<Rightarrow> session_error option \<Rightarrow> string \<Rightarrow> response_state \<Rightarrow> exec_error \<times> response_state" where
  "normalize_provider_failure E ctx ctx' data rs =
     (case ctx of
        Some c \<Rightarrow> (wrap_response_failure OriginUnknown (ErrContext c), rs)
      | None \<Rightarrow>
          (case re_classifier E of
             None \<Rightarrow> (ErrProviderResponse data, rs)
           | Some classify \<Rightarrow>
               let oc = classify data
               in if oc_effect oc \<noteq> EffectAccepted \<or> oc_status_code oc \<noteq> 0 \<or>
                     recovery_effective (oc_recovery oc) \<noteq> CredentialRecoveryNone
                  then (wrap_response_failure OriginUnknown ErrContinuityRecoveryInvalid, rs)
                  else if oc_continuity oc \<noteq> ContinuityUnset \<and> oc_continuity oc \<noteq> ContinuityRecoveryNone
                  then if \<not> valid_continuity_recovery oc EffectAccepted
                       then (wrap_response_failure OriginUnknown ErrContinuityRecoveryInvalid, rs)
                       else let rs1 = (if invalidates_continuity (re_request E) (re_loaded E) (re_was_loaded E) \<and>
                                          re_invalidate E \<noteq> None
                                       then effect (FxInvalidate (re_candidate E) (re_session_key E) (re_loaded E)) rs
                                       else rs)
                            in (case invalidate_loaded_continuity (re_invalidate E) ctx' (re_request E) (re_loaded E)
                                       (re_was_loaded E) of
                                  Some e \<Rightarrow> (wrap_response_failure OriginUnknown (ErrSession e), rs1)
                                | None \<Rightarrow>
                                    let oc1 = replace_message oc continuity_restart_message
                                    in (with_outcome_client_failure oc1 ErrContinuityRestartRequired,
                                        rs1\<lparr>rs_outcome := Some oc1\<rparr>))
                  else let oc1 = replace_message oc provider_error_message
                       in (with_outcome_client_failure oc1 (ErrProviderResponse data), rs\<lparr>rs_outcome := Some oc1\<rparr>)))"

definition stream_failure_outcome :: "bool \<Rightarrow> string \<Rightarrow> classified_outcome" where
  "stream_failure_outcome deadline m =
     (success_outcome ScopeOperation)
     \<lparr>oc_class := ErrorRetryable, oc_cause := (if deadline then CauseTimeout else CauseStreamFailure),
      oc_retry := RetryAfter, oc_confidence := fround (9 / 10), oc_evidence := [EvidenceInferred],
      oc_status_code := 0, oc_message := m\<rparr>"

text \<open>\<open>text_of\<close> is the text of an error, which only appears in messages.\<close>

definition report_failure ::
  "response_env \<Rightarrow> (exec_error \<Rightarrow> string) \<Rightarrow> go_time \<Rightarrow> string option \<Rightarrow> bool \<Rightarrow> exec_error \<Rightarrow> response_state \<Rightarrow>
   response_state" where
  "report_failure E text_of now ctx deadline err rs =
     (if rs_terminal rs \<noteq> None then rs
      else let rs1 = rs\<lparr>rs_terminal := Some err\<rparr>;
               rs2 = emit_event E (zero_event\<lparr>rv_at := now, rv_kind := event_error, rv_error := failure_for_error err\<rparr>) rs1
           in if \<not> provider_response_failure ctx deadline err then rs2
              else case rs_outcome rs2 of
                     Some oc \<Rightarrow> if re_observes E then effect (FxObserve (re_candidate E) oc) rs2 else rs2
                   | None \<Rightarrow>
                       if re_observes E
                       then effect (FxObserve (re_candidate E) (stream_failure_outcome deadline (text_of err))) rs2
                       else if re_feedback E
                       then effect (FxMarkFailure (re_candidate E) ErrorRetryable err) rs2
                       else rs2)"

section \<open>The calls of an adapter\<close>

datatype render_call =
    CallValidate go_time response_event
  | CallTransformed "transform_failure list"
  | CallEvent response_event
  | CallError go_time "string option" bool exec_error
  | CallNormalize "string option" "session_error option" string
  | CallSession session_state
  | CallFirstByte go_time
  | CallUsage usage_event
  | CallCompleteUsage go_time go_time usage_event
  | CallComplete go_time go_time usage_event
  | CallWriter writer_call

text \<open>\<open>OnEvent\<close> passes everything but the terminal events on, which the kernel sends itself.\<close>

definition on_event :: "response_env \<Rightarrow> response_event \<Rightarrow> response_state \<Rightarrow> response_state" where
  "on_event E e rs =
     (let rs1 = (if rv_response_id e \<noteq> []
                 then rs\<lparr>rs_session := (rs_session rs)\<lparr>ses_response_id := rv_response_id e\<rparr>\<rparr> else rs)
      in if rv_kind e \<noteq> event_complete \<and> rv_kind e \<noteq> event_error then emit_event E e rs1 else rs1)"

definition on_session_state :: "session_state \<Rightarrow> response_state \<Rightarrow> response_state" where
  "on_session_state st rs =
     (if validate_session_state st \<noteq> None then rs
      else rs\<lparr>rs_changed := True, rs_session := apply_session_update (rs_session rs) st\<rparr>)"

definition on_complete :: "response_env \<Rightarrow> go_time \<Rightarrow> go_time \<Rightarrow> usage_event \<Rightarrow> response_state \<Rightarrow> response_state" where
  "on_complete E now now' usage rs =
     (case attempt_complete (re_usage E) now now' (rs_attempt rs) usage of
        (a, completed, True) \<Rightarrow>
          rs\<lparr>rs_attempt := a, rs_terminal := Some (wrap_response_failure OriginUnknown ErrRequiredUsage)\<rparr>
      | (a, completed, False) \<Rightarrow>
          (case rs_staged rs of
             Some _ \<Rightarrow> rs\<lparr>rs_attempt := a\<rparr>
           | None \<Rightarrow> rs\<lparr>rs_attempt := a, rs_staged := Some (clone_usage (env_canon (re_usage E)) completed)\<rparr>))"

definition on_writer :: "writer_call \<Rightarrow> response_state \<Rightarrow> response_state" where
  "on_writer x rs =
     (case writer_op x (rs_writer rs) of (w, calls) \<Rightarrow> rs\<lparr>rs_writer := w, rs_client := rs_client rs @ calls\<rparr>)"

fun render_step :: "response_env \<Rightarrow> (exec_error \<Rightarrow> string) \<Rightarrow> render_call \<Rightarrow> response_state \<Rightarrow> response_state" where
  "render_step E text_of (CallValidate now e) rs = snd (validate_event E now e rs)"
| "render_step E text_of (CallTransformed fs) rs = rs\<lparr>rs_failures := rs_failures rs @ fs\<rparr>"
| "render_step E text_of (CallEvent e) rs = on_event E e rs"
| "render_step E text_of (CallError now ctx deadline err) rs = report_failure E text_of now ctx deadline err rs"
| "render_step E text_of (CallNormalize ctx ctx' data) rs = snd (normalize_provider_failure E ctx ctx' data rs)"
| "render_step E text_of (CallSession st) rs = on_session_state st rs"
| "render_step E text_of (CallFirstByte t) rs =
     emit_event E (zero_event\<lparr>rv_at := t, rv_kind := event_started\<rparr>) (rs\<lparr>rs_first_byte := t\<rparr>)"
| "render_step E text_of (CallUsage u) rs = rs\<lparr>rs_attempt := attempt_observe (re_usage E) (rs_attempt rs) u\<rparr>"
| "render_step E text_of (CallCompleteUsage now now' u) rs =
     rs\<lparr>rs_attempt := fst (attempt_complete (re_usage E) now now' (rs_attempt rs) u)\<rparr>"
| "render_step E text_of (CallComplete now now' u) rs = on_complete E now now' u rs"
| "render_step E text_of (CallWriter x) rs = on_writer x rs"

definition render_calls ::
  "response_env \<Rightarrow> (exec_error \<Rightarrow> string) \<Rightarrow> render_call list \<Rightarrow> response_state \<Rightarrow> response_state" where
  "render_calls E text_of xs rs = fold (render_step E text_of) xs rs"

section \<open>The end of a response\<close>

text \<open>
  The error a response ends with: \<open>returned\<close> by the adapter, \<open>close_err\<close> of the scope of its artifacts, if
  there is one, and \<open>ctx\<close> of the request's context.
\<close>

definition final_render_error ::
  "response_env \<Rightarrow> exec_error option \<Rightarrow> exec_error option \<Rightarrow> string option \<Rightarrow> response_state \<Rightarrow> exec_error option" where
  "final_render_error E returned close_err ctx rs =
     (let e1 = (case rs_terminal rs of Some t \<Rightarrow> Some t | None \<Rightarrow> returned);
          or_else = (\<lambda>e later. case e of Some x \<Rightarrow> Some x | None \<Rightarrow> later);
          e2 = or_else e1 (cw_failure (rs_writer rs));
          e3 = or_else e2
                 (if re_projector E \<and> \<not> rs_finalized rs
                  then Some (wrap_response_failure OriginProvider (ErrOther ''result not finalized'')) else None);
          e4 = or_else e3
                 (if re_outputs E = [] then None
                  else map_option (\<lambda>e. wrap_response_failure OriginProvider (ErrOperation e))
                         (validate_output_counts (re_operations E) (re_operation E) (rs_counts rs)));
          e5 = or_else e4 (map_option (wrap_response_failure OriginRenderer) close_err)
      in or_else e5 (map_option ErrContext ctx))"

definition kernel_success_outcome :: classified_outcome where
  "kernel_success_outcome = (success_outcome ScopeOperation)\<lparr>oc_retry := RetryNow, oc_status_code := 0\<rparr>"

record request_class =
  qc_operation :: ext_ref
  qc_format :: string
  qc_stream :: bool
  qc_vision :: bool
  qc_audio :: bool
  qc_video :: bool
  qc_pdf :: bool
  qc_tools :: bool
  qc_thinking :: string
  qc_context :: string

text \<open>The class of a request, which the code encodes as JSON with \<open>encode\<close>.\<close>

definition request_class_of :: "request \<Rightarrow> request_class" where
  "request_class_of q =
     \<lparr>qc_operation = operation_ref_of q, qc_format = rq_source_format q, qc_stream = rq_stream q,
      qc_vision = md_vision (rq_modalities q), qc_audio = md_audio_input (rq_modalities q),
      qc_video = md_video_input (rq_modalities q), qc_pdf = md_pdf (rq_modalities q), qc_tools = (rq_tools q \<noteq> []),
      qc_thinking = th_effort (rq_thinking q),
      qc_context = (if 32 < length (rq_messages q) then ''large''
                    else if 8 < length (rq_messages q) then ''medium''
                    else if 0 < length (rq_messages q) then ''small'' else ''empty'')\<rparr>"

text \<open>
  What \<open>finishSuccess\<close> reads: the node's request and its class, the plan of the route, the clocks, the start of the
  execution, whether the gate observes usage, the answer of the session store to a save, if there is
  one, and whether the request was cancelled for another reason than the deadline.
\<close>

record finish_env =
  fe_request :: request
  fe_class :: string
  fe_plan :: compat_plan
  fe_now :: go_time
  fe_now_latency :: go_time
  fe_now_accounting :: "go_time \<times> go_time"
  fe_started :: go_time
  fe_observes_usage :: bool
  fe_save :: "session_error option option"
  fe_cancelled :: bool

definition or_default :: "string \<Rightarrow> string \<Rightarrow> string" where
  "or_default v d = (if v = [] then d else v)"

definition completed_event :: "response_env \<Rightarrow> finish_env \<Rightarrow> response_state \<Rightarrow> usage_event \<Rightarrow> usage_event" where
  "completed_event E F rs event =
     (let r = re_candidate E; q = fe_request F; canon = env_canon (re_usage E);
          plan = (fe_plan F)\<lparr>pn_failures := pn_failures (fe_plan F) @ rs_failures rs\<rparr>;
          e1 = event\<lparr>ue_fidelity := pn_fidelity plan, ue_losses := clone_losses canon (pn_losses plan),
                     ue_plan := Some (summarize_plan plan)\<rparr>;
          e2 = (sanitize_common canon e1)\<lparr>ue_status := ''ok''\<rparr>;
          at_time = (if is_zero (ue_at e2) then fe_now F else ue_at e2);
          latency = (if ue_latency e2 = 0 then time_sub (fe_now_latency F) (fe_started F) else ue_latency e2);
          first_byte = (if is_zero (ue_first_byte_at e2) then rs_first_byte rs else ue_first_byte_at e2)
      in e2\<lparr>ue_at := at_time, ue_latency := latency, ue_first_byte_at := first_byte,
            ue_ttft := (if is_zero first_byte then ue_ttft e2
                        else time_sub first_byte (ua_started (rs_attempt rs))),
            ue_output_rate :=
              (case ue_output_tokens e2 of
                 Some n \<Rightarrow> if 0 < latency then Some (fdiv (float_of_int n) (duration_seconds latency)) else None
               | None \<Rightarrow> None),
            ue_logical_model := or_default (ue_logical_model e2) (rq_model q),
            ue_provider_node_id := or_default (ue_provider_node_id e2) (rt_node_id r),
            ue_external_model := or_default (ue_external_model e2) (rt_external_model r),
            ue_connection_id := or_default (ue_connection_id e2) (rt_credential_id r),
            ue_request_class := or_default (ue_request_class e2) (fe_class F),
            ue_session_id := or_default (ue_session_id e2) (sx_id (rq_session q))\<rparr>)"

definition saves_session :: "response_env \<Rightarrow> response_state \<Rightarrow> bool" where
  "saves_session E rs \<longleftrightarrow>
     re_session_key E \<noteq> [] \<and> ref_id (rt_session_store_ref (re_candidate E)) \<noteq> [] \<and>
     (rs_changed rs \<or> ses_response_id (rs_session rs) \<noteq> [] \<or> ses_data (rs_session rs) \<noteq> [] \<or>
      ses_signatures (rs_session rs) \<noteq> [])"

definition save_session :: "response_env \<Rightarrow> finish_env \<Rightarrow> response_state \<Rightarrow> response_state" where
  "save_session E F rs =
     (if \<not> saves_session E rs then rs
      else case fe_save F of
             None \<Rightarrow> rs
           | Some answer \<Rightarrow>
               let rs1 = effect (FxSave (re_candidate E) (re_session_key E) (rs_session rs)) rs
               in if answer \<noteq> None \<and> answer \<noteq> Some SessionStateSuperseded then effect FxSaveFailed rs1 else rs1)"

definition finish_success :: "response_env \<Rightarrow> finish_env \<Rightarrow> usage_event \<Rightarrow> response_state \<Rightarrow> response_state" where
  "finish_success E F staged rs =
     (let r = re_candidate E;
          rs1 = (if re_observes E then effect (FxObserve r kernel_success_outcome) rs else rs);
          rs2 = effect (FxRelease r) (case re_lease E of None \<Rightarrow> rs1 | Some l \<Rightarrow> effect (FxCloseLease l) rs1);
          rs3 = save_session E F rs2;
          e = completed_event E F rs3 staged;
          rs4 = (if \<not> re_observes E \<and> re_feedback E then effect (FxMarkSuccess r) rs3 else rs3);
          rs5 = (if fe_observes_usage F then effect (FxObserveUsage r (clone_usage (env_canon (re_usage E)) e)) rs4
                 else rs4);
          rs6 = emit_event E
                  (zero_event\<lparr>rv_at := ue_at e, rv_kind := event_complete,
                     rv_usage := Some ((clone_usage (env_canon (re_usage E)) e)\<lparr>ue_raw_usage := None\<rparr>)\<rparr>) rs5
      in case attempt_finish_success (re_usage E) (fst (fe_now_accounting F)) (snd (fe_now_accounting F))
                (fe_cancelled F) (rs_attempt rs6) e of
           (a, events) \<Rightarrow> rs6\<lparr>rs_attempt := a, rs_effects := rs_effects rs6 @ map FxUsage events\<rparr>)"

end
