(* ===== verification/Features.thy ===== *)
theory Features
  imports Profiles Artifacts
begin

text \<open>
  Feature evaluators (\<open>internal/kernel/feature_registry.go\<close>): a request's hard requirements against the
  evidence of a route. Evaluators are supplied by modules, so one is a function; the schema library is the
  catalog's \<open>xc_schema_accepts\<close>.
\<close>

definition feature_evaluator_kind :: string where
  "feature_evaluator_kind = ''feature-evaluator''"

text \<open>An evaluator's verdict is \<open>None\<close> when the requirement is met and its reason otherwise.\<close>

record feature_registration =
  fg_evaluate :: "capability \<Rightarrow> string \<Rightarrow> string option"
  fg_input :: "ext_ref option"

type_synonym feature_registry = "(ext_ref, feature_registration) gomap"

datatype feature_refusal =
    FeatureRefInvalid
  | FeatureNoEvidence string
  | FeatureNoEvaluator ext_ref
  | FeatureConstraints string
  | FeatureUnsatisfied string string

definition register_feature ::
  "ext_ref \<Rightarrow> feature_registration option \<Rightarrow> feature_registry \<Rightarrow> feature_refusal option \<times> feature_registry" where
  "register_feature r evaluator reg =
     (case evaluator of
        None \<Rightarrow> (Some FeatureRefInvalid, reg)
      | Some f \<Rightarrow>
          if \<not> ref_ok r \<or> ref_kind r \<noteq> feature_evaluator_kind then (Some FeatureRefInvalid, reg)
          else if gm_has reg r then (Some (FeatureNoEvaluator r), reg)
          else (None, gm_put r (f\<lparr>fg_input := None\<rparr>) reg))"

definition evaluate_feature ::
  "extension_catalog \<Rightarrow> feature_registry \<Rightarrow> route \<Rightarrow> feature_requirement \<Rightarrow> feature_refusal option" where
  "evaluate_feature cat reg r q =
     (if \<not> ref_ok (fr_ref q) \<or> ref_kind (fr_ref q) \<noteq> feature_evaluator_kind then Some FeatureRefInvalid
      else case gm_get (rt_profile r) (ref_id (fr_ref q)) of
        None \<Rightarrow> Some (FeatureNoEvidence (ref_id (fr_ref q)))
      | Some c \<Rightarrow>
          (case gm_get reg (fr_ref q) of
             None \<Rightarrow> Some (FeatureNoEvaluator (fr_ref q))
           | Some f \<Rightarrow>
               if (case fg_input f of None \<Rightarrow> False | Some s \<Rightarrow> \<not> xc_schema_accepts cat s (fr_constraints q))
               then Some (FeatureConstraints (ref_id (fr_ref q)))
               else map_option (FeatureUnsatisfied (ref_id (fr_ref q))) (fg_evaluate f c (fr_constraints q))))"

definition evaluate_features ::
  "extension_catalog \<Rightarrow> feature_registry \<Rightarrow> route \<Rightarrow> feature_requirement list \<Rightarrow> feature_refusal option" where
  "evaluate_features cat reg r qs = first_error (evaluate_feature cat reg r) qs"

text \<open>The evaluator of features whose contract is exactly the support state.\<close>

definition native_feature :: feature_registration where
  "native_feature =
     \<lparr>fg_evaluate = (\<lambda>c constraints.
        if constraints \<noteq> [] \<and> constraints \<noteq> ''null'' then Some ''feature constraints require a specialized evaluator''
        else if cap_state c \<noteq> SupportNative then Some ''support is not native and unconditional''
        else None),
      fg_input = None\<rparr>"

lemma evaluate_features_None:
  "evaluate_features cat reg r qs = None \<longleftrightarrow> (\<forall>q \<in> set qs. evaluate_feature cat reg r q = None)"
  by (simp add: evaluate_features_def first_error_None)

end
