(* ===== verification/Applying.thy ===== *)
theory Applying
  imports Responses Transforms
begin

text \<open>
  Applying the transforms of a request or of a response event (\<open>ApplyScopesWithReport\<close> of both registries
  of \<open>internal/kernel/transform_registry.go\<close>): each is run on a copy under its bounds, and what it returns
  is compared with what it was given before it is used.
\<close>

section \<open>Opaque content\<close>

definition part_opaque_equal :: "content_part \<Rightarrow> content_part \<Rightarrow> bool" where
  "part_opaque_equal l r \<longleftrightarrow>
     part_type l = part_type r \<and> part_media_type l = part_media_type r \<and> part_metadata l = part_metadata r \<and>
     (part_type l = ''thinking'' \<or> part_type l = ''redacted_thinking'' \<longrightarrow>
        part_text l = part_text r \<and> part_url l = part_url r \<and> part_data l = part_data r)"

definition parts_opaque_equal :: "content_part list \<Rightarrow> content_part list \<Rightarrow> bool" where
  "parts_opaque_equal ls rs \<longleftrightarrow> list_all2 part_opaque_equal ls rs"

definition content_keys :: "string list" where
  "content_keys = [''text'', ''data'', ''url'', ''image_url'', ''content'', ''input_audio'', ''audio'', ''video'']"

text \<open>The entries of a decoded object are kept in one order, so that equal objects are equal values.\<close>

fun content_opaque_equal :: "content_value \<Rightarrow> content_value \<Rightarrow> bool"
  and items_opaque_equal :: "content_value list \<Rightarrow> content_value list \<Rightarrow> bool"
  and entries_opaque_equal :: "(string \<times> content_value) list \<Rightarrow> (string, content_value) gomap \<Rightarrow> bool" where
  "content_opaque_equal (ContentTyped l) right = (case right of ContentTyped r \<Rightarrow> part_opaque_equal l r | _ \<Rightarrow> False)"
| "content_opaque_equal (ContentParts ls) right =
     (case right of ContentParts rs \<Rightarrow> parts_opaque_equal ls rs | _ \<Rightarrow> False)"
| "content_opaque_equal (ContentItems ls) right = (case right of ContentItems rs \<Rightarrow> items_opaque_equal ls rs | _ \<Rightarrow> False)"
| "content_opaque_equal (ContentObject es) right =
     (case right of ContentObject rs \<Rightarrow> length es = length rs \<and> entries_opaque_equal es rs | _ \<Rightarrow> False)"
| "content_opaque_equal ContentNil right = True"
| "content_opaque_equal (ContentText t) right = True"
| "content_opaque_equal (ContentScalar t) right = True"
| "items_opaque_equal [] rs = (rs = [])"
| "items_opaque_equal (l # ls) rs =
     (case rs of [] \<Rightarrow> False | r # rs' \<Rightarrow> content_opaque_equal l r \<and> items_opaque_equal ls rs')"
| "entries_opaque_equal [] right = True"
| "entries_opaque_equal ((k, v) # es) right =
     ((case gm_get right k of
         None \<Rightarrow> False
       | Some u \<Rightarrow> if k \<in> set content_keys then content_opaque_equal v u else v = u) \<and>
      entries_opaque_equal es right)"

section \<open>What a request transform may change\<close>

definition unsafe_change :: "string \<Rightarrow> exec_error" where
  "unsafe_change what = ErrWrapped what ErrTransformSafety"

definition undeclared_change :: "string \<Rightarrow> exec_error" where
  "undeclared_change what = ErrOther (''undeclared effect: '' @ what)"

text \<open>The first check that applies, of a list in the order the code makes them.\<close>

definition first_check :: "(bool \<times> exec_error) list \<Rightarrow> exec_error option" where
  "first_check cs = map_option snd (find fst cs)"

definition has_effect :: "'e transform_definition \<Rightarrow> 'e \<Rightarrow> bool" where
  "has_effect d x \<longleftrightarrow> x \<in> set (td_effects d)"

definition prompt_identity_equal :: "prompt_layer list \<Rightarrow> prompt_layer list \<Rightarrow> bool" where
  "prompt_identity_equal ls rs \<longleftrightarrow> list_all2 (\<lambda>l r. pl_origin l = pl_origin r \<and> pl_role l = pl_role r) ls rs"

definition prompt_opaque_equal :: "prompt_layer list \<Rightarrow> prompt_layer list \<Rightarrow> bool" where
  "prompt_opaque_equal ls rs \<longleftrightarrow> list_all2 (\<lambda>l r. parts_opaque_equal (pl_parts l) (pl_parts r)) ls rs"

definition call_identity_equal :: "tool_call \<Rightarrow> tool_call \<Rightarrow> bool" where
  "call_identity_equal l r \<longleftrightarrow> l\<lparr>call_arguments := []\<rparr> = r\<lparr>call_arguments := []\<rparr>"

definition call_checks :: "request_effect transform_definition \<Rightarrow> tool_call \<times> tool_call \<Rightarrow> (bool \<times> exec_error) list" where
  "call_checks d p =
     [(\<not> call_identity_equal (fst p) (snd p), unsafe_change ''tool-call identity''),
      (call_arguments (fst p) \<noteq> call_arguments (snd p) \<and> \<not> has_effect d TransformTools,
       undeclared_change ''tool-call arguments'')]"

definition message_checks :: "request_effect transform_definition \<Rightarrow> message \<times> message \<Rightarrow> (bool \<times> exec_error) list" where
  "message_checks d p =
     (case p of (l, r) \<Rightarrow>
        [(msg_role l \<noteq> msg_role r \<or> msg_name l \<noteq> msg_name r \<or> msg_tool_call_id l \<noteq> msg_tool_call_id r \<or>
          msg_metadata l \<noteq> msg_metadata r, unsafe_change ''message role, correlation or metadata''),
         (msg_content l \<noteq> msg_content r \<and> \<not> has_effect d TransformInput, undeclared_change ''message content''),
         (msg_content l \<noteq> msg_content r \<and> \<not> content_opaque_equal (msg_content l) (msg_content r),
          unsafe_change ''opaque content''),
         (length (msg_tool_calls l) \<noteq> length (msg_tool_calls r), unsafe_change ''tool-call count'')] @
        concat (map (call_checks d) (zip (msg_tool_calls l) (msg_tool_calls r))))"

definition typed_content :: "message \<Rightarrow> bool" where
  "typed_content m =
     (case msg_content m of
        ContentNil \<Rightarrow> True
      | ContentText t \<Rightarrow> True
      | ContentParts ps \<Rightarrow> True
      | ContentItems vs \<Rightarrow> False
      | _ \<Rightarrow> msg_role m = ''tool'')"

definition added_message_checks :: "message \<Rightarrow> (bool \<times> exec_error) list" where
  "added_message_checks m =
     [(msg_metadata m \<noteq> None, unsafe_change ''added message metadata''),
      (\<not> typed_content m, unsafe_change ''added message content''),
      (case msg_content m of ContentParts ps \<Rightarrow> list_ex (\<lambda>p. part_metadata p \<noteq> None) ps | _ \<Rightarrow> False,
       unsafe_change ''added content part metadata''),
      (list_ex (\<lambda>c. call_metadata c \<noteq> None \<or> call_provider_data c \<noteq> [] \<or> call_signature c \<noteq> [] \<or>
                    ref_id (call_issuer c) \<noteq> []) (msg_tool_calls m),
       unsafe_change ''added tool-call metadata'')]"

definition effect_checks :: "request_effect transform_definition \<Rightarrow> request \<Rightarrow> request \<Rightarrow> (bool \<times> exec_error) list" where
  "effect_checks d old upd =
     (let undeclared = (\<lambda>changed x what. (changed \<and> \<not> has_effect d x, undeclared_change what));
          unsafe = (\<lambda>changed what. (changed, unsafe_change what))
      in [undeclared (rq_prompt old \<noteq> rq_prompt upd) TransformPrompt ''prompt layers'',
          unsafe (\<not> prompt_identity_equal (rq_prompt old) (rq_prompt upd)) ''prompt provenance'',
          unsafe (\<not> prompt_opaque_equal (rq_prompt old) (rq_prompt upd)) ''opaque prompt metadata'',
          unsafe (rq_artifacts old \<noteq> rq_artifacts upd) ''artifact references'',
          unsafe (rq_facts old \<noteq> rq_facts upd) ''artifact facts'',
          undeclared (rq_tools old \<noteq> rq_tools upd) TransformTools ''tool definitions'',
          unsafe (length (rq_tools old) = length (rq_tools upd) \<and>
                  map tool_metadata (rq_tools old) \<noteq> map tool_metadata (rq_tools upd)) ''tool metadata'',
          undeclared (rq_tool_choice old \<noteq> rq_tool_choice upd) TransformTools ''tool choice'',
          unsafe (choice_metadata (rq_tool_choice old) \<noteq> choice_metadata (rq_tool_choice upd))
            ''tool-choice metadata'',
          undeclared (rq_generation old \<noteq> rq_generation upd) TransformOptions ''generation options'',
          unsafe (rq_unsupported_facets old \<noteq> rq_unsupported_facets upd) ''unsupported facets'',
          unsafe (gn_unsupported (rq_generation old) \<noteq> gn_unsupported (rq_generation upd))
            ''unsupported options'',
          undeclared (length (rq_messages old) \<noteq> length (rq_messages upd)) TransformInput ''message count''] @
         concat (map (message_checks d) (zip (rq_messages old) (rq_messages upd))) @
         concat (map added_message_checks (drop (length (rq_messages old)) (rq_messages upd))) @
         [undeclared (rq_modalities old \<noteq> rq_modalities upd \<or> rq_payload old \<noteq> rq_payload upd)
            TransformInput ''operation input or modalities'',
          undeclared (rq_thinking old \<noteq> rq_thinking upd) TransformThinking ''thinking intent'',
          unsafe (th_source (rq_thinking old) \<noteq> th_source (rq_thinking upd)) ''thinking provenance'',
          unsafe (sx_provider_state (rq_session old) \<noteq> sx_provider_state (rq_session upd))
            ''provider session state'',
          undeclared (rq_continuity old \<noteq> rq_continuity upd) TransformContinuity ''continuity state'',
          unsafe (cn_encrypted_content (rq_continuity old) \<noteq> cn_encrypted_content (rq_continuity upd))
            ''encrypted continuity content'',
          undeclared (rq_requirements old \<noteq> rq_requirements upd) TransformInput ''request requirements'',
          unsafe (rq_extensions old \<noteq> rq_extensions upd) ''source request extensions'',
          unsafe (rq_raw old \<noteq> rq_raw upd) ''raw client request''])"

definition validate_request_effects ::
  "request_effect transform_definition \<Rightarrow> request \<Rightarrow> request \<Rightarrow> exec_error option" where
  "validate_request_effects d old upd = first_check (effect_checks d old upd)"

definition request_identity_changed :: "request \<Rightarrow> request \<Rightarrow> bool" where
  "request_identity_changed old upd \<longleftrightarrow>
     rq_model upd \<noteq> rq_model old \<or> rq_operation upd \<noteq> rq_operation old \<or>
     rq_operation_version upd \<noteq> rq_operation_version old \<or>
     rq_source_format upd \<noteq> rq_source_format old \<or> rq_stream upd \<noteq> rq_stream old \<or>
     sx_id (rq_session upd) \<noteq> sx_id (rq_session old) \<or>
     sx_client (rq_session upd) \<noteq> sx_client (rq_session old) \<or>
     sx_conversation (rq_session upd) \<noteq> sx_conversation (rq_session old) \<or>
     rq_transport upd \<noteq> rq_transport old"

definition mutation_delta :: "request \<Rightarrow> request \<Rightarrow> mutation_set" where
  "mutation_delta old upd =
     (let g = rq_generation old; h = rq_generation upd
      in \<lparr>mu_prompt = (rq_prompt old \<noteq> rq_prompt upd),
          mu_messages = (rq_messages old \<noteq> rq_messages upd),
          mu_payload = (rq_payload old \<noteq> rq_payload upd),
          mu_modalities = (rq_modalities old \<noteq> rq_modalities upd),
          mu_requirements = (rq_requirements old \<noteq> rq_requirements upd),
          mu_tools = (rq_tools old \<noteq> rq_tools upd),
          mu_tool_calls = (map msg_tool_calls (rq_messages old) \<noteq> map msg_tool_calls (rq_messages upd)),
          mu_tool_choice = (rq_tool_choice old \<noteq> rq_tool_choice upd),
          mu_max_output = (gn_max_output g \<noteq> gn_max_output h),
          mu_temperature = (gn_temperature g \<noteq> gn_temperature h),
          mu_top_p = (gn_top_p g \<noteq> gn_top_p h),
          mu_stop_sequences = (gn_stop_sequences g \<noteq> gn_stop_sequences h),
          mu_thinking = (rq_thinking old \<noteq> rq_thinking upd),
          mu_continuity = (rq_continuity old \<noteq> rq_continuity upd)\<rparr>)"

definition merge_mutations :: "mutation_set \<Rightarrow> mutation_set \<Rightarrow> mutation_set" where
  "merge_mutations a b =
     \<lparr>mu_prompt = (mu_prompt a \<or> mu_prompt b), mu_messages = (mu_messages a \<or> mu_messages b),
      mu_payload = (mu_payload a \<or> mu_payload b), mu_modalities = (mu_modalities a \<or> mu_modalities b),
      mu_requirements = (mu_requirements a \<or> mu_requirements b), mu_tools = (mu_tools a \<or> mu_tools b),
      mu_tool_calls = (mu_tool_calls a \<or> mu_tool_calls b), mu_tool_choice = (mu_tool_choice a \<or> mu_tool_choice b),
      mu_max_output = (mu_max_output a \<or> mu_max_output b), mu_temperature = (mu_temperature a \<or> mu_temperature b),
      mu_top_p = (mu_top_p a \<or> mu_top_p b),
      mu_stop_sequences = (mu_stop_sequences a \<or> mu_stop_sequences b),
      mu_thinking = (mu_thinking a \<or> mu_thinking b), mu_continuity = (mu_continuity a \<or> mu_continuity b)\<rparr>"

section \<open>Running a transform\<close>

text \<open>
  An implementation is a function of its options and of a copy of the value. What the code reads of the
  context around one run is \<open>transform_clock\<close>: its error before and after, whether the run's own deadline
  passed, the context when a failure is judged, and its error at the end (responses only).
\<close>

record ('e, 'v) transform_impl =
  ti_definition :: "'e transform_definition"
  ti_apply :: "string \<Rightarrow> 'v \<Rightarrow> exec_error + 'v"

record transform_clock =
  tk_before :: "string option"
  tk_after :: "string option"
  tk_deadline :: bool
  tk_judged :: transform_context
  tk_end :: "string option"

datatype 'v transform_verdict =
    TransformFails exec_error
  | TransformSkips transform_failure_reason
  | TransformKeeps 'v

definition fits_bounds :: "int \<Rightarrow> int \<Rightarrow> int \<Rightarrow> bool" where
  "fits_bounds n limit buffered \<longleftrightarrow> n \<le> limit \<and> n \<le> buffered"

definition skip_or ::
  "'e transform_definition \<Rightarrow> transform_binding \<Rightarrow> transform_clock \<Rightarrow> bool \<Rightarrow> transform_failure_reason \<Rightarrow> exec_error \<Rightarrow>
   'v transform_verdict" where
  "skip_or d b k response reason err =
     (if fail_open_transform (Some (tk_judged k)) b (td_failure_modes d) response \<and>
         \<not> error_is err ErrTransformSafety
      then TransformSkips reason else TransformFails err)"

text \<open>
  \<open>enc\<close> is the length of the JSON encoding of a value, when it has one; \<open>judge\<close> compares the result with
  the value before it and returns what is used of it.
\<close>

definition run_transform ::
  "('v \<Rightarrow> int option) \<Rightarrow> bool \<Rightarrow> ('e transform_definition \<Rightarrow> (transform_failure_reason \<Rightarrow> exec_error \<Rightarrow> 'v transform_verdict) \<Rightarrow>
   'v \<Rightarrow> 'v \<Rightarrow> 'v transform_verdict) \<Rightarrow> transform_clock \<Rightarrow> transform_binding \<Rightarrow> ('e, 'v) transform_impl \<Rightarrow> 'v \<Rightarrow>
   'v transform_verdict" where
  "run_transform enc response judge k b impl v =
     (let d = ti_definition impl;
          bounds = effective_transform_bounds (td_bounds d);
          skip = skip_or d b k response
      in case enc v of
           None \<Rightarrow> TransformFails (ErrOther ''encode transform input'')
         | Some n \<Rightarrow>
             if \<not> fits_bounds n (rb_max_input bounds) (rb_max_buffered bounds)
             then skip TransformFailureBudget (ErrOther ''input exceeds declared resource bounds'')
             else case tk_after k of
               Some e \<Rightarrow> TransformFails (ErrContext e)
             | None \<Rightarrow>
                 (case (case ti_apply impl (tb_options b) v of
                          Inr w \<Rightarrow> if tk_deadline k then Inl (ErrOther ''context deadline exceeded'') else Inr w
                        | Inl e \<Rightarrow> Inl e) of
                    Inl e \<Rightarrow>
                      skip (if tk_deadline k then TransformFailureDeadline else TransformFailureApply)
                        (ErrWrapped ''transform'' e)
                  | Inr w \<Rightarrow> judge d skip v w))"

section \<open>Request transforms\<close>

definition within_output ::
  "('v \<Rightarrow> int option) \<Rightarrow> resource_bounds \<Rightarrow> 'v \<Rightarrow> bool" where
  "within_output enc b v =
     (case enc v of None \<Rightarrow> False | Some n \<Rightarrow> fits_bounds n (rb_max_output b) (rb_max_buffered b))"

definition judge_request ::
  "(request \<Rightarrow> int option) \<Rightarrow> request_effect transform_definition \<Rightarrow>
   (transform_failure_reason \<Rightarrow> exec_error \<Rightarrow> request transform_verdict) \<Rightarrow> request \<Rightarrow> request \<Rightarrow>
   request transform_verdict" where
  "judge_request enc d skip old upd =
     (if request_identity_changed old upd
      then TransformFails (unsafe_change ''changed immutable request identity or client contract'')
      else if rq_mutations upd \<noteq> rq_mutations old
      then TransformFails (unsafe_change ''changed kernel-owned mutation markers'')
      else case validate_request_effects d old upd of
             Some e \<Rightarrow> skip TransformFailureEffect e
           | None \<Rightarrow>
               let updated = upd\<lparr>rq_mutations := merge_mutations (rq_mutations old) (mutation_delta old upd)\<rparr>
               in if within_output enc (effective_transform_bounds (td_bounds d)) updated then TransformKeeps updated
                  else skip TransformFailureBudget (ErrOther ''output exceeds declared resource bounds''))"

text \<open>The loop over the selected bindings; \<open>clock\<close> gives the answers of the \<open>i\<close>-th.\<close>

fun run_transforms ::
  "(ext_ref \<Rightarrow> ('e, 'v) transform_impl option) \<Rightarrow> (nat \<Rightarrow> transform_clock) \<Rightarrow>
   (transform_clock \<Rightarrow> transform_binding \<Rightarrow> ('e, 'v) transform_impl \<Rightarrow> 'v \<Rightarrow> 'v transform_verdict) \<Rightarrow> nat \<Rightarrow>
   transform_binding list \<Rightarrow> 'v \<Rightarrow> transform_failure list \<Rightarrow> exec_error + 'v \<times> transform_failure list" where
  "run_transforms reg clock run i [] v fs = Inr (v, fs)"
| "run_transforms reg clock run i (b # bs) v fs =
     (case tk_before (clock i) of
        Some e \<Rightarrow> Inl (ErrContext e)
      | None \<Rightarrow>
          (case reg (tb_ref b) of
             None \<Rightarrow> Inl (ErrOther ''missing transform'')
           | Some impl \<Rightarrow>
               (case run (clock i) b impl v of
                  TransformFails e \<Rightarrow> Inl e
                | TransformSkips reason \<Rightarrow>
                    run_transforms reg clock run (Suc i) bs v
                      (fs @ [mk_transform_failure b (td_ref (ti_definition impl)) reason])
                | TransformKeeps w \<Rightarrow> run_transforms reg clock run (Suc i) bs w fs)))"

type_synonym request_registry = "(ext_ref, (request_effect, request) transform_impl) gomap"

text \<open>\<open>ctx_end\<close> is the context's error when all transforms have run.\<close>

definition apply_request_transforms ::
  "(request \<Rightarrow> int option) \<Rightarrow> request_registry \<Rightarrow> (nat \<Rightarrow> transform_clock) \<Rightarrow> string option \<Rightarrow> transform_binding list \<Rightarrow>
   transform_scope list \<Rightarrow> request \<Rightarrow> exec_error + request \<times> transform_failure list" where
  "apply_request_transforms enc reg clock ctx_end bindings scopes q =
     (let selected = ordered_bindings bindings scopes request_transform_kind
      in if list_ex (\<lambda>b. gm_get reg (tb_ref b) = None) selected then Inl (ErrOther ''missing transform'')
         else case run_transforms (gm_get reg) clock (run_transform enc False (judge_request enc)) 0 selected q [] of
                Inl e \<Rightarrow> Inl e
              | Inr r \<Rightarrow> (case ctx_end of Some e \<Rightarrow> Inl (ErrContext e) | None \<Rightarrow> Inr r))"

section \<open>Response transforms\<close>

definition event_text_delta :: string where
  "event_text_delta = ''text_delta''"

definition event_thinking_delta :: string where
  "event_thinking_delta = ''thinking_delta''"

text \<open>What a response transform may change of an event: its text, tool arguments and usage.\<close>

definition event_frame :: "response_event \<Rightarrow> response_event" where
  "event_frame e = e\<lparr>rv_text := [], rv_tool_arguments := [], rv_usage := None, rv_artifacts := []\<rparr>"

definition undeclared_event_change :: "response_effect transform_definition \<Rightarrow> response_event \<Rightarrow> response_event \<Rightarrow> bool" where
  "undeclared_event_change d old upd \<longleftrightarrow>
     (let text_effect = (if rv_kind old = event_thinking_delta then ResponseEffectThinking else ResponseEffectText)
      in rv_text upd \<noteq> rv_text old \<and>
           (rv_kind old \<noteq> event_text_delta \<and> rv_kind old \<noteq> event_thinking_delta \<or> \<not> has_effect d text_effect) \<or>
         rv_tool_arguments upd \<noteq> rv_tool_arguments old \<and>
           (rv_kind old \<noteq> event_tool_call_delta \<or> \<not> has_effect d ResponseEffectToolArguments) \<or>
         rv_usage upd \<noteq> rv_usage old \<and>
           (rv_kind old \<noteq> event_usage \<and> rv_kind old \<noteq> event_complete \<or> \<not> has_effect d ResponseEffectUsage))"

definition judge_response ::
  "(response_event \<Rightarrow> int option) \<Rightarrow> transform_clock \<Rightarrow> response_effect transform_definition \<Rightarrow>
   (transform_failure_reason \<Rightarrow> exec_error \<Rightarrow> response_event transform_verdict) \<Rightarrow> response_event \<Rightarrow> response_event \<Rightarrow>
   response_event transform_verdict" where
  "judge_response enc k d skip old upd =
     (if event_frame upd \<noteq> event_frame old
      then TransformFails (unsafe_change ''changed immutable event identity or opaque data'')
      else if rv_artifacts upd \<noteq> rv_artifacts old
      then TransformFails (unsafe_change ''changed immutable artifact references'')
      else if \<not> within_output enc (effective_transform_bounds (td_bounds d)) upd
      then skip TransformFailureBudget (ErrOther ''output exceeds declared resource bounds'')
      else if undeclared_event_change d old upd
      then skip TransformFailureEffect (ErrOther ''changed undeclared event content'')
      else case tk_end k of Some e \<Rightarrow> TransformFails (ErrContext e) | None \<Rightarrow> TransformKeeps upd)"

type_synonym response_registry = "(ext_ref, (response_effect, response_event) transform_impl) gomap"

definition apply_response_transforms ::
  "(response_event \<Rightarrow> int option) \<Rightarrow> response_registry \<Rightarrow> (nat \<Rightarrow> transform_clock) \<Rightarrow> string option \<Rightarrow>
   transform_binding list \<Rightarrow> transform_scope list \<Rightarrow> response_event \<Rightarrow>
   exec_error + response_event \<times> transform_failure list" where
  "apply_response_transforms enc reg clock ctx_end bindings scopes e =
     (case run_transforms (gm_get reg) clock (\<lambda>k. run_transform enc True (judge_response enc k) k) 0
             (ordered_bindings bindings scopes response_transform_kind) e [] of
        Inl err \<Rightarrow> Inl err
      | Inr r \<Rightarrow> (case ctx_end of Some m \<Rightarrow> Inl (ErrContext m) | None \<Rightarrow> Inr r))"

section \<open>What the loop keeps\<close>

lemma first_check_None: "first_check cs = None \<longleftrightarrow> (\<forall>c \<in> set cs. \<not> fst c)"
  by (auto simp: first_check_def find_None_iff)

lemma skip_or_not_kept [simp]: "skip_or d b k response reason err \<noteq> TransformKeeps w"
  by (simp add: skip_or_def)

lemma run_transform_kept:
  assumes "run_transform enc response judge k b impl v = TransformKeeps w"
  shows "\<exists>u. ti_apply impl (tb_options b) v = Inr u \<and>
           judge (ti_definition impl) (skip_or (ti_definition impl) b k response) v u = TransformKeeps w"
  using assms by (auto simp: run_transform_def Let_def split: option.splits sum.splits if_splits)

lemma skip_or_skips:
  "skip_or d b k response reason err = TransformSkips reason' \<Longrightarrow>
   effective_failure_mode (tb_failure_mode b) = TransformSafeFailOpen \<and>
   TransformSafeFailOpen \<in> set (td_failure_modes d)"
  by (auto simp: skip_or_def fail_open_transform_def split: if_splits)

text \<open>A relation that holds of what every run keeps holds of the whole loop.\<close>

lemma run_transforms_related:
  assumes refl: "\<And>v. R v v" and trans: "\<And>u v w. R u v \<Longrightarrow> R v w \<Longrightarrow> R u w"
    and kept: "\<And>b impl k v w. b \<in> set bs \<Longrightarrow> reg (tb_ref b) = Some impl \<Longrightarrow>
                 run k b impl v = TransformKeeps w \<Longrightarrow> R v w"
    and "run_transforms reg clock run i bs v fs = Inr (w, gs)"
  shows "R v w"
  using assms(3,4)
proof (induction bs arbitrary: i v fs)
  case Nil
  then show ?case by (simp add: refl)
next
  case (Cons b bs)
  then show ?case
    by (fastforce split: option.splits transform_verdict.splits intro: trans)
qed

lemma run_transforms_failures:
  assumes skips: "\<And>b impl k v r. b \<in> set bs \<Longrightarrow> reg (tb_ref b) = Some impl \<Longrightarrow>
                    run k b impl v = TransformSkips r \<Longrightarrow> P b"
    and "run_transforms reg clock run i bs v fs = Inr (w, gs)"
  shows "\<forall>g \<in> set gs. g \<in> set fs \<or> (\<exists>b \<in> set bs. P b \<and> tf_binding_id g = tb_id b)"
  using assms
proof (induction bs arbitrary: i v fs)
  case Nil
  then show ?case by simp
next
  case (Cons b bs)
  from Cons.prems(2) obtain impl where impl: "reg (tb_ref b) = Some impl"
    by (auto split: option.splits)
  show ?case
  proof (cases "run (clock i) b impl v")
    case (TransformSkips r)
    then have "run_transforms reg clock run (Suc i) bs v (fs @ [mk_transform_failure b (td_ref (ti_definition impl)) r]) =
        Inr (w, gs)" and "P b"
      using Cons.prems impl by (auto split: option.splits)
    from Cons.IH [OF _ this(1)] \<open>P b\<close> Cons.prems(1) show ?thesis
      by (fastforce simp: mk_transform_failure_def)
  next
    case (TransformKeeps u)
    then have "run_transforms reg clock run (Suc i) bs u fs = Inr (w, gs)"
      using Cons.prems impl by (auto split: option.splits)
    from Cons.IH [OF _ this] Cons.prems(1) show ?thesis by fastforce
  next
    case (TransformFails e)
    then show ?thesis using Cons.prems impl by (auto split: option.splits)
  qed
qed

section \<open>What a request transform may change\<close>

text \<open>The parts of a message that only its tool-call arguments leave out.\<close>

definition message_frame :: "message \<Rightarrow> message" where
  "message_frame m = m\<lparr>msg_tool_calls := map (\<lambda>c. c\<lparr>call_arguments := []\<rparr>) (msg_tool_calls m)\<rparr>"

text \<open>A request with everything blanked that the granted effects may change, and the marks of changes.\<close>

definition masked_messages :: "(request_effect \<Rightarrow> bool) \<Rightarrow> message list \<Rightarrow> message list" where
  "masked_messages granted ms =
     (if granted TransformInput then [] else if granted TransformTools then map message_frame ms else ms)"

definition masked :: "(request_effect \<Rightarrow> bool) \<Rightarrow> request \<Rightarrow> request" where
  "masked granted q =
     q\<lparr>rq_mutations := no_mutations,
       rq_prompt := (if granted TransformPrompt then map (\<lambda>l. l\<lparr>pl_text := [], pl_parts := []\<rparr>) (rq_prompt q)
                     else rq_prompt q),
       rq_tools := (if granted TransformTools then [] else rq_tools q),
       rq_tool_choice := (if granted TransformTools
         then (rq_tool_choice zero_request)\<lparr>choice_metadata := choice_metadata (rq_tool_choice q)\<rparr>
         else rq_tool_choice q),
       rq_generation := (if granted TransformOptions
         then empty_generation\<lparr>gn_unsupported := gn_unsupported (rq_generation q)\<rparr> else rq_generation q),
       rq_thinking := (if granted TransformThinking
         then (rq_thinking zero_request)\<lparr>th_source := th_source (rq_thinking q)\<rparr> else rq_thinking q),
       rq_continuity := (if granted TransformContinuity
         then (rq_continuity zero_request)\<lparr>cn_encrypted_content := cn_encrypted_content (rq_continuity q)\<rparr>
         else rq_continuity q),
       rq_payload := (if granted TransformInput then [] else rq_payload q),
       rq_modalities := (if granted TransformInput then rq_modalities zero_request else rq_modalities q),
       rq_requirements := (if granted TransformInput then [] else rq_requirements q),
       rq_messages := masked_messages granted (rq_messages q)\<rparr>"

lemma message_frame_idem [simp]: "message_frame (message_frame m) = message_frame m"
  by (simp add: message_frame_def comp_def)

lemma masked_messages_masked:
  "(\<And>x. G x \<Longrightarrow> H x) \<Longrightarrow> masked_messages H (masked_messages G ms) = masked_messages H ms"
  by (auto simp: masked_messages_def comp_def)

lemma masked_masked:
  assumes "\<And>x. G x \<Longrightarrow> H x" shows "masked H (masked G q) = masked H q"
proof -
  have imp: "\<not> H x \<Longrightarrow> \<not> G x" for x using assms by blast
  show ?thesis by (rule request.equality; simp add: masked_def masked_messages_masked assms imp comp_def)
qed

lemma masked_mono:
  "masked G a = masked G b \<Longrightarrow> (\<And>x. G x \<Longrightarrow> H x) \<Longrightarrow> masked H a = masked H b"
  by (metis masked_masked)

lemma call_checks_equal:
  assumes "\<forall>c \<in> set (call_checks d (l, r)). \<not> fst c"
  shows "r\<lparr>call_arguments := []\<rparr> = l\<lparr>call_arguments := []\<rparr>" and "\<not> has_effect d TransformTools \<Longrightarrow> r = l"
proof -
  show f: "r\<lparr>call_arguments := []\<rparr> = l\<lparr>call_arguments := []\<rparr>"
    using assms by (simp add: call_checks_def call_identity_equal_def)
  assume "\<not> has_effect d TransformTools"
  with assms have "call_arguments r = call_arguments l" by (simp add: call_checks_def)
  with f show "r = l" by (cases l; cases r) simp
qed

lemma calls_equal:
  assumes "length ls = length rs"
    and "\<forall>p \<in> set (zip ls rs). \<forall>c \<in> set (call_checks d p). \<not> fst c"
  shows "map (\<lambda>c. c\<lparr>call_arguments := []\<rparr>) rs = map (\<lambda>c. c\<lparr>call_arguments := []\<rparr>) ls"
    and "\<not> has_effect d TransformTools \<Longrightarrow> rs = ls"
  using assms
proof (induction ls rs rule: list_induct2)
  case (Cons l ls r rs)
  {
    case 1
    then show ?case using Cons.IH(1) call_checks_equal(1) [of d l r] by simp
  next
    case 2
    then show ?case using Cons.IH(2) call_checks_equal(2) [of d l r] by simp
  }
qed simp_all

lemma message_checks_equal:
  assumes "\<forall>c \<in> set (message_checks d (l, r)). \<not> fst c" and "\<not> has_effect d TransformInput"
  shows "message_frame r = message_frame l" and "\<not> has_effect d TransformTools \<Longrightarrow> r = l"
proof -
  have flat: "msg_role r = msg_role l" "msg_name r = msg_name l" "msg_tool_call_id r = msg_tool_call_id l"
    "msg_metadata r = msg_metadata l" "msg_content r = msg_content l"
    "length (msg_tool_calls l) = length (msg_tool_calls r)"
    using assms by (simp_all add: message_checks_def)
  have calls: "\<forall>p \<in> set (zip (msg_tool_calls l) (msg_tool_calls r)). \<forall>c \<in> set (call_checks d p). \<not> fst c"
    using assms by (simp add: message_checks_def ball_Un)
  show "message_frame r = message_frame l"
    using flat calls_equal(1) [OF flat(6) calls] by (simp add: message_frame_def)
  assume "\<not> has_effect d TransformTools"
  then have "msg_tool_calls r = msg_tool_calls l" by (rule calls_equal(2) [OF flat(6) calls])
  with flat show "r = l" by simp
qed

lemma messages_masked:
  assumes "\<forall>p \<in> set (zip ls rs). \<forall>c \<in> set (message_checks d p). \<not> fst c"
    and "length ls = length rs \<or> has_effect d TransformInput"
  shows "masked_messages (has_effect d) ls = masked_messages (has_effect d) rs"
proof (cases "has_effect d TransformInput")
  case False
  then have "length ls = length rs" using assms(2) by blast
  then have "map message_frame rs = map message_frame ls \<and> (\<not> has_effect d TransformTools \<longrightarrow> rs = ls)"
    using assms(1)
    by (induction ls rs rule: list_induct2) (simp_all add: message_checks_equal [OF _ False])
  then show ?thesis using False by (simp add: masked_messages_def)
qed (simp add: masked_messages_def)

lemma effect_checks_pass:
  assumes "validate_request_effects d q u = None"
  shows "rq_prompt q = rq_prompt u \<or> has_effect d TransformPrompt"
    and "rq_tools q = rq_tools u \<or> has_effect d TransformTools"
    and "rq_tool_choice q = rq_tool_choice u \<or> has_effect d TransformTools"
    and "rq_generation q = rq_generation u \<or> has_effect d TransformOptions"
    and "rq_thinking q = rq_thinking u \<or> has_effect d TransformThinking"
    and "rq_continuity q = rq_continuity u \<or> has_effect d TransformContinuity"
    and "rq_requirements q = rq_requirements u \<or> has_effect d TransformInput"
    and "length (rq_messages q) = length (rq_messages u) \<or> has_effect d TransformInput"
    and "rq_modalities q = rq_modalities u \<and> rq_payload q = rq_payload u \<or> has_effect d TransformInput"
    and "prompt_identity_equal (rq_prompt q) (rq_prompt u)"
    and "rq_artifacts q = rq_artifacts u"
    and "rq_facts q = rq_facts u"
    and "rq_unsupported_facets q = rq_unsupported_facets u"
    and "rq_extensions q = rq_extensions u"
    and "rq_raw q = rq_raw u"
    and "choice_metadata (rq_tool_choice q) = choice_metadata (rq_tool_choice u)"
    and "gn_unsupported (rq_generation q) = gn_unsupported (rq_generation u)"
    and "th_source (rq_thinking q) = th_source (rq_thinking u)"
    and "sx_provider_state (rq_session q) = sx_provider_state (rq_session u)"
    and "cn_encrypted_content (rq_continuity q) = cn_encrypted_content (rq_continuity u)"
    and "\<forall>p \<in> set (zip (rq_messages q) (rq_messages u)). \<forall>c \<in> set (message_checks d p). \<not> fst c"
proof -
  note f = assms [unfolded validate_request_effects_def first_check_None effect_checks_def Let_def,
    simplified ball_Un, simplified]
  show "rq_prompt q = rq_prompt u \<or> has_effect d TransformPrompt" using f by (elim conjE) assumption
  show "rq_tools q = rq_tools u \<or> has_effect d TransformTools" using f by (elim conjE) assumption
  show "rq_tool_choice q = rq_tool_choice u \<or> has_effect d TransformTools" using f by (elim conjE) assumption
  show "rq_generation q = rq_generation u \<or> has_effect d TransformOptions" using f by (elim conjE) assumption
  show "rq_thinking q = rq_thinking u \<or> has_effect d TransformThinking" using f by (elim conjE) assumption
  show "rq_continuity q = rq_continuity u \<or> has_effect d TransformContinuity" using f by (elim conjE) assumption
  show "rq_requirements q = rq_requirements u \<or> has_effect d TransformInput" using f by (elim conjE) assumption
  show "length (rq_messages q) = length (rq_messages u) \<or> has_effect d TransformInput" using f by (elim conjE) assumption
  show "rq_modalities q = rq_modalities u \<and> rq_payload q = rq_payload u \<or> has_effect d TransformInput" using f by (elim conjE) assumption
  show "prompt_identity_equal (rq_prompt q) (rq_prompt u)" using f by (elim conjE) assumption
  show "rq_artifacts q = rq_artifacts u" using f by (elim conjE) assumption
  show "rq_facts q = rq_facts u" using f by (elim conjE) assumption
  show "rq_unsupported_facets q = rq_unsupported_facets u" using f by (elim conjE) assumption
  show "rq_extensions q = rq_extensions u" using f by (elim conjE) assumption
  show "rq_raw q = rq_raw u" using f by (elim conjE) assumption
  show "choice_metadata (rq_tool_choice q) = choice_metadata (rq_tool_choice u)" using f by (elim conjE) assumption
  show "gn_unsupported (rq_generation q) = gn_unsupported (rq_generation u)" using f by (elim conjE) assumption
  show "th_source (rq_thinking q) = th_source (rq_thinking u)" using f by (elim conjE) assumption
  show "sx_provider_state (rq_session q) = sx_provider_state (rq_session u)" using f by (elim conjE) assumption
  show "cn_encrypted_content (rq_continuity q) = cn_encrypted_content (rq_continuity u)" using f by (elim conjE) assumption
  have "\<forall>c \<in> (\<Union>a \<in> set (zip (rq_messages q) (rq_messages u)). set (message_checks d a)) \<union>
      (\<Union>a \<in> set (drop (length (rq_messages q)) (rq_messages u)). set (added_message_checks a)). \<not> fst c"
    using f by (elim conjE) assumption
  then show "\<forall>p \<in> set (zip (rq_messages q) (rq_messages u)). \<forall>c \<in> set (message_checks d p). \<not> fst c" by blast
qed

lemma effect_checks_same:
  assumes "validate_request_effects d q u = None"
  shows "\<not> has_effect d TransformPrompt \<Longrightarrow> rq_prompt q = rq_prompt u"
    and "\<not> has_effect d TransformTools \<Longrightarrow> rq_tools q = rq_tools u"
    and "\<not> has_effect d TransformTools \<Longrightarrow> rq_tool_choice q = rq_tool_choice u"
    and "\<not> has_effect d TransformOptions \<Longrightarrow> rq_generation q = rq_generation u"
    and "\<not> has_effect d TransformThinking \<Longrightarrow> rq_thinking q = rq_thinking u"
    and "\<not> has_effect d TransformContinuity \<Longrightarrow> rq_continuity q = rq_continuity u"
    and "\<not> has_effect d TransformInput \<Longrightarrow> rq_requirements q = rq_requirements u"
    and "\<not> has_effect d TransformInput \<Longrightarrow> rq_modalities q = rq_modalities u"
    and "\<not> has_effect d TransformInput \<Longrightarrow> rq_payload q = rq_payload u"
  by (use effect_checks_pass(1) [OF assms] in blast, use effect_checks_pass(2) [OF assms] in blast,
      use effect_checks_pass(3) [OF assms] in blast, use effect_checks_pass(4) [OF assms] in blast,
      use effect_checks_pass(5) [OF assms] in blast, use effect_checks_pass(6) [OF assms] in blast,
      use effect_checks_pass(7) [OF assms] in blast, use effect_checks_pass(9) [OF assms] in blast,
      use effect_checks_pass(9) [OF assms] in blast)

lemma prompt_identity_masked:
  "prompt_identity_equal ls rs \<Longrightarrow>
   map (\<lambda>l. l\<lparr>pl_text := [], pl_parts := []\<rparr>) ls = map (\<lambda>l. l\<lparr>pl_text := [], pl_parts := []\<rparr>) rs"
  unfolding prompt_identity_equal_def by (induction ls rs rule: list_all2_induct) simp_all

lemma masked_marks [simp]: "masked G (u\<lparr>rq_mutations := m\<rparr>) = masked G u"
  by (simp add: masked_def)

lemma judged_masked:
  assumes "judge_request enc d (skip_or d b k False) q u = TransformKeeps w"
  shows "masked (has_effect d) w = masked (has_effect d) q"
proof -
  have ident: "\<not> request_identity_changed q u" and pass: "validate_request_effects d q u = None"
    and w: "w = u\<lparr>rq_mutations := merge_mutations (rq_mutations q) (mutation_delta q u)\<rparr>"
    using assms by (auto simp: judge_request_def Let_def split: if_splits option.splits)
  note p = effect_checks_pass [OF pass]
  have session: "rq_session q = rq_session u"
    using ident p(19) by (intro session_context.equality) (simp_all add: request_identity_changed_def)
  have masked: "masked (has_effect d) q = masked (has_effect d) u"
    by (rule request.equality)
      (use ident in \<open>simp_all add: masked_def request_identity_changed_def session p(11-18,20)
         effect_checks_same [OF pass] prompt_identity_masked [OF p(10)] messages_masked [OF p(21) p(8)]\<close>)
  show ?thesis by (simp add: w masked)
qed

section \<open>Applying request transforms\<close>

text \<open>Some active binding's transform declares the effect.\<close>

definition granted_effect ::
  "(ext_ref, ('e, 'v) transform_impl) gomap \<Rightarrow> transform_binding list \<Rightarrow> 'e \<Rightarrow> bool" where
  "granted_effect reg selected x \<longleftrightarrow>
     list_ex (\<lambda>b. case gm_get reg (tb_ref b) of None \<Rightarrow> False | Some impl \<Rightarrow> has_effect (ti_definition impl) x) selected"

text \<open>A transform may be skipped only in safe fail-open mode, when its definition allows that.\<close>

definition skippable :: "(ext_ref, ('e, 'v) transform_impl) gomap \<Rightarrow> transform_binding \<Rightarrow> bool" where
  "skippable reg b \<longleftrightarrow>
     effective_failure_mode (tb_failure_mode b) = TransformSafeFailOpen \<and>
     (case gm_get reg (tb_ref b) of
        None \<Rightarrow> False | Some impl \<Rightarrow> TransformSafeFailOpen \<in> set (td_failure_modes (ti_definition impl)))"

definition marks_sub :: "mutation_set \<Rightarrow> mutation_set \<Rightarrow> bool" where
  "marks_sub a b \<longleftrightarrow> merge_mutations a b = b"

definition marks_complete :: "request \<Rightarrow> request \<Rightarrow> bool" where
  "marks_complete q q' \<longleftrightarrow>
     marks_sub (rq_mutations q) (rq_mutations q') \<and> marks_sub (mutation_delta q q') (rq_mutations q')"

lemma marks_sub_iff:
  "marks_sub a b \<longleftrightarrow>
     (mu_prompt a \<longrightarrow> mu_prompt b) \<and> (mu_messages a \<longrightarrow> mu_messages b) \<and> (mu_payload a \<longrightarrow> mu_payload b) \<and>
     (mu_modalities a \<longrightarrow> mu_modalities b) \<and> (mu_requirements a \<longrightarrow> mu_requirements b) \<and>
     (mu_tools a \<longrightarrow> mu_tools b) \<and> (mu_tool_calls a \<longrightarrow> mu_tool_calls b) \<and>
     (mu_tool_choice a \<longrightarrow> mu_tool_choice b) \<and> (mu_max_output a \<longrightarrow> mu_max_output b) \<and>
     (mu_temperature a \<longrightarrow> mu_temperature b) \<and> (mu_top_p a \<longrightarrow> mu_top_p b) \<and>
     (mu_stop_sequences a \<longrightarrow> mu_stop_sequences b) \<and> (mu_thinking a \<longrightarrow> mu_thinking b) \<and>
     (mu_continuity a \<longrightarrow> mu_continuity b)"
proof -
  have absorb: "((p \<or> q) = q) \<longleftrightarrow> (p \<longrightarrow> q)" for p q by blast
  show ?thesis by (cases b) (simp add: marks_sub_def merge_mutations_def absorb)
qed

lemma marks_sub_refl: "marks_sub a a"
  by (simp add: marks_sub_iff)

lemma marks_sub_trans: "marks_sub a b \<Longrightarrow> marks_sub b c \<Longrightarrow> marks_sub a c"
  by (simp add: marks_sub_iff)

lemma marks_sub_merge: "marks_sub a c \<Longrightarrow> marks_sub b c \<Longrightarrow> marks_sub (merge_mutations a b) c"
  by (simp add: marks_sub_iff merge_mutations_def)

lemma marks_sub_merged: "marks_sub a (merge_mutations a b)" "marks_sub b (merge_mutations a b)"
  by (simp_all add: marks_sub_iff merge_mutations_def)

lemma mutation_delta_trans: "marks_sub (mutation_delta a c) (merge_mutations (mutation_delta a b) (mutation_delta b c))"
proof -
  have triangle: "x \<noteq> z \<longrightarrow> x \<noteq> y \<or> y \<noteq> z" for x y z :: 'a by blast
  show ?thesis
    unfolding marks_sub_iff merge_mutations_def mutation_delta_def Let_def mutation_set.select_convs
    by (intro conjI) (rule triangle)+
qed

lemma mutation_delta_refl: "marks_sub (mutation_delta q q) m"
  by (simp add: marks_sub_iff mutation_delta_def Let_def)

lemma marks_complete_refl: "marks_complete q q"
  by (simp add: marks_complete_def marks_sub_refl mutation_delta_refl)

lemma marks_complete_trans: "marks_complete a b \<Longrightarrow> marks_complete b c \<Longrightarrow> marks_complete a c"
  unfolding marks_complete_def
  by (meson marks_sub_merge marks_sub_trans mutation_delta_trans)

lemma judged_marks:
  assumes "judge_request enc d (skip_or d b k False) q u = TransformKeeps w"
  shows "marks_complete q w"
proof -
  have "w = u\<lparr>rq_mutations := merge_mutations (rq_mutations q) (mutation_delta q u)\<rparr>"
    using assms by (auto simp: judge_request_def Let_def split: if_splits option.splits)
  moreover have "mutation_delta q (u\<lparr>rq_mutations := m\<rparr>) = mutation_delta q u" for m
    by (simp add: mutation_delta_def)
  ultimately show ?thesis by (simp add: marks_complete_def marks_sub_merged)
qed

lemma apply_request_transformsE:
  assumes "apply_request_transforms enc reg clock ctx_end bs scopes q = Inr (q', fs)"
  shows "run_transforms (gm_get reg) clock (run_transform enc False (judge_request enc)) 0
           (ordered_bindings bs scopes request_transform_kind) q [] = Inr (q', fs)"
  using assms by (auto simp: apply_request_transforms_def Let_def split: if_splits sum.splits option.splits)

lemma granted_effectI:
  "b \<in> set selected \<Longrightarrow> gm_get reg (tb_ref b) = Some impl \<Longrightarrow> has_effect (ti_definition impl) x \<Longrightarrow>
   granted_effect reg selected x"
  unfolding granted_effect_def list_ex_iff by (rule bexI [of _ b]) simp_all

lemma run_transform_skipped:
  fixes v :: 'v
  assumes "run_transform enc response judge k b impl v = TransformSkips r"
    and "\<And>u. judge (ti_definition impl) (skip_or (ti_definition impl) b k response) v u = TransformSkips r \<Longrightarrow>
           \<exists>reason err. skip_or (ti_definition impl) b k response reason err = (TransformSkips r :: 'v transform_verdict)"
  shows "effective_failure_mode (tb_failure_mode b) = TransformSafeFailOpen \<and>
         TransformSafeFailOpen \<in> set (td_failure_modes (ti_definition impl))"
proof -
  have "\<exists>reason err. skip_or (ti_definition impl) b k response reason err = (TransformSkips r :: 'v transform_verdict)"
    using assms unfolding run_transform_def Let_def
    by (auto split: option.splits sum.splits if_splits)
  then show ?thesis using skip_or_skips by blast
qed


definition calm_clock :: transform_clock where
  "calm_clock = \<lparr>tk_before = None, tk_after = None, tk_deadline = False,
     tk_judged = \<lparr>tc_err = None, tc_output_started = False\<rparr>, tk_end = None\<rparr>"

definition zero_bounds :: resource_bounds where
  "zero_bounds = \<lparr>rb_max_input = 0, rb_max_output = 0, rb_max_buffered = 0, rb_deadline_millis = 0\<rparr>"

text \<open>A transform that drops the tools of a request.\<close>

definition example_registry :: request_registry where
  "example_registry =
     [(mk_ref request_transform_kind ''t'' 1,
       \<lparr>ti_definition = \<lparr>td_ref = mk_ref request_transform_kind ''t'' 1, td_stage = ''request'',
          td_bounds = zero_bounds, td_failure_modes = [], td_effects = [TransformTools]\<rparr>,
        ti_apply = (\<lambda>opts q. Inr (q\<lparr>rq_tools := []\<rparr>))\<rparr>)]"

definition example_tools_request :: request where
  "example_tools_request =
     zero_request\<lparr>rq_model := ''m'',
       rq_tools := [\<lparr>tool_type = ''function'', tool_name = ''f'', tool_function = ''{}'', tool_metadata = None\<rparr>]\<rparr>"


section \<open>Applying response transforms\<close>

lemma judge_response_kept:
  assumes "judge_response enc k d (skip_or d b k' True) e u = TransformKeeps w"
  shows "w = u" and "event_frame u = event_frame e" and "rv_artifacts u = rv_artifacts e"
    and "\<not> undeclared_event_change d e u"
  using assms by (auto simp: judge_response_def split: if_splits option.splits)

lemma event_frame_kind: "event_frame a = event_frame b \<Longrightarrow> rv_kind a = rv_kind b"
  by (drule arg_cong [of _ _ rv_kind]) (simp add: event_frame_def)

definition event_change_granted :: "(response_effect \<Rightarrow> bool) \<Rightarrow> response_event \<Rightarrow> response_event \<Rightarrow> bool" where
  "event_change_granted granted e u \<longleftrightarrow>
     (rv_text u = rv_text e \<or> rv_kind e = event_text_delta \<and> granted ResponseEffectText \<or>
      rv_kind e = event_thinking_delta \<and> granted ResponseEffectThinking) \<and>
     (rv_tool_arguments u = rv_tool_arguments e \<or>
      rv_kind e = event_tool_call_delta \<and> granted ResponseEffectToolArguments) \<and>
     (rv_usage u = rv_usage e \<or> rv_kind e \<in> {event_usage, event_complete} \<and> granted ResponseEffectUsage)"

lemma declared_change_granted:
  "\<not> undeclared_event_change d e u \<Longrightarrow> (\<And>x. has_effect d x \<Longrightarrow> G x) \<Longrightarrow> event_change_granted G e u"
  by (auto simp: undeclared_event_change_def event_change_granted_def Let_def split: if_splits)

text \<open>
  C36. An event that comes out of its transforms has the identity, routing and opaque data and the artifacts of
  the one that went in; its text, tool arguments and usage changed only in an event of the kind they belong
  to and when an active transform declared it, and only transforms in safe fail-open mode were skipped.
\<close>

theorem response_transforms_declared:
  assumes "apply_response_transforms enc reg clock ctx_end bs scopes e = Inr (e', fs)"
  shows "event_frame e' = event_frame e \<and> rv_artifacts e' = rv_artifacts e \<and>
         event_change_granted (granted_effect reg (ordered_bindings bs scopes response_transform_kind)) e e' \<and>
         (\<forall>f \<in> set fs. \<exists>b \<in> set (ordered_bindings bs scopes response_transform_kind).
            tf_binding_id f = tb_id b \<and> skippable reg b)"
proof -
  let ?bs = "ordered_bindings bs scopes response_transform_kind"
  let ?G = "granted_effect reg ?bs"
  let ?R = "\<lambda>a b. event_frame b = event_frame a \<and> rv_artifacts b = rv_artifacts a \<and> event_change_granted ?G a b"
  let ?run = "\<lambda>k. run_transform enc True (judge_response enc k) k"
  have run: "run_transforms (gm_get reg) clock ?run 0 ?bs e [] = Inr (e', fs)"
    using assms by (auto simp: apply_response_transforms_def split: sum.splits option.splits)
  have "?R e e'"
  proof (rule run_transforms_related [where R = ?R, OF _ _ _ run])
    fix b impl k v w
    assume b: "b \<in> set ?bs" "gm_get reg (tb_ref b) = Some impl" and "?run k b impl v = TransformKeeps w"
    from run_transform_kept [OF this(3)] obtain u
      where "judge_response enc k (ti_definition impl) (skip_or (ti_definition impl) b k True) v u = TransformKeeps w"
      by blast
    note u = judge_response_kept [OF this]
    from u show "?R v w" by (simp add: declared_change_granted granted_effectI [OF b])
  next
    fix a b c
    assume "?R a b" and "?R b c"
    then show "?R a c" using event_frame_kind [of b a] by (auto simp: event_change_granted_def)
  qed (simp add: event_change_granted_def)
  moreover have "\<forall>f \<in> set fs. f \<in> set [] \<or> (\<exists>b \<in> set ?bs. skippable reg b \<and> tf_binding_id f = tb_id b)"
  proof (rule run_transforms_failures [OF _ run])
    fix b impl k v r
    assume b: "b \<in> set ?bs" "gm_get reg (tb_ref b) = Some impl" and skipped: "?run k b impl v = TransformSkips r"
    have "effective_failure_mode (tb_failure_mode b) = TransformSafeFailOpen \<and>
          TransformSafeFailOpen \<in> set (td_failure_modes (ti_definition impl))"
      by (rule run_transform_skipped [OF skipped])
        (auto simp: judge_response_def Let_def split: if_splits option.splits)
    with b show "skippable reg b" by (simp add: skippable_def)
  qed
  ultimately show ?thesis by auto
qed

lemma response_transforms_declared_witness:
  "case apply_response_transforms (\<lambda>e. Some 1)
          [(mk_ref response_transform_kind ''t'' 1,
            \<lparr>ti_definition = \<lparr>td_ref = mk_ref response_transform_kind ''t'' 1, td_stage = [], td_bounds = zero_bounds,
               td_failure_modes = [], td_effects = [ResponseEffectText]\<rparr>,
             ti_apply = (\<lambda>opts e. Inr (e\<lparr>rv_text := ''x''\<rparr>))\<rparr>)]
          (\<lambda>i. calm_clock) None
          [\<lparr>tb_id = ''b'', tb_ref = mk_ref response_transform_kind ''t'' 1, tb_enabled = True,
            tb_scope = \<lparr>ts_kind = TransformScopeDaemon, ts_id = []\<rparr>, tb_order = 0,
            tb_failure_mode = TransformModeUnset, tb_options = []\<rparr>]
          [\<lparr>ts_kind = TransformScopeDaemon, ts_id = []\<rparr>]
          (zero_event\<lparr>rv_kind := event_text_delta, rv_text := ''y''\<rparr>) of
     Inl e \<Rightarrow> False
   | Inr (e', fs) \<Rightarrow> rv_text e' = ''x'' \<and> rv_artifacts e' = []"
  (is "case ?r of Inl e \<Rightarrow> False | Inr (e', fs) \<Rightarrow> rv_text e' = ''x'' \<and> rv_artifacts e' = []")
proof -
  have "case ?r of Inl e \<Rightarrow> False | Inr (q', fs) \<Rightarrow> rv_text q' = ''x''" by code_simp
  then obtain q' fs where r: "?r = Inr (q', fs)" and t: "rv_text q' = ''x''"
    by (cases ?r) auto
  from response_transforms_declared [OF r] t show ?thesis unfolding r by (simp add: zero_event_def)
qed

end
