(* ===== verification/Dispatch.thy ===== *)
theory Dispatch
  imports Rendering Scheduler Profiles
begin

text \<open>
  One admitted candidate of an execution (\<open>internal/kernel/kernel.go\<close>, the part of \<open>executeNode\<close> from the
  label \<open>retryUpstream\<close> on, with the helpers at the end of the file): preparing a request, dispatching it under
  the lease of its credential, judging a refusal, repeating a request under its idempotency key or with a
  refreshed credential, and rendering an accepted response.
\<close>

section \<open>Judging an upstream answer\<close>

definition infer_upstream_effect :: "int \<Rightarrow> outcome_cause \<Rightarrow> upstream_effect" where
  "infer_upstream_effect status cause =
     (if 200 \<le> status \<and> status < 300 then EffectAccepted
      else if status < 400 \<or> 500 \<le> status \<or> status = 408 \<or> status = 409 then EffectUnknown
      else if cause \<in> {CauseRequestInvalid, CauseCapability, CauseModelNotFound, CauseAuth, CausePermission,
                       CauseQuotaExhausted, CauseRateLimited}
      then EffectRejected else EffectUnknown)"

definition can_replay_after_dispatch :: "replay_safety \<Rightarrow> upstream_effect \<Rightarrow> bool" where
  "can_replay_after_dispatch safety e \<longleftrightarrow> safety = ReplayOnRejection \<and> e = EffectRejected"

definition kernel_error_class :: "exec_error option \<Rightarrow> error_class" where
  "kernel_error_class e = (case e of None \<Rightarrow> ErrorRetryable | Some _ \<Rightarrow> ErrorCooldown)"

text \<open>What an adapter and an installed classifier both can do; the second and third are optional interfaces.\<close>

record classifier =
  cl_classify :: "int \<Rightarrow> string \<Rightarrow> error_class"
  cl_outcome :: "(int \<Rightarrow> headers \<Rightarrow> string \<Rightarrow> classified_outcome) option"
  cl_response :: "(string \<Rightarrow> classified_outcome) option"

definition with_inferred_effect :: "int \<Rightarrow> classified_outcome \<Rightarrow> classified_outcome" where
  "with_inferred_effect status oc =
     (if oc_effect oc = EffectUnset then oc\<lparr>oc_effect := infer_upstream_effect status (oc_cause oc)\<rparr> else oc)"

definition status_cause :: "int \<Rightarrow> outcome_cause \<times> retry_action" where
  "status_cause status =
     (if status = 401 then (CauseAuth, RetryNever)
      else if status = 403 then (CausePermission, RetryNever)
      else if status = 429 then (CauseRateLimited, RetryAfter)
      else if 500 \<le> status then (CauseCapacity, RetryAfter)
      else if 400 \<le> status then (CauseRequestInvalid, RetryNever)
      else (CauseUnknown, RetryUnknown))"

definition classify_outcome :: "classifier \<Rightarrow> int \<Rightarrow> headers \<Rightarrow> string \<Rightarrow> error_class \<Rightarrow> classified_outcome" where
  "classify_outcome c status hs body cls =
     (case cl_outcome c of
        Some rich \<Rightarrow> with_inferred_effect status ((rich status hs body)\<lparr>oc_class := cls\<rparr>)
      | None \<Rightarrow>
          (case status_cause status of
             (cause, retry) \<Rightarrow>
               \<lparr>oc_class = cls, oc_cause = cause, oc_effect = infer_upstream_effect status cause,
                oc_scope = (if status = 401 then ScopeConnection else ScopeRoute), oc_retry = retry,
                oc_recovery = RecoveryUnset, oc_continuity = ContinuityUnset, oc_retry_at = 0,
                oc_confidence = fround (1 / 2), oc_evidence = [EvidenceErrorBody], oc_limits = [],
                oc_status_code = status, oc_message = trim_space body, oc_client_failure = no_client_failure\<rparr>))"

text \<open>The outcome of a refused request: an installed classifier overrides the adapter.\<close>

definition refused_outcome ::
  "classifier \<Rightarrow> classifier option \<Rightarrow> int \<Rightarrow> headers \<Rightarrow> string \<Rightarrow> classified_outcome" where
  "refused_outcome adapter configured status hs body =
     (let cls = cl_classify adapter status body;
          oc = classify_outcome adapter status hs body cls
      in case configured of
           None \<Rightarrow> with_inferred_effect status (oc\<lparr>oc_class := cls\<rparr>)
         | Some c \<Rightarrow>
             with_inferred_effect status
               ((case cl_outcome c of None \<Rightarrow> oc | Some rich \<Rightarrow> rich status hs body)
                \<lparr>oc_class := cl_classify c status body\<rparr>))"

section \<open>Headers and keys\<close>

definition header_get :: "string \<Rightarrow> headers \<Rightarrow> string" where
  "header_get name h = (case gm_get h (canonical_header name) of Some (v # _) \<Rightarrow> v | _ \<Rightarrow> [])"

definition all_digits :: "string \<Rightarrow> bool" where
  "all_digits s \<longleftrightarrow> s \<noteq> [] \<and> list_all (\<lambda>c. 48 \<le> char_code c \<and> char_code c \<le> 57) s"

definition decimal_value :: "string \<Rightarrow> int" where
  "decimal_value s = foldl (\<lambda>n c. 10 * n + (int (char_code c) - 48)) 0 s"

text \<open>\<open>strconv.Atoi\<close> on a 64-bit machine: an optional sign and digits, within the range of an \<open>int\<close>.\<close>

definition go_atoi :: "string \<Rightarrow> int option" where
  "go_atoi s =
     (let (negative, digits) = (case s of c # cs \<Rightarrow> if c = CHR ''-'' then (True, cs)
                                  else if c = CHR ''+'' then (False, cs) else (False, s) | [] \<Rightarrow> (False, []));
          v = (if negative then - decimal_value digits else decimal_value digits)
      in if all_digits digits \<and> min_i64 \<le> v \<and> v \<le> max_i64 then Some v else None)"

text \<open>\<open>parse_time\<close> is \<open>http.ParseTime\<close>; a Go duration is a 64-bit number of nanoseconds, and its product wraps.\<close>

definition retry_after_duration :: "(string \<Rightarrow> go_time option) \<Rightarrow> go_time \<Rightarrow> string \<Rightarrow> duration" where
  "retry_after_duration parse_time now value =
     (let v = trim_space value;
          dated = (case parse_time v of
                     None \<Rightarrow> 0
                   | Some t \<Rightarrow> if 0 < time_sub t now then time_sub t now else 0)
      in case go_atoi v of
           Some n \<Rightarrow> if 0 < n then wrap64 (n * second) else dated
         | None \<Rightarrow> dated)"

definition derive_issuer_idempotency_key :: "string \<Rightarrow> route \<Rightarrow> ext_ref \<Rightarrow> string" where
  "derive_issuer_idempotency_key client_key r operation =
     hex_encode (sha256 (concat (map (\<lambda>part. part @ nul)
       [''gobroom/idempotency/v1'', client_key, ref_key (rt_definition_ref r), rt_node_id r, rt_base_url r,
        rt_credential_id r, rt_external_model r, rt_protocol r, ref_key operation])))"

section \<open>The state of an execution\<close>

text \<open>The gate of the scheduler with the observer interfaces the kernel asks it for.\<close>

record 'g feedback =
  fb_failure :: "'g \<Rightarrow> route \<Rightarrow> error_class \<Rightarrow> exec_error \<Rightarrow> 'g"
  fb_failure_after :: "'g \<Rightarrow> route \<Rightarrow> error_class \<Rightarrow> exec_error \<Rightarrow> duration \<Rightarrow> 'g"
  fb_success :: "'g \<Rightarrow> route \<Rightarrow> 'g"

record 'g kernel_gate =
  kg_gate :: "'g gate"
  kg_observe :: "('g \<Rightarrow> route \<Rightarrow> classified_outcome \<Rightarrow> 'g) option"
  kg_feedback :: "'g feedback option"
  kg_usage :: "('g \<Rightarrow> route \<Rightarrow> usage_event \<Rightarrow> 'g) option"

definition optionally :: "('f \<Rightarrow> 'g) \<Rightarrow> 'f option \<Rightarrow> 'g \<Rightarrow> 'g" where
  "optionally apply f g = (case f of None \<Rightarrow> g | Some h \<Rightarrow> apply h)"

fun gate_effect :: "'g kernel_gate \<Rightarrow> kernel_effect \<Rightarrow> 'g \<Rightarrow> 'g" where
  "gate_effect G (FxRelease r) g = scheduler_release (kg_gate G) g r"
| "gate_effect G (FxObserve r oc) g = optionally (\<lambda>f. f g r oc) (kg_observe G) g"
| "gate_effect G (FxMarkFailure r c e) g = optionally (\<lambda>f. fb_failure f g r c e) (kg_feedback G) g"
| "gate_effect G (FxMarkFailureAfter r c e d) g = optionally (\<lambda>f. fb_failure_after f g r c e d) (kg_feedback G) g"
| "gate_effect G (FxMarkSuccess r) g = optionally (\<lambda>f. fb_success f g r) (kg_feedback G) g"
| "gate_effect G (FxObserveUsage r u) g = optionally (\<lambda>f. f g r u) (kg_usage G) g"
| "gate_effect G _ g = g"

text \<open>
  \<open>ks_sources\<close> is the map of loss sources that all nodes of an execution write to; \<open>ks_visits\<close> counts the
  candidates visited, \<open>ks_stages\<close> the times transforms ran and \<open>ks_members\<close> the members tried; they index the
  answers of the outside.
\<close>

record 'g kernel_state =
  ks_scheduler :: scheduler
  ks_gate :: 'g
  ks_sources :: "(string, string list) gomap option"
  ks_visits :: nat
  ks_stages :: nat
  ks_members :: nat
  ks_log :: "kernel_effect list"
  ks_client :: "client_call list"

definition emit :: "'g kernel_gate \<Rightarrow> kernel_effect \<Rightarrow> 'g kernel_state \<Rightarrow> 'g kernel_state" where
  "emit G x st = st\<lparr>ks_gate := gate_effect G x (ks_gate st), ks_log := ks_log st @ [x]\<rparr>"

definition emit_all :: "'g kernel_gate \<Rightarrow> kernel_effect list \<Rightarrow> 'g kernel_state \<Rightarrow> 'g kernel_state" where
  "emit_all G xs st = fold (emit G) xs st"

text \<open>Admission by the scheduler; only an admitted candidate appears among the effects.\<close>

definition acquire_candidate :: "'g kernel_gate \<Rightarrow> route \<Rightarrow> go_time \<Rightarrow> 'g kernel_state \<Rightarrow> bool \<times> 'g kernel_state" where
  "acquire_candidate G r now st =
     (case scheduler_acquire (kg_gate G) (ks_gate st) r now of
        (ok, g) \<Rightarrow> (ok, st\<lparr>ks_gate := g, ks_log := (if ok then ks_log st @ [FxAcquire r] else ks_log st)\<rparr>))"

section \<open>The answers of one attempt\<close>

record upstream_request =
  uq_method :: string
  uq_url :: string
  uq_headers :: headers
  uq_replay :: bool

record upstream_response =
  us_status :: int
  us_headers :: headers
  us_body :: string

text \<open>
  What the outside answers while one request is prepared and dispatched, in the order the code asks: the
  prepared request (or its replay), the context and the lease before dispatch with the issuer's check of it,
  whether the lease was closed meanwhile, the clocks, the identity of the attempt, the answer, the context
  after it and the clocks of what follows, the refreshed lease, and everything an accepted response does.
\<close>

record turn =
  tn_prepared :: "exec_error + upstream_request"
  tn_ctx_dispatch :: "string option"
  tn_lease_ctx :: "string option \<times> string option"
  tn_lease_now :: "go_time \<times> go_time"
  tn_lease_check :: "string option"
  tn_lease_revoked :: bool
  tn_replay_now :: go_time
  tn_dispatch_now :: go_time
  tn_attempt_id :: string
  tn_attempt_now :: go_time
  tn_answer :: "exec_error + upstream_response"
  tn_finish_now :: "go_time \<times> go_time"
  tn_cancelled :: bool
  tn_ctx :: "string option"
  tn_deadline :: bool
  tn_repeat_now :: go_time
  tn_refresh_now :: go_time
  tn_invalidate_ctx :: "session_error option"
  tn_refresh_error :: "string option"
  tn_refresh_lease :: "lease option"
  tn_refresh_same :: bool
  tn_borrow_ctx :: "string option"
  tn_borrow_now :: go_time
  tn_retry_after_now :: go_time
  tn_calls :: "render_call list"
  tn_returned :: "exec_error option"
  tn_close_error :: "exec_error option"
  tn_save :: "session_error option"
  tn_event_now :: go_time
  tn_latency_now :: go_time
  tn_success_now :: "go_time \<times> go_time"
  tn_success_cancelled :: bool
  tn_report_now :: go_time
  tn_report_ctx :: "string option"
  tn_report_deadline :: bool
  tn_end_ctx :: "string option"

text \<open>What an attempt needs of its execution, fixed for one candidate.\<close>

record 'g attempt_env =
  av_gate :: "'g kernel_gate"
  av_visit :: nat
  av_node_request :: request
  av_node_class :: string
  av_started :: go_time
  av_request :: request
  av_session_key :: string
  av_session :: session_state
  av_loaded :: bool
  av_operation :: ext_ref
  av_operation_name :: string
  av_safety :: replay_safety
  av_bounds :: resource_bounds
  av_plan :: compat_plan
  av_policy :: idempotency_policy
  av_key :: string
  av_adapter :: classifier
  av_classifier :: "classifier option"
  av_refresher :: bool
  av_outputs :: "artifact_port list"
  av_receiver :: artifact_owner
  av_projector :: bool
  av_operations :: operation_table
  av_catalog :: extension_catalog
  av_codec :: proof_codec
  av_payload :: "response_event \<Rightarrow> 64 word \<Rightarrow> string option"
  av_consume :: "64 word \<Rightarrow> string \<Rightarrow> string option"
  av_finalize :: "64 word \<Rightarrow> string + string"
  av_stored :: bool
  av_invalidate :: "(session_state \<Rightarrow> session_error + bool) option"
  av_usage :: usage_env
  av_usage_limits :: usage_limits
  av_usage_capture :: usage_capture_policy
  av_invocation :: string
  av_class :: string
  av_sink :: bool
  av_text_of :: "exec_error \<Rightarrow> string"
  av_valid_header :: "string \<Rightarrow> bool"
  av_parse_time :: "string \<Rightarrow> go_time option"

text \<open>The variables of the loop \<open>retryUpstream\<close>; the candidate's credential epoch follows the lease.\<close>

record attempt =
  at_candidate :: route
  at_lease :: "lease option"
  at_credential :: credential
  at_refreshed :: bool
  at_repeated :: bool
  at_first :: go_time
  at_replay :: bool
  at_frame :: "string \<times> string \<times> string"
  at_turn :: nat

datatype attempt_result =
    AttemptDone
  | AttemptReturns exec_error
  | AttemptContinues error_class exec_error
  | AttemptTerminal exec_error

datatype turn_result = TurnAgain attempt | TurnEnds attempt_result

section \<open>Before the dispatch\<close>

definition close_lease :: "'g kernel_gate \<Rightarrow> lease option \<Rightarrow> 'g kernel_state \<Rightarrow> 'g kernel_state" where
  "close_lease G lo st = (case lo of None \<Rightarrow> st | Some l \<Rightarrow> emit G (FxCloseLease l) st)"

definition release_candidate :: "'g attempt_env \<Rightarrow> attempt \<Rightarrow> 'g kernel_state \<Rightarrow> 'g kernel_state" where
  "release_candidate A a st =
     emit (av_gate A) (FxRelease (at_candidate a)) (close_lease (av_gate A) (at_lease a) st)"

definition suppressed_replay :: "'g attempt_env \<Rightarrow> upstream_effect \<Rightarrow> exec_error \<Rightarrow> exec_error" where
  "suppressed_replay A e cause = ErrReplaySuppressed (av_operation_name A) (av_safety A) e cause"

definition observe :: "'g attempt_env \<Rightarrow> attempt \<Rightarrow> classified_outcome \<Rightarrow> 'g kernel_state \<Rightarrow> 'g kernel_state" where
  "observe A a oc st =
     (if kg_observe (av_gate A) = None then st else emit (av_gate A) (FxObserve (at_candidate a) oc) st)"

text \<open>\<open>idempotencyKey\<close> is set, the preparation can be repeated, it was not yet, and the key is still retained.\<close>

definition permits_repeat :: "'g attempt_env \<Rightarrow> attempt \<Rightarrow> go_time \<Rightarrow> bool" where
  "permits_repeat A a now \<longleftrightarrow>
     av_key A \<noteq> [] \<and> at_replay a \<and> \<not> at_repeated a \<and>
     permits_replay (av_valid_header A) (av_policy A) (at_first a) now"

definition presented :: "'g attempt_env \<Rightarrow> upstream_request \<Rightarrow> upstream_request" where
  "presented A u =
     (if av_key A = [] then u
      else u\<lparr>uq_headers := header_set (ip_header (av_policy A)) (av_key A) (uq_headers u)\<rparr>)"

definition request_frame :: "upstream_request \<Rightarrow> string \<times> string \<times> string" where
  "request_frame u = (uq_method u, uq_url u, header_get ''Content-Type'' (uq_headers u))"

definition remember_prepared :: "'g attempt_env \<Rightarrow> upstream_request \<Rightarrow> attempt \<Rightarrow> attempt" where
  "remember_prepared A u a =
     (if av_key A \<noteq> [] \<and> \<not> at_repeated a then a\<lparr>at_replay := uq_replay u, at_frame := request_frame u\<rparr> else a)"

definition revoked_lease :: "bool \<Rightarrow> lease option \<Rightarrow> lease option" where
  "revoked_lease revoked lo = (if revoked then map_option (\<lambda>l. fst (lease_release l)) lo else lo)"

definition or_else :: "'e option \<Rightarrow> 'e option \<Rightarrow> 'e option" where
  "or_else e later = (case e of Some x \<Rightarrow> Some x | None \<Rightarrow> later)"

definition dispatch_refusal :: "'g attempt_env \<Rightarrow> turn \<Rightarrow> attempt \<Rightarrow> upstream_request \<Rightarrow> exec_error option" where
  "dispatch_refusal A T a u =
     or_else (map_option ErrContext (tn_ctx_dispatch T))
    (or_else (if at_repeated a \<and> request_frame u \<noteq> at_frame a
              then Some (suppressed_replay A EffectUnknown (ErrOther ''prepared replay changed its action'')) else None)
    (or_else (map_option ErrLease
                (lease_validate_for_dispatch (fst (tn_lease_ctx T)) (fst (tn_lease_now T)) (at_lease a)
                   (tn_lease_check T) (snd (tn_lease_ctx T)) (snd (tn_lease_now T))
                   (revoked_lease (tn_lease_revoked T) (at_lease a)) (lease_scope_for_route (at_candidate a))))
             (if at_repeated a \<and>
                 \<not> permits_replay (av_valid_header A) (av_policy A) (at_first a) (tn_replay_now T)
              then Some (suppressed_replay A EffectUnknown (ErrOther ''provider idempotency retention window expired''))
              else None)))"

section \<open>After the dispatch\<close>

definition inferred_outcome :: "error_class \<Rightarrow> outcome_cause \<Rightarrow> gofloat \<Rightarrow> string \<Rightarrow> classified_outcome" where
  "inferred_outcome cls cause confidence m =
     (success_outcome ScopeOperation)
     \<lparr>oc_class := cls, oc_cause := cause, oc_effect := EffectUnknown, oc_retry := RetryAfter,
      oc_confidence := confidence, oc_evidence := [EvidenceInferred], oc_status_code := 0, oc_message := m\<rparr>"

definition start_accounting :: "'g attempt_env \<Rightarrow> turn \<Rightarrow> attempt \<Rightarrow> usage_attempt" where
  "start_accounting A T a =
     attempt_set_compatibility (av_usage A)
       (new_usage_attempt (av_invocation A) (tn_attempt_id T) (at_candidate a) (rq_model (av_request A)) (av_class A)
          (sx_id (rq_session (av_request A))) (av_usage_limits A) (av_usage_capture A)
          (map_option (\<lambda>d. (rb_max_buffered (od_bounds d), rb_max_output (od_bounds d)))
             (gm_get (av_operations A) (av_operation A)))
          (tn_attempt_now T))
       (av_plan A)"

definition finish_accounting :: "'g attempt_env \<Rightarrow> turn \<Rightarrow> usage_attempt \<Rightarrow> 'g kernel_state \<Rightarrow> 'g kernel_state" where
  "finish_accounting A T acc st =
     emit_all (av_gate A)
       (map FxUsage
          (snd (attempt_finish (av_usage A) (fst (tn_finish_now T)) (snd (tn_finish_now T)) (tn_cancelled T) acc ''error'')))
       st"

text \<open>\<open>Execute\<close> of the adapter returned an error: nothing is known of what happened upstream.\<close>

definition answer_failed ::
  "'g attempt_env \<Rightarrow> turn \<Rightarrow> attempt \<Rightarrow> exec_error \<Rightarrow> 'g kernel_state \<Rightarrow> turn_result \<times> 'g kernel_state" where
  "answer_failed A T a e st =
     (case tn_ctx T of
        Some c \<Rightarrow>
          (TurnEnds (AttemptReturns (ErrContext c)),
           release_candidate A a
             (if tn_deadline T then observe A a (inferred_outcome ErrorCooldown CauseTimeout (Finite 1) c) st else st))
      | None \<Rightarrow>
          if permits_repeat A a (tn_repeat_now T) then (TurnAgain (a\<lparr>at_repeated := True\<rparr>), st)
          else (TurnEnds (AttemptReturns (suppressed_replay A EffectUnknown e)),
                release_candidate A a
                  (if kg_observe (av_gate A) \<noteq> None
                   then observe A a
                          (inferred_outcome (kernel_error_class (Some e)) CauseNetwork (fround (8 / 10)) (av_text_of A e)) st
                   else if kg_feedback (av_gate A) \<noteq> None
                   then emit (av_gate A) (FxMarkFailure (at_candidate a) (kernel_error_class (Some e)) e) st
                   else st)))"

definition with_credential_epoch :: "credential \<Rightarrow> route \<Rightarrow> route" where
  "with_credential_epoch c r =
     (if cd_generation c = [] then r
      else r\<lparr>rt_health_generation := (rt_health_generation r)\<lparr>gen_credential := cd_generation c\<rparr>\<rparr>)"

definition can_refresh :: "'g attempt_env \<Rightarrow> turn \<Rightarrow> attempt \<Rightarrow> classified_outcome \<Rightarrow> bool" where
  "can_refresh A T a oc \<longleftrightarrow>
     oc_effect oc \<noteq> EffectAccepted \<and>
     (can_replay_after_dispatch (av_safety A) (oc_effect oc) \<or>
      av_safety A = ReplayWithKey \<and> permits_repeat A a (tn_refresh_now T))"

definition wants_refresh :: "'g attempt_env \<Rightarrow> turn \<Rightarrow> attempt \<Rightarrow> classified_outcome \<Rightarrow> bool" where
  "wants_refresh A T a oc \<longleftrightarrow>
     oc_cause oc = CauseAuth \<and> oc_scope oc \<noteq> ScopeRequest \<and> oc_recovery oc = CredentialRecoveryRefresh \<and>
     rt_credential_recovery (at_candidate a) = CredentialRecoveryRefresh \<and> \<not> at_refreshed a \<and> av_refresher A \<and>
     can_refresh A T a oc"

text \<open>The issuer may return the lease it was given; it is then the one that is closed.\<close>

definition refreshed_attempt :: "'g attempt_env \<Rightarrow> turn \<Rightarrow> attempt \<Rightarrow> attempt option" where
  "refreshed_attempt A T a =
     (let lo = (if tn_refresh_same T then at_lease a else tn_refresh_lease T)
      in case tn_refresh_error T of
           Some e \<Rightarrow> None
         | None \<Rightarrow>
             (case lease_borrow (tn_borrow_ctx T) (tn_borrow_now T) lo (lease_scope_for_route (at_candidate a)) of
                Inl e \<Rightarrow> None
              | Inr c \<Rightarrow>
                  if cd_connection c = cd_connection (at_credential a) \<and> cd_type c = cd_type (at_credential a) \<and>
                     validate_runtime_context c = None \<and> c \<noteq> at_credential a
                  then Some (a\<lparr>at_candidate := with_credential_epoch c (at_candidate a),
                               at_lease := revoked_lease (tn_refresh_same T) lo, at_credential := c,
                               at_refreshed := True,
                               at_repeated := (at_repeated a \<or> av_safety A = ReplayWithKey \<and> av_key A \<noteq> [])\<rparr>)
                  else None))"

text \<open>A request for a continuation reset: neither a replay nor a fallback follows it.\<close>

definition answer_continuity ::
  "'g attempt_env \<Rightarrow> turn \<Rightarrow> attempt \<Rightarrow> int \<Rightarrow> classified_outcome \<Rightarrow> 'g kernel_state \<Rightarrow> attempt_result \<times> 'g kernel_state" where
  "answer_continuity A T a status oc st =
     (if \<not> valid_continuity_recovery oc EffectRejected \<or> status < 400 \<or> 500 \<le> status
      then (AttemptReturns ErrContinuityRecoveryInvalid, release_candidate A a st)
      else let st1 = (if invalidates_continuity (av_request A) (av_session A) (av_loaded A) \<and> av_invalidate A \<noteq> None
                      then emit (av_gate A) (FxInvalidate (at_candidate a) (av_session_key A) (av_session A)) st else st)
           in case invalidate_loaded_continuity (av_invalidate A) (tn_invalidate_ctx T) (av_request A) (av_session A)
                     (av_loaded A) of
                Some e \<Rightarrow> (AttemptReturns (ErrSession e), release_candidate A a st1)
              | None \<Rightarrow>
                  let oc1 = replace_message oc continuity_restart_message
                  in (AttemptReturns (with_outcome_client_failure oc1 ErrContinuityRestartRequired),
                      release_candidate A a (observe A a oc1 st1)))"

definition refusal_error :: "classified_outcome \<Rightarrow> int \<Rightarrow> string \<Rightarrow> exec_error" where
  "refusal_error oc status body = with_outcome_client_failure oc (ErrUpstreamStatus status (trim_space body))"

text \<open>The end of a refused attempt: the gate hears of it, then the replay safety decides what may follow.\<close>

definition answer_final ::
  "'g attempt_env \<Rightarrow> turn \<Rightarrow> attempt \<Rightarrow> upstream_response \<Rightarrow> string \<Rightarrow> classified_outcome \<Rightarrow> 'g kernel_state \<Rightarrow>
   attempt_result \<times> 'g kernel_state" where
  "answer_final A T a resp body oc st =
     (let G = av_gate A;
          err = refusal_error oc (us_status resp) body;
          st1 = observe A a oc st;
          st2 = (if kg_observe G = None \<and> kg_feedback G \<noteq> None
                 then emit G (FxMarkFailureAfter (at_candidate a) (oc_class oc)
                        (ErrUpstreamStatus (us_status resp) (trim_space body))
                        (retry_after_duration (av_parse_time A) (tn_retry_after_now T)
                           (header_get ''Retry-After'' (us_headers resp)))) st1
                 else st1);
          st3 = release_candidate A a st2
      in (if \<not> can_replay_after_dispatch (av_safety A) (oc_effect oc)
          then AttemptReturns (suppressed_replay A (oc_effect oc) err)
          else if oc_class oc = ErrorTerminal then AttemptTerminal err
          else AttemptContinues (oc_class oc) err, st3))"

definition answer_refused ::
  "'g attempt_env \<Rightarrow> turn \<Rightarrow> attempt \<Rightarrow> usage_attempt \<Rightarrow> upstream_response \<Rightarrow> 'g kernel_state \<Rightarrow>
   turn_result \<times> 'g kernel_state" where
  "answer_refused A T a acc resp st =
     (let G = av_gate A;
          body = take (64 * 1024) (us_body resp);
          st0 = finish_accounting A T
                  (attempt_set_evidence acc
                     \<lparr>ev_status_code = us_status resp, ev_headers = us_headers resp, ev_error_body = body\<rparr>) st;
          oc = refused_outcome (av_adapter A) (av_classifier A) (us_status resp) (us_headers resp) body
      in if oc_continuity oc \<noteq> ContinuityUnset \<and> oc_continuity oc \<noteq> ContinuityRecoveryNone
         then map_prod TurnEnds id (answer_continuity A T a (us_status resp) oc st0)
         else if permits_repeat A a (tn_repeat_now T) \<and> oc_effect oc = EffectUnknown \<and> oc_retry oc = RetryAfter
         then (TurnAgain (a\<lparr>at_repeated := True\<rparr>), st0)
         else if wants_refresh A T a oc
         then case refreshed_attempt A T a of
                Some a' \<Rightarrow> (TurnAgain a', close_lease G (at_lease a) st0)
              | None \<Rightarrow>
                  map_prod TurnEnds id
                    (answer_final A T a resp body oc
                       (if tn_refresh_same T then st0 else close_lease G (tn_refresh_lease T) st0))
         else map_prod TurnEnds id (answer_final A T a resp body oc st0))"

section \<open>Rendering an accepted response\<close>

definition response_env_of :: "'g attempt_env \<Rightarrow> attempt \<Rightarrow> response_env" where
  "response_env_of A a =
     \<lparr>re_candidate = at_candidate a, re_lease = at_lease a, re_request = av_request A, re_operation = av_operation A,
      re_outputs = av_outputs A, re_receiver = av_receiver A, re_session_key = av_session_key A,
      re_projector = av_projector A, re_operations = av_operations A, re_catalog = av_catalog A,
      re_codec = av_codec A, re_payload = av_payload A, re_consume = av_consume A, re_finalize = av_finalize A,
      re_classifier = (case av_classifier A of Some c \<Rightarrow> cl_response c | None \<Rightarrow> cl_response (av_adapter A)),
      re_invalidate = av_invalidate A, re_usage = av_usage A, re_loaded = av_session A, re_was_loaded = av_loaded A,
      re_sink = av_sink A, re_observes = (kg_observe (av_gate A) \<noteq> None),
      re_feedback = (kg_feedback (av_gate A) \<noteq> None)\<rparr>"

definition finish_env_of :: "'g attempt_env \<Rightarrow> turn \<Rightarrow> finish_env" where
  "finish_env_of A T =
     \<lparr>fe_request = av_node_request A, fe_class = av_node_class A, fe_plan = av_plan A, fe_now = tn_event_now T,
      fe_now_latency = tn_latency_now T, fe_now_accounting = tn_success_now T, fe_started = av_started A,
      fe_observes_usage = (kg_usage (av_gate A) \<noteq> None), fe_save = (if av_stored A then Some (tn_save T) else None),
      fe_cancelled = tn_success_cancelled T\<rparr>"

definition absorb :: "'g kernel_gate \<Rightarrow> response_state \<Rightarrow> 'g kernel_state \<Rightarrow> 'g kernel_state" where
  "absorb G rs st = (emit_all G (rs_effects rs) st)\<lparr>ks_client := ks_client st @ rs_client rs\<rparr>"

text \<open>An accounting that is not finished when \<open>executeNode\<close> returns is finished there, as an error.\<close>

definition answer_rendered ::
  "'g attempt_env \<Rightarrow> turn \<Rightarrow> attempt \<Rightarrow> usage_attempt \<Rightarrow> upstream_response \<Rightarrow> 'g kernel_state \<Rightarrow>
   attempt_result \<times> 'g kernel_state" where
  "answer_rendered A T a acc resp st =
     (let G = av_gate A;
          E = response_env_of A a;
          acc1 = attempt_set_evidence acc
                   \<lparr>ev_status_code = us_status resp, ev_headers = us_headers resp, ev_error_body = []\<rparr>;
          rs = render_calls E (av_text_of A) (tn_calls T)
                 (new_response_state (av_session A) acc1 (rb_max_output (av_bounds A)))
      in case final_render_error E (tn_returned T) (tn_close_error T) (tn_ctx T) rs of
           None \<Rightarrow>
             (case rs_staged rs of
                Some staged \<Rightarrow>
                  let rs1 = finish_success E (finish_env_of A T) staged rs
                  in (AttemptDone, finish_accounting A T (rs_attempt rs1) (absorb G rs1 st))
              | None \<Rightarrow> (AttemptDone, finish_accounting A T (rs_attempt rs) (release_candidate A a (absorb G rs st))))
         | Some e \<Rightarrow>
             let rs1 = report_failure E (av_text_of A) (tn_report_now T) (tn_report_ctx T) (tn_report_deadline T) e rs
             in (AttemptReturns
                   (case tn_end_ctx T of
                      Some c \<Rightarrow> ErrContext c
                    | None \<Rightarrow>
                        if cw_committed (rs_writer rs1) then e else suppressed_replay A EffectAccepted e),
                 finish_accounting A T (rs_attempt rs1) (release_candidate A a (absorb G rs1 st))))"

section \<open>The loop\<close>

definition await_answer ::
  "'g attempt_env \<Rightarrow> turn \<Rightarrow> attempt \<Rightarrow> 'g kernel_state \<Rightarrow> turn_result \<times> 'g kernel_state" where
  "await_answer A T a st =
     (let acc = start_accounting A T a
      in case tn_answer T of
           Inl e \<Rightarrow> answer_failed A T a e (finish_accounting A T acc st)
         | Inr resp \<Rightarrow>
             if 400 \<le> us_status resp then answer_refused A T a acc resp st
             else map_prod TurnEnds id (answer_rendered A T a acc resp st))"

definition ready_attempt :: "'g attempt_env \<Rightarrow> turn \<Rightarrow> upstream_request \<Rightarrow> attempt \<Rightarrow> attempt" where
  "ready_attempt A T u a =
     (let a1 = remember_prepared A u a
      in if av_key A \<noteq> [] \<and> is_zero (at_first a1) then a1\<lparr>at_first := tn_dispatch_now T\<rparr> else a1)"

definition dispatch_effect :: "'g attempt_env \<Rightarrow> attempt \<Rightarrow> kernel_effect" where
  "dispatch_effect A a =
     FxDispatch (at_candidate a) (if av_key A = [] then None else Some (av_key A)) (av_visit A) (at_turn a)"

definition attempt_turn ::
  "'g attempt_env \<Rightarrow> turn \<Rightarrow> attempt \<Rightarrow> 'g kernel_state \<Rightarrow> turn_result \<times> 'g kernel_state" where
  "attempt_turn A T a st =
     (case tn_prepared T of
        Inl e \<Rightarrow>
          (TurnEnds (if at_repeated a then AttemptReturns (suppressed_replay A EffectUnknown e)
                     else AttemptContinues ErrorRetryable e), release_candidate A a st)
      | Inr u \<Rightarrow>
          (case dispatch_refusal A T (remember_prepared A u a) (presented A u) of
             Some e \<Rightarrow> (TurnEnds (AttemptReturns e), release_candidate A a st)
           | None \<Rightarrow>
               let a' = ready_attempt A T u a
               in await_answer A T a' (emit (av_gate A) (dispatch_effect A a') st)))"

text \<open>How often the loop can still go round: once under the key, once with a refreshed credential.\<close>

definition attempt_budget :: "attempt \<Rightarrow> nat" where
  "attempt_budget a = (if at_repeated a then 0 else 1) + (if at_refreshed a then 0 else 1)"

lemma attempt_budget_turn [simp]: "attempt_budget (a\<lparr>at_turn := n\<rparr>) = attempt_budget a"
  by (simp add: attempt_budget_def)

lemma remember_prepared_keeps [simp]:
  "at_repeated (remember_prepared A u a) = at_repeated a" "at_refreshed (remember_prepared A u a) = at_refreshed a"
  "at_candidate (remember_prepared A u a) = at_candidate a" "at_lease (remember_prepared A u a) = at_lease a"
  "at_credential (remember_prepared A u a) = at_credential a" "at_turn (remember_prepared A u a) = at_turn a"
  "at_first (remember_prepared A u a) = at_first a"
  by (simp_all add: remember_prepared_def)

lemma map_prod_TurnEnds [simp]: "map_prod TurnEnds id p \<noteq> (TurnAgain a, st)"
  by (cases p) simp

lemma answer_failed_again:
  "answer_failed A T a e st = (TurnAgain a', st') \<Longrightarrow>
   permits_repeat A a (tn_repeat_now T) \<and> a' = a\<lparr>at_repeated := True\<rparr> \<and> st' = st"
  by (auto simp: answer_failed_def split: option.splits if_splits)

lemma answer_refused_again:
  assumes "answer_refused A T a acc resp st = (TurnAgain a', st')"
  shows "permits_repeat A a (tn_repeat_now T) \<and> a' = a\<lparr>at_repeated := True\<rparr> \<or>
         (\<exists>oc. wants_refresh A T a oc) \<and> refreshed_attempt A T a = Some a'"
  using assms by (auto simp: answer_refused_def Let_def split: if_splits option.splits)

lemma refreshed_attempt_flags:
  "refreshed_attempt A T a = Some a' \<Longrightarrow>
   at_refreshed a' \<and> at_repeated a' = (at_repeated a \<or> av_safety A = ReplayWithKey \<and> av_key A \<noteq> []) \<and>
   at_turn a' = at_turn a \<and> at_first a' = at_first a \<and> at_replay a' = at_replay a"
  by (auto simp: refreshed_attempt_def Let_def split: option.splits sum.splits if_splits)

lemma ready_attempt_keeps [simp]:
  "at_repeated (ready_attempt A T u a) = at_repeated a" "at_refreshed (ready_attempt A T u a) = at_refreshed a"
  "at_candidate (ready_attempt A T u a) = at_candidate a" "at_lease (ready_attempt A T u a) = at_lease a"
  "at_credential (ready_attempt A T u a) = at_credential a" "at_turn (ready_attempt A T u a) = at_turn a"
  by (simp_all add: ready_attempt_def Let_def)

text \<open>What follows when the loop goes round again.\<close>

lemma await_answer_again:
  assumes "await_answer A T a st = (TurnAgain a', st')"
  shows "permits_repeat A a (tn_repeat_now T) \<and> a' = a\<lparr>at_repeated := True\<rparr> \<or>
         (\<exists>oc. wants_refresh A T a oc) \<and> refreshed_attempt A T a = Some a'"
proof (cases "tn_answer T")
  case (Inl e)
  with assms have "answer_failed A T a e (finish_accounting A T (start_accounting A T a) st) = (TurnAgain a', st')"
    by (simp add: await_answer_def)
  then show ?thesis by (blast dest: answer_failed_again)
next
  case (Inr resp)
  with assms have "answer_refused A T a (start_accounting A T a) resp st = (TurnAgain a', st')"
    by (simp add: await_answer_def Let_def split: if_splits)
  then show ?thesis by (rule answer_refused_again)
qed

lemma attempt_turn_again:
  assumes "attempt_turn A T a st = (TurnAgain a', st')"
  shows "attempt_budget a' < attempt_budget a" and "at_turn a' = at_turn a"
proof -
  obtain u where "await_answer A T (ready_attempt A T u a)
      (emit (av_gate A) (dispatch_effect A (ready_attempt A T u a)) st) = (TurnAgain a', st')"
    using assms by (auto simp: attempt_turn_def Let_def split: sum.splits option.splits)
  from await_answer_again [OF this]
  show "attempt_budget a' < attempt_budget a" "at_turn a' = at_turn a"
    by (auto simp: attempt_budget_def permits_repeat_def wants_refresh_def dest: refreshed_attempt_flags)
qed

function attempt_loop ::
  "'g attempt_env \<Rightarrow> (nat \<Rightarrow> turn) \<Rightarrow> attempt \<Rightarrow> 'g kernel_state \<Rightarrow> attempt_result \<times> 'g kernel_state" where
  "attempt_loop A turns a st =
     (case attempt_turn A (turns (at_turn a)) a st of
        (TurnEnds r, st') \<Rightarrow> (r, st')
      | (TurnAgain a', st') \<Rightarrow> attempt_loop A turns (a'\<lparr>at_turn := Suc (at_turn a)\<rparr>) st')"
  by pat_completeness auto
termination
  by (relation "measure (\<lambda>(A, turns, a, st). attempt_budget a)") (auto dest: attempt_turn_again(1) [OF sym])

declare attempt_loop.simps [simp del]

section \<open>What the log of an attempt records\<close>

definition dispatch_of :: "kernel_effect \<Rightarrow> (route \<times> string option \<times> nat \<times> nat) option" where
  "dispatch_of x = (case x of FxDispatch r k v t \<Rightarrow> Some (r, k, v, t) | _ \<Rightarrow> None)"

definition release_of :: "kernel_effect \<Rightarrow> route option" where
  "release_of x = (case x of FxRelease r \<Rightarrow> Some r | _ \<Rightarrow> None)"

definition acquire_of :: "kernel_effect \<Rightarrow> route option" where
  "acquire_of x = (case x of FxAcquire r \<Rightarrow> Some r | _ \<Rightarrow> None)"

definition usage_of :: "kernel_effect \<Rightarrow> usage_event option" where
  "usage_of x = (case x of FxUsage u \<Rightarrow> Some u | _ \<Rightarrow> None)"

abbreviation dispatched :: "kernel_effect list \<Rightarrow> (route \<times> string option \<times> nat \<times> nat) list" where
  "dispatched \<equiv> List.map_filter dispatch_of"

abbreviation released :: "kernel_effect list \<Rightarrow> route list" where
  "released \<equiv> List.map_filter release_of"

abbreviation acquired :: "kernel_effect list \<Rightarrow> route list" where
  "acquired \<equiv> List.map_filter acquire_of"

abbreviation accounted :: "kernel_effect list \<Rightarrow> usage_event list" where
  "accounted \<equiv> List.map_filter usage_of"

lemma map_filter_append [simp]:
  "List.map_filter f [] = []" "List.map_filter f (xs @ ys) = List.map_filter f xs @ List.map_filter f ys"
  by (simp_all add: List.map_filter_def)

lemmas log_views = dispatch_of_def release_of_def acquire_of_def usage_of_def

text \<open>An effect that none of the four views sees, and a stretch of the log that has only such effects.\<close>

definition quiet :: "kernel_effect \<Rightarrow> bool" where
  "quiet x \<longleftrightarrow> dispatch_of x = None \<and> release_of x = None \<and> acquire_of x = None \<and> usage_of x = None"

lemma quiet_views [simp]:
  assumes "list_all quiet xs"
  shows "dispatched xs = []" "released xs = []" "acquired xs = []" "accounted xs = []"
  using assms by (induction xs) (simp_all add: quiet_def)

lemma quiet_effects [simp]:
  "quiet (FxCloseLease l)" "quiet (FxObserve r oc)" "quiet (FxMarkFailure r c e)" "quiet (FxMarkFailureAfter r c e d)"
  "quiet (FxMarkSuccess r)" "quiet (FxObserveUsage r u)" "quiet (FxInvalidate r k ss)" "quiet (FxSave r k ss)"
  "quiet FxSaveFailed" "quiet (FxEmit ev)"
  "\<not> quiet (FxAcquire r)" "\<not> quiet (FxRelease r)" "\<not> quiet (FxDispatch r key v t)" "\<not> quiet (FxUsage u)"
  by (simp_all add: quiet_def log_views)

lemma log_views_simps [simp]:
  "dispatch_of (FxDispatch r k v t) = Some (r, k, v, t)" "release_of (FxDispatch r k v t) = None"
  "acquire_of (FxDispatch r k v t) = None" "usage_of (FxDispatch r k v t) = None"
  "dispatch_of (FxRelease r) = None" "release_of (FxRelease r) = Some r"
  "acquire_of (FxRelease r) = None" "usage_of (FxRelease r) = None"
  "dispatch_of (FxAcquire r) = None" "release_of (FxAcquire r) = None"
  "acquire_of (FxAcquire r) = Some r" "usage_of (FxAcquire r) = None"
  "dispatch_of (FxUsage u) = None" "release_of (FxUsage u) = None"
  "acquire_of (FxUsage u) = None" "usage_of (FxUsage u) = Some u"
  by (simp_all add: log_views)

lemma usage_views [simp]:
  "dispatched (map FxUsage us) = []" "released (map FxUsage us) = []" "acquired (map FxUsage us) = []"
  "accounted (map FxUsage us) = us"
  by (induction us) simp_all

text \<open>
  The state \<open>st'\<close> continues \<open>st\<close>: nothing of the kernel changed but the gate, the calls on the client's writer
  and the log, which has the dispatches \<open>ds\<close>, the releases \<open>rs\<close> and \<open>n\<close> accounted events more, and no admission.
\<close>

definition records ::
  "'g kernel_state \<Rightarrow> (route \<times> string option \<times> nat \<times> nat) list \<Rightarrow> route list \<Rightarrow> nat \<Rightarrow> 'g kernel_state \<Rightarrow> bool" where
  "records st ds rs n st' \<longleftrightarrow>
     (\<exists>xs. ks_log st' = ks_log st @ xs \<and> dispatched xs = ds \<and> released xs = rs \<and> acquired xs = [] \<and>
           length (accounted xs) = n) \<and>
     ks_scheduler st' = ks_scheduler st \<and> ks_sources st' = ks_sources st \<and>
     ks_visits st' = ks_visits st \<and> ks_stages st' = ks_stages st \<and> ks_members st' = ks_members st"

lemma recordsI:
  assumes "ks_log st' = ks_log st @ xs" "dispatched xs = ds" "released xs = rs" "acquired xs = []"
    "length (accounted xs) = n" "ks_scheduler st' = ks_scheduler st" "ks_sources st' = ks_sources st"
    "ks_visits st' = ks_visits st" "ks_stages st' = ks_stages st" "ks_members st' = ks_members st"
  shows "records st ds rs n st'"
  using assms unfolding records_def by blast

lemma records_refl [simp]: "records st [] [] 0 st"
  by (rule recordsI [of _ _ "[]"]) simp_all

lemma records_trans:
  assumes "records a ds rs n b" and "records b ds' rs' n' c"
  shows "records a (ds @ ds') (rs @ rs') (n + n') c"
proof -
  from assms obtain xs ys where "ks_log b = ks_log a @ xs" "dispatched xs = ds" "released xs = rs" "acquired xs = []"
    "length (accounted xs) = n" "ks_log c = ks_log b @ ys" "dispatched ys = ds'" "released ys = rs'" "acquired ys = []"
    "length (accounted ys) = n'"
    unfolding records_def by blast
  with assms show ?thesis
    by (intro recordsI [of _ _ "xs @ ys"]) (simp_all add: records_def)
qed

lemmas records_quiet_trans = records_trans [where ds = "[]" and rs = "[]" and n = 0, simplified]

lemma emit_simps [simp]:
  "ks_log (emit G x st) = ks_log st @ [x]" "ks_scheduler (emit G x st) = ks_scheduler st"
  "ks_sources (emit G x st) = ks_sources st" "ks_visits (emit G x st) = ks_visits st"
  "ks_stages (emit G x st) = ks_stages st" "ks_members (emit G x st) = ks_members st" "ks_client (emit G x st) = ks_client st"
  by (simp_all add: emit_def)

lemma emit_all_simps [simp]:
  "ks_log (emit_all G xs st) = ks_log st @ xs" "ks_scheduler (emit_all G xs st) = ks_scheduler st"
  "ks_sources (emit_all G xs st) = ks_sources st" "ks_visits (emit_all G xs st) = ks_visits st"
  "ks_stages (emit_all G xs st) = ks_stages st" "ks_members (emit_all G xs st) = ks_members st" "ks_client (emit_all G xs st) = ks_client st"
  unfolding emit_all_def by (induction xs arbitrary: st) simp_all

lemma records_emit_quiet [simp]: "quiet x \<Longrightarrow> records st [] [] 0 (emit G x st)"
  by (rule recordsI [of _ _ "[x]"]) (simp_all add: quiet_def)

lemma records_observe [simp]: "records st [] [] 0 (observe A a oc st)"
  by (simp add: observe_def)

lemma records_close [simp]: "records st [] [] 0 (close_lease G lo st)"
  by (simp add: close_lease_def split: option.split)

lemma records_release: "records st [] [at_candidate a] 0 (release_candidate A a st)"
  unfolding release_candidate_def
  by (rule records_quiet_trans [OF records_close]) (rule recordsI [of _ _ "[FxRelease (at_candidate a)]"]; simp)

lemma records_dispatch:
  "records st [(at_candidate a, if av_key A = [] then None else Some (av_key A), av_visit A, at_turn a)] [] 0
     (emit G (dispatch_effect A a) st)"
  by (rule recordsI [of _ _ "[dispatch_effect A a]"]) (simp_all add: dispatch_effect_def)

lemma records_accounting:
  "\<not> ua_finalized acc \<Longrightarrow> records st [] [] 1 (finish_accounting A T acc st)"
  unfolding finish_accounting_def
  by (rule recordsI [OF emit_all_simps(1)]) (simp_all add: attempt_finish_def Let_def)

lemma records_accounted:
  "ua_finalized acc \<Longrightarrow> records st [] [] 0 (finish_accounting A T acc st)"
  by (simp add: finish_accounting_def attempt_finish_def emit_all_def)

text \<open>The same for the last step of a longer stretch.\<close>

lemma records_then:
  assumes "records st ds rs n st'"
  shows "quiet x \<Longrightarrow> records st ds rs n (emit G x st')"
    and "records st ds rs n (observe A a oc st')"
    and "records st ds rs n (close_lease G lo st')"
    and "records st ds (rs @ [at_candidate a]) n (release_candidate A a st')"
    and "\<not> ua_finalized acc \<Longrightarrow> records st ds rs (n + 1) (finish_accounting A T acc st')"
    and "ua_finalized acc \<Longrightarrow> records st ds rs n (finish_accounting A T acc st')"
  using records_trans [OF assms records_emit_quiet [of x st' G]] records_trans [OF assms records_observe [of st' A a oc]]
    records_trans [OF assms records_close [of st' G lo]] records_trans [OF assms records_release [of st' a A]]
    records_trans [OF assms records_accounting [of acc st' A T]] records_trans [OF assms records_accounted [of acc st' A T]]
  by simp_all

lemma start_accounting_open [simp]: "\<not> ua_finalized (start_accounting A T a)"
  by (simp add: start_accounting_def attempt_set_compatibility_def new_usage_attempt_def Let_def)

lemma attempt_set_evidence_open [simp]: "ua_finalized (attempt_set_evidence acc ev) = ua_finalized acc"
  by (simp add: attempt_set_evidence_def)

section \<open>What a rendered response adds\<close>

text \<open>The state of a response continues another: only quiet effects were added and the accounting is still open.\<close>

definition renders :: "response_state \<Rightarrow> response_state \<Rightarrow> bool" where
  "renders rs rs' \<longleftrightarrow>
     (\<exists>xs. rs_effects rs' = rs_effects rs @ xs \<and> list_all quiet xs) \<and>
     ua_finalized (rs_attempt rs') = ua_finalized (rs_attempt rs)"

lemma renders_refl [simp]: "renders rs rs"
  by (simp add: renders_def)

lemma renders_trans: "renders a b \<Longrightarrow> renders b c \<Longrightarrow> renders a c"
  unfolding renders_def by (metis append.assoc list_all_append)

lemma rendersI:
  "rs_effects rs' = rs_effects rs \<Longrightarrow> ua_finalized (rs_attempt rs') = ua_finalized (rs_attempt rs) \<Longrightarrow> renders rs rs'"
  by (simp add: renders_def)

lemma renders_effect: "quiet x \<Longrightarrow> renders rs (effect x rs)"
  by (simp add: renders_def effect_def)

lemma renders_effected: "renders rs rs' \<Longrightarrow> quiet x \<Longrightarrow> renders rs (effect x rs')"
  by (rule renders_trans [OF _ renders_effect])

lemma renders_emit_event: "renders rs (emit_event E e rs)"
  by (simp add: emit_event_def renders_effect)

lemma and_then_renders:
  "renders rs (snd p) \<Longrightarrow> (\<And>rs'. renders rs' (snd (f rs'))) \<Longrightarrow> renders rs (snd (and_then p f))"
  by (cases p; cases "fst p") (auto simp: and_then_def intro: renders_trans)

lemma renders_signature: "renders rs (snd (check_signature E e rs))"
  by (auto simp: check_signature_def record_signature_def Let_def renders_def split: option.splits sum.splits prod.splits)

lemma renders_artifacts: "renders rs (snd (check_artifacts E now e rs))"
  by (auto simp: check_artifacts_def renders_def split: prod.splits)

lemma renders_project: "renders rs (snd (project_event E e payload rs))"
  by (auto simp: project_event_def renders_def split: option.splits sum.splits)

lemma renders_validate: "renders rs (snd (validate_event E now e rs))"
proof -
  let ?rs = "rs\<lparr>rs_sequence := rs_sequence rs + 1\<rparr>"
  have "renders rs ?rs" by (simp add: renders_def)
  moreover have "renders ?rs (snd (validate_event E now e rs))"
    unfolding validate_event_def Let_def
    by (intro and_then_renders renders_signature renders_artifacts)
      (auto split: option.split intro!: and_then_renders renders_project)
  ultimately show ?thesis by (rule renders_trans)
qed

lemma renders_normalize: "renders rs (snd (normalize_provider_failure E ctx ctx' data rs))"
  by (auto simp: normalize_provider_failure_def Let_def renders_def effect_def split: option.splits)

lemma renders_report: "renders rs (report_failure E text now ctx deadline err rs)"
proof (cases "rs_terminal rs")
  case None
  let ?rs = "emit_event E (zero_event\<lparr>rv_at := now, rv_kind := event_error, rv_error := failure_for_error err\<rparr>)
               (rs\<lparr>rs_terminal := Some err\<rparr>)"
  have "renders rs ?rs" by (rule renders_trans [OF _ renders_emit_event]) (simp add: renders_def)
  moreover have "renders ?rs (report_failure E text now ctx deadline err rs)"
    using None by (auto simp: report_failure_def Let_def intro: renders_effect split: option.split)
  ultimately show ?thesis by (rule renders_trans)
qed (simp add: report_failure_def)

lemma attempt_open [simp]:
  "ua_finalized (attempt_observe env a u) = ua_finalized a"
  "ua_finalized (fst (attempt_complete env t t' a u)) = ua_finalized a"
  by (auto simp: attempt_observe_def attempt_complete_def attempt_enrich_def Let_def split: option.split)

lemma renders_complete: "renders rs (on_complete E t t' u rs)"
proof -
  obtain acc completed failed where c: "attempt_complete (re_usage E) t t' (rs_attempt rs) u = (acc, completed, failed)"
    by (metis prod_cases3)
  then have "ua_finalized acc = ua_finalized (rs_attempt rs)" using attempt_open(2) [of "re_usage E" t t' "rs_attempt rs" u] by simp
  then show ?thesis
    using c by (cases failed) (auto simp: on_complete_def renders_def split: option.split)
qed

lemma renders_written: "renders rs rs' \<Longrightarrow> renders rs (emit_event E e rs')"
  by (rule renders_trans [OF _ renders_emit_event])

lemma renders_step: "renders rs (render_step E text x rs)"
proof (cases x)
  case (CallEvent e)
  then show ?thesis by (auto simp: on_event_def Let_def intro!: renders_written rendersI)
next
  case (CallFirstByte t)
  then show ?thesis by (auto intro!: renders_written rendersI)
qed (auto simp: renders_validate renders_normalize renders_report renders_complete on_session_state_def on_writer_def
      intro: rendersI split: prod.split)

lemma renders_calls: "renders rs (render_calls E text xs rs)"
  unfolding render_calls_def
  by (induction xs arbitrary: rs) (auto intro: renders_trans renders_step)

lemma renders_save: "renders rs (save_session E F rs)"
  by (auto simp: save_session_def Let_def intro!: renders_effected split: option.split)

text \<open>A completed response releases its candidate once and emits one event if its accounting was open.\<close>

definition completes :: "response_env \<Rightarrow> response_state \<Rightarrow> response_state \<Rightarrow> bool" where
  "completes E rs rs' \<longleftrightarrow>
     (\<exists>xs. rs_effects rs' = rs_effects rs @ xs \<and> dispatched xs = [] \<and> released xs = [re_candidate E] \<and>
           acquired xs = [] \<and> length (accounted xs) = (if ua_finalized (rs_attempt rs) then 0 else 1)) \<and>
     ua_finalized (rs_attempt rs')"

lemma finish_success_completes: "completes E rs (finish_success E F staged rs)"
proof -
  let ?r = "re_candidate E"
  let ?rs1 = "if re_observes E then effect (FxObserve ?r kernel_success_outcome) rs else rs"
  let ?rs1' = "case re_lease E of None \<Rightarrow> ?rs1 | Some l \<Rightarrow> effect (FxCloseLease l) ?rs1"
  let ?rs2 = "effect (FxRelease ?r) ?rs1'"
  let ?rs3 = "save_session E F ?rs2"
  let ?e = "completed_event E F ?rs3 staged"
  let ?rs4 = "if \<not> re_observes E \<and> re_feedback E then effect (FxMarkSuccess ?r) ?rs3 else ?rs3"
  let ?rs5 = "if fe_observes_usage F then effect (FxObserveUsage ?r (clone_usage (env_canon (re_usage E)) ?e)) ?rs4
              else ?rs4"
  let ?rs6 = "emit_event E
                  (zero_event\<lparr>rv_at := ue_at ?e, rv_kind := event_complete,
                     rv_usage := Some ((clone_usage (env_canon (re_usage E)) ?e)\<lparr>ue_raw_usage := None\<rparr>)\<rparr>) ?rs5"
  have "renders rs ?rs1'"
    by (auto intro!: renders_effected split: option.split)
  then obtain xs where xs: "rs_effects ?rs1' = rs_effects rs @ xs" "list_all quiet xs"
    and open1: "ua_finalized (rs_attempt ?rs1') = ua_finalized (rs_attempt rs)"
    unfolding renders_def by blast
  have "renders ?rs3 ?rs6"
    by (intro renders_written) (auto intro!: renders_effected)
  then have "renders ?rs2 ?rs6" using renders_save renders_trans by blast
  then obtain ys where ys: "rs_effects ?rs6 = rs_effects ?rs2 @ ys" "list_all quiet ys"
    and open2: "ua_finalized (rs_attempt ?rs6) = ua_finalized (rs_attempt ?rs2)"
    unfolding renders_def by blast
  obtain acc us where fin: "attempt_finish_success (re_usage E) (fst (fe_now_accounting F)) (snd (fe_now_accounting F))
                (fe_cancelled F) (rs_attempt ?rs6) ?e = (acc, us)"
    by (cases "attempt_finish_success (re_usage E) (fst (fe_now_accounting F)) (snd (fe_now_accounting F))
                (fe_cancelled F) (rs_attempt ?rs6) ?e")
  then have us: "length us = (if ua_finalized (rs_attempt ?rs6) then 0 else 1)" "ua_finalized acc"
    by (auto simp: attempt_finish_success_def attempt_finish_def Let_def split: if_splits)
  have eff: "rs_effects ?rs2 = rs_effects ?rs1' @ [FxRelease ?r]" "rs_attempt ?rs2 = rs_attempt ?rs1'"
    by (simp_all add: effect_def)
  have "finish_success E F staged rs = ?rs6\<lparr>rs_attempt := acc, rs_effects := rs_effects ?rs6 @ map FxUsage us\<rparr>"
    unfolding finish_success_def Let_def fin by simp
  then have "rs_effects (finish_success E F staged rs) = rs_effects rs @ (xs @ [FxRelease ?r] @ ys @ map FxUsage us)"
    and "rs_attempt (finish_success E F staged rs) = acc"
    using xs(1) ys(1) eff(1) by simp_all
  moreover have "ua_finalized (rs_attempt ?rs6) = ua_finalized (rs_attempt rs)"
    using open1 open2 eff(2) by simp
  ultimately show ?thesis
    using xs(2) ys(2) us unfolding completes_def
    by (intro conjI exI [of _ "xs @ [FxRelease ?r] @ ys @ map FxUsage us"]) simp_all
qed

section \<open>What an attempt records\<close>

definition bare :: "route \<Rightarrow> route" where
  "bare r = r\<lparr>rt_health_generation := (rt_health_generation r)\<lparr>gen_credential := []\<rparr>\<rparr>"

lemma bare_epoch [simp]: "bare (with_credential_epoch c r) = bare r"
  by (simp add: bare_def with_credential_epoch_def)

definition rejected_turn :: "'g attempt_env \<Rightarrow> turn \<Rightarrow> bool" where
  "rejected_turn A T \<longleftrightarrow>
     (case tn_answer T of
        Inl e \<Rightarrow> False
      | Inr resp \<Rightarrow>
          400 \<le> us_status resp \<and>
          oc_effect (refused_outcome (av_adapter A) (av_classifier A) (us_status resp) (us_headers resp)
                       (take (64 * 1024) (us_body resp))) = EffectRejected)"

text \<open>After these results other candidates are tried.\<close>

fun falls_back :: "attempt_result \<Rightarrow> bool" where
  "falls_back (AttemptContinues c e) = True"
| "falls_back (AttemptTerminal e) = True"
| "falls_back _ = False"

text \<open>What lets a request be sent again to the candidate it was sent to.\<close>

definition repeatable :: "'g attempt_env \<Rightarrow> turn \<Rightarrow> bool" where
  "repeatable A T \<longleftrightarrow> av_key A \<noteq> [] \<or> av_safety A = ReplayOnRejection \<and> rejected_turn A T"

definition dispatch_budget :: "'g attempt_env \<Rightarrow> attempt \<Rightarrow> nat" where
  "dispatch_budget A a = (if (if av_key A = [] then at_refreshed a else at_repeated a) then 0 else 1)"

text \<open>What is known when the loop goes round again, and when it ends.\<close>

definition goes_on :: "'g attempt_env \<Rightarrow> turn \<Rightarrow> attempt \<Rightarrow> attempt \<Rightarrow> bool" where
  "goes_on A T a a' \<longleftrightarrow>
     repeatable A T \<and> bare (at_candidate a') = bare (at_candidate a) \<and> at_turn a' = at_turn a \<and>
     dispatch_budget A a' = 0 \<and> dispatch_budget A a = 1 \<and>
     (av_key A = [] \<longrightarrow> at_repeated a' = at_repeated a) \<and> (av_key A \<noteq> [] \<longrightarrow> at_repeated a')"

lemma repeat_goes_on: "permits_repeat A a now \<Longrightarrow> goes_on A T a (a\<lparr>at_repeated := True\<rparr>)"
  by (simp add: permits_repeat_def goes_on_def repeatable_def dispatch_budget_def)

lemma refreshed_bare:
  "refreshed_attempt A T a = Some a' \<Longrightarrow> bare (at_candidate a') = bare (at_candidate a)"
  by (auto simp: refreshed_attempt_def Let_def split: option.splits sum.splits if_splits)

lemma refresh_goes_on:
  assumes "wants_refresh A T a oc" and "refreshed_attempt A T a = Some a'" and "av_key A \<noteq> [] \<longrightarrow> av_safety A = ReplayWithKey"
    and "oc_effect oc = EffectRejected \<longrightarrow> rejected_turn A T"
  shows "goes_on A T a a'"
  using assms refreshed_attempt_flags [OF assms(2)] refreshed_bare [OF assms(2)]
  by (auto simp: wants_refresh_def can_refresh_def can_replay_after_dispatch_def permits_repeat_def goes_on_def
      repeatable_def dispatch_budget_def)

lemma records_final:
  "records st [] [at_candidate a] 0 (snd (answer_final A T a resp body oc st))"
proof -
  have "records st [] ([] @ [at_candidate a]) 0
      (release_candidate A a (if c then emit (av_gate A) x (observe A a oc st) else observe A a oc st))" if "quiet x" for c x
    using that by (intro records_then(4)) (simp add: records_then(1))
  from this [OF quiet_effects(4)] show ?thesis unfolding answer_final_def Let_def snd_conv by simp
qed

lemma final_result:
  "falls_back (fst (answer_final A T a resp body oc st)) \<Longrightarrow>
   av_safety A = ReplayOnRejection \<and> oc_effect oc = EffectRejected"
  by (auto simp: answer_final_def Let_def can_replay_after_dispatch_def split: if_splits)

lemma records_continuity:
  "records st [] [at_candidate a] 0 (snd (answer_continuity A T a status oc st)) \<and>
   \<not> falls_back (fst (answer_continuity A T a status oc st))"
proof -
  have released: "records st [] [at_candidate a] 0 (release_candidate A a st')" if "records st [] [] 0 st'" for st'
    using records_then(4) [OF that] by simp
  let ?st = "if invalidates_continuity (av_request A) (av_session A) (av_loaded A) \<and> av_invalidate A \<noteq> None
             then emit (av_gate A) (FxInvalidate (at_candidate a) (av_session_key A) (av_session A)) st else st"
  have st: "records st [] [] 0 ?st" by simp
  show ?thesis
  proof (cases "\<not> valid_continuity_recovery oc EffectRejected \<or> status < 400 \<or> 500 \<le> status")
    case True
    then show ?thesis by (simp only: answer_continuity_def if_True) (simp add: released)
  next
    case False
    then have eq: "answer_continuity A T a status oc st =
      (case invalidate_loaded_continuity (av_invalidate A) (tn_invalidate_ctx T) (av_request A) (av_session A)
                     (av_loaded A) of
                Some e \<Rightarrow> (AttemptReturns (ErrSession e), release_candidate A a ?st)
              | None \<Rightarrow>
                  (AttemptReturns (with_outcome_client_failure (replace_message oc continuity_restart_message)
                      ErrContinuityRestartRequired),
                      release_candidate A a (observe A a (replace_message oc continuity_restart_message) ?st)))"
      unfolding answer_continuity_def Let_def by (simp only: if_False)
    define st1 where "st1 = ?st"
    have st1: "records st [] [] 0 st1" using st by (simp only: st1_def)
    show ?thesis
      unfolding eq st1_def [symmetric] using released [OF st1] released [OF records_then(2) [OF st1]]
      by (simp split: option.split)
  qed
qed

definition spec_turn :: "'g attempt_env \<Rightarrow> turn \<Rightarrow> attempt \<Rightarrow> nat \<Rightarrow> 'g kernel_state \<Rightarrow> turn_result \<times> 'g kernel_state \<Rightarrow> bool" where
  "spec_turn A T a n st p \<longleftrightarrow>
     (case p of
        (TurnAgain a', st') \<Rightarrow> records st [] [] n st' \<and> goes_on A T a a'
      | (TurnEnds r, st') \<Rightarrow>
          records st [] [at_candidate a] n st' \<and>
          (falls_back r \<longrightarrow> av_safety A = ReplayOnRejection \<and> rejected_turn A T))"

lemma spec_turn_ends:
  "spec_turn A T a n st (map_prod TurnEnds id p) \<longleftrightarrow>
     records st [] [at_candidate a] n (snd p) \<and>
     (falls_back (fst p) \<longrightarrow> av_safety A = ReplayOnRejection \<and> rejected_turn A T)"
  by (cases p) (simp add: spec_turn_def)

lemma answer_failed_spec: "spec_turn A T a 0 st (answer_failed A T a e st)"
proof -
  have rel: "records st [] [at_candidate a] 0 (release_candidate A a st')" if "records st [] [] 0 st'" for st'
    by (rule records_quiet_trans [OF that records_release])
  show ?thesis
    by (auto simp: answer_failed_def spec_turn_def intro: rel repeat_goes_on split: option.split)
qed

lemma spec_turn_after:
  assumes "records st [] [] n st1" and "spec_turn A T a m st1 p"
  shows "spec_turn A T a (n + m) st p"
  using assms records_trans [OF assms(1)] unfolding spec_turn_def
  by (fastforce split: prod.splits turn_result.splits)

lemma answer_rendered_spec:
  assumes "\<not> ua_finalized acc"
  shows "records st [] [at_candidate a] 1 (snd (answer_rendered A T a acc resp st)) \<and>
         \<not> falls_back (fst (answer_rendered A T a acc resp st))"
proof -
  let ?G = "av_gate A" and ?E = "response_env_of A a"
  let ?start = "new_response_state (av_session A)
     (attempt_set_evidence acc
        \<lparr>ev_status_code = us_status resp, ev_headers = us_headers resp, ev_error_body = []\<rparr>) (rb_max_output (av_bounds A))"
  let ?rs = "render_calls ?E (av_text_of A) (tn_calls T) ?start"
  have start: "rs_effects ?start = []" "\<not> ua_finalized (rs_attempt ?start)"
    using assms by (simp_all add: new_response_state_def)
  have absorbed: "records st [] [] 0 (absorb ?G rs st)" "\<not> ua_finalized (rs_attempt rs)" if r: "renders ?rs rs" for rs
  proof -
    obtain xs where "rs_effects rs = xs" "list_all quiet xs" and fin: "\<not> ua_finalized (rs_attempt rs)"
      using renders_trans [OF renders_calls r] start by (auto simp: renders_def)
    then show "records st [] [] 0 (absorb ?G rs st)" by (auto simp: absorb_def intro!: recordsI [of _ _ xs])
    show "\<not> ua_finalized (rs_attempt rs)" by (rule fin)
  qed
  show ?thesis
  proof (cases "final_render_error ?E (tn_returned T) (tn_close_error T) (tn_ctx T) ?rs")
    case (Some e)
    note a = absorbed [OF renders_report [of ?rs ?E "av_text_of A" "tn_report_now T" "tn_report_ctx T" "tn_report_deadline T" e]]
    from Some records_then(5) [OF records_then(4) [OF a(1)] a(2)] show ?thesis
      by (simp add: answer_rendered_def Let_def split: option.split)
  next
    case None
    show ?thesis
    proof (cases "rs_staged ?rs")
      case unstaged: None
      note a = absorbed [OF renders_refl]
      from None unstaged records_then(5) [OF records_then(4) [OF a(1)] a(2)] show ?thesis
        by (simp add: answer_rendered_def Let_def)
    next
      case (Some staged)
      let ?finished = "finish_success ?E (finish_env_of A T) staged ?rs"
      obtain xs where xs: "rs_effects ?rs = xs" "list_all quiet xs" and fin: "\<not> ua_finalized (rs_attempt ?rs)"
        using renders_calls [of ?start ?E "av_text_of A" "tn_calls T"] start by (auto simp: renders_def)
      have "completes ?E ?rs ?finished" by (rule finish_success_completes)
      then obtain ys where ys: "rs_effects ?finished = xs @ ys" "dispatched ys = []" "released ys = [re_candidate ?E]"
        "acquired ys = []" "length (accounted ys) = 1" and fin': "ua_finalized (rs_attempt ?finished)"
        using xs(1) fin unfolding completes_def by auto
      have "records st [] [at_candidate a] 1 (absorb ?G ?finished st)"
        by (rule recordsI [of _ _ "xs @ ys"]) (use xs(2) ys in \<open>simp_all add: absorb_def response_env_of_def\<close>)
      from records_then(6) [OF this fin'] None Some show ?thesis
        by (simp add: answer_rendered_def Let_def)
    qed
  qed
qed

lemma answer_refused_spec:
  assumes acc: "\<not> ua_finalized acc" and key: "av_key A \<noteq> [] \<longrightarrow> av_safety A = ReplayWithKey"
    and resp: "tn_answer T = Inr resp" "400 \<le> us_status resp"
  shows "spec_turn A T a 1 st (answer_refused A T a acc resp st)"
proof -
  define body where "body = take (64 * 1024) (us_body resp)"
  define oc where "oc = refused_outcome (av_adapter A) (av_classifier A) (us_status resp) (us_headers resp) body"
  define st0 where "st0 = finish_accounting A T
                  (attempt_set_evidence acc
                     \<lparr>ev_status_code = us_status resp, ev_headers = us_headers resp, ev_error_body = body\<rparr>) st"
  have st0: "records st [] [] 1 st0"
    using records_accounting [of "attempt_set_evidence acc
                     \<lparr>ev_status_code = us_status resp, ev_headers = us_headers resp, ev_error_body = body\<rparr>" st A T] acc
    by (simp add: st0_def)
  have rejected: "oc_effect oc = EffectRejected \<longleftrightarrow> rejected_turn A T"
    using resp by (simp add: rejected_turn_def oc_def body_def)
  have ends: "spec_turn A T a 1 st (map_prod TurnEnds id p)"
    if "records st1 [] [at_candidate a] 0 (snd p)" "records st [] [] 1 st1"
      "falls_back (fst p) \<longrightarrow> av_safety A = ReplayOnRejection \<and> oc_effect oc = EffectRejected" for p st1
    using records_trans [OF that(2,1)] that(3) rejected by (simp add: spec_turn_ends)
  have final: "spec_turn A T a 1 st (map_prod TurnEnds id (answer_final A T a resp body oc st1))"
    if "records st [] [] 1 st1" for st1
    by (rule ends [OF records_final that]) (blast dest: final_result)
  have cont: "spec_turn A T a 1 st (map_prod TurnEnds id (answer_continuity A T a (us_status resp) oc st0))"
    using records_continuity by (intro ends [OF _ st0]) blast+
  have again: "spec_turn A T a 1 st (TurnAgain a', st1)" if "goes_on A T a a'" "records st [] [] 1 st1" for a' st1
    using that by (simp add: spec_turn_def)
  have closed: "records st [] [] 1 (close_lease G lo st0)" for G lo
    by (rule records_then(3) [OF st0])
  define G where "G = av_gate A"
  define continuity where "continuity \<longleftrightarrow> oc_continuity oc \<noteq> ContinuityUnset \<and> oc_continuity oc \<noteq> ContinuityRecoveryNone"
  define repeats where "repeats \<longleftrightarrow> permits_repeat A a (tn_repeat_now T) \<and> oc_effect oc = EffectUnknown \<and> oc_retry oc = RetryAfter"
  define refreshes where "refreshes \<longleftrightarrow> wants_refresh A T a oc"
  have body: "answer_refused A T a acc resp st =
     (if continuity then map_prod TurnEnds id (answer_continuity A T a (us_status resp) oc st0)
      else if repeats then (TurnAgain (a\<lparr>at_repeated := True\<rparr>), st0)
      else if refreshes
      then case refreshed_attempt A T a of
             Some a' \<Rightarrow> (TurnAgain a', close_lease G (at_lease a) st0)
           | None \<Rightarrow>
               map_prod TurnEnds id
                 (answer_final A T a resp body oc
                    (if tn_refresh_same T then st0 else close_lease G (tn_refresh_lease T) st0))
      else map_prod TurnEnds id (answer_final A T a resp body oc st0))"
    unfolding answer_refused_def Let_def body_def [symmetric] oc_def [symmetric] st0_def [symmetric]
      G_def continuity_def repeats_def refreshes_def by (rule refl)
  have refreshed: "goes_on A T a a'" if "refreshes" "refreshed_attempt A T a = Some a'" for a'
    using refresh_goes_on [OF that(1) [unfolded refreshes_def] that(2) key] rejected by blast
  consider continuity | "\<not> continuity" repeats | "\<not> continuity" "\<not> repeats" refreshes
    | "\<not> continuity" "\<not> repeats" "\<not> refreshes" by blast
  then show ?thesis
  proof cases
    case 1
    then show ?thesis unfolding body using cont by simp
  next
    case 2
    then have "goes_on A T a (a\<lparr>at_repeated := True\<rparr>)" unfolding repeats_def by (blast intro: repeat_goes_on)
    with 2 show ?thesis unfolding body using again [OF _ st0] by simp
  next
    case 3
    show ?thesis
    proof (cases "refreshed_attempt A T a")
      case None
      from 3 show ?thesis
        unfolding body None using final [OF st0] final [OF closed [of G "tn_refresh_lease T"]]
        by (simp only: if_False if_True option.case split: if_splits) simp
    next
      case (Some a')
      from 3 show ?thesis
        unfolding body Some using again [OF refreshed [OF 3(3) Some] closed] by simp
    qed
  next
    case 4
    then show ?thesis unfolding body using final [OF st0] by simp
  qed
qed

lemma await_answer_spec:
  assumes "av_key A \<noteq> [] \<longrightarrow> av_safety A = ReplayWithKey"
  shows "spec_turn A T a 1 st (await_answer A T a st)"
proof (cases "tn_answer T")
  case (Inl e)
  have "records st [] [] 1 (finish_accounting A T (start_accounting A T a) st)"
    by (rule records_accounting [OF start_accounting_open])
  from spec_turn_after [OF this answer_failed_spec] Inl show ?thesis
    by (simp add: await_answer_def Let_def)
next
  case (Inr resp)
  then show ?thesis
    using answer_refused_spec [OF start_accounting_open assms Inr] answer_rendered_spec [OF start_accounting_open, of st a A T A T a resp]
    by (auto simp: await_answer_def Let_def spec_turn_ends)
qed

text \<open>The dispatch of an attempt as the log has it.\<close>

definition sent :: "'g attempt_env \<Rightarrow> attempt \<Rightarrow> route \<times> string option \<times> nat \<times> nat" where
  "sent A a = (at_candidate a, if av_key A = [] then None else Some (av_key A), av_visit A, at_turn a)"

lemma attempt_turn_spec:
  assumes key: "av_key A \<noteq> [] \<longrightarrow> av_safety A = ReplayWithKey"
  shows "case attempt_turn A T a st of
      (TurnAgain a', st') \<Rightarrow> records st [sent A a] [] 1 st' \<and> goes_on A T a a'
    | (TurnEnds r, st') \<Rightarrow>
        records st [] [at_candidate a] 0 st' \<and> (falls_back r \<longrightarrow> \<not> at_repeated a) \<or>
        records st [sent A a] [at_candidate a] 1 st' \<and>
        (falls_back r \<longrightarrow> av_safety A = ReplayOnRejection \<and> rejected_turn A T)"
proof (cases "tn_prepared T")
  case (Inl e)
  then show ?thesis by (simp add: attempt_turn_def records_release)
next
  case (Inr u)
  show ?thesis
  proof (cases "dispatch_refusal A T (remember_prepared A u a) (presented A u)")
    case (Some e)
    with Inr show ?thesis by (simp add: attempt_turn_def records_release)
  next
    case None
    let ?a = "ready_attempt A T u a"
    let ?st = "emit (av_gate A) (dispatch_effect A ?a) st"
    have turn: "attempt_turn A T a st = await_answer A T ?a ?st"
      using Inr None by (simp add: attempt_turn_def Let_def)
    have sent: "records st [sent A a] [] 0 ?st"
      using records_dispatch [of st ?a A] by (simp add: sent_def)
    have on: "goes_on A T ?a a' \<longleftrightarrow> goes_on A T a a'" for a'
      by (simp add: goes_on_def dispatch_budget_def)
    show ?thesis
      using await_answer_spec [OF key, of T ?a ?st] records_trans [OF sent]
      unfolding turn spec_turn_def on by (fastforce split: prod.splits turn_result.splits)
  qed
qed

section \<open>What the loop records\<close>

text \<open>
  The dispatches \<open>ds\<close> of an attempt: all of its candidate, up to the credential epoch, under its key and its visit;
  every one that another follows was rejected by the provider or is covered by the key.
\<close>

definition disciplined :: "'g attempt_env \<Rightarrow> (nat \<Rightarrow> turn) \<Rightarrow> route \<Rightarrow> (route \<times> string option \<times> nat \<times> nat) list \<Rightarrow> bool" where
  "disciplined A turns r ds \<longleftrightarrow>
     (\<forall>(r', k, v, t) \<in> set ds. bare r' = bare r \<and> k = (if av_key A = [] then None else Some (av_key A)) \<and> v = av_visit A) \<and>
     (\<forall>(r', k, v, t) \<in> set (butlast ds). repeatable A (turns t))"

definition all_rejected :: "'g attempt_env \<Rightarrow> (nat \<Rightarrow> turn) \<Rightarrow> (route \<times> string option \<times> nat \<times> nat) list \<Rightarrow> bool" where
  "all_rejected A turns ds \<longleftrightarrow>
     (\<forall>(r, k, v, t) \<in> set ds. av_safety A = ReplayOnRejection \<and> rejected_turn A (turns t))"

lemma attempt_loop_records:
  assumes key: "av_key A \<noteq> [] \<longrightarrow> av_safety A = ReplayWithKey"
    and run: "attempt_loop A turns a st = (r, st')"
  shows "\<exists>ds r0. records st ds [r0] (length ds) st' \<and> bare r0 = bare (at_candidate a) \<and>
           length ds \<le> 1 + dispatch_budget A a \<and> disciplined A turns (at_candidate a) ds \<and>
           (falls_back r \<longrightarrow> all_rejected A turns ds \<and> (av_key A \<noteq> [] \<longrightarrow> \<not> at_repeated a))"
  using run
proof (induction "attempt_budget a" arbitrary: a st rule: less_induct)
  case less
  let ?T = "turns (at_turn a)"
  note spec = attempt_turn_spec [OF key, where T = ?T and st = st and a = a]
  show ?case
  proof (cases "attempt_turn A ?T a st")
    case (Pair t st1)
    show ?thesis
    proof (cases t)
      case (TurnEnds r1)
      with Pair less.prems have "r1 = r" "st1 = st'" by (auto simp: attempt_loop.simps [of A turns a st])
      with spec Pair TurnEnds consider
          "records st [] [at_candidate a] 0 st'" "falls_back r \<longrightarrow> \<not> at_repeated a"
        | "records st [sent A a] [at_candidate a] 1 st'"
          "falls_back r \<longrightarrow> av_safety A = ReplayOnRejection \<and> rejected_turn A ?T"
        by auto
      then show ?thesis
      proof cases
        case 1
        then show ?thesis
          by (intro exI [of _ "[]"] exI [of _ "at_candidate a"]) (auto simp: disciplined_def all_rejected_def)
      next
        case 2
        then show ?thesis
          using key
          by (intro exI [of _ "[sent A a]"] exI [of _ "at_candidate a"])
            (auto simp: disciplined_def all_rejected_def sent_def)
      qed
    next
      case (TurnAgain a')
      let ?a = "a'\<lparr>at_turn := Suc (at_turn a)\<rparr>"
      have first: "records st [sent A a] [] 1 st1" and on: "goes_on A ?T a a'"
        using spec Pair TurnAgain by auto
      have run: "attempt_loop A turns ?a st1 = (r, st')"
        using Pair TurnAgain less.prems by (simp add: attempt_loop.simps [of A turns a st])
      have "attempt_budget ?a < attempt_budget a"
        using attempt_turn_again(1) [of A ?T a st a' st1] Pair TurnAgain by simp
      from less.hyps [OF this run] obtain ds r0 where rec: "records st1 ds [r0] (length ds) st'"
        and bare: "bare r0 = bare (at_candidate ?a)" and len: "length ds \<le> 1 + dispatch_budget A ?a"
        and disc: "disciplined A turns (at_candidate ?a) ds"
        and falls: "falls_back r \<longrightarrow> all_rejected A turns ds \<and> (av_key A \<noteq> [] \<longrightarrow> \<not> at_repeated ?a)"
        by blast
      have "records st (sent A a # ds) [r0] (length (sent A a # ds)) st'"
        using records_trans [OF first rec] by simp
      moreover have "bare r0 = bare (at_candidate a)" using bare on by (simp add: goes_on_def)
      moreover have "length (sent A a # ds) \<le> 1 + dispatch_budget A a"
        using len on by (auto simp: goes_on_def dispatch_budget_def split: if_splits)
      moreover have "disciplined A turns (at_candidate a) (sent A a # ds)"
        using disc on by (auto simp: disciplined_def sent_def goes_on_def)
      moreover have "all_rejected A turns (sent A a # ds) \<and> (av_key A \<noteq> [] \<longrightarrow> \<not> at_repeated a)" if "falls_back r"
      proof -
        have "all_rejected A turns ds" "av_key A \<noteq> [] \<longrightarrow> \<not> at_repeated a'" using falls that by auto
        with on show ?thesis by (auto simp: goes_on_def all_rejected_def repeatable_def sent_def)
      qed
      ultimately show ?thesis by blast
    qed
  qed
qed

end
