(* ===== verification/Execution.thy ===== *)
theory Execution
  imports Dispatch Applying Features
begin

text \<open>
  The orchestration of an execution (\<open>internal/kernel/kernel.go\<close>, lines 135 to 505 and 1012 to 1031, with
  \<open>PhysicalSourceAllowed\<close> and \<open>NewResponseScope\<close>): preparing the operation of a request, walking the model
  graph as the strategies plan it, and admitting the candidates of a member one after the other until one of
  them answers. What one admitted candidate does is in \<open>Dispatch\<close>.
\<close>

section \<open>The kernel and the answers of the outside\<close>

text \<open>What an adapter is told when it plans the compatibility of a request with its wire.\<close>

record compat_context =
  cx_request :: request
  cx_route :: route
  cx_operation :: string
  cx_requirements :: request_requirements
  cx_policy :: compat_policy
  cx_active_response :: bool
  cx_request_steps :: "request_step list"
  cx_response_steps :: "response_step list"
  cx_transfers :: "artifact_transfer list"
  cx_outputs :: "artifact_output list"
  cx_failures :: "transform_failure list"
  cx_output_required :: bool

record adapter =
  ad_id :: string
  ad_plan :: "compat_context \<Rightarrow> facet_mapping list"
  ad_classifier :: classifier

text \<open>
  The kernel an execution runs on: its registries, the snapshot it loads, and as functions what belongs to
  modules and to the standard library. \<open>kn_stores\<close> are the session stores, \<open>kn_artifacts\<close> whether there is an
  artifact store, \<open>kn_issuer\<close> and \<open>kn_refresher\<close> whether leases are issued and refreshed elsewhere.
\<close>

record 'g kernel =
  kn_gate :: "'g kernel_gate"
  kn_snapshot :: snapshot
  kn_operations :: operation_table
  kn_catalog :: extension_catalog
  kn_artifacts :: bool
  kn_adapters :: "(string, adapter) gomap"
  kn_classifiers :: "(ext_ref, classifier) gomap"
  kn_usage_sources :: "(ext_ref, route \<Rightarrow> usage_evidence \<Rightarrow> usage_event \<Rightarrow> usage_event option) gomap"
  kn_stores :: "ext_ref list"
  kn_transforms :: request_registry
  kn_response_transforms :: response_registry
  kn_features :: feature_registry
  kn_usage :: usage_env
  kn_usage_limits :: usage_limits
  kn_usage_capture :: usage_capture_policy
  kn_issuer :: bool
  kn_refresher :: bool
  kn_sink :: bool
  kn_codec :: proof_codec
  kn_payload :: "response_event \<Rightarrow> 64 word \<Rightarrow> string option"
  kn_encode_class :: "request_class \<Rightarrow> string"
  kn_encode_request :: "request \<Rightarrow> int option"
  kn_text_of :: "exec_error \<Rightarrow> string"
  kn_valid_header :: "string \<Rightarrow> bool"
  kn_parse_time :: "string \<Rightarrow> go_time option"

text \<open>What the outside answers when transforms run and the operation is prepared.\<close>

record stage =
  sg_clock :: "nat \<Rightarrow> transform_clock"
  sg_ctx_end :: "string option"
  sg_inspection :: inspection
  sg_now :: go_time

text \<open>
  What it answers while one candidate is admitted: the load of its session, clocks, the projector's factory,
  the issuer of leases, and then the turns of its attempt.
\<close>

record visit =
  vs_loaded :: "session_error + session_state option"
  vs_consumer_now :: go_time
  vs_projector :: "string option"
  vs_consume :: "64 word \<Rightarrow> string \<Rightarrow> string option"
  vs_finalize :: "64 word \<Rightarrow> string + string"
  vs_acquire_now :: go_time
  vs_issued :: "string + lease option"
  vs_deadline :: "go_time option"
  vs_lease_now :: "go_time \<times> go_time"
  vs_borrow_ctx :: "string option"
  vs_borrow_now :: go_time
  vs_invalidate :: "session_state \<Rightarrow> session_error + bool"
  vs_turns :: "nat \<Rightarrow> turn"

record world =
  wd_first :: stage
  wd_ctx :: "string option \<times> string option"
  wd_stage :: "nat \<Rightarrow> stage"
  wd_member :: "nat \<Rightarrow> string option \<times> go_time"
  wd_visit :: "nat \<Rightarrow> visit"

text \<open>What is fixed for all nodes of an execution.\<close>

record execution =
  ex_safety :: replay_safety
  ex_bounds :: resource_bounds
  ex_external :: "feature_requirement list"
  ex_bindings :: "transform_binding list"
  ex_credential :: credential
  ex_started :: go_time
  ex_invocation :: string

section \<open>Preparing a request\<close>

text \<open>Requirements are distinct by their reference and the text of their constraints.\<close>

definition requirement_key :: "feature_requirement \<Rightarrow> string" where
  "requirement_key r = ref_key (fr_ref r) @ nul @ fr_constraints r"

fun merge_unseen :: "string list \<Rightarrow> feature_requirement list \<Rightarrow> feature_requirement list" where
  "merge_unseen seen [] = []"
| "merge_unseen seen (r # rs) =
     (if requirement_key r \<in> set seen then merge_unseen seen rs
      else r # merge_unseen (requirement_key r # seen) rs)"

definition merge_requirements :: "feature_requirement list \<Rightarrow> feature_requirement list \<Rightarrow> feature_requirement list" where
  "merge_requirements required derived = merge_unseen [] (required @ derived)"

definition prepare_operation :: "'g kernel \<Rightarrow> stage \<Rightarrow> request \<Rightarrow> exec_error + prepared \<times> request" where
  "prepare_operation K S q =
     (case prepare_with_artifact_bodies (kn_catalog K) (kn_operations K)
            (if kn_artifacts K then sg_inspection S else (sg_inspection S)\<lparr>ins_open := None\<rparr>) (sg_now S) q of
        Inl e \<Rightarrow> Inl (ErrInput (operation_ref_of q) e)
      | Inr p \<Rightarrow> Inr (p, q\<lparr>rq_facts := pr_facts p\<rparr>))"

definition with_requirements :: "feature_requirement list \<Rightarrow> prepared \<times> request \<Rightarrow> request" where
  "with_requirements external pq =
     (case pq of (p, q) \<Rightarrow> q\<lparr>rq_requirements := merge_requirements external (pr_requirements p)\<rparr>)"

text \<open>Transforms of \<open>scopes\<close>, if there are any, and the preparation after them.\<close>

definition run_stage ::
  "'g kernel \<Rightarrow> execution \<Rightarrow> stage \<Rightarrow> transform_scope list \<Rightarrow> request \<Rightarrow>
   exec_error + (prepared \<times> request) \<times> transform_failure list" where
  "run_stage K X S scopes q =
     (case apply_request_transforms (kn_encode_request K) (kn_transforms K) (sg_clock S) (sg_ctx_end S)
             (ex_bindings X) scopes q of
        Inl e \<Rightarrow> Inl e
      | Inr (q1, fs) \<Rightarrow>
          (case prepare_operation K S q1 of
             Inl e \<Rightarrow> Inl e
           | Inr (p, q2) \<Rightarrow> Inr ((p, with_requirements (ex_external X) (p, q2)), fs)))"

definition stage_active :: "execution \<Rightarrow> transform_scope list \<Rightarrow> bool" where
  "stage_active X scopes \<longleftrightarrow> transforms_active (ex_bindings X) scopes request_transform_kind"

text \<open>The same inside the walk, where only the request and the failures go on.\<close>

definition node_stage ::
  "'g kernel \<Rightarrow> execution \<Rightarrow> world \<Rightarrow> transform_scope list \<Rightarrow> request \<Rightarrow> transform_failure list \<Rightarrow>
   'g kernel_state \<Rightarrow> (exec_error + request \<times> transform_failure list) \<times> 'g kernel_state" where
  "node_stage K X W scopes q fs st =
     (if stage_active X scopes
      then (case run_stage K X (wd_stage W (ks_stages st)) scopes q of
              Inl e \<Rightarrow> Inl e
            | Inr ((p, q1), fs1) \<Rightarrow> Inr (q1, fs @ fs1),
            st\<lparr>ks_stages := Suc (ks_stages st)\<rparr>)
      else (Inr (q, fs), st))"

section \<open>The adapter of a candidate\<close>

definition has_body_artifacts :: "artifact_ref list \<Rightarrow> bool" where
  "has_body_artifacts as \<longleftrightarrow> list_ex (\<lambda>a. ar_body a \<noteq> None) as"

definition physical_source_allowed :: "model_node \<Rightarrow> member_ref \<Rightarrow> bool" where
  "physical_source_allowed n m =
     (case mr_fidelity m of
        FidelityExact \<Rightarrow> True
      | FidelityAlias \<Rightarrow> mr_evidence m \<noteq> []
      | FidelityCompatible \<Rightarrow> mn_allow_compatible_sources n
      | FidelityDynamic \<Rightarrow> mn_allow_dynamic_sources n
      | _ \<Rightarrow> False)"

definition clone_plan_context :: "compat_plan \<Rightarrow> compat_context \<Rightarrow> compat_plan" where
  "clone_plan_context plan cx =
     plan\<lparr>pn_request_steps := cx_request_steps cx, pn_response_steps := cx_response_steps cx,
          pn_transfers := cx_transfers cx, pn_outputs := cx_outputs cx, pn_failures := cx_failures cx\<rparr>"

definition compatibility_context ::
  "'g kernel \<Rightarrow> route \<Rightarrow> request \<Rightarrow> request_requirements \<Rightarrow> transform_binding list \<Rightarrow> transform_scope list \<Rightarrow>
   transform_failure list \<Rightarrow> compat_policy \<Rightarrow> ext_ref \<Rightarrow> compat_context" where
  "compatibility_context K r q rs bindings scopes fs policy op =
     (let outputs = artifact_outputs (kn_operations K) op;
          response_steps = plan_transforms (\<lambda>ref. map_option ti_definition (gm_get (kn_response_transforms K) ref))
                             response_transform_kind bindings scopes
      in \<lparr>cx_request = q, cx_route = r, cx_operation = rr_operation rs, cx_requirements = rs,
          cx_policy = policy\<lparr>cp_required :=
            required_request_facets q @ map response_event_facet (required_response_events q) @
            (if outputs \<noteq> [] then [response_event_facet event_artifact] else [])\<rparr>,
          cx_active_response = (response_steps \<noteq> []),
          cx_request_steps = plan_transforms (\<lambda>ref. map_option ti_definition (gm_get (kn_transforms K) ref))
                               request_transform_kind bindings scopes,
          cx_response_steps = response_steps,
          cx_transfers = plan_artifact_transfers q op (rt_definition_ref r), cx_outputs = outputs,
          cx_failures = fs, cx_output_required = (outputs \<noteq> [])\<rparr>)"

definition plan_usable :: "compat_plan \<Rightarrow> bool" where
  "plan_usable p \<longleftrightarrow> pn_supported p \<and> pn_fidelity p \<in> {FidelityNative, FidelityTranslated, FidelityLossy}"

definition adapter_plan :: "'g kernel \<Rightarrow> compat_context \<Rightarrow> adapter \<Rightarrow> compat_plan" where
  "adapter_plan K cx a =
     clone_plan_context
       (compose_compatibility_plan (env_canon (kn_usage K)) [ad_plan a cx]
          ((cx_policy cx)\<lparr>cp_required := cp_required (cx_policy cx) @ [wire_response_facet]\<rparr>)) cx"

fun first_adapter :: "'g kernel \<Rightarrow> compat_context \<Rightarrow> string list \<Rightarrow> adapter option \<times> compat_plan" where
  "first_adapter K cx [] = (None, unsupported_plan (ReasonText ''no adapter satisfies the effective compatibility policy''))"
| "first_adapter K cx (i # is) =
     (case gm_get (kn_adapters K) i of
        None \<Rightarrow> first_adapter K cx is
      | Some a \<Rightarrow> if plan_usable (adapter_plan K cx a) then (Some a, adapter_plan K cx a) else first_adapter K cx is)"

definition adapter_for_route ::
  "'g kernel \<Rightarrow> route \<Rightarrow> request \<Rightarrow> request_requirements \<Rightarrow> transform_binding list \<Rightarrow> transform_scope list \<Rightarrow>
   transform_failure list \<Rightarrow> compat_policy \<Rightarrow> adapter option \<times> compat_plan" where
  "adapter_for_route K r q rs bindings scopes fs policy =
     (case gm_get (rt_operation_bindings r) (rr_operation rs) of
        None \<Rightarrow> (None, unsupported_plan (ReasonText ''route has no matching operation binding''))
      | Some b \<Rightarrow>
          if rr_operation_version rs = 0 \<or> ob_contract_version b \<noteq> rr_operation_version rs
          then (None, unsupported_plan (ReasonText ''route has no matching operation binding''))
          else let op = \<lparr>ref_kind = ''operation'', ref_id = rr_operation rs, ref_version = ob_contract_version b\<rparr>
               in if artifact_outputs (kn_operations K) op \<noteq> [] \<and> \<not> kn_artifacts K
                  then (None, unsupported_plan (ReasonText ''response artifact body store is unavailable''))
                  else first_adapter K
                         (compatibility_context K r (q\<lparr>rq_facts := []\<rparr>) rs bindings scopes fs policy op)
                         (ob_adapter_ids b))"

section \<open>Admitting a candidate\<close>

definition attempt_scopes :: "route \<Rightarrow> transform_scope list" where
  "attempt_scopes r =
     [\<lparr>ts_kind = TransformScopeRoute, ts_id = rt_id r\<rparr>] @
     (if rt_node_id r \<noteq> [] then [\<lparr>ts_kind = TransformScopeProvider, ts_id = rt_node_id r\<rparr>] else []) @
     (if rt_credential_id r \<noteq> [] then [\<lparr>ts_kind = TransformScopeConnection, ts_id = rt_credential_id r\<rparr>] else [])"

text \<open>The candidate takes what the binding of its operation says; the binding has the request's version.\<close>

definition operation_binding :: "route \<Rightarrow> request_requirements \<Rightarrow> route_operation_binding option" where
  "operation_binding r rs =
     (case gm_get (rt_operation_bindings r) (rr_operation rs) of
        None \<Rightarrow> None
      | Some b \<Rightarrow> if ob_contract_version b \<noteq> rr_operation_version rs then None else Some b)"

definition bound_candidate :: "route \<Rightarrow> route_operation_binding \<Rightarrow> request_requirements \<Rightarrow> route" where
  "bound_candidate r b rs =
     r\<lparr>rt_error_classifier_ref := ob_error_classifier_ref b, rt_usage_source_ref := ob_usage_source_ref b,
       rt_usage_options := ob_usage_options b, rt_session_store_ref := ob_session_store_ref b,
       rt_session_operation_ref :=
         \<lparr>ref_kind = ''operation'', ref_id = rr_operation rs, ref_version = rr_operation_version rs\<rparr>\<rparr>"

definition provider_owner :: "route \<Rightarrow> request \<Rightarrow> artifact_owner" where
  "provider_owner r q =
     \<lparr>ao_domain = provider_domain, ao_issuer = Some (rt_definition_ref r), ao_provider_definition = rt_definition_id r,
      ao_connection = rt_credential_id r, ao_model_identity = rt_external_model r,
      ao_client_contract = rq_source_format q, ao_session = request_session_key q\<rparr>"

fun scope_ports_invalid :: "string list \<Rightarrow> artifact_port list \<Rightarrow> bool" where
  "scope_ports_invalid seen [] = False"
| "scope_ports_invalid seen (p # ps) \<longleftrightarrow>
     trim_space (aout_role p) = [] \<or> ref_kind (aout_type_ref p) \<noteq> artifact_kind \<or> aout_max_count p \<le> 0 \<or>
     aout_min_count p < 0 \<or> aout_max_count p < aout_min_count p \<or> aout_role p \<in> set seen \<or>
     scope_ports_invalid (aout_role p # seen) ps"

text \<open>\<open>NewResponseScope\<close> with a store and a catalog: whether it is refused.\<close>

definition response_scope_refused :: "artifact_owner \<Rightarrow> artifact_owner \<Rightarrow> ext_ref \<Rightarrow> artifact_port list \<Rightarrow> int \<Rightarrow> bool" where
  "response_scope_refused owner receiver recipient outputs limit \<longleftrightarrow>
     ao_domain owner = [] \<or> ao_domain receiver = [] \<or> limit \<le> 0 \<or>
     \<not> ref_ok recipient \<or> ref_kind recipient \<noteq> ''operation'' \<or> ao_domain owner \<noteq> provider_domain \<or>
     scope_ports_invalid [] outputs"

text \<open>Whether the operation has a projector; the last argument is what its factory answers.\<close>

definition open_projector :: "operation_table \<Rightarrow> ext_ref \<Rightarrow> string option \<Rightarrow> exec_error + bool" where
  "open_projector ops op refused =
     (case gm_get ops op of
        None \<Rightarrow> Inr False
      | Some d \<Rightarrow>
          if od_result_schema d = None then Inr False
          else if \<not> od_projector d then Inl (ErrOther ''operation has no typed result projector'')
          else (case refused of Some e \<Rightarrow> Inl (ErrWrapped ''create result projector'' (ErrOther e)) | None \<Rightarrow> Inr True))"

definition idempotency_policy_of :: "route_operation_binding \<Rightarrow> adapter \<Rightarrow> idempotency_policy" where
  "idempotency_policy_of b a = gm_or (ob_idempotency b) (ad_id a) \<lparr>ip_header = [], ip_min_retention_seconds = 0\<rparr>"

definition idempotency_key_of ::
  "'g kernel \<Rightarrow> execution \<Rightarrow> idempotency_policy \<Rightarrow> request \<Rightarrow> route \<Rightarrow> ext_ref \<Rightarrow> string" where
  "idempotency_key_of K X policy q r op =
     (if ex_safety X = ReplayWithKey \<and> tr_idempotency_key (rq_transport q) \<noteq> [] \<and>
         idempotency_validate (kn_valid_header K) policy = None
      then derive_issuer_idempotency_key (tr_idempotency_key (rq_transport q)) r op else [])"

text \<open>What the checks before admission found out about a candidate.\<close>

record admission =
  am_candidate :: route
  am_request :: request
  am_operation :: ext_ref
  am_session :: session_state
  am_loaded :: bool
  am_adapter :: adapter
  am_plan :: compat_plan
  am_policy :: idempotency_policy
  am_key :: string
  am_projector :: bool

datatype verdict =
    Unsuitable
  | NotedFailure error_class exec_error
  | Fails exec_error
  | Admissible admission

text \<open>The checks on a candidate in the order of the code, after the transforms of its own scopes.\<close>

definition judge_candidate ::
  "'g kernel \<Rightarrow> execution \<Rightarrow> visit \<Rightarrow> route \<Rightarrow> request \<Rightarrow> transform_scope list \<Rightarrow> transform_failure list \<Rightarrow>
   compat_policy \<Rightarrow> verdict" where
  "judge_candidate K X V r q scopes fs policy =
     (let rs = compile_requirements q
      in case operation_binding r rs of
           None \<Rightarrow> Unsuitable
         | Some b \<Rightarrow>
             let c = bound_candidate r b rs;
                 op = rt_session_operation_ref c
             in case restore_candidate_session (kn_codec K)
                       (if rt_session_store_ref c \<in> set (kn_stores K) then Some (vs_loaded V) else None) c q of
                  Inl e \<Rightarrow> Fails (ErrSession e)
                | Inr (session, loaded, q1) \<Rightarrow>
                    if artifact_outputs (kn_operations K) op \<noteq> [] \<and> \<not> kn_artifacts K
                    then NotedFailure ErrorCapability (ErrOther ''response artifact body store is unavailable'')
                    else case validate_artifacts_for_consumer (Some (kn_catalog K)) (kn_operations K)
                                (vs_consumer_now V) op (rq_artifacts q1) (provider_owner c q1) (rt_definition_ref c) of
                      Some e \<Rightarrow> NotedFailure ErrorCapability (ErrOperation e)
                    | None \<Rightarrow>
                        if \<not> kn_artifacts K \<and> has_body_artifacts (rq_artifacts q1)
                        then NotedFailure ErrorCapability (ErrOther ''artifact body store is unavailable'')
                        else if eligible c rs \<noteq> None \<or>
                                evaluate_features (kn_catalog K) (kn_features K) c (rr_features rs) \<noteq> None
                        then Unsuitable
                        else case adapter_for_route K c q1 rs (ex_bindings X) scopes fs policy of
                          (None, _) \<Rightarrow> Unsuitable
                        | (Some a, plan) \<Rightarrow>
                            (case open_projector (kn_operations K) op (vs_projector V) of
                               Inl e \<Rightarrow> NotedFailure ErrorCapability e
                             | Inr projector \<Rightarrow>
                                 Admissible
                                   \<lparr>am_candidate = c, am_request = q1, am_operation = op, am_session = session,
                                    am_loaded = loaded, am_adapter = a, am_plan = plan,
                                    am_policy = idempotency_policy_of b a,
                                    am_key = idempotency_key_of K X (idempotency_policy_of b a) q1 c op,
                                    am_projector = projector\<rparr>))"

definition attempt_env_of ::
  "'g kernel \<Rightarrow> execution \<Rightarrow> visit \<Rightarrow> nat \<Rightarrow> request \<Rightarrow> admission \<Rightarrow> 'g attempt_env" where
  "attempt_env_of K X V n q m =
     (let c = am_candidate m; store = (rt_session_store_ref c \<in> set (kn_stores K))
      in \<lparr>av_gate = kn_gate K, av_visit = n, av_node_request = q,
          av_node_class = kn_encode_class K (request_class_of q), av_started = ex_started X,
          av_request = am_request m, av_session_key = request_session_key q, av_session = am_session m,
          av_loaded = am_loaded m, av_operation = am_operation m, av_operation_name = rq_operation (am_request m),
          av_safety = ex_safety X, av_bounds = ex_bounds X, av_plan = am_plan m, av_policy = am_policy m,
          av_key = am_key m, av_adapter = ad_classifier (am_adapter m),
          av_classifier = gm_get (kn_classifiers K) (rt_error_classifier_ref c), av_refresher = kn_refresher K,
          av_outputs = artifact_outputs (kn_operations K) (am_operation m),
          av_receiver = provider_owner c (am_request m), av_projector = am_projector m,
          av_operations = kn_operations K, av_catalog = kn_catalog K, av_codec = kn_codec K,
          av_payload = kn_payload K, av_consume = vs_consume V, av_finalize = vs_finalize V, av_stored = store,
          av_invalidate = (if store then Some (vs_invalidate V) else None),
          av_usage = (kn_usage K)\<lparr>env_source := gm_get (kn_usage_sources K) (rt_usage_source_ref c),
                                  env_requirements := map_option od_usage (gm_get (kn_operations K) (am_operation m))\<rparr>,
          av_usage_limits = kn_usage_limits K, av_usage_capture = kn_usage_capture K,
          av_invocation = ex_invocation X, av_class = kn_encode_class K (request_class_of (am_request m)),
          av_sink = kn_sink K, av_text_of = kn_text_of K, av_valid_header = kn_valid_header K,
          av_parse_time = kn_parse_time K\<rparr>)"

definition first_attempt :: "route \<Rightarrow> lease option \<Rightarrow> credential \<Rightarrow> attempt" where
  "first_attempt r l c =
     \<lparr>at_candidate = with_credential_epoch c r, at_lease = l, at_credential = c, at_refreshed = False,
      at_repeated = False, at_first = 0, at_replay = False, at_frame = ([], [], []), at_turn = 0\<rparr>"

datatype candidate_result = CandidateSkipped | CandidateNoted error_class "exec_error option" | CandidateTried attempt_result

text \<open>
  A candidate that may be admitted: the scheduler is asked, then its credential is leased, the lease borrowed
  and the scope of its artifacts opened; what was acquired is released on every refusal.
\<close>

definition admit_candidate ::
  "'g kernel \<Rightarrow> execution \<Rightarrow> visit \<Rightarrow> nat \<Rightarrow> request \<Rightarrow> admission \<Rightarrow> 'g kernel_state \<Rightarrow>
   candidate_result \<times> 'g kernel_state" where
  "admit_candidate K X V n q m st =
     (let G = kn_gate K; c = am_candidate m
      in case acquire_candidate G c (vs_acquire_now V) st of
           (False, st1) \<Rightarrow> (CandidateNoted ErrorCooldown None, st1)
         | (True, st1) \<Rightarrow>
             (case acquire_attempt_credential (if kn_issuer K then Some (vs_issued V) else None) (vs_deadline V)
                     (fst (vs_lease_now V)) (snd (vs_lease_now V)) c (ex_credential X) of
                Inl e \<Rightarrow> (CandidateNoted ErrorAuth (Some (ErrLease e)), emit G (FxRelease c) st1)
              | Inr l \<Rightarrow>
                  (case lease_borrow (vs_borrow_ctx V) (vs_borrow_now V) l (lease_scope_for_route c) of
                     Inl e \<Rightarrow> (CandidateTried (AttemptReturns (ErrLease e)), emit G (FxRelease c) (close_lease G l st1))
                   | Inr cred \<Rightarrow>
                       let A = attempt_env_of K X V n q m; a = first_attempt c l cred
                       in if av_outputs A \<noteq> [] \<and>
                             response_scope_refused (av_receiver A) (client_owner (av_request A)) (av_operation A)
                               (av_outputs A) (rb_max_output (ex_bounds X))
                          then (CandidateNoted ErrorCapability (Some (ErrOther ''response artifact scope'')),
                                release_candidate A a st1)
                          else map_prod CandidateTried id (attempt_loop A (vs_turns V) a st1))))"

definition try_candidate ::
  "'g kernel \<Rightarrow> execution \<Rightarrow> world \<Rightarrow> request \<Rightarrow> transform_scope list \<Rightarrow> transform_failure list \<Rightarrow> compat_policy \<Rightarrow>
   route \<Rightarrow> 'g kernel_state \<Rightarrow> candidate_result \<times> 'g kernel_state" where
  "try_candidate K X W q scopes fs policy r st0 =
     (let n = ks_visits st0; V = wd_visit W n; st = st0\<lparr>ks_visits := Suc n\<rparr>
      in case node_stage K X W (attempt_scopes r) q fs st of
           (Inl e, st1) \<Rightarrow> (CandidateTried (AttemptReturns e), st1)
         | (Inr (q1, fs1), st1) \<Rightarrow>
             (case judge_candidate K X V r q1 (scopes @ attempt_scopes r) fs1
                     (policy\<lparr>cp_loss_sources := ks_sources st1\<rparr>) of
                Unsuitable \<Rightarrow> (CandidateSkipped, st1)
              | NotedFailure cls e \<Rightarrow> (CandidateNoted cls (Some e), st1)
              | Fails e \<Rightarrow> (CandidateTried (AttemptReturns e), st1)
              | Admissible m \<Rightarrow> admit_candidate K X V n q m st1))"

section \<open>Walking the model graph\<close>

datatype outcome = ExecDone | ExecFails exec_error | ExecPanics

datatype candidates_result = CandidatesEnd outcome | CandidatesSpent error_class exec_error

text \<open>
  \<open>OnFailure\<close> of the node's strategy. The scheduler takes the strategies' text of an error only; its state is part
  of the execution's.
\<close>

definition node_failure ::
  "'g kernel \<Rightarrow> model_node \<Rightarrow> member_ref \<Rightarrow> error_class \<Rightarrow> exec_error \<Rightarrow> 'g kernel_state \<Rightarrow>
   (failure_action \<times> 'g kernel_state) panicking" where
  "node_failure K node m cls e st =
     (case scheduler_on_failure (ks_scheduler st) node
             \<lparr>sf_node_id = mn_id node, sf_member = m, sf_class = cls, sf_err = kn_text_of K e\<rparr> of
        Panic \<Rightarrow> Panic
      | Returns (action, s) \<Rightarrow> Returns (action, st\<lparr>ks_scheduler := s\<rparr>))"

definition node_plan_of :: "model_node \<Rightarrow> 'g kernel_state \<Rightarrow> (member_ref list \<times> 'g kernel_state) panicking" where
  "node_plan_of node st =
     (case scheduler_plan (ks_scheduler st) node of
        Panic \<Rightarrow> Panic
      | Returns (ms, s) \<Rightarrow> Returns (ms, st\<lparr>ks_scheduler := s\<rparr>))"

text \<open>The loop over the candidates of a member; \<open>cls\<close> and \<open>err\<close> are \<open>failureClass\<close> and \<open>memberErr\<close>.\<close>

fun exec_candidates ::
  "'g kernel \<Rightarrow> execution \<Rightarrow> world \<Rightarrow> model_node \<Rightarrow> member_ref \<Rightarrow> request \<Rightarrow> transform_scope list \<Rightarrow>
   transform_failure list \<Rightarrow> compat_policy \<Rightarrow> route list \<Rightarrow> error_class \<Rightarrow> exec_error \<Rightarrow> 'g kernel_state \<Rightarrow>
   candidates_result \<times> 'g kernel_state" where
  "exec_candidates K X W node m q scopes fs policy [] cls err st = (CandidatesSpent cls err, st)"
| "exec_candidates K X W node m q scopes fs policy (r # rs) cls err st =
     (case try_candidate K X W q scopes fs policy r st of
        (CandidateSkipped, st1) \<Rightarrow> exec_candidates K X W node m q scopes fs policy rs cls err st1
      | (CandidateNoted cls1 e, st1) \<Rightarrow>
          exec_candidates K X W node m q scopes fs policy rs cls1 (case e of None \<Rightarrow> err | Some e1 \<Rightarrow> e1) st1
      | (CandidateTried AttemptDone, st1) \<Rightarrow> (CandidatesEnd ExecDone, st1)
      | (CandidateTried (AttemptReturns e), st1) \<Rightarrow> (CandidatesEnd (ExecFails e), st1)
      | (CandidateTried (AttemptContinues cls1 e), st1) \<Rightarrow>
          exec_candidates K X W node m q scopes fs policy rs cls1 e st1
      | (CandidateTried (AttemptTerminal e), st1) \<Rightarrow>
          (case node_failure K node m ErrorTerminal e st1 of
             Panic \<Rightarrow> (CandidatesEnd ExecPanics, st1)
           | Returns (FailureStop, st2) \<Rightarrow> (CandidatesEnd (ExecFails e), st2)
           | Returns (FailureContinue, st2) \<Rightarrow>
               exec_candidates K X W node m q scopes fs policy rs ErrorTerminal e st2))"

text \<open>The first route of the preferred connection moves to the front, unless the front is that route.\<close>

definition promote_preferred :: "string \<Rightarrow> route list \<Rightarrow> route list" where
  "promote_preferred preferred rs =
     (if preferred = [] then rs
      else case rs of
             [] \<Rightarrow> []
           | r # rest \<Rightarrow>
               (case promote (\<lambda>c. rt_credential_id c = preferred) rest of
                  None \<Rightarrow> rs
                | Some moved \<Rightarrow> hd moved # r # tl moved))"

text \<open>The candidates of a member, ranked for the session; an unfit source of a physical node has none.\<close>

definition member_routes ::
  "'g kernel \<Rightarrow> model_node \<Rightarrow> request \<Rightarrow> go_time \<Rightarrow> member_ref \<Rightarrow> 'g kernel_state \<Rightarrow> route list \<times> 'g kernel_state" where
  "member_routes K node q now m st =
     (let candidates = map (\<lambda>r. r\<lparr>rt_session_operation_ref := operation_ref_of q\<rparr>)
                         (resolve_route_member (kn_snapshot K) m)
      in case scheduler_rank_routes_for_session (kg_gate (kn_gate K)) (ks_gate st) candidates now
                (kn_encode_class K (request_class_of q)) (sx_id (rq_session q)) of
           (rs, g) \<Rightarrow>
             (promote_preferred (tr_preferred_connection (rq_transport q))
                (if mn_kind node = ModelPhysical \<and> \<not> physical_source_allowed node m then [] else rs),
              st\<lparr>ks_gate := g\<rparr>))"

definition with_node_reasoning :: "model_node \<Rightarrow> request \<Rightarrow> request" where
  "with_node_reasoning node q =
     (if th_mode (rq_thinking q) \<in> {[], ''inherit''} \<and> th_mode (mn_reasoning node) \<notin> {[], ''inherit''}
      then q\<lparr>rq_thinking := mn_reasoning node\<rparr> else q)"

text \<open>The identifiers of nodes a walk can still enter.\<close>

definition graph_ids :: "snapshot \<Rightarrow> string set" where
  "graph_ids s = mn_id ` set (map snd (entries (sn_nodes s)))"

definition unentered :: "'g kernel \<Rightarrow> string list \<Rightarrow> nat" where
  "unentered K stack = card (graph_ids (kn_snapshot K) - set stack)"

lemma finite_graph_ids [simp]: "finite (graph_ids s)"
  by (simp add: graph_ids_def)

lemma unentered_decreases:
  "i \<in> graph_ids (kn_snapshot K) \<Longrightarrow> i \<notin> set stack \<Longrightarrow> unentered K (i # stack) < unentered K stack"
  unfolding unentered_def by (rule psubset_card_mono) auto

lemma unentered_le: "unentered K (i # stack) \<le> unentered K stack"
  unfolding unentered_def by (rule card_mono) auto

lemma get_node_id: "get_node s i = Some n \<Longrightarrow> mn_id n \<in> graph_ids s"
  by (force simp: get_node_def graph_ids_def dest: map_of_SomeD)

text \<open>
  \<open>executeNode\<close> and its loop over the planned members. The loss policy is threaded with the map of sources it shares
  with the other nodes; a node that is on the stack already is a cycle.
\<close>

function exec_node ::
  "'g kernel \<Rightarrow> execution \<Rightarrow> world \<Rightarrow> string list \<Rightarrow> model_node \<Rightarrow> request \<Rightarrow> transform_scope list \<Rightarrow>
   transform_failure list \<Rightarrow> compat_policy \<Rightarrow> 'g kernel_state \<Rightarrow> outcome \<times> 'g kernel_state"
  and exec_members ::
  "'g kernel \<Rightarrow> execution \<Rightarrow> world \<Rightarrow> string list \<Rightarrow> model_node \<Rightarrow> request \<Rightarrow> transform_scope list \<Rightarrow>
   transform_failure list \<Rightarrow> compat_policy \<Rightarrow> member_ref list \<Rightarrow> 'g kernel_state \<Rightarrow> outcome \<times> 'g kernel_state" where
  "exec_node K X W stack node q scopes fs policy st =
     (if mn_id node \<in> set stack then (ExecFails (ErrModelCycle (mn_id node)), st)
      else let policy1 = add_loss_policy (policy\<lparr>cp_loss_sources := ks_sources st\<rparr>) (mn_id node) (mn_loss_policy node);
               scope = \<lparr>ts_kind = TransformScopeModel, ts_id = mn_id node\<rparr>
           in case node_stage K X W [scope] (with_node_reasoning node q) fs (st\<lparr>ks_sources := cp_loss_sources policy1\<rparr>) of
                (Inl e, st1) \<Rightarrow> (ExecFails e, st1)
              | (Inr (q1, fs1), st1) \<Rightarrow>
                  (case node_plan_of node st1 of
                     Panic \<Rightarrow> (ExecPanics, st1)
                   | Returns (ms, st2) \<Rightarrow>
                       exec_members K X W (mn_id node # stack) node q1 (scopes @ [scope]) fs1 policy1 ms st2))"
| "exec_members K X W stack node q scopes fs policy [] st = (ExecFails ErrNoUsableRoute, st)"
| "exec_members K X W stack node q scopes fs policy (m # ms) st =
     (case wd_member W (ks_members st) of
        (Some e, _) \<Rightarrow> (ExecFails (ErrContext e), st)
      | (None, now) \<Rightarrow>
          if mr_kind m = MemberModel
          then (case get_node (kn_snapshot K) (mr_id m) of
                  None \<Rightarrow> (ExecFails (ErrUnknownNode (mr_id m)), st)
                | Some child \<Rightarrow>
                    (case exec_node K X W stack child q scopes fs policy (st\<lparr>ks_members := Suc (ks_members st)\<rparr>) of
                       (ExecFails e, st1) \<Rightarrow>
                         if \<not> is_no_route e then (ExecFails e, st1)
                         else (case node_failure K node m ErrorRetryable e st1 of
                                 Panic \<Rightarrow> (ExecPanics, st1)
                               | Returns (FailureStop, st2) \<Rightarrow> (ExecFails e, st2)
                               | Returns (FailureContinue, st2) \<Rightarrow>
                                   exec_members K X W stack node q scopes fs policy ms st2)
                     | (r, st1) \<Rightarrow> (r, st1)))
          else (case member_routes K node q now m (st\<lparr>ks_members := Suc (ks_members st)\<rparr>) of
                  (rs, st1) \<Rightarrow>
                    (case exec_candidates K X W node m q scopes fs policy rs ErrorRetryable ErrNoUsableRoute st1 of
                       (CandidatesEnd r, st2) \<Rightarrow> (r, st2)
                     | (CandidatesSpent cls err, st2) \<Rightarrow>
                         (case node_failure K node m cls err st2 of
                            Panic \<Rightarrow> (ExecPanics, st2)
                          | Returns (FailureStop, st3) \<Rightarrow> (ExecFails ErrNoUsableRoute, st3)
                          | Returns (FailureContinue, st3) \<Rightarrow>
                              exec_members K X W stack node q scopes fs policy ms st3))))"
  by pat_completeness auto
termination
proof (relation "measures
    [\<lambda>x. case x of Inl (K, X, W, stack, node, _) \<Rightarrow>
              unentered K stack + (if mn_id node \<in> graph_ids (kn_snapshot K) then 0 else 1)
            | Inr (K, X, W, stack, _) \<Rightarrow> unentered K stack,
     \<lambda>x. case x of Inl _ \<Rightarrow> 0 | Inr _ \<Rightarrow> 1,
     \<lambda>x. case x of Inl _ \<Rightarrow> 0 | Inr (K, X, W, stack, node, q, scopes, fs, policy, ms, st) \<Rightarrow> length ms]",
    goal_cases)
  case (2 K X W stack node)
  then show ?case
    using unentered_decreases [of "mn_id node" K stack] unentered_le [of K "mn_id node" stack] by auto
qed (auto dest: get_node_id)

declare exec_node.simps [simp del]

text \<open>One turn of the loop over the members; \<open>descend\<close> walks a child. No outcome lets the loop go on.\<close>

definition judge_failure ::
  "'g kernel \<Rightarrow> model_node \<Rightarrow> member_ref \<Rightarrow> error_class \<Rightarrow> exec_error \<Rightarrow> exec_error \<Rightarrow> 'g kernel_state \<Rightarrow>
   outcome option \<times> 'g kernel_state" where
  "judge_failure K node m cls err stop st =
     (case node_failure K node m cls err st of
        Panic \<Rightarrow> (Some ExecPanics, st)
      | Returns (FailureStop, st') \<Rightarrow> (Some (ExecFails stop), st')
      | Returns (FailureContinue, st') \<Rightarrow> (None, st'))"

definition member_turn ::
  "'g kernel \<Rightarrow> execution \<Rightarrow> world \<Rightarrow> (model_node \<Rightarrow> 'g kernel_state \<Rightarrow> outcome \<times> 'g kernel_state) \<Rightarrow> model_node \<Rightarrow>
   request \<Rightarrow> transform_scope list \<Rightarrow> transform_failure list \<Rightarrow> compat_policy \<Rightarrow> member_ref \<Rightarrow> 'g kernel_state \<Rightarrow>
   outcome option \<times> 'g kernel_state" where
  "member_turn K X W descend node q scopes fs policy m st =
     (case wd_member W (ks_members st) of
        (Some e, _) \<Rightarrow> (Some (ExecFails (ErrContext e)), st)
      | (None, now) \<Rightarrow>
          let st1 = st\<lparr>ks_members := Suc (ks_members st)\<rparr>
          in if mr_kind m = MemberModel
             then (case get_node (kn_snapshot K) (mr_id m) of
                     None \<Rightarrow> (Some (ExecFails (ErrUnknownNode (mr_id m))), st)
                   | Some child \<Rightarrow>
                       (case descend child st1 of
                          (ExecFails e, st2) \<Rightarrow>
                            if is_no_route e then judge_failure K node m ErrorRetryable e e st2 else (Some (ExecFails e), st2)
                        | (r, st2) \<Rightarrow> (Some r, st2)))
             else (case member_routes K node q now m st1 of
                     (rs, st2) \<Rightarrow>
                       (case exec_candidates K X W node m q scopes fs policy rs ErrorRetryable ErrNoUsableRoute st2 of
                          (CandidatesEnd r, st3) \<Rightarrow> (Some r, st3)
                        | (CandidatesSpent cls err, st3) \<Rightarrow> judge_failure K node m cls err ErrNoUsableRoute st3)))"

lemma exec_members_turn:
  "exec_members K X W stack node q scopes fs policy (m # ms) st =
     (case member_turn K X W (\<lambda>child. exec_node K X W stack child q scopes fs policy) node q scopes fs policy m st of
        (Some r, st') \<Rightarrow> (r, st')
      | (None, st') \<Rightarrow> exec_members K X W stack node q scopes fs policy ms st')"
  by (simp add: member_turn_def judge_failure_def Let_def
      split: prod.split option.split outcome.split candidates_result.split panicking.split failure_action.split)

text \<open>Induction along the walk: a node not on the stack, the end of the members, and one more member.\<close>

lemma walk_induct [case_names node finish turn]:
  fixes K :: "'g kernel"
  assumes node: "\<And>stack n. (\<And>ms. mn_id n \<notin> set stack \<Longrightarrow> Q (mn_id n # stack) n ms) \<Longrightarrow> P stack n"
    and finish: "\<And>stack n. Q stack n []"
    and turn: "\<And>stack n m ms. (\<And>i child. get_node (kn_snapshot K) i = Some child \<Longrightarrow> P stack child) \<Longrightarrow> Q stack n ms \<Longrightarrow>
                Q stack n (m # ms)"
  shows "P stack n" and "Q stack n ms"
proof -
  have Q: "Q stack n ms" for stack n ms
  proof (induction "unentered K stack" arbitrary: stack n ms rule: less_induct)
    case (less stack n ms)
    have down: "P stack child" if "get_node (kn_snapshot K) i = Some child" for i child
      using less.hyps unentered_decreases [OF get_node_id [OF that]] by (blast intro: node)
    show ?case
    proof (induction ms)
      case (Cons m ms)
      show ?case by (rule turn [OF down Cons.IH])
    qed (rule finish)
  qed
  then show "P stack n" and "Q stack n ms" by (blast intro: node)+
qed

section \<open>Execute\<close>

definition daemon_scope :: transform_scope where
  "daemon_scope = \<lparr>ts_kind = TransformScopeDaemon, ts_id = []\<rparr>"

text \<open>
  The operation is prepared before and, if the daemon's transforms ran, again after them; its replay safety and
  bounds then hold for the whole walk. \<open>wd_ctx\<close> are the errors of the context before the transforms and before
  the walk.
\<close>

definition daemon_stage ::
  "'g kernel \<Rightarrow> execution \<Rightarrow> world \<Rightarrow> prepared \<times> request \<Rightarrow> 'g kernel_state \<Rightarrow>
   (exec_error + (prepared \<times> request) \<times> transform_failure list) \<times> 'g kernel_state" where
  "daemon_stage K X W pq st =
     (if \<not> stage_active X [daemon_scope] then (Inr (pq, []), st)
      else case fst (wd_ctx W) of
             Some e \<Rightarrow> (Inl (ErrContext e), st)
           | None \<Rightarrow> (run_stage K X (wd_stage W (ks_stages st)) [daemon_scope] (snd pq), st\<lparr>ks_stages := Suc (ks_stages st)\<rparr>))"

definition execution_of :: "'g kernel \<Rightarrow> request \<Rightarrow> credential \<Rightarrow> go_time \<Rightarrow> string \<Rightarrow> prepared \<Rightarrow> execution" where
  "execution_of K q credential started invocation p =
     \<lparr>ex_safety = pr_safety p, ex_bounds = pr_bounds p, ex_external = rq_requirements q,
      ex_bindings = sn_transforms (kn_snapshot K), ex_credential = credential, ex_started = started,
      ex_invocation = invocation\<rparr>"

definition execute ::
  "'g kernel \<Rightarrow> world \<Rightarrow> credential \<Rightarrow> go_time \<Rightarrow> string \<Rightarrow> request \<Rightarrow> 'g kernel_state \<Rightarrow> outcome \<times> 'g kernel_state" where
  "execute K W credential started invocation q st0 =
     (let st = st0\<lparr>ks_sources := None\<rparr>
      in if rq_operation q = [] then (ExecFails ErrOperationRequired, st)
         else case resolve_model_node (kn_snapshot K) (rq_model q) of
                Inl e \<Rightarrow> (ExecFails (ErrGraph e), st)
              | Inr node \<Rightarrow>
                  (case prepare_operation K (wd_first W) q of
                     Inl e \<Rightarrow> (ExecFails e, st)
                   | Inr (p, q1) \<Rightarrow>
                       let X = execution_of K q credential started invocation p
                       in case daemon_stage K X W (p, with_requirements (ex_external X) (p, q1)) st of
                            (Inl e, st1) \<Rightarrow> (ExecFails e, st1)
                          | (Inr ((p2, q2), fs), st1) \<Rightarrow>
                              (case snd (wd_ctx W) of
                                 Some e \<Rightarrow> (ExecFails (ErrContext e), st1)
                               | None \<Rightarrow>
                                   exec_node K (execution_of K q credential started invocation p2) W [] node q2
                                     [daemon_scope] fs
                                     \<lparr>cp_required = [], cp_allowed = [], cp_denied = [], cp_loss_sources = None,
                                      cp_ceiling = sn_ceiling (kn_snapshot K)\<rparr> st1)))"

end
