(* ===== verification/Sample.thy ===== *)
theory Sample
  imports Execution
begin

text \<open>
  A small gateway with one operation and one model of two routes, for the witnesses of what holds of a whole
  execution. The first candidate visited is refused with the status 429, any other is answered with 200.
\<close>

definition demo_adapter :: adapter where
  "demo_adapter =
     \<lparr>ad_id = ''openai'',
      ad_plan = (\<lambda>cx. map (\<lambda>f. \<lparr>fm_facet = f, fm_paths = [], fm_disposition = FacetPreserved, fm_losses = [],
                                  fm_reason = no_reason\<rparr>) (remdups (cp_required (cx_policy cx) @ [wire_response_facet]))),
      ad_classifier = \<lparr>cl_classify = (\<lambda>status body. if status = 429 then ErrorCooldown else ErrorTerminal),
                       cl_outcome = None, cl_response = None\<rparr>\<rparr>"

definition demo_route :: "string \<Rightarrow> route" where
  "demo_route i =
     zero_route\<lparr>rt_id := i, rt_enabled := True, rt_credential_id := ''c'' @ i, rt_definition_id := ''p'',
       rt_operation_bindings := [(operation_chat_generate,
         zero_binding\<lparr>ob_contract_version := 1, ob_adapter_ids := [''openai'']\<rparr>)]\<rparr>"

definition demo_snapshot :: snapshot where
  "demo_snapshot =
     zero_snapshot\<lparr>
       sn_public := Some [(''gpt'', \<lparr>pm_name = ''gpt'', pm_target_ref = ''m'', pm_owned_by = []\<rparr>)],
       sn_routes := Some [(''a'', demo_route ''a''), (''b'', demo_route ''b'')],
       sn_nodes := Some [(''m'', zero_node\<lparr>mn_id := ''m'', mn_kind := ModelPhysical, mn_strategy := StrategyFallback,
         mn_members := [(member_of MemberRoute ''a'')\<lparr>mr_fidelity := FidelityExact\<rparr>,
                        (member_of MemberRoute ''b'')\<lparr>mr_fidelity := FidelityExact\<rparr>]\<rparr>)]\<rparr>"

definition demo_gate :: "unit kernel_gate" where
  "demo_gate =
     \<lparr>kg_gate = \<lparr>g_usable = (\<lambda>_ _ _. True), g_rank = None, g_rank_for = None, g_rank_session = None,
                  g_acquire = None, g_release = None\<rparr>,
      kg_observe = None, kg_feedback = None, kg_usage = None\<rparr>"

definition demo_kernel :: "unit kernel" where
  "demo_kernel =
     \<lparr>kn_gate = demo_gate, kn_snapshot = demo_snapshot,
      kn_operations = [(mk_ref operation_kind operation_chat_generate 1, chat_generate_definition)],
      kn_catalog = \<lparr>xc_descriptors = [], xc_schema_accepts = (\<lambda>_ _. True)\<rparr>, kn_artifacts = False,
      kn_adapters = [(''openai'', demo_adapter)], kn_classifiers = [], kn_usage_sources = [], kn_stores = [],
      kn_transforms = [], kn_response_transforms = [], kn_features = [],
      kn_usage = \<lparr>env_canon = (\<lambda>s. Some (Encoded s)), env_catalog = None, env_encoder = (\<lambda>_. None),
                  env_source = None, env_requirements = None\<rparr>,
      kn_usage_limits = default_usage_limits, kn_usage_capture = default_usage_capture_policy,
      kn_issuer = False, kn_refresher = False, kn_sink = False,
      kn_codec = \<lparr>pc_arguments = (\<lambda>s. Some s), pc_call = (\<lambda>a b c. a), pc_context = (\<lambda>_ _ _. Some []),
                  pc_message = (\<lambda>_. Some [])\<rparr>,
      kn_payload = (\<lambda>_ _. Some []), kn_encode_class = (\<lambda>_. []), kn_encode_request = (\<lambda>_. Some 0),
      kn_text_of = (\<lambda>_. []), kn_valid_header = (\<lambda>_. True), kn_parse_time = (\<lambda>_. None)\<rparr>"

definition demo_stage :: stage where
  "demo_stage =
     \<lparr>sg_clock = (\<lambda>_. calm_clock), sg_ctx_end = None,
      sg_inspection = sample_inspection\<lparr>ins_request := (\<lambda>_. Some ''{}'')\<rparr>, sg_now = 1\<rparr>"

definition demo_turn :: "int \<Rightarrow> turn" where
  "demo_turn status =
     \<lparr>tn_prepared = Inr \<lparr>uq_method = ''POST'', uq_url = ''http://p'', uq_headers = [], uq_replay = True\<rparr>,
      tn_ctx_dispatch = None, tn_lease_ctx = (None, None), tn_lease_now = (1, 1), tn_lease_check = None,
      tn_lease_revoked = False, tn_replay_now = 1, tn_dispatch_now = 1, tn_attempt_id = ''i'', tn_attempt_now = 1,
      tn_answer = Inr \<lparr>us_status = status, us_headers = [], us_body = []\<rparr>, tn_finish_now = (1, 1),
      tn_cancelled = False, tn_ctx = None, tn_deadline = False, tn_repeat_now = 1, tn_refresh_now = 1,
      tn_invalidate_ctx = None, tn_refresh_error = None, tn_refresh_lease = None, tn_refresh_same = False,
      tn_borrow_ctx = None, tn_borrow_now = 1, tn_retry_after_now = 1, tn_calls = [], tn_returned = None,
      tn_close_error = None, tn_save = None, tn_event_now = 1, tn_latency_now = 1, tn_success_now = (1, 1),
      tn_success_cancelled = False, tn_report_now = 1, tn_report_ctx = None, tn_report_deadline = False,
      tn_end_ctx = None\<rparr>"

definition demo_visit :: "int \<Rightarrow> visit" where
  "demo_visit status =
     \<lparr>vs_loaded = Inr None, vs_consumer_now = 1, vs_projector = None, vs_consume = (\<lambda>_ _. None),
      vs_finalize = (\<lambda>_. Inr []), vs_acquire_now = 1, vs_issued = Inl [], vs_deadline = None,
      vs_lease_now = (1, 1), vs_borrow_ctx = None, vs_borrow_now = 1, vs_invalidate = (\<lambda>_. Inr False),
      vs_turns = (\<lambda>_. demo_turn status)\<rparr>"

text \<open>The first candidate visited is refused, all others are answered.\<close>

definition demo_world :: world where
  "demo_world =
     \<lparr>wd_first = demo_stage, wd_ctx = (None, None), wd_stage = (\<lambda>_. demo_stage), wd_member = (\<lambda>_. (None, 1)),
      wd_visit = (\<lambda>n. demo_visit (if n = 0 then 429 else 200))\<rparr>"

definition demo_request :: request where
  "demo_request = zero_request\<lparr>rq_model := ''gpt'', rq_operation := operation_chat_generate, rq_operation_version := 1\<rparr>"

definition demo_state :: "unit kernel_state" where
  "demo_state = \<lparr>ks_scheduler = new_scheduler, ks_gate = (), ks_sources = None, ks_visits = 0, ks_stages = 0,
                 ks_members = 0, ks_log = [], ks_client = []\<rparr>"

end
