(* ===== verification/Discipline.thy ===== *)
theory Discipline
  imports Sample Health
begin

text \<open>
  What an execution guarantees: a request is sent again only where the provider rejected it or its idempotency
  key covers it, every admitted candidate is released and every dispatch accounted for. The lemmas follow the
  composition of the model: one attempt, one candidate, the candidates of a member, and the nodes of a graph.
\<close>

section \<open>Errors of the outside\<close>

text \<open>
  An error that wraps \<open>ErrNoRoute\<close> tells a node that nothing was done and that another member may be tried. The
  errors the outside returns while a request is prepared, dispatched and rendered do not wrap it.
\<close>

fun honest_writer_call :: "writer_call \<Rightarrow> bool" where
  "honest_writer_call (OpHeader ctx status) \<longleftrightarrow> True"
| "honest_writer_call (OpWrite ctx ctx' inner data) \<longleftrightarrow> (case snd inner of None \<Rightarrow> True | Some e \<Rightarrow> \<not> is_no_route e)"
| "honest_writer_call (OpFlush ctx ctx' inner) \<longleftrightarrow> (case inner of None \<Rightarrow> True | Some e \<Rightarrow> \<not> is_no_route e)"

fun honest_call :: "render_call \<Rightarrow> bool" where
  "honest_call (CallError now ctx deadline e) \<longleftrightarrow> \<not> is_no_route e"
| "honest_call (CallWriter x) \<longleftrightarrow> honest_writer_call x"
| "honest_call _ \<longleftrightarrow> True"

definition honest_turn :: "turn \<Rightarrow> bool" where
  "honest_turn T \<longleftrightarrow>
     (case tn_prepared T of Inl e \<Rightarrow> \<not> is_no_route e | Inr _ \<Rightarrow> True) \<and>
     (case tn_answer T of Inl e \<Rightarrow> \<not> is_no_route e | Inr _ \<Rightarrow> True) \<and>
     (case tn_returned T of Some e \<Rightarrow> \<not> is_no_route e | None \<Rightarrow> True) \<and>
     (case tn_close_error T of Some e \<Rightarrow> \<not> is_no_route e | None \<Rightarrow> True) \<and>
     list_all honest_call (tn_calls T)"

text \<open>The errors a response holds while it is rendered.\<close>

definition honest_response :: "response_state \<Rightarrow> bool" where
  "honest_response rs \<longleftrightarrow>
     (\<forall>e. rs_terminal rs = Some e \<longrightarrow> \<not> is_no_route e) \<and> (\<forall>e. cw_failure (rs_writer rs) = Some e \<longrightarrow> \<not> is_no_route e)"

lemma honest_responseI:
  "honest_response rs \<Longrightarrow> rs_terminal rs' = rs_terminal rs \<Longrightarrow> rs_writer rs' = rs_writer rs \<Longrightarrow> honest_response rs'"
  by (simp add: honest_response_def)

lemma effect_keeps [simp]:
  "rs_terminal (effect x rs) = rs_terminal rs" "rs_writer (effect x rs) = rs_writer rs"
  "rs_terminal (emit_event E e rs) = rs_terminal rs" "rs_writer (emit_event E e rs) = rs_writer rs"
  by (simp_all add: effect_def emit_event_def)

definition same_errors :: "response_state \<Rightarrow> response_state \<Rightarrow> bool" where
  "same_errors rs rs' \<longleftrightarrow> rs_terminal rs' = rs_terminal rs \<and> rs_writer rs' = rs_writer rs"

lemma same_errors_refl [simp]: "same_errors rs rs"
  by (simp add: same_errors_def)

lemma same_errors_trans: "same_errors a b \<Longrightarrow> same_errors b c \<Longrightarrow> same_errors a c"
  by (simp add: same_errors_def)

lemma and_then_same_errors:
  "same_errors rs (snd p) \<Longrightarrow> (\<And>rs'. same_errors rs' (snd (f rs'))) \<Longrightarrow> same_errors rs (snd (and_then p f))"
  by (cases p; cases "fst p") (auto simp: and_then_def intro: same_errors_trans)

lemma same_errors_parts:
  "same_errors rs (snd (check_signature E e rs))"
  "same_errors rs (snd (check_artifacts E now e rs))"
  "same_errors rs (snd (project_event E e payload rs))"
  by (auto simp: check_signature_def record_signature_def check_artifacts_def project_event_def Let_def same_errors_def
      split: option.splits sum.splits prod.splits)

lemma same_errors_validate: "same_errors rs (snd (validate_event E now e rs))"
proof -
  let ?rs = "rs\<lparr>rs_sequence := rs_sequence rs + 1\<rparr>"
  have "same_errors rs ?rs" by (simp add: same_errors_def)
  moreover have "same_errors ?rs (snd (validate_event E now e rs))"
    unfolding validate_event_def Let_def
    by (intro and_then_same_errors same_errors_parts)
      (auto split: option.split intro!: and_then_same_errors same_errors_parts simp: same_errors_def [of _ "snd (_, _)"])
  ultimately show ?thesis by (rule same_errors_trans)
qed

lemma same_errors_normalize: "same_errors rs (snd (normalize_provider_failure E ctx ctx' data rs))"
  by (auto simp: normalize_provider_failure_def Let_def same_errors_def split: option.splits)

lemma honest_same: "honest_response rs \<Longrightarrow> same_errors rs rs' \<Longrightarrow> honest_response rs'"
  by (simp add: honest_response_def same_errors_def)

lemma honest_report: "honest_response rs \<Longrightarrow> \<not> is_no_route e \<Longrightarrow> honest_response (report_failure E text now ctx deadline e rs)"
  by (auto simp: report_failure_def honest_response_def Let_def split: option.split)

definition honest_writer :: "commit_writer \<Rightarrow> bool" where
  "honest_writer w \<longleftrightarrow> (\<forall>e. cw_failure w = Some e \<longrightarrow> \<not> is_no_route e)"

lemma latch_honest: "honest_writer w \<Longrightarrow> \<forall>x. e = Some x \<longrightarrow> \<not> is_no_route x \<Longrightarrow> honest_writer (latch_failure e w)"
  by (simp add: honest_writer_def latch_failure_def)

lemma header_failure [simp]: "cw_failure (fst (writer_header ctx status w)) = cw_failure w"
  by (simp add: writer_header_def)

lemma honest_writer_cong: "cw_failure w' = cw_failure w \<Longrightarrow> honest_writer w' = honest_writer w"
  by (simp add: honest_writer_def)

lemma write_honest:
  assumes "honest_writer w" and "\<forall>e. snd inner = Some e \<longrightarrow> \<not> is_no_route e"
  shows "honest_writer (fst (snd (writer_write ctx ctx' inner data w)))"
proof (cases "cw_failure w")
  case None
  let ?p = "if \<not> cw_committed w then writer_header ctx' 200 w else (w, [])"
  obtain w1 calls where p: "?p = (w1, calls)" by fastforce
  have "cw_failure (fst ?p) = cw_failure w" by simp
  then have "cw_failure w1 = cw_failure w" unfolding p by simp
  then have "honest_writer (w1\<lparr>cw_written := cw_written w1 + fst inner\<rparr>)"
    using assms(1) by (simp add: honest_writer_def)
  moreover have "\<forall>e. map_option (wrap_response_failure OriginClient) (snd inner) = Some e \<longrightarrow> \<not> is_no_route e"
    using assms(2) by auto
  ultimately show ?thesis
    using None assms(1) unfolding writer_write_def p Let_def
    by (cases ctx) (auto intro!: latch_honest)
qed (use assms in \<open>simp add: writer_write_def\<close>)

lemma flush_honest:
  assumes "honest_writer w" and "\<forall>e. inner = Some e \<longrightarrow> \<not> is_no_route e"
  shows "honest_writer (fst (snd (writer_flush ctx ctx' inner w)))"
proof (cases "cw_failure w")
  case None
  let ?p = "if \<not> cw_committed w then writer_header ctx' 200 w else (w, [])"
  obtain w1 calls where p: "?p = (w1, calls)" by fastforce
  have "cw_failure (fst ?p) = cw_failure w" by simp
  then have "cw_failure w1 = cw_failure w" unfolding p by simp
  then have "honest_writer w1" using assms(1) by (simp add: honest_writer_def)
  moreover have "\<forall>e. map_option (wrap_response_failure OriginClient) inner = Some e \<longrightarrow> \<not> is_no_route e"
    using assms(2) by auto
  ultimately show ?thesis
    using None assms(1) unfolding writer_flush_def p Let_def
    by (cases ctx) (auto intro!: latch_honest)
qed (use assms in \<open>simp add: writer_flush_def\<close>)

lemma writer_failure_honest:
  assumes "honest_writer w" and "honest_writer_call x"
  shows "honest_writer (fst (writer_op x w))"
  using assms
proof (cases x)
  case (OpHeader ctx status)
  then show ?thesis using assms(1) by (simp add: honest_writer_cong [OF header_failure])
next
  case (OpWrite ctx ctx' inner data)
  then show ?thesis using assms write_honest [OF assms(1), of inner ctx ctx' data] by (auto split: option.splits)
next
  case (OpFlush ctx ctx' inner)
  then show ?thesis using assms flush_honest [OF assms(1), of inner ctx ctx'] by (auto split: option.splits)
qed

lemma honest_step:
  assumes "honest_response rs" and "honest_call x"
  shows "honest_response (render_step E text x rs)"
proof (cases x)
  case (CallValidate now e)
  then show ?thesis using assms(1) by (simp add: honest_same [OF _ same_errors_validate])
next
  case (CallNormalize ctx ctx' data)
  then show ?thesis using assms(1) by (simp add: honest_same [OF _ same_errors_normalize])
next
  case (CallError now ctx deadline e)
  then show ?thesis using assms by (simp add: honest_report)
next
  case (CallWriter w)
  then show ?thesis
    using assms writer_failure_honest [of "rs_writer rs" w]
    by (auto simp: on_writer_def honest_response_def honest_writer_def split: prod.split)
next
  case (CallComplete now now' u)
  then show ?thesis
    using assms(1) by (auto simp: on_complete_def honest_response_def split: prod.split bool.split option.split)
qed (use assms in \<open>auto simp: on_event_def on_session_state_def Let_def intro: honest_responseI\<close>)

lemma honest_calls:
  "honest_response rs \<Longrightarrow> list_all honest_call xs \<Longrightarrow> honest_response (render_calls E text xs rs)"
  unfolding render_calls_def by (induction xs arbitrary: rs) (auto intro: honest_step)

lemma final_error_honest:
  assumes "honest_response rs" and "final_render_error E returned close_err ctx rs = Some e"
    and "\<forall>e. returned = Some e \<longrightarrow> \<not> is_no_route e" and "\<forall>e. close_err = Some e \<longrightarrow> \<not> is_no_route e"
  shows "\<not> is_no_route e"
  using assms by (auto simp: final_render_error_def Let_def honest_response_def split: option.splits if_splits)

section \<open>An attempt that returns an error\<close>

lemma suppressed_honest [simp]: "is_no_route (suppressed_replay A f e) = is_no_route e"
  by (simp add: suppressed_replay_def)

lemma rendered_honest:
  assumes "honest_turn T" and "fst (answer_rendered A T a acc resp st) = AttemptReturns e"
  shows "\<not> is_no_route e"
proof -
  let ?E = "response_env_of A a"
  let ?start = "new_response_state (av_session A)
     (attempt_set_evidence acc
        \<lparr>ev_status_code = us_status resp, ev_headers = us_headers resp, ev_error_body = []\<rparr>) (rb_max_output (av_bounds A))"
  let ?rs = "render_calls ?E (av_text_of A) (tn_calls T) ?start"
  have "honest_response ?start"
    by (simp add: honest_response_def new_response_state_def new_commit_writer_def)
  then have "honest_response ?rs" using assms(1) by (intro honest_calls) (simp_all add: honest_turn_def)
  then have "\<not> is_no_route e'"
    if "final_render_error ?E (tn_returned T) (tn_close_error T) (tn_ctx T) ?rs = Some e'" for e'
    using that assms(1) by (elim final_error_honest) (auto simp: honest_turn_def)
  then show ?thesis
    using assms(2) by (auto simp: answer_rendered_def Let_def split: option.splits if_splits)
qed

lemma refusal_error_honest [simp]: "\<not> is_no_route (refusal_error oc status body)"
  by (simp add: refusal_error_def is_no_route_with_outcome)

lemma continuity_honest: "fst (answer_continuity A T a status oc st) = AttemptReturns e \<Longrightarrow> \<not> is_no_route e"
  by (auto simp: answer_continuity_def Let_def is_no_route_with_outcome split: option.splits if_splits)

lemma final_honest: "fst (answer_final A T a resp body oc st) = AttemptReturns e \<Longrightarrow> \<not> is_no_route e"
  by (auto simp: answer_final_def Let_def split: if_splits)

lemma answer_refused_ends:
  assumes "fst (answer_refused A T a acc resp st) = TurnEnds r"
  shows "(\<exists>oc st'. r = fst (answer_continuity A T a (us_status resp) oc st')) \<or>
         (\<exists>body oc st'. r = fst (answer_final A T a resp body oc st'))"
  using assms unfolding answer_refused_def Let_def
  by (simp only: fst_map_prod fst_conv turn_result.inject turn_result.distinct split: if_splits option.splits) blast+

lemma refused_honest:
  assumes "fst (answer_refused A T a acc resp st) = TurnEnds (AttemptReturns e)"
  shows "\<not> is_no_route e"
  using answer_refused_ends [OF assms] by (metis continuity_honest final_honest)

lemma failed_honest:
  "fst (answer_failed A T a e st) = TurnEnds (AttemptReturns e') \<Longrightarrow> \<not> is_no_route e \<Longrightarrow> \<not> is_no_route e'"
  by (auto simp: answer_failed_def split: option.splits if_splits)

lemma refusal_honest: "dispatch_refusal A T a u = Some e \<Longrightarrow> \<not> is_no_route e"
  by (auto simp: dispatch_refusal_def or_else_def split: option.splits if_splits)

lemma turn_honest:
  assumes "honest_turn T" and "fst (attempt_turn A T a st) = TurnEnds (AttemptReturns e)"
  shows "\<not> is_no_route e"
proof (cases "tn_prepared T")
  case (Inl e')
  then show ?thesis using assms by (auto simp: attempt_turn_def honest_turn_def split: if_splits)
next
  case (Inr u)
  show ?thesis
  proof (cases "dispatch_refusal A T (remember_prepared A u a) (presented A u)")
    case (Some e')
    then show ?thesis using assms(2) Inr refusal_honest by (fastforce simp: attempt_turn_def)
  next
    case None
    let ?a = "ready_attempt A T u a"
    obtain st' where await: "fst (await_answer A T ?a st') = TurnEnds (AttemptReturns e)"
      using assms(2) Inr None by (auto simp: attempt_turn_def Let_def)
    show ?thesis
    proof (cases "tn_answer T")
      case (Inl e')
      then show ?thesis
        using await assms(1) by (auto simp: await_answer_def Let_def honest_turn_def dest: failed_honest)
    next
      case (Inr resp)
      then show ?thesis
        using await refused_honest rendered_honest [OF assms(1)]
        by (fastforce simp: await_answer_def Let_def split: if_splits)
    qed
  qed
qed

lemma loop_honest:
  "\<forall>n. honest_turn (turns n) \<Longrightarrow> fst (attempt_loop A turns a st) = AttemptReturns e \<Longrightarrow> \<not> is_no_route e"
proof (induction A turns a st rule: attempt_loop.induct)
  case (1 A turns a st)
  obtain t st1 where turn: "attempt_turn A (turns (at_turn a)) a st = (t, st1)" by fastforce
  show ?case
  proof (cases t)
    case (TurnEnds r)
    then have "fst (attempt_turn A (turns (at_turn a)) a st) = TurnEnds (AttemptReturns e)"
      using "1.prems" turn by (simp add: attempt_loop.simps [of A turns a st])
    then show ?thesis by (rule turn_honest [OF "1.prems"(1) [rule_format]])
  next
    case (TurnAgain a')
    then show ?thesis
      using "1.prems" "1.IH" [OF turn [symmetric]] turn by (simp add: attempt_loop.simps [of A turns a st])
  qed
qed

section \<open>The log of an execution\<close>

text \<open>A response that some installed adapter, or classifier on top of it, takes for a rejection.\<close>

definition upstream_rejected :: "'g kernel \<Rightarrow> turn \<Rightarrow> bool" where
  "upstream_rejected K T \<longleftrightarrow>
     (case tn_answer T of
        Inl e \<Rightarrow> False
      | Inr resp \<Rightarrow>
          400 \<le> us_status resp \<and>
          (\<exists>a \<in> snd ` set (kn_adapters K). \<exists>c \<in> insert None (Some ` snd ` set (kn_classifiers K)).
             oc_effect (refused_outcome (ad_classifier a) c (us_status resp) (us_headers resp)
                          (take (64 * 1024) (us_body resp))) = EffectRejected))"

definition refused :: "'g kernel \<Rightarrow> replay_safety \<Rightarrow> world \<Rightarrow> route \<times> string option \<times> nat \<times> nat \<Rightarrow> bool" where
  "refused K safety W d \<longleftrightarrow>
     (case d of (r, k, v, t) \<Rightarrow> safety = ReplayOnRejection \<and> upstream_rejected K (vs_turns (wd_visit W v) t))"

text \<open>When the dispatch \<open>d'\<close> may follow \<open>d\<close>: after a rejection, or to the same candidate under the same key.\<close>

definition follows ::
  "'g kernel \<Rightarrow> replay_safety \<Rightarrow> world \<Rightarrow> route \<times> string option \<times> nat \<times> nat \<Rightarrow> route \<times> string option \<times> nat \<times> nat \<Rightarrow> bool" where
  "follows K safety W d d' \<longleftrightarrow>
     refused K safety W d \<or>
     (case (d, d') of ((r, k, v, t), (r', k', v', t')) \<Rightarrow>
        safety = ReplayWithKey \<and> k \<noteq> None \<and> k' = k \<and> v' = v \<and> bare r' = bare r)"

definition honest_world :: "world \<Rightarrow> bool" where
  "honest_world W \<longleftrightarrow> (\<forall>v t. honest_turn (vs_turns (wd_visit W v) t))"

text \<open>
  The dispatches of an execution. Where it goes on to other candidates, every dispatch so far was refused.
\<close>

definition disciplined_log ::
  "'g kernel \<Rightarrow> replay_safety \<Rightarrow> world \<Rightarrow> bool \<Rightarrow> (route \<times> string option \<times> nat \<times> nat) list \<Rightarrow> bool" where
  "disciplined_log K safety W falls ds \<longleftrightarrow>
     successively (follows K safety W) ds \<and> (falls \<longrightarrow> list_all (refused K safety W) ds) \<and>
     (safety \<noteq> ReplayOnRejection \<longrightarrow> length ds \<le> (if safety = ReplayWithKey then 2 else 1))"

lemma disciplined_append:
  assumes "disciplined_log K s W True ds" and "disciplined_log K s W f ds'"
  shows "disciplined_log K s W f (ds @ ds')"
proof -
  have all: "list_all (refused K s W) ds" using assms(1) by (simp add: disciplined_log_def)
  have "follows K s W (last ds) (hd ds')" if "ds \<noteq> []"
    using all last_in_set [OF that] unfolding list_all_iff follows_def by blast
  then have "successively (follows K s W) (ds @ ds')"
    using assms by (auto simp: successively_append_iff disciplined_log_def)
  moreover have "ds = []" if "s \<noteq> ReplayOnRejection"
    using all that by (cases ds) (auto simp: refused_def split: prod.splits)
  ultimately show ?thesis using assms all by (auto simp: disciplined_log_def)
qed

text \<open>The log that takes \<open>st\<close> to \<open>st'\<close>: its dispatches, and what it admits, releases and accounts for.\<close>

definition performs :: "'g kernel \<Rightarrow> execution \<Rightarrow> world \<Rightarrow> 'g kernel_state \<Rightarrow> bool \<Rightarrow> 'g kernel_state \<Rightarrow> bool" where
  "performs K X W st falls st' \<longleftrightarrow>
     (\<exists>xs. ks_log st' = ks_log st @ xs \<and> (honest_world W \<longrightarrow> disciplined_log K (ex_safety X) W falls (dispatched xs)) \<and>
        map bare (acquired xs) = map bare (released xs) \<and> length (accounted xs) = length (dispatched xs) \<and>
        (\<forall>d \<in> set (dispatched xs). bare (fst d) \<in> bare ` set (acquired xs)))"

lemma performs_same: "ks_log st' = ks_log st \<Longrightarrow> performs K X W st f st'"
  unfolding performs_def by (rule exI [of _ "[]"]) (simp add: disciplined_log_def)

lemma performs_log:
  "ks_log a = ks_log b \<Longrightarrow> performs K X W a f st' = performs K X W b f st'"
  "ks_log a = ks_log b \<Longrightarrow> performs K X W st f a = performs K X W st f b"
  by (simp_all add: performs_def)

lemma performs_weaken: "performs K X W a True b \<Longrightarrow> performs K X W a f b"
  unfolding performs_def disciplined_log_def by blast

lemma performs_trans:
  assumes "performs K X W a True b" and "performs K X W b f c"
  shows "performs K X W a f c"
proof -
  from assms(1) obtain xs where xs: "ks_log b = ks_log a @ xs"
    "honest_world W \<longrightarrow> disciplined_log K (ex_safety X) W True (dispatched xs)"
    "map bare (acquired xs) = map bare (released xs)" "length (accounted xs) = length (dispatched xs)"
    "\<forall>d \<in> set (dispatched xs). bare (fst d) \<in> bare ` set (acquired xs)"
    unfolding performs_def by blast
  from assms(2) obtain ys where ys: "ks_log c = ks_log b @ ys"
    "honest_world W \<longrightarrow> disciplined_log K (ex_safety X) W f (dispatched ys)"
    "map bare (acquired ys) = map bare (released ys)" "length (accounted ys) = length (dispatched ys)"
    "\<forall>d \<in> set (dispatched ys). bare (fst d) \<in> bare ` set (acquired ys)"
    unfolding performs_def by blast
  have "honest_world W \<longrightarrow> disciplined_log K (ex_safety X) W f (dispatched xs @ dispatched ys)"
    using xs(2) ys(2) disciplined_append by blast
  with xs ys show ?thesis
    unfolding performs_def by (intro exI [of _ "xs @ ys"]) auto
qed

section \<open>A candidate\<close>

definition candidate_falls :: "candidate_result \<Rightarrow> bool" where
  "candidate_falls r =
     (case r of
        CandidateTried AttemptDone \<Rightarrow> False
      | CandidateTried (AttemptReturns e) \<Rightarrow> is_no_route e
      | _ \<Rightarrow> True)"

text \<open>What the checks before admission leave.\<close>

definition admits :: "'g kernel \<Rightarrow> execution \<Rightarrow> admission \<Rightarrow> bool" where
  "admits K X m \<longleftrightarrow> am_adapter m \<in> snd ` set (kn_adapters K) \<and> (am_key m \<noteq> [] \<longrightarrow> ex_safety X = ReplayWithKey)"

lemma first_adapter_installed: "first_adapter K cx is = (Some a, plan) \<Longrightarrow> a \<in> snd ` set (kn_adapters K)"
  by (induction "is") (auto split: option.splits if_splits dest!: map_of_SomeD intro: rev_image_eqI)

lemma adapter_for_route_installed:
  "adapter_for_route K r q rs bs scopes fs policy = (Some a, plan) \<Longrightarrow> a \<in> snd ` set (kn_adapters K)"
  by (auto simp: adapter_for_route_def Let_def split: option.splits if_splits
      dest: first_adapter_installed)

lemma judge_admits: "judge_candidate K X V r q scopes fs policy = Admissible m \<Longrightarrow> admits K X m"
  by (auto simp: judge_candidate_def Let_def admits_def idempotency_key_of_def
      split: option.splits sum.splits prod.splits if_splits dest: adapter_for_route_installed)

lemma classifier_installed:
  "gm_get (kn_classifiers K) r \<in> insert None (Some ` snd ` set (kn_classifiers K))"
proof (cases "gm_get (kn_classifiers K) r")
  case (Some c)
  then have "c \<in> snd ` set (kn_classifiers K)" by (force dest: map_of_SomeD)
  with Some show ?thesis by simp
qed simp

lemma rejected_installed:
  assumes "admits K X m" and "rejected_turn (attempt_env_of K X V n q m) T"
  shows "upstream_rejected K T"
proof (cases "tn_answer T")
  case (Inr resp)
  let ?c = "gm_get (kn_classifiers K) (rt_error_classifier_ref (am_candidate m))"
  have "400 \<le> us_status resp"
    and "oc_effect (refused_outcome (ad_classifier (am_adapter m)) ?c (us_status resp) (us_headers resp)
           (take (64 * 1024) (us_body resp))) = EffectRejected"
    using assms(2) Inr by (simp_all add: rejected_turn_def attempt_env_of_def Let_def)
  moreover have "am_adapter m \<in> snd ` set (kn_adapters K)" using assms(1) by (simp only: admits_def)
  ultimately show ?thesis
    using Inr classifier_installed unfolding upstream_rejected_def by (simp only: sum.case) blast
qed (use assms(2) in \<open>simp add: rejected_turn_def\<close>)

lemma attempt_env_simps [simp]:
  "av_key (attempt_env_of K X V n q m) = am_key m" "av_safety (attempt_env_of K X V n q m) = ex_safety X"
  "av_visit (attempt_env_of K X V n q m) = n" "av_gate (attempt_env_of K X V n q m) = kn_gate K"
  by (simp_all add: attempt_env_of_def Let_def)

lemma first_attempt_simps [simp]:
  "at_candidate (first_attempt r l c) = with_credential_epoch c r" "at_repeated (first_attempt r l c) = False"
  "at_refreshed (first_attempt r l c) = False" "at_lease (first_attempt r l c) = l"
  by (simp_all add: first_attempt_def)

lemma disciplined_follows:
  assumes adm: "admits K X m" and disc: "disciplined (attempt_env_of K X (wd_visit W n) n q m) (vs_turns (wd_visit W n)) r ds"
  shows "successively (follows K (ex_safety X) W) ds"
  using disc
proof (induction ds rule: induct_list012)
  case (3 d d' ds)
  let ?A = "attempt_env_of K X (wd_visit W n) n q m"
  obtain r1 k1 v1 t1 r2 k2 v2 t2 where d: "d = (r1, k1, v1, t1)" "d' = (r2, k2, v2, t2)"
    by (cases d, cases d') auto
  have "disciplined ?A (vs_turns (wd_visit W n)) r (d' # ds)"
    using "3.prems" by (auto simp: disciplined_def split: if_splits)
  moreover have "follows K (ex_safety X) W d d'"
    using "3.prems" adm rejected_installed [OF adm, of "wd_visit W n" n q]
    unfolding d by (auto simp: disciplined_def follows_def refused_def repeatable_def admits_def)
  ultimately show ?case using "3.IH" by simp
qed simp_all

lemma all_rejected_refused:
  assumes adm: "admits K X m"
    and disc: "disciplined (attempt_env_of K X (wd_visit W n) n q m) (vs_turns (wd_visit W n)) r ds"
    and all: "all_rejected (attempt_env_of K X (wd_visit W n) n q m) (vs_turns (wd_visit W n)) ds"
  shows "list_all (refused K (ex_safety X) W) ds"
  using disc all rejected_installed [OF adm, of "wd_visit W n" n q]
  by (fastforce simp: disciplined_def all_rejected_def refused_def list_all_iff)

lemma sent_once:
  assumes adm: "admits K X m" and disc: "disciplined (attempt_env_of K X (wd_visit W n) n q m) (vs_turns (wd_visit W n)) r ds"
    and safety: "ex_safety X \<noteq> ReplayWithKey" "ex_safety X \<noteq> ReplayOnRejection"
  shows "length ds \<le> 1"
proof (rule ccontr)
  assume "\<not> length ds \<le> 1"
  then obtain d d' ds' where "ds = d # d' # ds'" by (cases ds; cases "tl ds") auto
  then have "d \<in> set (butlast ds)" by simp
  then have "repeatable (attempt_env_of K X (wd_visit W n) n q m) (vs_turns (wd_visit W n) (snd (snd (snd d))))"
    using disc unfolding disciplined_def by (cases d) auto
  moreover have "am_key m = []" using adm safety(1) by (simp add: admits_def)
  ultimately show False using safety(2) by (simp add: repeatable_def)
qed

lemma records_performs:
  assumes adm: "admits K X m" and rec: "records st ds [r0] (length ds) st'" and log: "ks_log st = ks_log st0 @ [FxAcquire c]"
    and r0: "bare r0 = bare c" and few: "length ds \<le> (if ex_safety X = ReplayWithKey then 2 else 1) \<or> ex_safety X = ReplayOnRejection"
    and disc: "disciplined (attempt_env_of K X (wd_visit W n) n q m) (vs_turns (wd_visit W n)) r ds" and r: "bare r = bare c"
    and all: "honest_world W \<longrightarrow> f \<longrightarrow> all_rejected (attempt_env_of K X (wd_visit W n) n q m) (vs_turns (wd_visit W n)) ds"
  shows "performs K X W st0 f st'"
proof -
  from rec obtain xs where xs: "ks_log st' = ks_log st @ xs" "dispatched xs = ds" "released xs = [r0]"
    "acquired xs = []" "length (accounted xs) = length ds"
    unfolding records_def by blast
  have "\<forall>d \<in> set ds. bare (fst d) = bare c" using disc r by (auto simp: disciplined_def)
  moreover have "successively (follows K (ex_safety X) W) ds" by (rule disciplined_follows [OF adm disc])
  moreover have "honest_world W \<longrightarrow> f \<longrightarrow> list_all (refused K (ex_safety X) W) ds"
    using all all_rejected_refused [OF adm disc] by blast
  ultimately have "honest_world W \<longrightarrow> disciplined_log K (ex_safety X) W f ds"
    using few by (auto simp: disciplined_log_def)
  with \<open>\<forall>d \<in> set ds. bare (fst d) = bare c\<close> show ?thesis
    using xs log r0 unfolding performs_def
    by (intro exI [of _ "FxAcquire c # xs"]) (simp add: List.map_filter_simps)
qed

lemma released_performs:
  assumes "ks_log st = ks_log st0 @ [FxAcquire c]" and "records st [] [r0] 0 st'" and "bare r0 = bare c"
  shows "performs K X W st0 f st'"
proof -
  from assms(2) obtain xs where xs: "ks_log st' = ks_log st @ xs" "dispatched xs = []" "released xs = [r0]"
    "acquired xs = []" "length (accounted xs) = 0"
    unfolding records_def by auto
  then show ?thesis
    using assms(1,3) unfolding performs_def
    by (intro exI [of _ "FxAcquire c # xs"]) (simp add: List.map_filter_simps disciplined_log_def)
qed

lemma records_refund: "records st [] [c] 0 (emit G (FxRelease c) (close_lease G l st))"
  by (rule records_quiet_trans [OF records_close]) (rule recordsI [of _ _ "[FxRelease c]"]; simp)

lemma admit_performs:
  assumes adm: "admits K X m"
  shows "performs K X W st (candidate_falls (fst (admit_candidate K X (wd_visit W n) n q m st)))
           (snd (admit_candidate K X (wd_visit W n) n q m st))"
proof -
  let ?V = "wd_visit W n" and ?G = "kn_gate K" and ?c = "am_candidate m"
  obtain ok st1 where acq: "acquire_candidate ?G ?c (vs_acquire_now ?V) st = (ok, st1)" by fastforce
  show ?thesis
  proof (cases ok)
    case False
    then have "ks_log st1 = ks_log st" using acq by (auto simp: acquire_candidate_def split: prod.splits)
    with False show ?thesis by (simp add: admit_candidate_def Let_def acq performs_same)
  next
    case True
    then have log: "ks_log st1 = ks_log st @ [FxAcquire ?c]" using acq by (auto simp: acquire_candidate_def split: prod.splits)
    let ?issue = "acquire_attempt_credential (if kn_issuer K then Some (vs_issued ?V) else None) (vs_deadline ?V)
                     (fst (vs_lease_now ?V)) (snd (vs_lease_now ?V)) ?c (ex_credential X)"
    have plain: "performs K X W st f (emit ?G (FxRelease ?c) (close_lease ?G l st1))" for f l
      by (rule released_performs [OF log records_refund refl])
    show ?thesis
    proof (cases ?issue)
      case (Inl e)
      with True show ?thesis using plain [of _ None] by (simp add: admit_candidate_def Let_def acq close_lease_def)
    next
      case (Inr l)
      show ?thesis
      proof (cases "lease_borrow (vs_borrow_ctx ?V) (vs_borrow_now ?V) l (lease_scope_for_route ?c)")
        case (Inl e)
        with True Inr show ?thesis using plain by (simp add: admit_candidate_def Let_def acq)
      next
        case borrowed: (Inr cred)
        let ?A = "attempt_env_of K X ?V n q m" and ?a = "first_attempt ?c l cred"
        have key: "av_key ?A \<noteq> [] \<longrightarrow> av_safety ?A = ReplayWithKey" using adm by (simp add: admits_def)
        obtain r st2 where run: "attempt_loop ?A (vs_turns ?V) ?a st1 = (r, st2)" by fastforce
        have falls: "honest_world W \<longrightarrow> candidate_falls (CandidateTried r) \<longrightarrow> falls_back r"
          using loop_honest [of "vs_turns ?V" ?A ?a st1] run by (cases r) (auto simp: candidate_falls_def honest_world_def)
        obtain ds r0 where rec: "records st1 ds [r0] (length ds) st2" and r0: "bare r0 = bare (at_candidate ?a)"
          and few: "length ds \<le> 1 + dispatch_budget ?A ?a" and disc: "disciplined ?A (vs_turns ?V) (at_candidate ?a) ds"
          and all: "falls_back r \<longrightarrow> all_rejected ?A (vs_turns ?V) ds"
          using attempt_loop_records [OF key run] by blast
        have bare: "bare (at_candidate ?a) = bare ?c" by simp
        have few': "length ds \<le> (if ex_safety X = ReplayWithKey then 2 else 1) \<or> ex_safety X = ReplayOnRejection"
          using few sent_once [OF adm disc] by (cases "ex_safety X = ReplayWithKey") (auto simp: dispatch_budget_def split: if_splits)
        have "honest_world W \<longrightarrow> candidate_falls (CandidateTried r) \<longrightarrow> all_rejected ?A (vs_turns ?V) ds"
          using falls all by blast
        then have tried: "performs K X W st (candidate_falls (CandidateTried r)) st2"
          by (rule records_performs [OF adm rec log r0 [unfolded bare] few' disc bare])
        have scope: "performs K X W st f (release_candidate ?A ?a st1)" for f
          by (rule released_performs [OF log records_release]) simp
        show ?thesis
          using True Inr borrowed tried scope run
          by (simp add: admit_candidate_def Let_def acq)
      qed
    qed
  qed
qed

lemma node_stage_log: "node_stage K X W scopes q fs st = (r, st') \<Longrightarrow> ks_log st' = ks_log st"
  by (auto simp: node_stage_def split: if_splits)

lemma try_performs:
  "performs K X W st (candidate_falls (fst (try_candidate K X W q scopes fs policy r st)))
           (snd (try_candidate K X W q scopes fs policy r st))"
proof -
  let ?n = "ks_visits st" and ?st = "st\<lparr>ks_visits := Suc (ks_visits st)\<rparr>"
  obtain p st1 where stage: "node_stage K X W (attempt_scopes r) q fs ?st = (p, st1)" by fastforce
  have log: "ks_log st1 = ks_log st" using node_stage_log [OF stage] by simp
  show ?thesis
  proof (cases p)
    case (Inl e)
    then show ?thesis by (simp add: try_candidate_def Let_def stage performs_same [OF log])
  next
    case (Inr qfs)
    obtain q1 fs1 where qfs: "qfs = (q1, fs1)" by fastforce
    show ?thesis
    proof (cases "judge_candidate K X (wd_visit W ?n) r q1 (scopes @ attempt_scopes r) fs1
                    (policy\<lparr>cp_loss_sources := ks_sources st1\<rparr>)")
      case (Admissible m)
      from admit_performs [OF judge_admits [OF Admissible], where n = ?n and q = q and st = st1]
      show ?thesis
        by (simp add: try_candidate_def Let_def stage Inr qfs Admissible performs_log(1) [OF log])
    qed (simp_all add: try_candidate_def Let_def stage Inr qfs performs_same [OF log])
  qed
qed

section \<open>Candidates and nodes\<close>

definition outcome_falls :: "outcome \<Rightarrow> bool" where
  "outcome_falls r = (case r of ExecFails e \<Rightarrow> is_no_route e | _ \<Rightarrow> False)"

lemma outcome_falls_simps [simp]:
  "outcome_falls (ExecFails e) = is_no_route e" "\<not> outcome_falls ExecDone" "\<not> outcome_falls ExecPanics"
  by (simp_all add: outcome_falls_def)

definition candidates_fall :: "candidates_result \<Rightarrow> bool" where
  "candidates_fall r = (case r of CandidatesSpent c e \<Rightarrow> True | CandidatesEnd r \<Rightarrow> outcome_falls r)"

lemma candidates_fall_simps [simp]:
  "candidates_fall (CandidatesSpent c e)" "candidates_fall (CandidatesEnd r) = outcome_falls r"
  by (simp_all add: candidates_fall_def)

lemma node_failure_log: "node_failure K node m cls e st = Returns (action, st') \<Longrightarrow> ks_log st' = ks_log st"
  by (auto simp: node_failure_def split: panicking.splits)

lemma node_plan_log: "node_plan_of node st = Returns (ms, st') \<Longrightarrow> ks_log st' = ks_log st"
  by (auto simp: node_plan_of_def split: panicking.splits)

lemma member_routes_log: "member_routes K node q now m st = (rs, st') \<Longrightarrow> ks_log st' = ks_log st"
  by (auto simp: member_routes_def Let_def split: prod.splits)

lemma exec_candidates_performs:
  "performs K X W st (candidates_fall (fst (exec_candidates K X W node m q scopes fs policy rs cls err st)))
           (snd (exec_candidates K X W node m q scopes fs policy rs cls err st))"
proof (induction rs arbitrary: cls err st)
  case (Cons r rs)
  obtain c st1 where tried: "try_candidate K X W q scopes fs policy r st = (c, st1)" by fastforce
  have here: "performs K X W st (candidate_falls c) st1"
    using try_performs [of K X W st q scopes fs policy r] by (simp add: tried)
  have later: "performs K X W st (candidates_fall (fst (exec_candidates K X W node m q scopes fs policy rs cls' err' st2)))
      (snd (exec_candidates K X W node m q scopes fs policy rs cls' err' st2))"
    if "candidate_falls c" "ks_log st2 = ks_log st1" for cls' err' st2
    using here that Cons.IH [of st2 cls' err'] by (intro performs_trans [OF _ Cons.IH]) (simp add: performs_log(2) [OF that(2)])
  show ?case
  proof (cases c)
    case CandidateSkipped
    then show ?thesis using later [of st1] by (simp add: tried candidate_falls_def)
  next
    case (CandidateNoted cls' e)
    then show ?thesis using later [of st1] by (simp add: tried candidate_falls_def)
  next
    case (CandidateTried a)
    show ?thesis
    proof (cases a)
      case AttemptDone
      then show ?thesis using here CandidateTried by (simp add: tried candidate_falls_def)
    next
      case (AttemptReturns e)
      then show ?thesis using here CandidateTried by (simp add: tried candidate_falls_def)
    next
      case (AttemptContinues cls' e)
      then show ?thesis using later [of st1] CandidateTried by (simp add: tried candidate_falls_def)
    next
      case (AttemptTerminal e)
      then have falls: "candidate_falls c" using CandidateTried by (simp add: candidate_falls_def)
      then have stop: "performs K X W st f st2" if "ks_log st2 = ks_log st1" for f st2
        using here performs_weaken by (simp add: performs_log(2) [OF that])
      show ?thesis
      proof (cases "node_failure K node m ErrorTerminal e st1")
        case Panic
        then show ?thesis using stop [OF refl] CandidateTried AttemptTerminal by (simp add: tried)
      next
        case (Returns p)
        obtain action st2 where p: "p = (action, st2)" by fastforce
        have log: "ks_log st2 = ks_log st1" using node_failure_log Returns p by blast
        show ?thesis
          using stop [OF log] later [OF falls log] CandidateTried AttemptTerminal Returns p
          by (cases action) (simp_all add: tried)
      qed
    qed
  qed
qed (simp add: performs_same)

lemma judge_failure_performs:
  assumes "performs K X W st0 True st" and "judge_failure K node m cls err stop st = (r, st')"
  shows "performs K X W st0 f st'"
proof -
  have log: "ks_log st' = ks_log st"
    using assms(2)
    by (auto simp: judge_failure_def split: panicking.splits failure_action.splits dest: node_failure_log)
  show ?thesis unfolding performs_log(2) [OF log] by (rule performs_weaken [OF assms(1)])
qed

lemma member_turn_performs:
  assumes "member_turn K X W descend node q scopes fs policy m st = (r, st')"
    and "\<And>i child st. get_node (kn_snapshot K) i = Some child \<Longrightarrow>
           performs K X W st (outcome_falls (fst (descend child st))) (snd (descend child st))"
  shows "performs K X W st (case r of None \<Rightarrow> True | Some x \<Rightarrow> outcome_falls x) st'"
proof -
  let ?st = "st\<lparr>ks_members := Suc (ks_members st)\<rparr>"
  obtain ctx now where ask: "wd_member W (ks_members st) = (ctx, now)" by fastforce
  consider "ctx \<noteq> None \<or> mr_kind m = MemberModel \<and> get_node (kn_snapshot K) (mr_id m) = None"
    | child where "ctx = None" "mr_kind m = MemberModel" "get_node (kn_snapshot K) (mr_id m) = Some child"
    | "ctx = None" "mr_kind m \<noteq> MemberModel"
    by (cases "get_node (kn_snapshot K) (mr_id m)") auto
  then show ?thesis
  proof cases
    case 1
    then show ?thesis using assms(1) by (cases ctx) (auto simp: member_turn_def ask Let_def performs_same)
  next
    case 2
    obtain x st1 where down: "descend child ?st = (x, st1)" by fastforce
    have child: "performs K X W st (outcome_falls x) st1"
      using assms(2) [OF 2(3), of ?st] by (simp add: down performs_log(1) [of ?st st])
    show ?thesis
    proof (cases "\<exists>e. x = ExecFails e \<and> is_no_route e")
      case True
      with child have "performs K X W st True st1" by auto
      from judge_failure_performs [OF this] show ?thesis
        using assms(1) 2 True by (auto simp: member_turn_def ask down Let_def)
    next
      case False
      then show ?thesis using assms(1) 2 child by (cases x) (auto simp: member_turn_def ask down Let_def)
    qed
  next
    case 3
    obtain rs st1 where rs: "member_routes K node q now m ?st = (rs, st1)" by fastforce
    have log: "ks_log st1 = ks_log st" using member_routes_log [OF rs] by simp
    obtain c st2 where c: "exec_candidates K X W node m q scopes fs policy rs ErrorRetryable ErrNoUsableRoute st1 = (c, st2)"
      by fastforce
    have cands: "performs K X W st (candidates_fall c) st2"
      using exec_candidates_performs [where st = st1 and rs = rs and cls = ErrorRetryable and err = ErrNoUsableRoute and
          K = K and X = X and W = W and node = node and m = m and q = q and scopes = scopes and fs = fs and policy = policy] c
      by (simp add: performs_log(1) [OF log])
    show ?thesis
      using assms(1) 3 cands judge_failure_performs [of K X W st st2]
      by (cases c) (auto simp: member_turn_def ask rs c Let_def)
  qed
qed

lemma exec_node_performs:
  assumes "\<And>q scopes fs policy ms st. mn_id node \<notin> set stack \<Longrightarrow>
      performs K X W st (outcome_falls (fst (exec_members K X W (mn_id node # stack) node q scopes fs policy ms st)))
        (snd (exec_members K X W (mn_id node # stack) node q scopes fs policy ms st))"
  shows "performs K X W st (outcome_falls (fst (exec_node K X W stack node q scopes fs policy st)))
       (snd (exec_node K X W stack node q scopes fs policy st))"
proof -
  let ?policy = "add_loss_policy (policy\<lparr>cp_loss_sources := ks_sources st\<rparr>) (mn_id node) (mn_loss_policy node)"
  let ?scope = "\<lparr>ts_kind = TransformScopeModel, ts_id = mn_id node\<rparr>"
  obtain p st1 where stage: "node_stage K X W [?scope] (with_node_reasoning node q) fs
      (st\<lparr>ks_sources := cp_loss_sources ?policy\<rparr>) = (p, st1)" by fastforce
  have log: "ks_log st1 = ks_log st" using node_stage_log [OF stage] by simp
  have "performs K X W st (outcome_falls (fst (exec_members K X W (mn_id node # stack) node q1 sc fs1 pol ms st2)))
      (snd (exec_members K X W (mn_id node # stack) node q1 sc fs1 pol ms st2))"
    if "mn_id node \<notin> set stack" "node_plan_of node st1 = Returns (ms, st2)" for q1 sc fs1 pol ms st2
    using assms [OF that(1), of st2] node_plan_log [OF that(2)] log by (simp add: performs_log(1) [of st2 st])
  then show ?thesis
    using stage performs_same [OF log]
    by (auto simp: exec_node.simps [of K X W stack node] Let_def performs_same split: sum.split panicking.split)
qed

lemma exec_performs:
  fixes K :: "'g kernel"
  shows "\<forall>q scopes fs policy st.
       performs K X W st (outcome_falls (fst (exec_node K X W stack node q scopes fs policy st)))
         (snd (exec_node K X W stack node q scopes fs policy st))"
    and "\<forall>q scopes fs policy st.
       performs K X W st (outcome_falls (fst (exec_members K X W stack node q scopes fs policy ms st)))
         (snd (exec_members K X W stack node q scopes fs policy ms st))"
proof (induction stack node and stack node ms rule: walk_induct [where K = K])
  case (node stack n)
  then show ?case by (blast intro: exec_node_performs)
next
  case (finish stack n)
  then show ?case by (simp add: performs_same)
next
  case (turn stack n m ms)
  show ?case
  proof (intro allI)
    fix q scopes fs policy and st :: "'g kernel_state"
    let ?down = "\<lambda>child. exec_node K X W stack child q scopes fs policy"
    obtain r st' where r: "member_turn K X W ?down n q scopes fs policy m st = (r, st')" by fastforce
    have here: "performs K X W st (case r of None \<Rightarrow> True | Some x \<Rightarrow> outcome_falls x) st'"
      using member_turn_performs [OF r] turn(1) by blast
    show "performs K X W st (outcome_falls (fst (exec_members K X W stack n q scopes fs policy (m # ms) st)))
        (snd (exec_members K X W stack n q scopes fs policy (m # ms) st))"
      using performs_trans [of K X W st st'] here turn(2)
      by (subst (1 2) exec_members_turn) (auto simp: r split: option.splits)
  qed
qed

section \<open>A whole execution\<close>

lemma prepared_operation:
  "prepare_operation K S q = Inr (p, q') \<Longrightarrow>
   \<exists>d. gm_get (kn_operations K) (operation_ref_of q) = Some d \<and> pr_safety p = od_safety d \<and> pr_bounds p = od_bounds d"
  by (auto simp: prepare_operation_def prepare_with_artifact_bodies_def Let_def
      split: sum.splits option.splits prod.splits if_splits)

lemma judged_operation:
  "judge_request enc d skip v u = TransformKeeps w \<Longrightarrow> (\<And>r e. skip r e \<noteq> TransformKeeps w) \<Longrightarrow>
   operation_ref_of w = operation_ref_of v"
  by (auto simp: judge_request_def request_identity_changed_def operation_ref_of_def Let_def split: if_splits option.splits)

lemma transformed_operation:
  assumes "apply_request_transforms enc reg clock ctx_end bs scopes q = Inr (q', fs)"
  shows "operation_ref_of q' = operation_ref_of q"
proof (rule run_transforms_related [where R = "\<lambda>a b. operation_ref_of b = operation_ref_of a", OF _ _ _ apply_request_transformsE [OF assms]])
  fix b impl k v w
  assume "run_transform enc False (judge_request enc) k b impl v = TransformKeeps w"
  from run_transform_kept [OF this] show "operation_ref_of w = operation_ref_of v"
    by (auto dest: judged_operation)
qed auto

lemma daemon_stage_operation:
  assumes "daemon_stage K X W (p, q) st = (Inr ((p', q'), fs), st')"
    and "gm_get (kn_operations K) (operation_ref_of q) = Some d" "pr_safety p = od_safety d"
  shows "pr_safety p' = od_safety d" and "ks_log st' = ks_log st"
proof -
  show "ks_log st' = ks_log st" using assms(1) by (auto simp: daemon_stage_def split: if_splits option.splits)
  show "pr_safety p' = od_safety d"
  proof (cases "stage_active X [daemon_scope]")
    case True
    then obtain q1 fs1 where "apply_request_transforms (kn_encode_request K) (kn_transforms K)
        (sg_clock (wd_stage W (ks_stages st))) (sg_ctx_end (wd_stage W (ks_stages st))) (ex_bindings X) [daemon_scope] q =
        Inr (q1, fs1)" and p': "\<exists>q2. prepare_operation K (wd_stage W (ks_stages st)) q1 = Inr (p', q2)"
      using assms(1) by (auto simp: daemon_stage_def run_stage_def split: option.splits sum.splits)
    then have "operation_ref_of q1 = operation_ref_of q" by (blast dest: transformed_operation)
    then show ?thesis using p' assms(2) prepared_operation by fastforce
  qed (use assms in \<open>simp add: daemon_stage_def\<close>)
qed

lemma operation_ref_kept [simp]:
  "operation_ref_of (with_requirements ext (p, q)) = operation_ref_of q"
  by (simp add: with_requirements_def operation_ref_of_def)

lemma prepared_request: "prepare_operation K S q = Inr (p, q') \<Longrightarrow> operation_ref_of q' = operation_ref_of q"
  by (auto simp: prepare_operation_def operation_ref_of_def split: sum.splits)

lemma execute_performs:
  assumes "execute K W credential started invocation q st = (r, st')"
  shows "ks_log st' = ks_log st \<or>
    (\<exists>d X. gm_get (kn_operations K) (operation_ref_of q) = Some d \<and> ex_safety X = od_safety d \<and>
       performs K X W st (outcome_falls r) st')"
proof (cases "\<exists>n p q1. rq_operation q \<noteq> [] \<and> resolve_model_node (kn_snapshot K) (rq_model q) = Inr n \<and>
                 prepare_operation K (wd_first W) q = Inr (p, q1)")
  case False
  then show ?thesis using assms by (auto simp: execute_def Let_def split: if_splits sum.splits)
next
  case True
  then obtain n p q1 where op: "rq_operation q \<noteq> []" "resolve_model_node (kn_snapshot K) (rq_model q) = Inr n"
    and p: "prepare_operation K (wd_first W) q = Inr (p, q1)" by blast
  obtain d where d: "gm_get (kn_operations K) (operation_ref_of q) = Some d" "pr_safety p = od_safety d"
    using prepared_operation [OF p] by blast
  let ?st = "st\<lparr>ks_sources := None\<rparr>" and ?X = "execution_of K q credential started invocation p"
  obtain x st1 where stage: "daemon_stage K ?X W (p, with_requirements (ex_external ?X) (p, q1)) ?st = (x, st1)" by fastforce
  have log: "ks_log st1 = ks_log st" using stage by (auto simp: daemon_stage_def split: if_splits option.splits)
  show ?thesis
  proof (cases "\<exists>p2 q2 fs. x = Inr ((p2, q2), fs) \<and> snd (wd_ctx W) = None")
    case False
    then show ?thesis
      using assms op p stage log by (auto simp: execute_def Let_def split: sum.splits option.splits)
  next
    case True
    then obtain p2 q2 fs where x: "x = Inr ((p2, q2), fs)" "snd (wd_ctx W) = None" by blast
    let ?X2 = "execution_of K q credential started invocation p2"
    have "gm_get (kn_operations K) (operation_ref_of (with_requirements (ex_external ?X) (p, q1))) = Some d"
      using d(1) prepared_request [OF p] by simp
    from daemon_stage_operation(1) [OF stage [unfolded x] this d(2)]
    have safety: "ex_safety ?X2 = od_safety d" by (simp add: execution_of_def)
    let ?policy = "\<lparr>cp_required = [], cp_allowed = [], cp_denied = [], cp_loss_sources = None,
                    cp_ceiling = sn_ceiling (kn_snapshot K)\<rparr>"
    have "exec_node K ?X2 W [] n q2 [daemon_scope] fs ?policy st1 = (r, st')"
      using assms op p stage x by (simp add: execute_def Let_def)
    then have "performs K ?X2 W st1 (outcome_falls r) st'"
      using exec_performs(1) [where K = K and X = ?X2 and W = W and stack = "[]" and node = n]
      by (metis fst_conv snd_conv)
    then have "performs K ?X2 W st (outcome_falls r) st'" by (simp add: performs_log(1) [OF log])
    with d(1) safety show ?thesis by blast
  qed
qed

text \<open>
  C1. A request is sent to a provider again only where that is safe. For an operation that may be replayed
  after a rejection, everything sent before was rejected by a provider; for one with an idempotency key a
  second and last request goes to the same candidate under the same key, or everything before was rejected;
  any other operation is sent at most once, whatever strategies, adapters and providers do.
\<close>

theorem dispatch_discipline:
  assumes "honest_world W"
  shows "case execute K W credential started invocation q st of (r, st') \<Rightarrow>
           \<exists>xs. ks_log st' = ks_log st @ xs \<and>
             (dispatched xs = [] \<or>
              (\<exists>d. gm_get (kn_operations K) (operation_ref_of q) = Some d \<and>
                 successively (follows K (od_safety d) W) (dispatched xs) \<and>
                 (od_safety d = ReplayOnRejection \<or>
                  length (dispatched xs) \<le> (if od_safety d = ReplayWithKey then 2 else 1))))"
proof -
  obtain r st' where run: "execute K W credential started invocation q st = (r, st')" by fastforce
  show ?thesis
    using execute_performs [OF run] assms unfolding run performs_def disciplined_log_def prod.case
    by (elim disjE exE conjE) (auto intro: exI [of _ "[]"])
qed

section \<open>A sample execution\<close>

lemma demo_world_honest: "honest_world demo_world"
  by (simp add: honest_world_def demo_world_def demo_visit_def demo_turn_def honest_turn_def)

lemma dispatch_discipline_witness:
  "case execute demo_kernel demo_world zero_credential 1 ''i'' demo_request demo_state of (r, st') \<Rightarrow>
     successively (follows demo_kernel ReplayOnRejection demo_world) (dispatched (ks_log st'))"
proof -
  have "gm_get (kn_operations demo_kernel) (operation_ref_of demo_request) = Some chat_generate_definition"
    by (simp add: demo_kernel_def demo_request_def operation_ref_of_def gomap_simps)
  then show ?thesis
    using dispatch_discipline [OF demo_world_honest, where K = demo_kernel and credential = zero_credential and
        started = 1 and invocation = "''i''" and q = demo_request and st = demo_state]
    by (auto simp: demo_state_def chat_generate_definition_def split: prod.splits)
qed

section \<open>Admissions and delays\<close>

lemma health_release_bare: "bare r = bare r' \<Longrightarrow> health_release g r = health_release g r'"
proof -
  assume "bare r = bare r'"
  then have "r' = r\<lparr>rt_health_generation := (rt_health_generation r)\<lparr>gen_credential := gen_credential (rt_health_generation r')\<rparr>\<rparr>"
    by (cases r; cases r'; cases "rt_health_generation r"; cases "rt_health_generation r'") (simp add: bare_def)
  moreover have "health_release g (r\<lparr>rt_health_generation := (rt_health_generation r)\<lparr>gen_credential := c\<rparr>\<rparr>) = health_release g r"
    for c
    by (simp add: health_release_def generation_current_def operation_scope_valid_def key_defs gen_for_def)
  ultimately show ?thesis by metis
qed

lemma health_release_all: "map bare rs = map bare rs' \<Longrightarrow> foldl health_release g rs = foldl health_release g rs'"
proof (induction rs arbitrary: g rs')
  case (Cons r rs)
  then obtain r' rs'' where rs': "rs' = r' # rs''" "bare r = bare r'" "map bare rs = map bare rs''" by (cases rs') auto
  then show ?case using Cons.IH [of rs''] health_release_bare [OF rs'(2)] by simp
qed simp

text \<open>
  C2. Every candidate an execution admits is released, in the order of admission and on every path; the releases
  act on the health gate as those of the admitted routes, although a credential epoch may have been read in
  between. Only admitted candidates are sent a request, and every request is accounted for exactly once.
\<close>

theorem admissions_settled:
  "case execute K W credential started invocation q st of (r, st') \<Rightarrow>
     \<exists>xs. ks_log st' = ks_log st @ xs \<and> map bare (released xs) = map bare (acquired xs) \<and>
       (\<forall>g. foldl health_release g (released xs) = foldl health_release g (acquired xs)) \<and>
       bare ` fst ` set (dispatched xs) \<subseteq> bare ` set (acquired xs) \<and>
       length (accounted xs) = length (dispatched xs)"
proof -
  obtain r st' where run: "execute K W credential started invocation q st = (r, st')" by fastforce
  from execute_performs [OF run] obtain xs where "ks_log st' = ks_log st @ xs"
    "map bare (acquired xs) = map bare (released xs)" "length (accounted xs) = length (dispatched xs)"
    "\<forall>d \<in> set (dispatched xs). bare (fst d) \<in> bare ` set (acquired xs)"
  proof (elim disjE exE conjE)
    assume "ks_log st' = ks_log st"
    then show ?thesis by (intro that [of "[]"]) simp_all
  qed (unfold performs_def, blast intro: that)
  then show ?thesis
    unfolding run prod.case
    by (intro exI [of _ xs]) (auto intro: health_release_all [OF sym])
qed

lemma retry_after_seconds:
  "go_atoi (trim_space v) = Some n \<Longrightarrow> 0 < n \<Longrightarrow> retry_after_duration parse now v = wrap64 (n * second)"
  by (simp add: retry_after_duration_def Let_def)

text \<open>
  A number of seconds in a \<open>Retry-After\<close> header is taken at its value up to 9223372036; the next number
  already overflows the 64-bit nanoseconds of a duration and yields a negative delay.
\<close>

theorem retry_after_bounded:
  assumes "go_atoi (trim_space v) = Some n" and "0 < n" and "n \<le> 9223372036"
  shows "retry_after_duration parse now v = n * second \<and> retry_after_duration parse now ''9223372037'' < 0"
proof -
  have "go_atoi (trim_space ''9223372037'') = Some 9223372037" by code_simp
  from retry_after_seconds [OF this] show ?thesis
    using assms retry_after_seconds [OF assms(1,2)] by (simp add: second_def wrap64_def)
qed

lemma retry_after_bounded_witness: "retry_after_duration (\<lambda>_. None) 0 '' 120 '' = 120 * second"
proof -
  have "go_atoi (trim_space '' 120 '') = Some 120" by code_simp
  from retry_after_bounded [OF this] show ?thesis by simp
qed

end
