(* ===== verification/Walk.thy ===== *)
theory Walk
  imports Sample
begin

text \<open>
  The walk of an execution over the model graph: on a graph whose nodes the built-in strategies can plan, an
  execution never panics, leaves a scheduler of the same kind behind and tries a bounded number of members.
  The lemmas first show that what happens to a candidate leaves the scheduler and the count of members alone.
\<close>

section \<open>What a candidate leaves alone\<close>

definition same_walk :: "'g kernel_state \<Rightarrow> 'g kernel_state \<Rightarrow> bool" where
  "same_walk st st' \<longleftrightarrow> ks_scheduler st' = ks_scheduler st \<and> ks_members st' = ks_members st"

lemma same_walk_refl [simp]: "same_walk st st"
  by (simp add: same_walk_def)

lemma same_walk_trans: "same_walk a b \<Longrightarrow> same_walk b c \<Longrightarrow> same_walk a c"
  by (simp add: same_walk_def)

lemma emit_walk [simp]:
  "ks_scheduler (emit G x st) = ks_scheduler st" "ks_members (emit G x st) = ks_members st"
  by (simp_all add: emit_def)

lemma emit_all_walk [simp]:
  "ks_scheduler (emit_all G xs st) = ks_scheduler st" "ks_members (emit_all G xs st) = ks_members st"
  unfolding emit_all_def by (induction xs arbitrary: st) simp_all

lemma effects_walk [simp]:
  "ks_scheduler (close_lease G l st) = ks_scheduler st" "ks_members (close_lease G l st) = ks_members st"
  "ks_scheduler (release_candidate A a st) = ks_scheduler st" "ks_members (release_candidate A a st) = ks_members st"
  "ks_scheduler (observe A a oc st) = ks_scheduler st" "ks_members (observe A a oc st) = ks_members st"
  "ks_scheduler (finish_accounting A T acc st) = ks_scheduler st"
  "ks_members (finish_accounting A T acc st) = ks_members st"
  "ks_scheduler (absorb G rs st) = ks_scheduler st" "ks_members (absorb G rs st) = ks_members st"
  by (simp_all add: close_lease_def release_candidate_def observe_def finish_accounting_def absorb_def split: option.split)

lemma failed_walk: "same_walk st (snd (answer_failed A T a e st))"
  by (simp add: answer_failed_def same_walk_def split: option.split)

lemma continuity_walk: "same_walk st (snd (answer_continuity A T a status oc st))"
  by (simp add: answer_continuity_def same_walk_def Let_def split: option.split)

lemma final_walk: "same_walk st (snd (answer_final A T a resp body oc st))"
  by (simp add: answer_final_def same_walk_def Let_def)

lemma rendered_walk: "same_walk st (snd (answer_rendered A T a acc resp st))"
  by (simp add: answer_rendered_def same_walk_def Let_def split: option.split)

lemma refused_walk: "same_walk st (snd (answer_refused A T a acc resp st))"
proof -
  have pair: "same_walk st (snd (map_prod TurnEnds id p))" if "same_walk st1 (snd p)" "same_walk st st1" for p st1
    using same_walk_trans [OF that(2,1)] by (cases p) simp
  have acc: "same_walk st (finish_accounting A T x st)" for x by (simp add: same_walk_def)
  then have close: "same_walk st (close_lease G l (finish_accounting A T x st))" for G l x by (simp add: same_walk_def)
  show ?thesis
    unfolding answer_refused_def Let_def
    using pair [OF final_walk acc] pair [OF final_walk close] pair [OF continuity_walk acc] acc close
    by (simp split: option.split)
qed

lemma turn_walk: "same_walk st (snd (attempt_turn A T a st))"
proof -
  have await: "same_walk st (snd (await_answer A T b st))" for b st
    using same_walk_trans [OF _ failed_walk, of st "finish_accounting A T (start_accounting A T b) st"] refused_walk rendered_walk
    by (auto simp: await_answer_def Let_def same_walk_def [of st "finish_accounting A T x st" for x] split: sum.split)
  have "same_walk st (snd (await_answer A T b (emit G x st)))" for b G x
    by (rule same_walk_trans [OF _ await]) (simp add: same_walk_def)
  then show ?thesis
    by (auto simp: attempt_turn_def Let_def same_walk_def split: sum.split option.split)
qed

lemma loop_walk: "same_walk st (snd (attempt_loop A turns a st))"
proof (induction A turns a st rule: attempt_loop.induct)
  case (1 A turns a st)
  show ?case
  proof (cases "attempt_turn A (turns (at_turn a)) a st")
    case (Pair r st1)
    with turn_walk [of st A "turns (at_turn a)" a] have "same_walk st st1" by simp
    with Pair 1 show ?thesis
      by (cases r) (auto simp: attempt_loop.simps [of A turns a] intro: same_walk_trans)
  qed
qed

lemma admit_walk: "same_walk st (snd (admit_candidate K X V n q m st))"
proof -
  define issued where "issued = (if kn_issuer K then Some (vs_issued V) else None)"
  obtain ok st1 where acquire: "acquire_candidate (kn_gate K) (am_candidate m) (vs_acquire_now V) st = (ok, st1)" by fastforce
  then have st1: "same_walk st st1" by (auto simp: acquire_candidate_def same_walk_def split: prod.splits)
  have keep: "same_walk st st2" if "ks_scheduler st2 = ks_scheduler st1" "ks_members st2 = ks_members st1" for st2
    using st1 that by (simp add: same_walk_def)
  have loop: "same_walk st (snd (map_prod CandidateTried id (attempt_loop A turns a st1)))" for A turns a
    using same_walk_trans [OF st1 loop_walk, of A turns a] by (cases "attempt_loop A turns a st1") simp
  show ?thesis
    unfolding admit_candidate_def Let_def acquire issued_def [symmetric] prod.case
    using st1 loop keep by (cases ok) (simp_all split: sum.split)
qed

lemma node_stage_walk: "same_walk st (snd (node_stage K X W scopes q fs st))"
  by (simp add: node_stage_def same_walk_def)

lemma try_walk: "same_walk st (snd (try_candidate K X W q scopes fs policy r st))"
proof -
  let ?st = "st\<lparr>ks_visits := Suc (ks_visits st)\<rparr>"
  obtain s st1 where stage: "node_stage K X W (attempt_scopes r) q fs ?st = (s, st1)" by fastforce
  with node_stage_walk [of ?st K X W "attempt_scopes r" q fs] have "same_walk st st1" by (simp add: same_walk_def)
  then show ?thesis
    using same_walk_trans [OF \<open>same_walk st st1\<close> admit_walk]
    by (simp add: try_candidate_def Let_def stage split: sum.split verdict.split)
qed

section \<open>Planning with the built-in strategies\<close>

definition builtin_scheduler :: "scheduler \<Rightarrow> bool" where
  "builtin_scheduler s \<longleftrightarrow> scheduler_ok s \<and> sch_strategies s = sch_strategies new_scheduler"

text \<open>A node whose ring of weights does not wrap, with at most \<open>M\<close> members.\<close>

definition plannable :: "nat \<Rightarrow> model_node \<Rightarrow> bool" where
  "plannable M n \<longleftrightarrow>
     members_ok (mn_members n) \<and> mn_sticky_limit n \<le> max_i64 \<and> length (mn_members n) \<le> M"

lemma node_plan_length:
  assumes "members_ok ms" and "state_ok st" and "node_plan s ms st = Returns (ms', st')"
  shows "length ms' \<le> length ms"
proof (cases "s = StrategyRoundRobin")
  case True
  then show ?thesis
    using assms(3) by (auto simp: node_plan_def returning_def round_robin_plan_def Let_def split: if_splits)
next
  case False
  from fallback_strategy.plan_covers [OF node_plan_fallback [OF this] assms] show ?thesis by simp
qed

lemma builtin_scheduler_put:
  assumes "builtin_scheduler s" and "state_ok x"
  shows "builtin_scheduler (s\<lparr>sch_model_state := gm_put k x (sch_model_state s)\<rparr>)"
  using assms by (auto simp: builtin_scheduler_def scheduler_ok_def gomap_simps split: if_splits)

lemma node_plan_returns:
  assumes "builtin_scheduler (ks_scheduler st)" and "plannable M node"
  obtains ms st' where "node_plan_of node st = Returns (ms, st')" "builtin_scheduler (ks_scheduler st')"
    "ks_members st' = ks_members st" "length ms \<le> M"
proof -
  let ?s = "ks_scheduler st" and ?key = "strategy_state_key (mn_id node) (mn_strategy_ref node)"
  let ?st = "(gm_or (sch_model_state ?s) ?key zero_strategy_state)
      \<lparr>ss_sticky_limit := (if mn_sticky_limit node < 1 then 1 else mn_sticky_limit node),
       ss_config := mn_strategy_config node\<rparr>"
  have s: "scheduler_ok ?s" "sch_strategies ?s = sch_strategies new_scheduler"
    using assms(1) by (simp_all add: builtin_scheduler_def)
  have ms: "members_ok (mn_members node)" "length (mn_members node) \<le> M" and st: "state_ok ?st"
    using assms(2) scheduler_ok_state [OF s(1), of ?key] by (auto simp: plannable_def state_ok_def max_i64_def)
  note prim = node_plan_primitive [of "mn_strategy node"]
  obtain planned st2 where plan: "node_plan (mn_strategy node) (mn_members node) ?st = Returns (planned, st2)"
    using strategy_primitive.plan_returns [OF prim ms(1) st] by blast
  have "state_ok st2" by (rule strategy_primitive.plan_state [OF prim ms(1) st plan])
  then have "builtin_scheduler (?s\<lparr>sch_model_state := gm_put ?key st2 (sch_model_state ?s)\<rparr>)"
    by (rule builtin_scheduler_put [OF assms(1)])
  moreover have "length planned \<le> M" using node_plan_length [OF ms(1) st plan] ms(2) by simp
  moreover have "scheduler_plan ?s node = Returns (planned, ?s\<lparr>sch_model_state := gm_put ?key st2 (sch_model_state ?s)\<rparr>)"
    using plan by (simp add: scheduler_plan_builtin_eq [OF s(2)] Let_def)
  ultimately show thesis
    by (intro that [of planned "st\<lparr>ks_scheduler := ?s\<lparr>sch_model_state := gm_put ?key st2 (sch_model_state ?s)\<rparr>\<rparr>"])
      (simp_all add: node_plan_of_def)
qed

lemma builtin_found:
  "\<exists>f. (case gm_get (sch_strategies new_scheduler) x of None \<Rightarrow> gm_get (sch_strategies new_scheduler) StrategyFallback
       | Some p \<Rightarrow> Some p) = Some (builtin_primitive f)"
  by (cases x) (auto simp: builtin_table)

lemma node_failure_returns:
  assumes "builtin_scheduler (ks_scheduler st)"
  obtains action st' where "node_failure K node m cls e st = Returns (action, st')"
    "builtin_scheduler (ks_scheduler st')" "ks_members st' = ks_members st"
proof -
  let ?s = "ks_scheduler st" and ?key = "strategy_state_key (mn_id node) (mn_strategy_ref node)"
  let ?st = "(gm_or (sch_model_state ?s) ?key zero_strategy_state)\<lparr>ss_config := mn_strategy_config node\<rparr>"
  have s: "scheduler_ok ?s" "sch_strategies ?s = sch_strategies new_scheduler"
    using assms by (simp_all add: builtin_scheduler_def)
  have "state_ok ?st" using scheduler_ok_state [OF s(1), of ?key] by (auto simp: state_ok_def)
  then have ok: "builtin_scheduler (?s\<lparr>sch_model_state := gm_put ?key ?st (sch_model_state ?s)\<rparr>)"
    by (rule builtin_scheduler_put [OF assms])
  obtain f where "(case gm_get (sch_strategies ?s) (mn_strategy node) of
       None \<Rightarrow> gm_get (sch_strategies ?s) StrategyFallback | Some p \<Rightarrow> Some p) = Some (builtin_primitive f)"
    unfolding s(2) using builtin_found by blast
  then have "scheduler_on_failure ?s node fl =
      Returns (strategy_on_failure fl ?st, ?s\<lparr>sch_model_state := gm_put ?key ?st (sch_model_state ?s)\<rparr>)" for fl
    by (simp add: scheduler_on_failure_def scheduler_strategy_state_def Let_def builtin_primitive_def)
  with ok show thesis
    by (intro that [of _ "st\<lparr>ks_scheduler := ?s\<lparr>sch_model_state := gm_put ?key ?st (sch_model_state ?s)\<rparr>\<rparr>"])
      (simp_all add: node_failure_def)
qed

section \<open>The walk\<close>

text \<open>Members tried below a node of which \<open>k\<close> levels can still be entered, with \<open>M\<close> members at most at each.\<close>

fun walk_bound :: "nat \<Rightarrow> nat \<Rightarrow> nat" where
  "walk_bound M 0 = 0"
| "walk_bound M (Suc k) = M * Suc (walk_bound M k)"

lemma walk_bound_mono: "k \<le> l \<Longrightarrow> walk_bound M k \<le> walk_bound M l"
proof (induction k arbitrary: l)
  case (Suc k)
  then obtain l' where "l = Suc l'" "k \<le> l'" by (cases l) auto
  with Suc.IH show ?case by simp
qed simp

text \<open>How a part of the walk ends that tries at most \<open>n\<close> members.\<close>

definition walks :: "nat \<Rightarrow> 'g kernel_state \<Rightarrow> outcome \<times> 'g kernel_state \<Rightarrow> bool" where
  "walks n st res \<longleftrightarrow>
     fst res \<noteq> ExecPanics \<and> builtin_scheduler (ks_scheduler (snd res)) \<and> ks_members (snd res) \<le> ks_members st + n"

lemma walks_later: "walks n st' res \<Longrightarrow> ks_members st' \<le> ks_members st + k \<Longrightarrow> k + n \<le> l \<Longrightarrow> walks l st res"
  by (simp add: walks_def)

lemma same_walk_builtin: "same_walk st st' \<Longrightarrow> builtin_scheduler (ks_scheduler st') = builtin_scheduler (ks_scheduler st)"
  by (simp add: same_walk_def)

lemma exec_candidates_walk:
  assumes "builtin_scheduler (ks_scheduler st)"
    and "exec_candidates K X W node m q scopes fs policy rs cls err st = (res, st')"
  shows "res \<noteq> CandidatesEnd ExecPanics \<and> builtin_scheduler (ks_scheduler st') \<and> ks_members st' = ks_members st"
  using assms
proof (induction rs arbitrary: cls err st)
  case (Cons r rs)
  obtain c st1 where tried: "try_candidate K X W q scopes fs policy r st = (c, st1)" by fastforce
  from try_walk [of st K X W q scopes fs policy r] have same: "same_walk st st1" by (simp add: tried)
  then have st1: "builtin_scheduler (ks_scheduler st1)" "ks_members st1 = ks_members st"
    using Cons.prems(1) by (simp_all add: same_walk_def)
  show ?case
  proof (cases "\<exists>e. c = CandidateTried (AttemptTerminal e)")
    case True
    then obtain e where c: "c = CandidateTried (AttemptTerminal e)" by blast
    obtain action st2 where failure: "node_failure K node m ErrorTerminal e st1 = Returns (action, st2)"
      and st2: "builtin_scheduler (ks_scheduler st2)" "ks_members st2 = ks_members st1"
      using node_failure_returns [OF st1(1)] by metis
    show ?thesis
    proof (cases action)
      case FailureStop
      with Cons.prems(2) show ?thesis using st2 st1(2) by (auto simp: tried c failure)
    next
      case FailureContinue
      with Cons.prems(2) show ?thesis using Cons.IH [OF st2(1)] st2(2) st1(2) by (simp add: tried c failure)
    qed
  next
    case False
    with Cons.prems(2) show ?thesis
      using Cons.IH [OF st1(1)] st1 by (auto simp: tried split: candidate_result.splits attempt_result.splits)
  qed
qed auto

lemma member_routes_walk: "same_walk st (snd (member_routes K node q now m st))"
  by (auto simp: member_routes_def Let_def same_walk_def split: prod.split)

lemma judge_failure_walk:
  assumes "builtin_scheduler (ks_scheduler st)" and "judge_failure K node m cls err stop st = (r, st')"
  shows "r \<noteq> Some ExecPanics \<and> builtin_scheduler (ks_scheduler st') \<and> ks_members st' = ks_members st"
proof -
  obtain action st2 where "node_failure K node m cls err st = Returns (action, st2)"
    "builtin_scheduler (ks_scheduler st2)" "ks_members st2 = ks_members st"
    by (rule node_failure_returns [OF assms(1)])
  with assms(2) show ?thesis by (cases action) (auto simp: judge_failure_def)
qed

lemma member_turn_walk:
  assumes "member_turn K X W descend node q scopes fs policy m st = (r, st')" and "builtin_scheduler (ks_scheduler st)"
    and "\<And>i child st. get_node (kn_snapshot K) i = Some child \<Longrightarrow> builtin_scheduler (ks_scheduler st) \<Longrightarrow>
           walks n st (descend child st)"
  shows "r \<noteq> Some ExecPanics \<and> builtin_scheduler (ks_scheduler st') \<and> ks_members st' \<le> ks_members st + Suc n"
proof -
  let ?st = "st\<lparr>ks_members := Suc (ks_members st)\<rparr>"
  have st: "builtin_scheduler (ks_scheduler ?st)" using assms(2) by simp
  obtain ctx now where ask: "wd_member W (ks_members st) = (ctx, now)" by fastforce
  consider "ctx \<noteq> None \<or> mr_kind m = MemberModel \<and> get_node (kn_snapshot K) (mr_id m) = None"
    | child where "ctx = None" "mr_kind m = MemberModel" "get_node (kn_snapshot K) (mr_id m) = Some child"
    | "ctx = None" "mr_kind m \<noteq> MemberModel"
    by (cases "get_node (kn_snapshot K) (mr_id m)") auto
  then show ?thesis
  proof cases
    case 1
    then show ?thesis using assms(1,2) by (cases ctx) (auto simp: member_turn_def ask Let_def)
  next
    case 2
    obtain x st1 where down: "descend child ?st = (x, st1)" by fastforce
    have "walks n ?st (x, st1)" using assms(3) [OF 2(3) st] by (simp add: down)
    then have st1: "x \<noteq> ExecPanics" "builtin_scheduler (ks_scheduler st1)" "ks_members st1 \<le> ks_members st + Suc n"
      by (simp_all add: walks_def)
    show ?thesis
      using assms(1) 2 st1 judge_failure_walk [OF st1(2)]
      by (auto simp: member_turn_def ask down Let_def split: outcome.splits if_splits)
  next
    case 3
    obtain rs st1 where rs: "member_routes K node q now m ?st = (rs, st1)" by fastforce
    obtain c st2 where c: "exec_candidates K X W node m q scopes fs policy rs ErrorRetryable ErrNoUsableRoute st1 = (c, st2)"
      by fastforce
    have st1: "builtin_scheduler (ks_scheduler st1)" "ks_members st1 = Suc (ks_members st)"
      using member_routes_walk [of ?st K node q now m] st by (simp_all add: rs same_walk_def)
    note st2 = exec_candidates_walk [OF st1(1) c]
    show ?thesis
      using assms(1) 3 st1(2) st2 judge_failure_walk [of st2]
      by (auto simp: member_turn_def ask rs c Let_def split: candidates_result.splits)
  qed
qed

definition plannable_graph :: "nat \<Rightarrow> 'g kernel \<Rightarrow> bool" where
  "plannable_graph M K \<longleftrightarrow> (\<forall>i n. get_node (kn_snapshot K) i = Some n \<longrightarrow> plannable M n)"

text \<open>The levels below a node: the nodes not yet on the stack, and the node itself if it is none of the graph.\<close>

definition levels :: "'g kernel \<Rightarrow> string list \<Rightarrow> model_node \<Rightarrow> nat" where
  "levels K stack node = unentered K stack + (if mn_id node \<in> graph_ids (kn_snapshot K) then 0 else 1)"

lemma levels_entered: "mn_id node \<notin> set stack \<Longrightarrow> Suc (unentered K (mn_id node # stack)) \<le> levels K stack node"
  using unentered_decreases [of "mn_id node" K stack] unentered_le [of K "mn_id node" stack]
  by (cases "mn_id node \<in> graph_ids (kn_snapshot K)") (simp_all add: levels_def Suc_le_eq)

lemma exec_walk:
  fixes K :: "'g kernel"
  assumes "plannable_graph M K"
  shows "plannable M node \<longrightarrow>
      (\<forall>q scopes fs policy (st :: 'g kernel_state). builtin_scheduler (ks_scheduler st) \<longrightarrow>
         walks (walk_bound M (levels K stack node)) st (exec_node K X W stack node q scopes fs policy st))"
    and "\<forall>q scopes fs policy (st :: 'g kernel_state). builtin_scheduler (ks_scheduler st) \<longrightarrow>
         walks (length ms * Suc (walk_bound M (unentered K stack))) st
           (exec_members K X W stack node q scopes fs policy ms st)"
proof (induction stack node and stack node ms rule: walk_induct [where K = K])
  case (node stack n)
  show ?case
  proof (intro impI allI)
    fix q scopes fs policy and st :: "'g kernel_state"
    assume n: "plannable M n" and st: "builtin_scheduler (ks_scheduler st)"
    let ?B = "walk_bound M (levels K stack n)"
    let ?scope = "\<lparr>ts_kind = TransformScopeModel, ts_id = mn_id n\<rparr>"
    let ?policy = "add_loss_policy (policy\<lparr>cp_loss_sources := ks_sources st\<rparr>) (mn_id n) (mn_loss_policy n)"
    note step = exec_node.simps [of K X W stack n q scopes fs policy st]
    obtain p st1 where stage: "node_stage K X W [?scope] (with_node_reasoning n q) fs
        (st\<lparr>ks_sources := cp_loss_sources ?policy\<rparr>) = (p, st1)" by fastforce
    have st1: "builtin_scheduler (ks_scheduler st1)" "ks_members st1 = ks_members st"
      using node_stage_walk [of "st\<lparr>ks_sources := cp_loss_sources ?policy\<rparr>" K X W "[?scope]" "with_node_reasoning n q" fs] st
      by (simp_all add: stage same_walk_def)
    obtain ms st2 where plan: "node_plan_of n st1 = Returns (ms, st2)" "builtin_scheduler (ks_scheduler st2)"
      "ks_members st2 = ks_members st1" "length ms \<le> M"
      by (rule node_plan_returns [OF st1(1) n])
    show "walks ?B st (exec_node K X W stack n q scopes fs policy st)"
    proof (cases "mn_id n \<in> set stack \<or> isl p")
      case True
      then show ?thesis using st st1 by (cases p) (auto simp: step Let_def stage walks_def)
    next
      case False
      then obtain q1 fs1 where p: "p = Inr (q1, fs1)" by (cases p) auto
      have "walks (length ms * Suc (walk_bound M (unentered K (mn_id n # stack)))) st2
              (exec_members K X W (mn_id n # stack) n q1 (scopes @ [?scope]) fs1 ?policy ms st2)"
        using node [of ms] False plan(2) by blast
      moreover have "length ms * Suc (walk_bound M (unentered K (mn_id n # stack))) \<le> ?B"
        using mult_le_mono1 [OF plan(4), of "Suc (walk_bound M (unentered K (mn_id n # stack)))"]
          walk_bound_mono [OF levels_entered, of n stack M K] False by simp
      ultimately show ?thesis
        using False plan(1) walks_later [of _ st2 _ st 0 ?B] plan(3) st1(2) by (simp add: step Let_def stage p)
    qed
  qed
next
  case (finish stack n)
  then show ?case by (simp add: walks_def)
next
  case (turn stack n m ms)
  show ?case
  proof (intro impI allI)
    fix q scopes fs policy and st :: "'g kernel_state"
    assume st: "builtin_scheduler (ks_scheduler st)"
    let ?n = "walk_bound M (unentered K stack)"
    let ?down = "\<lambda>child. exec_node K X W stack child q scopes fs policy"
    obtain r st' where r: "member_turn K X W ?down n q scopes fs policy m st = (r, st')" by fastforce
    have down: "walks ?n st (?down child st)" if "get_node (kn_snapshot K) i = Some child" "builtin_scheduler (ks_scheduler st)" for i child st
      using turn(1) [OF that(1)] that assms get_node_id [OF that(1)] by (simp add: plannable_graph_def levels_def)
    have st': "r \<noteq> Some ExecPanics" "builtin_scheduler (ks_scheduler st')" "ks_members st' \<le> ks_members st + Suc ?n"
      using member_turn_walk [OF r st, of ?n] down by blast+
    show "walks (length (m # ms) * Suc ?n) st (exec_members K X W stack n q scopes fs policy (m # ms) st)"
    proof (cases r)
      case None
      have "walks (length ms * Suc ?n) st' (exec_members K X W stack n q scopes fs policy ms st')"
        using turn(2) st'(2) by blast
      from walks_later [OF this st'(3)] show ?thesis by (subst exec_members_turn) (simp add: r None algebra_simps)
    next
      case (Some x)
      then show ?thesis using st' by (subst exec_members_turn) (simp add: r walks_def)
    qed
  qed
qed

section \<open>A whole execution\<close>

lemma walk_bound_power: "Suc (walk_bound M k) \<le> Suc M ^ k"
proof (induction k)
  case (Suc k)
  have "M * Suc (walk_bound M k) \<le> M * Suc M ^ k" by (rule mult_le_mono2 [OF Suc.IH])
  moreover have "1 \<le> Suc M ^ k" by simp
  ultimately show ?case by (simp only: walk_bound.simps power_Suc mult_Suc)
qed simp

definition plannable_model :: "nat \<Rightarrow> 'g kernel \<Rightarrow> request \<Rightarrow> bool" where
  "plannable_model M K q \<longleftrightarrow>
     plannable_graph M K \<and> (\<forall>n. resolve_model_node (kn_snapshot K) (rq_model q) = Inr n \<longrightarrow> plannable M n)"

lemma execute_walk:
  assumes "plannable_model M K q" and "builtin_scheduler (ks_scheduler st)"
  shows "walks (walk_bound M (Suc (card (graph_ids (kn_snapshot K))))) st (execute K W credential started invocation q st)"
    (is "walks ?B st ?run")
proof (cases "\<exists>n p q1. rq_operation q \<noteq> [] \<and> resolve_model_node (kn_snapshot K) (rq_model q) = Inr n \<and>
                 prepare_operation K (wd_first W) q = Inr (p, q1)")
  case False
  then show ?thesis using assms(2) by (auto simp: execute_def walks_def Let_def split: sum.split)
next
  case True
  then obtain n p q1 where op: "rq_operation q \<noteq> []" "resolve_model_node (kn_snapshot K) (rq_model q) = Inr n"
    and p: "prepare_operation K (wd_first W) q = Inr (p, q1)" by blast
  let ?X = "execution_of K q credential started invocation" and ?st = "st\<lparr>ks_sources := None\<rparr>"
  obtain x st1 where stage: "daemon_stage K (?X p) W (p, with_requirements (ex_external (?X p)) (p, q1)) ?st = (x, st1)"
    by fastforce
  then have st1: "builtin_scheduler (ks_scheduler st1)" "ks_members st1 \<le> ks_members st + 0"
    using assms(2) by (auto simp: daemon_stage_def split: if_splits option.splits)
  have "levels K [] n \<le> Suc (card (graph_ids (kn_snapshot K)))" by (simp add: levels_def unentered_def)
  then have bound: "0 + walk_bound M (levels K [] n) \<le> ?B" by (simp only: add_0 walk_bound_mono)
  have "walks (walk_bound M (levels K [] n)) st1 (exec_node K X W [] n q2 scopes fs policy st1)" for X q2 scopes fs policy
    using exec_walk(1) [of M K n "[]"] assms(1) op(2) st1(1) by (auto simp: plannable_model_def)
  then have walk: "walks ?B st (exec_node K X W [] n q2 scopes fs policy st1)" for X q2 scopes fs policy
    by (rule walks_later [OF _ st1(2) bound])
  have fails: "walks ?B st (ExecFails e, st1)" for e using st1 by (simp add: walks_def)
  show ?thesis
    using op p stage walk fails by (simp add: execute_def Let_def split: sum.split option.split prod.split)
qed


lemma demo_plannable: "plannable_model 2 demo_kernel demo_request"
proof -
  have "members_ok (mn_members n) \<and> mn_sticky_limit n \<le> max_i64 \<and> length (mn_members n) \<le> 2"
    if "get_node demo_snapshot i = Some n" for i n
    using that by (auto simp: get_node_def demo_snapshot_def zero_node_def member_of_def zero_member_def members_ok_def
        ring_size_def effective_weight_def max_i64_def entries_def split: if_splits)
  moreover have "case resolve_model_node demo_snapshot ''gpt'' of Inl e \<Rightarrow> True | Inr n \<Rightarrow>
      members_ok (mn_members n) \<and> mn_sticky_limit n \<le> max_i64 \<and> length (mn_members n) \<le> 2"
    by code_simp
  ultimately show ?thesis
    by (auto simp: plannable_model_def plannable_graph_def plannable_def demo_kernel_def demo_request_def)
qed

lemma demo_scheduler: "builtin_scheduler (ks_scheduler demo_state)"
  by (simp add: builtin_scheduler_def demo_state_def)




end
