(* ===== verification/Values.thy ===== *)
theory Values
  imports Dispatch
begin

text \<open>
  Decoded JSON and the scalar bindings of \<open>internal/jsonvalue/integer.go\<close>. A value of Go type \<open>any\<close> that comes
  out of a decoder with \<open>UseNumber\<close> is a \<open>json\<close>: a number is its token. The members of an object have distinct
  names and stand in the order of one iteration of the map. Decoding bytes and encoding values
  (\<open>encoding/json\<close>) are parameters of what uses them.
\<close>

section \<open>Values\<close>

datatype json =
    JNull
  | JBool bool
  | JNumber string
  | JText string
  | JArray "json list"
  | JObject "(string, json) gomap"

type_synonym jobject = "(string, json) gomap"

text \<open>\<open>m[k]\<close>, which is nil for a missing member, and the type assertions that yield a zero value otherwise.\<close>

definition member :: "jobject \<Rightarrow> string \<Rightarrow> json" where
  "member m k = gm_or m k JNull"

definition string_value :: "json \<Rightarrow> string" where
  "string_value v = (case v of JText s \<Rightarrow> s | _ \<Rightarrow> [])"

definition bool_value :: "json \<Rightarrow> bool \<Rightarrow> bool" where
  "bool_value v fallback = (case v of JBool b \<Rightarrow> b | _ \<Rightarrow> fallback)"

definition map_value :: "json \<Rightarrow> jobject option" where
  "map_value v = (case v of JObject m \<Rightarrow> Some m | _ \<Rightarrow> None)"

definition array_value :: "json \<Rightarrow> json list option" where
  "array_value v = (case v of JArray xs \<Rightarrow> Some xs | _ \<Rightarrow> None)"

text \<open>The members of a map that may be nil.\<close>

definition members :: "jobject option \<Rightarrow> jobject" where
  "members m = (case m of None \<Rightarrow> [] | Some fs \<Rightarrow> fs)"

text \<open>Only the named members occur (\<open>responsesOnlyKeys\<close> and \<open>anthropicOnlyKeys\<close>).\<close>

definition only_keys :: "jobject \<Rightarrow> string list \<Rightarrow> bool" where
  "only_keys m allowed \<longleftrightarrow> list_all (\<lambda>(k, v). k \<in> set allowed) m"

definition without_keys :: "jobject \<Rightarrow> string list \<Rightarrow> jobject" where
  "without_keys m excluded = filter (\<lambda>(k, v). k \<notin> set excluded) m"

section \<open>Number tokens\<close>

definition is_digit :: "char \<Rightarrow> bool" where
  "is_digit c \<longleftrightarrow> 48 \<le> char_code c \<and> char_code c \<le> 57"

definition pow10 :: "int \<Rightarrow> rat" where
  "pow10 k = (if 0 \<le> k then 10 ^ nat k else 1 / 10 ^ nat (- k))"

text \<open>The parts of a token: an optional sign, the integer part, the fraction and the exponent.\<close>

definition split_sign :: "string \<Rightarrow> bool \<times> string" where
  "split_sign s = (case s of c # t \<Rightarrow> if c = CHR ''-'' then (True, t) else (False, s) | [] \<Rightarrow> (False, []))"

definition integer_part_ok :: "string \<Rightarrow> bool" where
  "integer_part_ok i \<longleftrightarrow> i \<noteq> [] \<and> (1 < length i \<longrightarrow> hd i \<noteq> CHR ''0'')"

definition fraction_part :: "string \<Rightarrow> (string \<times> string) option" where
  "fraction_part s =
     (case s of
        c # t \<Rightarrow> if c = CHR ''.'' then if takeWhile is_digit t = [] then None
                                  else Some (takeWhile is_digit t, dropWhile is_digit t)
                else Some ([], s)
      | [] \<Rightarrow> Some ([], []))"

definition exponent_part :: "string \<Rightarrow> int option" where
  "exponent_part s =
     (case s of
        [] \<Rightarrow> Some 0
      | c # t \<Rightarrow>
          if c = CHR ''e'' \<or> c = CHR ''E''
          then (case t of
                  d # u \<Rightarrow> if d = CHR ''-'' then if all_digits u then Some (- decimal_value u) else None
                          else if d = CHR ''+'' then if all_digits u then Some (decimal_value u) else None
                          else if all_digits t then Some (decimal_value t) else None
                | [] \<Rightarrow> None)
          else None)"

text \<open>The exact value of a token, when it is one.\<close>

definition number_value :: "string \<Rightarrow> rat option" where
  "number_value s =
     (let (negative, t) = split_sign s; i = takeWhile is_digit t
      in if \<not> integer_part_ok i then None
         else case fraction_part (dropWhile is_digit t) of
                None \<Rightarrow> None
              | Some (f, u) \<Rightarrow>
                  (case exponent_part u of
                     None \<Rightarrow> None
                   | Some e \<Rightarrow>
                       let x = of_int (decimal_value (i @ f)) * pow10 (e - int (length f))
                       in Some (if negative then - x else x)))"

text \<open>\<open>json.Number.Float64\<close>: an error when the token overflows.\<close>

definition number_float :: "string \<Rightarrow> gofloat option" where
  "number_float s =
     (case number_value s of
        None \<Rightarrow> None
      | Some x \<Rightarrow> (case fround x of Finite y \<Rightarrow> Some (Finite y) | _ \<Rightarrow> None))"

text \<open>\<open>Rat.SetString\<close> reads an exponent as a 64-bit integer.\<close>

definition exponent_fits :: "string \<Rightarrow> bool" where
  "exponent_fits s =
     (case fraction_part (dropWhile is_digit (snd (split_sign s))) of
        None \<Rightarrow> False
      | Some (f, u) \<Rightarrow>
          (case exponent_part u of None \<Rightarrow> False | Some e \<Rightarrow> min_i64 \<le> e \<and> e \<le> max_i64))"

definition max_integer_token :: nat where
  "max_integer_token = 4096"

text \<open>
  \<open>jsonvalue.Integer\<close> on a token: the fast path of \<open>ParseInt\<close>, the rejection of unbounded magnitudes and the
  exact rational (\<open>math/big\<close>).
\<close>

definition integer_token :: "string \<Rightarrow> int option" where
  "integer_token s =
     (if max_integer_token < length s \<or> number_value s = None then None
      else case go_atoi s of
             Some n \<Rightarrow> Some n
           | None \<Rightarrow>
               (case number_float s of
                  None \<Rightarrow> None
                | Some _ \<Rightarrow>
                    (case number_value s of
                       None \<Rightarrow> None
                     | Some x \<Rightarrow>
                         if exponent_fits s \<and> x = of_int \<lfloor>x\<rfloor> \<and> min_i64 \<le> \<lfloor>x\<rfloor> \<and> \<lfloor>x\<rfloor> \<le> max_i64 then Some \<lfloor>x\<rfloor> else None)))"

definition integer_value :: "json \<Rightarrow> int option" where
  "integer_value v = (case v of JNumber s \<Rightarrow> integer_token s | _ \<Rightarrow> None)"

definition float_value :: "json \<Rightarrow> gofloat option" where
  "float_value v = (case v of JNumber s \<Rightarrow> number_float s | _ \<Rightarrow> None)"

definition int_value :: "json \<Rightarrow> int" where
  "int_value v = (case integer_value v of None \<Rightarrow> 0 | Some n \<Rightarrow> n)"

text \<open>A token that is read as a 64-bit integer does not overflow as a float.\<close>

lemma round_half_even_near: "\<bar>of_int (round_half_even y) - y\<bar> \<le> 1"
  unfolding round_half_even_def Let_def by (auto simp: abs_le_iff; linarith)

lemma pow2_mono: "e \<le> 11 \<Longrightarrow> pow2 e \<le> 2 ^ 11"
proof (cases "0 \<le> e")
  case True
  assume "e \<le> 11"
  with True have "nat e \<le> 11" by simp
  then have "(2 :: rat) ^ nat e \<le> 2 ^ 11" by (rule power_increasing) simp
  with True show ?thesis by (simp add: pow2_def)
next
  case False
  have "(1 :: rat) \<le> 2 ^ nat (- e)" by (rule one_le_power) simp
  then have "1 / 2 ^ nat (- e) \<le> (1 :: rat)" by simp
  moreover have "(1 :: rat) \<le> 2 ^ 11" by simp
  ultimately have "1 / 2 ^ nat (- e) \<le> (2 :: rat) ^ 11" by (rule order_trans)
  with False show ?thesis by (simp only: pow2_def if_False)
qed

lemma fround_int_finite:
  assumes "\<bar>n\<bar> \<le> 2 ^ 63"
  shows "\<exists>y. fround (of_int n) = Finite y"
proof (cases "n = 0")
  case False
  let ?e = "round_exponent (of_int n)"
  let ?r = "of_int (round_half_even (of_int n / pow2 ?e)) * pow2 ?e"
  have "quotient_of \<bar>of_int n\<bar> = (\<bar>n\<bar>, 1)" 
    using quotient_of_int [of "\<bar>n\<bar>"] by (simp add: Rat.of_int_def)
  moreover have "bitlen \<bar>n\<bar> \<le> 64" using assms by (simp add: bitlen_le_iff_power)
  moreover have "bitlen 1 = 1" by (simp add: bitlen_alt_def)
  ultimately have "floor_log2 \<bar>of_int n\<bar> \<le> 63" by (simp add: floor_log2_def Let_def)
  then have e: "pow2 ?e \<le> 2 ^ 11" by (intro pow2_mono) (simp add: round_exponent_def)
  have "?r - of_int n = (of_int (round_half_even (of_int n / pow2 ?e)) - of_int n / pow2 ?e) * pow2 ?e"
    using pow2_pos [of ?e] by (simp add: left_diff_distrib less_imp_neq [symmetric])
  then have "\<bar>?r - of_int n\<bar> = \<bar>of_int (round_half_even (of_int n / pow2 ?e)) - of_int n / pow2 ?e\<bar> * pow2 ?e"
    using pow2_pos [of ?e] by (simp only: abs_mult abs_of_pos)
  also have "\<dots> \<le> 1 * pow2 ?e"
    using round_half_even_near by (intro mult_right_mono) (simp_all add: less_imp_le)
  finally have "\<bar>?r - of_int n\<bar> \<le> 2 ^ 11" using e by simp
  moreover have "\<bar>of_int n\<bar> \<le> (2 :: rat) ^ 63" 
    using assms unfolding of_int_abs [symmetric] by (metis of_int_le_iff of_int_numeral of_int_power)
  ultimately have "\<bar>?r\<bar> \<le> 2 ^ 64" by (simp add: abs_le_iff)
  moreover have "(2 :: rat) ^ 64 < 2 ^ 1024" by (rule power_strict_increasing) simp_all
  ultimately show ?thesis using False by (auto simp: fround_def Let_def abs_le_iff)
qed (simp add: fround_def)

lemma go_atoi_value:
  assumes "go_atoi s = Some n" and "number_value s \<noteq> None"
  shows "number_value s = Some (of_int n)"
proof -
  obtain negative t where sign: "split_sign s = (negative, t)" by fastforce
  have dig: "takeWhile is_digit u = u" "dropWhile is_digit u = []" if "all_digits u" for u
    using that by (auto simp: all_digits_def is_digit_def list_all_iff)
  have plus: "hd s \<noteq> CHR ''+''" if "s \<noteq> []"
    using assms(2) that by (cases s) (auto simp: number_value_def split_sign_def integer_part_ok_def is_digit_def char_code_def)
  have "all_digits t \<and> n = (if negative then - decimal_value t else decimal_value t)"
    using assms(1) sign plus by (cases s) (auto simp: go_atoi_def split_sign_def Let_def split: if_splits)
  with assms(2) show ?thesis
    by (auto simp: number_value_def sign dig fraction_part_def exponent_part_def pow10_def Let_def split: if_splits)
qed

lemma go_atoi_exponent:
  assumes "go_atoi s = Some n" and "number_value s \<noteq> None"
  shows "exponent_fits s"
proof -
  obtain negative t where sign: "split_sign s = (negative, t)" by fastforce
  have plus: "hd s \<noteq> CHR ''+''" if "s \<noteq> []"
    using assms(2) that by (cases s) (auto simp: number_value_def split_sign_def integer_part_ok_def is_digit_def char_code_def)
  have "all_digits t"
    using assms(1) sign plus by (cases s) (auto simp: go_atoi_def split_sign_def Let_def split: if_splits)
  then have drop: "dropWhile is_digit t = []" by (auto simp: all_digits_def is_digit_def list_all_iff)
  show ?thesis
    unfolding exponent_fits_def sign snd_conv drop by (simp add: fraction_part_def exponent_part_def min_i64_def max_i64_def)
qed

lemma go_atoi_range: "go_atoi s = Some n \<Longrightarrow> min_i64 \<le> n \<and> n \<le> max_i64"
  by (auto simp: go_atoi_def Let_def split: prod.splits if_splits)


end
