(* ===== verification/Normalize.thy ===== *)
theory Normalize
  imports Values
begin

text \<open>
  Parsing a client's request (\<open>internal/normalize/normalize.go\<close>, \<open>detect.go\<close>, \<open>reasoning.go\<close>): the dialect is
  detected from the path, the headers and the shape of the body, and its members become the normalized request;
  what a dialect does not define is reported as an unsupported facet.

  \<open>enc\<close> is \<open>json.Marshal\<close> of a decoded value, by which the model keeps what the code passes on as a map. Lower
  casing is that of ASCII letters, which is all the texts searched for consist of.
\<close>

section \<open>Dialects\<close>

definition format_openai_chat :: string where "format_openai_chat = ''openai''"
definition format_openai_responses :: string where "format_openai_responses = ''openai-responses''"
definition format_gemini :: string where "format_gemini = ''gemini''"
definition format_gemini_cli :: string where "format_gemini_cli = ''gemini-cli''"
definition format_antigravity :: string where "format_antigravity = ''antigravity''"

lemmas format_defs = format_openai_chat_def format_openai_responses_def format_gemini_def format_gemini_cli_def
  format_antigravity_def format_anthropic_def

definition body_has_claude_shape :: "jobject \<Rightarrow> bool" where
  "body_has_claude_shape body \<longleftrightarrow>
     gm_has body ''anthropic_version'' \<or> gm_has body ''system'' \<and> gm_has body ''messages''"

definition detect :: "string \<Rightarrow> jobject \<Rightarrow> string" where
  "detect path0 body =
     (let path = lower path0
      in if contains_text path ''/v1/responses'' then format_openai_responses
         else if contains_text path ''/v1/messages'' then format_anthropic
         else if contains_text path ''/v1/chat/completions'' \<and> gm_has body ''input'' then format_openai_chat
         else if gm_has body ''request'' \<and> gm_has body ''contents'' then format_antigravity
         else if gm_has body ''contents'' then format_gemini
         else if gm_has body ''input'' then format_openai_responses
         else if body_has_claude_shape body then format_anthropic
         else format_openai_chat)"

definition detect_with_headers :: "string \<Rightarrow> jobject \<Rightarrow> headers \<Rightarrow> string" where
  "detect_with_headers path body hs =
     (if detect path body \<noteq> format_openai_chat then detect path body
      else if contains_text (lower (header_get ''user-agent'' hs)) ''gemini-cli'' then format_gemini_cli
      else detect path body)"

section \<open>Values kept encoded\<close>

type_synonym encoder = "json \<Rightarrow> string"

definition kept :: "encoder \<Rightarrow> jobject option \<Rightarrow> metadata" where
  "kept enc m = map_option (\<lambda>fs. enc (JObject fs)) m"

fun content_of :: "encoder \<Rightarrow> json \<Rightarrow> content_value" where
  "content_of enc JNull = ContentNil"
| "content_of enc (JText s) = ContentText s"
| "content_of enc (JArray xs) = ContentItems (map (content_of enc) xs)"
| "content_of enc (JObject fs) = ContentObject (map (\<lambda>(k, v). (k, content_of enc v)) fs)"
| "content_of enc v = ContentScalar (enc v)"

definition plain_message :: "string \<Rightarrow> content_value \<Rightarrow> metadata \<Rightarrow> message" where
  "plain_message role content m =
     \<lparr>msg_role = role, msg_content = content, msg_name = [], msg_tool_call_id = [], msg_tool_calls = [], msg_metadata = m\<rparr>"

definition text_part :: "string \<Rightarrow> string \<Rightarrow> metadata \<Rightarrow> content_part" where
  "text_part t text m =
     \<lparr>part_type = t, part_text = text, part_url = [], part_detail = [], part_media_type = [], part_data = [],
      part_metadata = m\<rparr>"

definition proposed_call :: "string \<Rightarrow> string \<Rightarrow> string \<Rightarrow> metadata \<Rightarrow> tool_call" where
  "proposed_call i name arguments m =
     \<lparr>call_id = i, call_type = ''function'', call_name = name, call_arguments = arguments, call_state = ''proposed'',
      call_provider_data = [], call_signature = [], call_issuer = no_ref, call_metadata = m\<rparr>"

fun unique_from :: "string list \<Rightarrow> string list \<Rightarrow> string list" where
  "unique_from seen [] = []"
| "unique_from seen (v # vs) = (if v \<noteq> [] \<and> v \<notin> set seen then v # unique_from (v # seen) vs else unique_from seen vs)"

definition unique_strings :: "string list \<Rightarrow> string list" where
  "unique_strings vs = unique_from [] vs"

definition collapse_parts :: "content_part list \<Rightarrow> content_value" where
  "collapse_parts ps =
     (case ps of [] \<Rightarrow> ContentNil | [p] \<Rightarrow> if part_type p = ''text'' then ContentText (part_text p) else ContentParts ps
      | _ \<Rightarrow> ContentParts ps)"

section \<open>Messages of OpenAI Chat and Gemini\<close>

definition chat_call :: "encoder \<Rightarrow> string \<Rightarrow> json \<Rightarrow> tool_call" where
  "chat_call enc format raw =
     (let c = map_value raw; fn = map_value (member (members c) ''function'')
      in \<lparr>call_id = string_value (member (members c) ''id''), call_type = string_value (member (members c) ''type''),
          call_name = string_value (member (members fn) ''name''), call_arguments = enc (member (members fn) ''arguments''),
          call_state = [], call_provider_data = [],
          call_signature = (if format = format_openai_chat then string_value (member (members c) ''thoughtSignature'') else []),
          call_issuer = no_ref, call_metadata = kept enc c\<rparr>)"

definition chat_message :: "encoder \<Rightarrow> string \<Rightarrow> jobject \<Rightarrow> message" where
  "chat_message enc format m =
     \<lparr>msg_role = string_value (member m ''role''), msg_content = content_of enc (member m ''content''),
      msg_name = string_value (member m ''name''), msg_tool_call_id = string_value (member m ''tool_call_id''),
      msg_tool_calls = (case array_value (member m ''tool_calls'') of None \<Rightarrow> [] | Some cs \<Rightarrow> map (chat_call enc format) cs),
      msg_metadata = kept enc (Some m)\<rparr>"

definition messages_from_array :: "encoder \<Rightarrow> string \<Rightarrow> json list \<Rightarrow> message list" where
  "messages_from_array enc format raw = map (chat_message enc format) (List.map_filter map_value raw)"

definition gemini_message :: "encoder \<Rightarrow> json \<Rightarrow> message" where
  "gemini_message enc v =
     (let m = map_value v; role = string_value (member (members m) ''role'')
      in plain_message (if role = ''model'' then ''assistant'' else role) (content_of enc (member (members m) ''parts''))
           (kept enc m))"

section \<open>Messages of OpenAI Responses\<close>

definition opaque_content :: string where "opaque_content = ''content.opaque''"
definition tools_history :: string where "tools_history = ''tools.history''"

definition annotations_empty :: "json \<Rightarrow> bool" where
  "annotations_empty v \<longleftrightarrow> v = JNull \<or> array_value v = Some []"

text \<open>A block yields a part or is unsupported.\<close>

definition responses_block :: "encoder \<Rightarrow> json \<Rightarrow> string + content_part" where
  "responses_block enc raw =
     (case map_value raw of
        None \<Rightarrow> Inl opaque_content
      | Some b \<Rightarrow>
          let t = string_value (member b ''type'')
          in if t \<in> {''input_text'', ''output_text'', ''text''}
             then if \<not> only_keys b [''type'', ''text'', ''annotations''] \<or> \<not> annotations_empty (member b ''annotations'')
                  then Inl opaque_content
                  else (case member b ''text'' of
                          JText s \<Rightarrow> Inr (text_part ''text'' s (kept enc (Some b)))
                        | _ \<Rightarrow> Inl opaque_content)
             else if t = ''input_image''
             then let url = string_value (member b ''image_url''); detail = string_value (member b ''detail'')
                  in if \<not> only_keys b [''type'', ''image_url'', ''detail''] \<or> url = [] \<or>
                        member b ''detail'' \<noteq> JNull \<and> detail = [] \<or> detail \<notin> {[], ''auto'', ''low'', ''high''}
                     then Inl opaque_content
                     else Inr ((text_part ''image'' [] (kept enc (Some b)))\<lparr>part_url := url, part_detail := detail\<rparr>)
             else Inl opaque_content)"

definition lefts :: "('a + 'b) list \<Rightarrow> 'a list" where
  "lefts xs = List.map_filter (\<lambda>x. case x of Inl a \<Rightarrow> Some a | Inr b \<Rightarrow> None) xs"

definition rights :: "('a + 'b) list \<Rightarrow> 'b list" where
  "rights xs = List.map_filter (\<lambda>x. case x of Inl a \<Rightarrow> None | Inr b \<Rightarrow> Some b) xs"

definition responses_content :: "encoder \<Rightarrow> json \<Rightarrow> content_value \<times> string list" where
  "responses_content enc v =
     (case v of
        JNull \<Rightarrow> (ContentNil, [])
      | JText s \<Rightarrow> (ContentText s, [])
      | JArray blocks \<Rightarrow>
          let bs = map (responses_block enc) blocks in (collapse_parts (rights bs), unique_strings (lefts bs))
      | _ \<Rightarrow> (ContentNil, [opaque_content]))"

definition responses_call :: "encoder \<Rightarrow> jobject \<Rightarrow> message \<times> string list" where
  "responses_call enc item =
     (let i = string_value (member item ''call_id'');
          call = (if i = [] then string_value (member item ''id'') else i);
          name = string_value (member item ''name'');
          args = member item ''arguments''
      in ((plain_message ''assistant'' ContentNil (kept enc (Some item)))
            \<lparr>msg_tool_calls := [proposed_call call name (enc args) (kept enc (Some item))]\<rparr>,
          (if \<not> only_keys item [''type'', ''id'', ''call_id'', ''name'', ''arguments''] then [tools_history] else []) @
          (if call = [] \<or> trim_space name = [] \<or> args = JNull then [tools_history] else [])))"

definition responses_result :: "encoder \<Rightarrow> jobject \<Rightarrow> message \<times> string list" where
  "responses_result enc item =
     (let i = string_value (member item ''call_id'');
          (content, rejected) = responses_content enc (member item ''output'')
      in ((plain_message ''tool'' content (kept enc (Some item)))\<lparr>msg_tool_call_id := i\<rparr>,
          (if \<not> only_keys item [''type'', ''call_id'', ''output''] then [tools_history] else []) @ rejected @
          (if i = [] \<or> member item ''output'' = JNull then [tools_history] else [])))"

definition responses_item :: "encoder \<Rightarrow> json \<Rightarrow> message list \<times> string list" where
  "responses_item enc v =
     (case map_value v of
        None \<Rightarrow> ([], [opaque_content])
      | Some item \<Rightarrow>
          let t = string_value (member item ''type'')
          in if t = ''function_call'' then case responses_call enc item of (m, us) \<Rightarrow> ([m], us)
             else if t = ''function_call_output'' then case responses_result enc item of (m, us) \<Rightarrow> ([m], us)
             else if t \<noteq> [] \<and> t \<noteq> ''message'' then ([], [opaque_content])
             else let role = string_value (member item ''role'');
                      extra = (if \<not> only_keys item [''type'', ''id'', ''role'', ''name'', ''content''] then [opaque_content] else [])
                  in if role \<notin> {''user'', ''assistant'', ''system'', ''developer''} then ([], extra @ [opaque_content])
                     else case responses_content enc (member item ''content'') of
                            (content, rejected) \<Rightarrow>
                              ([(plain_message role content (kept enc (Some item)))
                                  \<lparr>msg_name := string_value (member item ''name'')\<rparr>], extra @ rejected))"

definition responses_messages :: "encoder \<Rightarrow> json list \<Rightarrow> message list \<times> string list" where
  "responses_messages enc raw =
     (let rs = map (responses_item enc) raw in (concat (map fst rs), unique_strings (concat (map snd rs))))"

definition responses_tool_valid :: "json \<Rightarrow> bool" where
  "responses_tool_valid raw \<longleftrightarrow>
     (case map_value raw of
        None \<Rightarrow> False
      | Some t \<Rightarrow>
          only_keys t [''type'', ''name'', ''description'', ''parameters'', ''strict''] \<and>
          string_value (member t ''type'') = ''function'' \<and> string_value (member t ''name'') \<noteq> [] \<and>
          map_value (member t ''parameters'') \<noteq> None \<and>
          (case gm_get t ''description'' of None \<Rightarrow> True | Some (JText d) \<Rightarrow> True | _ \<Rightarrow> False) \<and>
          (case gm_get t ''strict'' of None \<Rightarrow> True | Some (JBool b) \<Rightarrow> True | _ \<Rightarrow> False))"

definition responses_tools_valid :: "json \<Rightarrow> bool" where
  "responses_tools_valid v =
     (case v of JNull \<Rightarrow> True | JArray ts \<Rightarrow> list_all responses_tool_valid ts | _ \<Rightarrow> False)"

definition normalize_messages :: "encoder \<Rightarrow> string \<Rightarrow> jobject \<Rightarrow> message list \<times> string list" where
  "normalize_messages enc format body =
     (case (array_value (member body ''messages''), member body ''input'', array_value (member body ''contents'')) of
        (Some raw, _, _) \<Rightarrow> (messages_from_array enc format raw, [])
      | (None, JArray input, _) \<Rightarrow>
          if format = format_openai_responses then responses_messages enc input
          else (messages_from_array enc format input, [])
      | (None, JText s, _) \<Rightarrow> ([plain_message ''user'' (ContentText s) None], [])
      | (None, _, Some contents) \<Rightarrow> (map (gemini_message enc) contents, [])
      | _ \<Rightarrow> ([], []))"

section \<open>Messages of Anthropic\<close>

text \<open>Whether the part is rejected; a rejected image still has its part.\<close>

definition anthropic_part :: "encoder \<Rightarrow> jobject \<Rightarrow> content_part \<times> bool" where
  "anthropic_part enc b =
     (let none = (text_part [] [] None, True); keep = kept enc (Some b)
      in if string_value (member b ''type'') = ''text''
         then if \<not> only_keys b [''type'', ''text'', ''cache_control''] then none
              else (text_part ''text'' (string_value (member b ''text'')) keep, False)
         else if string_value (member b ''type'') = ''image''
         then if \<not> only_keys b [''type'', ''source'', ''cache_control''] then none
              else let source = members (map_value (member b ''source''));
                       kind = string_value (member source ''type'');
                       media = string_value (member source ''media_type'');
                       data = string_value (member source ''data'');
                       url = string_value (member source ''url'')
                   in if kind = ''base64''
                      then if \<not> only_keys source [''type'', ''media_type'', ''data''] then none
                           else ((text_part ''image'' [] keep)\<lparr>part_media_type := media, part_data := data\<rparr>,
                                 media = [] \<or> data = [])
                      else if kind = ''url''
                      then if \<not> only_keys source [''type'', ''url''] then none
                           else ((text_part ''image'' [] keep)\<lparr>part_url := url\<rparr>, url = [])
                      else none
         else none)"

text \<open>The parts of a list of blocks, what is unsupported in it, and whether any block was rejected.\<close>

fun anthropic_content :: "encoder \<Rightarrow> json list \<Rightarrow> content_part list \<times> string list \<times> bool" where
  "anthropic_content enc [] = ([], [], False)"
| "anthropic_content enc (raw # raws) =
     (case anthropic_content enc raws of
        (ps, us, r) \<Rightarrow>
          (case map_value raw of
             None \<Rightarrow> (ps, opaque_content # us, True)
           | Some b \<Rightarrow>
               let cached = gm_has b ''cache_control''; (p, rejected) = anthropic_part enc b;
                   us1 = (if cached then [opaque_content] else [])
               in if rejected then (ps, us1 @ opaque_content # us, True) else (p # ps, us1 @ us, cached \<or> r)))"

text \<open>The loop over the blocks of one message: what is not yet flushed, and the messages so far.\<close>

record block_state =
  bk_messages :: "message list"
  bk_unsupported :: "string list"
  bk_parts :: "content_part list"
  bk_calls :: "tool_call list"
  bk_saw_call :: bool

definition report :: "string list \<Rightarrow> block_state \<Rightarrow> block_state" where
  "report us s = s\<lparr>bk_unsupported := bk_unsupported s @ us\<rparr>"

definition flush_blocks :: "encoder \<Rightarrow> string \<Rightarrow> jobject \<Rightarrow> block_state \<Rightarrow> block_state" where
  "flush_blocks enc role source s =
     (if bk_parts s = [] \<and> bk_calls s = [] then s
      else s\<lparr>bk_messages := bk_messages s @ [(plain_message role (collapse_parts (bk_parts s)) (kept enc (Some source)))
                                               \<lparr>msg_tool_calls := bk_calls s\<rparr>],
             bk_parts := [], bk_calls := []\<rparr>)"

definition tool_use :: "encoder \<Rightarrow> jobject \<Rightarrow> tool_call" where
  "tool_use enc b =
     proposed_call (string_value (member b ''id'')) (string_value (member b ''name''))
       (enc (case map_value (member b ''input'') of None \<Rightarrow> JNull | Some m \<Rightarrow> JObject m)) (kept enc (Some b))"

definition tool_result :: "encoder \<Rightarrow> jobject \<Rightarrow> message \<times> string list" where
  "tool_result enc b =
     (let (content, us) =
        (case array_value (member b ''content'') of
           Some blocks \<Rightarrow>
             (case anthropic_content enc blocks of
                (ps, us, rejected) \<Rightarrow> (collapse_parts ps, us @ (if rejected then [opaque_content] else [])))
         | None \<Rightarrow> (content_of enc (member b ''content''), []))
      in ((plain_message ''tool'' content (kept enc (Some b)))
            \<lparr>msg_tool_call_id := string_value (member b ''tool_use_id'')\<rparr>, us))"

definition only_or :: "string \<Rightarrow> jobject \<Rightarrow> string list \<Rightarrow> string list" where
  "only_or facet b allowed = (if only_keys b allowed then [] else [facet])"

definition anthropic_block :: "encoder \<Rightarrow> string \<Rightarrow> jobject \<Rightarrow> json \<Rightarrow> block_state \<Rightarrow> block_state" where
  "anthropic_block enc role source raw s =
     (case map_value raw of
        None \<Rightarrow> report [opaque_content] s
      | Some b \<Rightarrow>
          let t = string_value (member b ''type'')
          in if t \<in> {''text'', ''image''}
             then let s1 = report ((if gm_has b ''cache_control'' then [opaque_content] else []) @
                                   (if bk_saw_call s \<and> role = ''assistant'' then [''tools.block_order''] else [])) s;
                      (p, rejected) = anthropic_part enc b
                  in if rejected then report [opaque_content] s1 else s1\<lparr>bk_parts := bk_parts s1 @ [p]\<rparr>
             else if t = ''tool_use''
             then let s1 = report (only_or opaque_content b [''type'', ''id'', ''name'', ''input'']) s
                  in if role \<noteq> ''assistant'' then report [tools_history] s1
                     else (report (if string_value (member b ''id'') = [] \<or> string_value (member b ''name'') = [] \<or>
                                      map_value (member b ''input'') = None then [tools_history] else []) s1)
                          \<lparr>bk_saw_call := True, bk_calls := bk_calls s @ [tool_use enc b]\<rparr>
             else if t = ''tool_result''
             then let s1 = report (only_or opaque_content b [''type'', ''tool_use_id'', ''content'', ''is_error'']) s
                  in if role \<noteq> ''user'' then report [tools_history] s1
                     else let s2 = flush_blocks enc role source s1;
                              (m, us) = tool_result enc b
                          in (report ((if string_value (member b ''tool_use_id'') = [] then [tools_history] else []) @
                                      (if bool_value (member b ''is_error'') False then [''tools.result_status''] else []) @
                                      us) s2)\<lparr>bk_messages := bk_messages s2 @ [m]\<rparr>
             else if t = ''thinking''
             then (report [''reasoning.signature''] s)
                  \<lparr>bk_parts := bk_parts s @ [text_part ''thinking'' (string_value (member b ''thinking'')) (kept enc (Some b))]\<rparr>
             else if t = ''redacted_thinking''
             then (report [''reasoning.signature'', opaque_content] s)
                  \<lparr>bk_parts := bk_parts s @ [text_part ''redacted_thinking'' [] (kept enc (Some b))]\<rparr>
             else report [opaque_content] s)"

definition anthropic_message :: "encoder \<Rightarrow> json \<Rightarrow> message list \<times> string list \<Rightarrow> message list \<times> string list" where
  "anthropic_message enc raw acc =
     (case map_value raw of
        None \<Rightarrow> (fst acc, snd acc @ [opaque_content])
      | Some source \<Rightarrow>
          let role = string_value (member source ''role'');
              us = snd acc @ (if role \<notin> {''assistant'', ''user'', ''developer''} then [opaque_content] else [])
          in case member source ''content'' of
               JText text \<Rightarrow> (fst acc @ [plain_message role (ContentText text) (kept enc (Some source))], us)
             | content \<Rightarrow>
                 let blocks = (case array_value content of None \<Rightarrow> [] | Some bs \<Rightarrow> bs);
                     s = flush_blocks enc role source
                           (fold (anthropic_block enc role source) blocks
                              \<lparr>bk_messages = fst acc,
                               bk_unsupported = us @ (if content \<noteq> JNull \<and> array_value content = None then [opaque_content] else []),
                               bk_parts = [], bk_calls = [], bk_saw_call = False\<rparr>)
                 in (bk_messages s @ (if blocks = [] then [plain_message role ContentNil (kept enc (Some source))] else []),
                     bk_unsupported s))"

definition anthropic_messages :: "encoder \<Rightarrow> jobject \<Rightarrow> message list \<times> string list" where
  "anthropic_messages enc body =
     (case fold (anthropic_message enc) (case array_value (member body ''messages'') of None \<Rightarrow> [] | Some ms \<Rightarrow> ms) ([], []) of
        (ms, us) \<Rightarrow> (ms, unique_strings us))"

definition inline_layer :: "string \<Rightarrow> string \<Rightarrow> content_part list \<Rightarrow> prompt_layer" where
  "inline_layer role text ps = \<lparr>pl_origin = ''inline'', pl_role = role, pl_text = text, pl_parts = ps\<rparr>"

definition anthropic_system :: "encoder \<Rightarrow> json \<Rightarrow> prompt_layer list \<times> string list" where
  "anthropic_system enc v =
     (case v of
        JText text \<Rightarrow> ([inline_layer ''system'' text []], [])
      | JArray [] \<Rightarrow> ([], [])
      | JArray blocks \<Rightarrow>
          (case anthropic_content enc blocks of
             (ps, us, rejected) \<Rightarrow> ([inline_layer ''system'' [] ps], us @ (if rejected then [''prompt.layers''] else [])))
      | JNull \<Rightarrow> ([], [])
      | _ \<Rightarrow> ([], [''prompt.layers'']))"

section \<open>Prompts and transcripts\<close>

definition is_instruction :: "message \<Rightarrow> bool" where
  "is_instruction m \<longleftrightarrow> msg_role m \<in> {''system'', ''developer''}"

definition layer_of :: "message \<Rightarrow> prompt_layer" where
  "layer_of m =
     (case msg_content m of
        ContentText text \<Rightarrow> inline_layer (msg_role m) text []
      | ContentParts ps \<Rightarrow> inline_layer (msg_role m) [] ps
      | _ \<Rightarrow> inline_layer (msg_role m) [] [])"

definition inline_prompt_plan :: "message list \<Rightarrow> prompt_layer list" where
  "inline_prompt_plan ms = map layer_of (filter is_instruction ms)"

definition conversation_messages :: "message list \<Rightarrow> message list" where
  "conversation_messages ms = filter (\<lambda>m. \<not> is_instruction m) ms"

section \<open>Tools\<close>

definition anthropic_tool :: "encoder \<Rightarrow> jobject \<Rightarrow> tool" where
  "anthropic_tool enc d =
     (let name = string_value (member d ''name''); description = string_value (member d ''description'')
      in \<lparr>tool_type = ''function'', tool_name = name,
          tool_function = enc (JObject ([(''name'', JText name)] @
            (if description \<noteq> [] then [(''description'', JText description)] else []) @
            (case gm_get d ''input_schema'' of None \<Rightarrow> [] | Some schema \<Rightarrow> [(''parameters'', schema)]))),
          tool_metadata = kept enc (Some d)\<rparr>)"

definition openai_tool :: "encoder \<Rightarrow> string \<Rightarrow> jobject \<Rightarrow> tool" where
  "openai_tool enc format m =
     \<lparr>tool_type = string_value (member m ''type''), tool_name = string_value (member m ''name''),
      tool_function =
        (if format = format_openai_responses then enc (JObject (without_keys m [''type'']))
         else case map_value (member m ''function'') of None \<Rightarrow> [] | Some f \<Rightarrow> enc (JObject f)),
      tool_metadata = kept enc (Some m)\<rparr>"

definition normalize_tools :: "encoder \<Rightarrow> json \<Rightarrow> string \<Rightarrow> tool list" where
  "normalize_tools enc v format =
     (let ds = List.map_filter map_value (case array_value v of None \<Rightarrow> [] | Some ts \<Rightarrow> ts)
      in if format = format_anthropic then map (anthropic_tool enc) ds else map (openai_tool enc format) ds)"

definition no_choice :: tool_choice where
  "no_choice = \<lparr>choice_mode = [], choice_name = [], choice_disable_parallel = False, choice_set = False, choice_metadata = None\<rparr>"

definition object_choice :: "encoder \<Rightarrow> jobject \<Rightarrow> tool_choice" where
  "object_choice enc c =
     (let fn = members (map_value (member c ''function'')); t = string_value (member c ''type'');
          name = string_value (member fn ''name''); opaque = without_keys fn [''name'']
      in \<lparr>choice_mode = (if t = ''function'' then ''tool'' else t),
          choice_name = (if name = [] then string_value (member c ''name'') else name),
          choice_disable_parallel = False, choice_set = True,
          choice_metadata = kept enc (Some (let m = without_keys c [''type'', ''function'', ''name'']
                                            in if opaque \<noteq> [] then gm_put ''function'' (JObject opaque) m else m))\<rparr>)"

definition normalize_tool_choice :: "encoder \<Rightarrow> json \<Rightarrow> string \<Rightarrow> tool_choice" where
  "normalize_tool_choice enc v format =
     (if format \<in> {format_openai_chat, format_openai_responses}
      then (case v of
              JText mode \<Rightarrow> no_choice\<lparr>choice_mode := (if mode = ''required'' then ''any'' else mode), choice_set := True\<rparr>
            | JObject c \<Rightarrow> object_choice enc c
            | _ \<Rightarrow> no_choice)
      else if format = format_anthropic
      then (case v of
              JObject c \<Rightarrow>
                \<lparr>choice_mode = string_value (member c ''type''), choice_name = string_value (member c ''name''),
                 choice_disable_parallel = bool_value (member c ''disable_parallel_tool_use'') False, choice_set = True,
                 choice_metadata = kept enc (Some (without_keys c [''type'', ''name'', ''disable_parallel_tool_use'']))\<rparr>
            | _ \<Rightarrow> no_choice)
      else no_choice)"

section \<open>Generation options\<close>

definition max_keys :: "string \<Rightarrow> string list" where
  "max_keys format =
     (if format = format_openai_chat then [''max_completion_tokens'', ''max_tokens'']
      else if format = format_openai_responses then [''max_output_tokens'', ''max_completion_tokens'', ''max_tokens'']
      else [''max_tokens''])"

text \<open>Each option is a value, or the name of the member that is not supported.\<close>

definition max_output_option :: "string \<Rightarrow> jobject \<Rightarrow> int option \<times> string list" where
  "max_output_option format body =
     (case find (gm_has body) (max_keys format) of
        None \<Rightarrow> (None, [])
      | Some k \<Rightarrow>
          (case integer_value (member body k) of
             Some n \<Rightarrow> if 0 < n then (Some n, []) else (None, [k])
           | None \<Rightarrow> (None, [k])))"

definition unit_range :: "gofloat \<Rightarrow> bool" where
  "unit_range f = (case f of Finite x \<Rightarrow> 0 \<le> x \<and> x \<le> 1 | _ \<Rightarrow> False)"

definition float_option :: "string \<Rightarrow> jobject \<Rightarrow> string \<Rightarrow> gofloat option \<times> string list" where
  "float_option format body k =
     (case gm_get body k of
        None \<Rightarrow> (None, [])
      | Some raw \<Rightarrow>
          (case float_value raw of
             Some f \<Rightarrow> if format \<noteq> format_anthropic \<or> unit_range f then (Some f, []) else (None, [k])
           | None \<Rightarrow> (None, [k])))"

definition stop_key :: "string \<Rightarrow> string" where
  "stop_key format = (if format = format_anthropic then ''stop_sequences'' else ''stop'')"

definition stop_option :: "string \<Rightarrow> jobject \<Rightarrow> string list \<times> string list" where
  "stop_option format body =
     (let k = stop_key format
      in case gm_get body k of
           None \<Rightarrow> ([], [])
         | Some raw \<Rightarrow>
             (case raw of
                JText s \<Rightarrow> if format \<noteq> format_anthropic then ([s], []) else ([], [k])
              | JArray xs \<Rightarrow>
                  (List.map_filter (\<lambda>x. case x of JText s \<Rightarrow> Some s | _ \<Rightarrow> None) xs,
                   map (\<lambda>x. k) (filter (\<lambda>x. case x of JText s \<Rightarrow> False | _ \<Rightarrow> True) xs))
              | _ \<Rightarrow> ([], [k])))"

definition anthropic_members :: "string list" where
  "anthropic_members =
     [''model'', ''messages'', ''system'', ''stream'', ''tools'', ''tool_choice'', ''thinking'', ''output_config'',
      ''metadata'', ''max_tokens'', ''temperature'', ''top_p'', ''stop_sequences'']"

definition normalize_generation_options :: "jobject \<Rightarrow> string \<Rightarrow> generation_options" where
  "normalize_generation_options body format =
     (let (max_output, u1) = max_output_option format body; (temperature, u2) = float_option format body ''temperature'';
          (top_p, u3) = float_option format body ''top_p''; (stops, u4) = stop_option format body
      in \<lparr>gn_max_output = max_output, gn_temperature = temperature, gn_top_p = top_p, gn_stop_sequences = stops,
          gn_unsupported = u1 @ u2 @ u3 @ u4 @
            (if format = format_anthropic then filter (\<lambda>k. k \<notin> set anthropic_members) (gm_keys body) else [])\<rparr>)"

section \<open>Reasoning\<close>

definition intent :: "string \<Rightarrow> string \<Rightarrow> int \<Rightarrow> string \<Rightarrow> thinking_intent" where
  "intent mode effort budget source =
     \<lparr>th_mode = mode, th_effort = effort, th_budget_tokens = budget, th_source = source\<rparr>"

definition normalize_thinking :: "jobject \<Rightarrow> thinking_intent" where
  "normalize_thinking body =
     (if string_value (member body ''reasoning_effort'') \<noteq> []
      then intent ''level'' (string_value (member body ''reasoning_effort'')) 0 ''request_field''
      else case (map_value (member body ''thinking''), map_value (member body ''reasoning'')) of
             (Some t, _) \<Rightarrow>
               intent (string_value (member t ''type'')) (string_value (member t ''effort''))
                 (int_value (member t ''budget_tokens'')) ''thinking''
           | (None, Some r) \<Rightarrow>
               (case gm_get r ''max_output_tokens'' of
                  Some budget \<Rightarrow> intent ''budget'' (string_value (member r ''effort'')) (int_value budget) ''reasoning''
                | None \<Rightarrow> intent ''level'' (string_value (member r ''effort'')) 0 ''request_field'')
           | _ \<Rightarrow> intent ''inherit'' [] 0 ''absent'')"

definition reasoning_intent :: string where "reasoning_intent = ''reasoning.intent''"

definition unsupported_responses_reasoning :: "jobject \<Rightarrow> string list" where
  "unsupported_responses_reasoning body =
     (let us = (if gm_has body ''thinking'' then [reasoning_intent] else []) @
               (if gm_has body ''reasoning_effort'' then [reasoning_intent] else [])
      in unique_strings
           (case gm_get body ''reasoning'' of
              None \<Rightarrow> us
            | Some (JObject r) \<Rightarrow>
                us @ map (\<lambda>k. reasoning_intent) (filter (\<lambda>k. k \<notin> {''effort'', ''max_output_tokens''}) (gm_keys r)) @
                (case gm_get r ''effort'' of
                   None \<Rightarrow> []
                 | Some (JText _) \<Rightarrow> if 0 < int_value (member r ''max_output_tokens'') then [reasoning_intent] else []
                 | Some _ \<Rightarrow> [reasoning_intent]) @
                (case gm_get r ''max_output_tokens'' of
                   None \<Rightarrow> []
                 | Some budget \<Rightarrow>
                     (case integer_value budget of
                        Some n \<Rightarrow> if 0 < n then [] else [''reasoning.budget'']
                      | None \<Rightarrow> [''reasoning.budget'']))
            | Some _ \<Rightarrow> us @ [reasoning_intent]))"

text \<open>The intent, and whether Anthropic's rules for it are kept.\<close>

definition normalize_anthropic_thinking :: "jobject \<Rightarrow> thinking_intent \<times> bool" where
  "normalize_anthropic_thinking body =
     (let thinking = map_value (member body ''thinking''); output = map_value (member body ''output_config'');
          t = members thinking; o' = members output;
          effort = string_value (member o' ''effort''); mode = string_value (member t ''type'');
          inherit = (\<lambda>source. intent ''inherit'' [] 0 source)
      in if gm_has body ''thinking'' \<and> thinking = None then (inherit ''thinking'', False)
         else if gm_has body ''output_config'' \<and> output = None then (inherit ''output_config'', False)
         else if output \<noteq> None \<and> \<not> only_keys o' [''effort''] then (inherit ''output_config'', False)
         else if gm_has o' ''effort'' \<and> effort = [] then (inherit ''output_config'', False)
         else if thinking \<noteq> None \<and> \<not> only_keys t [''type'', ''budget_tokens''] then (inherit ''thinking'', False)
         else if mode = []
         then (if thinking \<noteq> None then (inherit ''thinking'', False)
               else if output \<noteq> None then (inherit ''output_config'', False) else (inherit ''absent'', True))
         else if mode = ''enabled''
         then (case integer_value (member t ''budget_tokens'') of
                 None \<Rightarrow> (intent ''budget'' [] 0 ''thinking'', False)
               | Some n \<Rightarrow> (intent ''budget'' [] n ''thinking'', 0 < n \<and> effort = []))
         else if mode = ''disabled''
         then (intent ''disabled'' [] 0 ''thinking'', \<not> gm_has t ''budget_tokens'' \<and> effort = [])
         else if mode = ''adaptive''
         then (if gm_has t ''budget_tokens'' then (intent ''auto'' [] 0 ''thinking'', False)
               else if effort \<noteq> [] then (intent ''level'' effort 0 ''output_config'', True)
               else (intent ''auto'' [] 0 ''thinking'', True))
         else (inherit ''thinking'', False))"

section \<open>Modalities\<close>

text \<open>Every value of a body that \<open>detectModalities\<close> visits.\<close>

fun visited :: "json \<Rightarrow> json list" where
  "visited (JArray xs) = JArray xs # concat (map visited xs)"
| "visited (JObject fs) = JObject fs # concat (map (\<lambda>(k, v). visited v) fs)"
| "visited v = [v]"

definition typed_as :: "string list \<Rightarrow> json \<Rightarrow> bool" where
  "typed_as ts v = (case v of JObject fs \<Rightarrow> lower (string_value (member fs ''type'')) \<in> set ts | _ \<Rightarrow> False)"

definition text_with :: "string \<Rightarrow> json \<Rightarrow> bool" where
  "text_with t v = (case v of JText s \<Rightarrow> contains_text (lower s) t | _ \<Rightarrow> False)"

definition pdf_media :: "json \<Rightarrow> bool" where
  "pdf_media v = (case v of JObject fs \<Rightarrow> contains_text (lower (string_value (member fs ''media_type''))) ''pdf'' | _ \<Rightarrow> False)"

definition detect_modalities :: "jobject \<Rightarrow> modalities" where
  "detect_modalities body =
     (let found = (\<lambda>P. list_ex P (visited (JObject body)))
      in \<lparr>md_vision = found (\<lambda>v. typed_as [''image'', ''image_url'', ''input_image''] v \<or> text_with ''data:image/'' v),
          md_audio_input = found (\<lambda>v. typed_as [''audio'', ''input_audio'', ''audio_url''] v \<or> text_with ''data:audio/'' v),
          md_video_input = found (typed_as [''video'', ''input_video'', ''video_url'']),
          md_pdf = found (\<lambda>v. typed_as [''file'', ''document'', ''input_file''] v \<or> pdf_media v \<or>
                              text_with ''data:application/pdf'' v)\<rparr>)"

section \<open>The request\<close>

datatype normalize_error =
    ModelRequired
  | IdempotencyRepeated
  | IdempotencyTooLong
  | IdempotencyCharacters
  | StreamOptionsInvalid

definition client_idempotency_key :: "string \<Rightarrow> normalize_error + string" where
  "client_idempotency_key value =
     (let v = trim_space value
      in if v = [] then Inr []
         else if 255 < length v then Inl IdempotencyTooLong
         else if list_ex (\<lambda>c. char_code c < 0x21 \<or> 0x7e < char_code c) v then Inl IdempotencyCharacters
         else Inr v)"

text \<open>
  The strict binding of \<open>stream_options\<close>: its encoding is read in the order of the member names, a name matches
  in any case, and null leaves the option as it is.
\<close>

fun bind_include_usage :: "jobject \<Rightarrow> bool \<Rightarrow> bool option" where
  "bind_include_usage [] b = Some b"
| "bind_include_usage ((k, v) # fs) b =
     (if lower k \<noteq> ''include_usage'' then None
      else case v of JBool b' \<Rightarrow> bind_include_usage fs b' | JNull \<Rightarrow> bind_include_usage fs b | _ \<Rightarrow> None)"

definition include_usage :: "json \<Rightarrow> bool option" where
  "include_usage v =
     (case v of JNull \<Rightarrow> Some False | JObject fs \<Rightarrow> bind_include_usage (sort_key fst fs) False | _ \<Rightarrow> None)"

definition core_keys :: "string list" where
  "core_keys =
     [''model'', ''messages'', ''input'', ''contents'', ''stream'', ''tools'', ''tool_choice'', ''parallel_tool_calls'',
      ''reasoning_effort'', ''thinking'', ''reasoning'', ''conversation_id'', ''response_id'', ''previous_response_id'',
      ''instructions'', ''max_tokens'', ''max_completion_tokens'', ''max_output_tokens'', ''temperature'', ''top_p'',
      ''stop'', ''stop_sequences'', ''operationPayload'']"

definition anthropic_core_keys :: "string list" where
  "anthropic_core_keys =
     [''system'', ''tool_choice'', ''max_tokens'', ''temperature'', ''top_p'', ''stop_sequences'', ''thinking'',
      ''output_config'', ''metadata'']"

definition extension_members :: "string \<Rightarrow> jobject \<Rightarrow> jobject" where
  "extension_members format body =
     without_keys body
       ((if format = format_openai_chat then [''stream_options''] else []) @ core_keys @
        (if format = format_anthropic then anthropic_core_keys else []))"

text \<open>Tool calls without an identifier are numbered through the transcript.\<close>

fun number_calls :: "nat \<Rightarrow> tool_call list \<Rightarrow> tool_call list \<times> nat" where
  "number_calls n [] = ([], n)"
| "number_calls n (c # cs) =
     (if call_id c = []
      then case number_calls (Suc n) cs of
             (cs', k) \<Rightarrow> (c\<lparr>call_id := ''call_gobroom_'' @ decimal (Suc n)\<rparr> # cs', k)
      else case number_calls n cs of (cs', k) \<Rightarrow> (c # cs', k))"

fun normalize_tool_calls :: "nat \<Rightarrow> message list \<Rightarrow> message list" where
  "normalize_tool_calls n [] = []"
| "normalize_tool_calls n (m # ms) =
     (case number_calls n (msg_tool_calls m) of
        (cs, k) \<Rightarrow> m\<lparr>msg_tool_calls := cs\<rparr> # normalize_tool_calls k ms)"

text \<open>What only Anthropic requests are checked for, besides their messages.\<close>

definition anthropic_tool_facets :: "json \<Rightarrow> string list" where
  "anthropic_tool_facets v =
     (case v of
        JArray ts \<Rightarrow>
          map (\<lambda>t. ''tools.definitions'')
            (filter (\<lambda>t. case map_value t of None \<Rightarrow> True | Some d \<Rightarrow> \<not> only_keys d [''name'', ''description'', ''input_schema'']) ts)
      | _ \<Rightarrow> [])"

definition anthropic_choice_facets :: "jobject \<Rightarrow> tool_choice \<Rightarrow> string list" where
  "anthropic_choice_facets body choice =
     (case member body ''tool_choice'' of
        JObject c \<Rightarrow> only_or ''tools.choice'' c [''type'', ''name'', ''disable_parallel_tool_use'']
      | _ \<Rightarrow> []) @
     (if gm_has body ''tool_choice'' \<and> \<not> choice_set choice then [''tools.choice''] else [])"

definition client_metadata_facets :: "jobject \<Rightarrow> string list" where
  "client_metadata_facets body = (if members (map_value (member body ''metadata'')) \<noteq> [] then [''client.metadata''] else [])"

text \<open>Messages, prompt and unsupported facets of a request.\<close>

definition transcript :: "encoder \<Rightarrow> string \<Rightarrow> jobject \<Rightarrow> tool_choice \<Rightarrow> message list \<times> prompt_layer list \<times> string list" where
  "transcript enc format body choice =
     (if format = format_anthropic
      then let (ms, us) = anthropic_messages enc body; (prompt, ps) = anthropic_system enc (member body ''system'')
           in (ms, prompt, us @ anthropic_tool_facets (member body ''tools'') @ anthropic_choice_facets body choice @ ps @
                           client_metadata_facets body)
      else let (ms, us) = normalize_messages enc format body; prompt = inline_prompt_plan ms
           in if format \<noteq> format_openai_responses then (ms, prompt, us)
              else let us1 = (if responses_tools_valid (member body ''tools'') then [] else [''tools.definitions'']) @ us
                   in case gm_get body ''instructions'' of
                        None \<Rightarrow> (ms, prompt, us1)
                      | Some (JText text) \<Rightarrow> (ms, inline_layer ''developer'' text [] # prompt, us1)
                      | Some _ \<Rightarrow> (ms, prompt, us1 @ [''prompt.layers'']))"

definition thinking_of :: "string \<Rightarrow> jobject \<Rightarrow> thinking_intent \<times> string list" where
  "thinking_of format body =
     (if format = format_anthropic
      then let (t, valid) = normalize_anthropic_thinking body in (t, if valid then [] else [reasoning_intent])
      else (normalize_thinking body,
            if format = format_openai_responses then unsupported_responses_reasoning body else []))"

definition choice_of :: "encoder \<Rightarrow> string \<Rightarrow> jobject \<Rightarrow> tool_choice" where
  "choice_of enc format body =
     (let choice = normalize_tool_choice enc (member body ''tool_choice'') format
      in case member body ''parallel_tool_calls'' of
           JBool par \<Rightarrow>
             if format \<in> {format_openai_chat, format_openai_responses} then choice\<lparr>choice_disable_parallel := \<not> par\<rparr>
             else choice
         | _ \<Rightarrow> choice)"

definition normalize_body :: "encoder \<Rightarrow> string \<Rightarrow> headers \<Rightarrow> jobject \<Rightarrow> string \<Rightarrow> bool \<Rightarrow> request" where
  "normalize_body enc format hs body key usage =
     (let choice = choice_of enc format body;
          stream = bool_value (member body ''stream'') False;
          accept = lower (header_get ''accept'' hs);
          (ms, prompt, us) = transcript enc format body choice;
          (thinking, ts) = thinking_of format body
      in zero_request\<lparr>rq_model := string_value (member body ''model''), rq_operation := operation_chat_generate,
           rq_operation_version := 1, rq_source_format := format, rq_stream := stream,
           rq_tools := normalize_tools enc (member body ''tools'') format, rq_tool_choice := choice,
           rq_generation := normalize_generation_options body format,
           rq_extensions := kept enc (Some (extension_members format body)),
           rq_raw := \<lparr>raw_keys = gm_keys body, raw_encoding = enc (JObject body)\<rparr>,
           rq_transport :=
             \<lparr>tr_accept_json = contains_text accept ''application/json'', tr_accept_sse = contains_text accept ''text/event-stream'',
              tr_include_usage = (stream \<and> usage), tr_force_stream = False, tr_target_format = [],
              tr_preferred_connection = header_get ''x-connection-id'' hs, tr_idempotency_key = key\<rparr>,
           rq_messages := normalize_tool_calls 0 (conversation_messages ms), rq_prompt := prompt,
           rq_unsupported_facets := us @ ts, rq_thinking := thinking,
           rq_session := \<lparr>sx_id = header_get ''x-session-id'' hs, sx_client = header_get ''user-agent'' hs,
                          sx_conversation = string_value (member body ''conversation_id''), sx_provider_state = []\<rparr>,
           rq_continuity := \<lparr>cn_response_id = string_value (member body ''response_id''),
                             cn_previous_response = string_value (member body ''previous_response_id''),
                             cn_encrypted_content = []\<rparr>,
           rq_modalities := detect_modalities body\<rparr>)"

text \<open>\<open>normalize.Map\<close>; the time of receipt is left to the caller.\<close>

definition normalize_map :: "encoder \<Rightarrow> string \<Rightarrow> headers \<Rightarrow> jobject \<Rightarrow> normalize_error + request" where
  "normalize_map enc path hs body =
     (let format = detect_with_headers path body hs
      in if trim_space (string_value (member body ''model'')) = [] then Inl ModelRequired
         else if 1 < length (gm_or hs (canonical_header ''Idempotency-Key'') []) then Inl IdempotencyRepeated
         else case client_idempotency_key (header_get ''Idempotency-Key'' hs) of
                Inl e \<Rightarrow> Inl e
              | Inr key \<Rightarrow>
                  (case if format = format_openai_chat then map_option include_usage (gm_get body ''stream_options'') else None of
                     None \<Rightarrow> Inr (normalize_body enc format hs body key False)
                   | Some None \<Rightarrow> Inl StreamOptionsInvalid
                   | Some (Some usage) \<Rightarrow> Inr (normalize_body enc format hs body key usage)))"

section \<open>Reasoning on the wires\<close>

definition int_token :: "int \<Rightarrow> json" where
  "int_token n = JNumber ((if n < 0 then ''-'' else []) @ decimal (nat \<bar>n\<bar>))"

definition anthropic_reasoning :: "thinking_intent \<Rightarrow> jobject" where
  "anthropic_reasoning i =
     (if th_mode i = ''disabled'' then [(''thinking'', JObject [(''type'', JText ''disabled'')])]
      else if th_mode i \<in> {''budget'', ''enabled''}
      then (if 0 < th_budget_tokens i
            then [(''thinking'', JObject [(''type'', JText ''enabled''), (''budget_tokens'', int_token (th_budget_tokens i))])]
            else [])
      else if th_mode i = ''auto'' then [(''thinking'', JObject [(''type'', JText ''adaptive'')])]
      else if th_mode i = ''level''
      then [(''thinking'', JObject [(''type'', JText ''adaptive'')])] @
           (if th_effort i \<noteq> [] then [(''output_config'', JObject [(''effort'', JText (th_effort i))])] else [])
      else [])"

definition openai_responses_reasoning :: "thinking_intent \<Rightarrow> jobject" where
  "openai_responses_reasoning i =
     (let reasoning = (\<lambda>k v. [(''reasoning'', JObject [(k, v)])])
      in if th_mode i = ''disabled'' then reasoning ''effort'' (JText ''none'')
         else if th_mode i = ''auto'' then reasoning ''effort'' (JText ''auto'')
         else if th_mode i = ''level'' then (if th_effort i \<noteq> [] then reasoning ''effort'' (JText (th_effort i)) else [])
         else if th_mode i = ''budget''
         then (if 0 < th_budget_tokens i then reasoning ''max_output_tokens'' (int_token (th_budget_tokens i)) else [])
         else [])"

definition gemini_reasoning :: "thinking_intent \<Rightarrow> jobject" where
  "gemini_reasoning i =
     (if th_mode i \<in> {''inherit'', []} then []
      else [(''generationConfig'', JObject [(''thinkingConfig'', JObject
              (if th_mode i = ''disabled'' then [(''thinkingBudget'', int_token 0)]
               else if th_mode i = ''budget'' then [(''thinkingBudget'', int_token (th_budget_tokens i))]
               else if th_mode i \<in> {''level'', ''auto''} then [(''thinkingLevel'', JText (th_effort i))]
               else []))])])"

definition resolve_reasoning :: "thinking_intent list \<Rightarrow> thinking_intent" where
  "resolve_reasoning layers =
     (case find (\<lambda>i. th_mode i \<noteq> [] \<and> th_mode i \<noteq> ''inherit'') layers of
        Some i \<Rightarrow> i
      | None \<Rightarrow> intent ''inherit'' [] 0 ''absent'')"

end
