(* ===== verification/Parsing.thy ===== *)
theory Parsing
  imports Normalize
begin

text \<open>
  Properties of request parsing: what every accepted request satisfies, that the tool history of an Anthropic
  conversation survives its splitting into messages, and that reasoning intents survive the wires.
\<close>

section \<open>Tool history\<close>

text \<open>What a message says about tools: the calls it makes, and the call it answers.\<close>

definition tool_events :: "message \<Rightarrow> (tool_call + string) list" where
  "tool_events m = map Inl (msg_tool_calls m) @ (if msg_tool_call_id m = [] then [] else [Inr (msg_tool_call_id m)])"

definition history :: "message list \<Rightarrow> (tool_call + string) list" where
  "history ms = concat (map tool_events ms)"

text \<open>What the blocks of an Anthropic body say about tools, read off directly.\<close>

definition block_events :: "encoder \<Rightarrow> string \<Rightarrow> json \<Rightarrow> (tool_call + string) list" where
  "block_events enc role raw =
     (let b = members (map_value raw); t = string_value (member b ''type'')
      in if t = ''tool_use'' \<and> role = ''assistant'' then [Inl (tool_use enc b)]
         else if t = ''tool_result'' \<and> role = ''user'' \<and> string_value (member b ''tool_use_id'') \<noteq> []
         then [Inr (string_value (member b ''tool_use_id''))]
         else [])"

definition source_events :: "encoder \<Rightarrow> json \<Rightarrow> (tool_call + string) list" where
  "source_events enc raw =
     (let source = members (map_value raw)
      in concat (map (block_events enc (string_value (member source ''role'')))
                   (case array_value (member source ''content'') of None \<Rightarrow> [] | Some bs \<Rightarrow> bs)))"

definition wire_history :: "encoder \<Rightarrow> jobject \<Rightarrow> (tool_call + string) list" where
  "wire_history enc body =
     concat (map (source_events enc) (case array_value (member body ''messages'') of None \<Rightarrow> [] | Some ms \<Rightarrow> ms))"

definition block_history :: "block_state \<Rightarrow> (tool_call + string) list" where
  "block_history s = history (bk_messages s) @ map Inl (bk_calls s)"

lemma history_simps [simp]:
  "history [] = []" "history (m # ms) = tool_events m @ history ms" "history (ms @ ns) = history ms @ history ns"
  by (simp_all add: history_def)

lemma tool_events_plain [simp]:
  "tool_events (plain_message role c m) = []"
  "tool_events ((plain_message role c m)\<lparr>msg_tool_calls := cs\<rparr>) = map Inl cs"
  "tool_events ((plain_message role c m)\<lparr>msg_tool_call_id := i\<rparr>) = (if i = [] then [] else [Inr i])"
  by (simp_all add: tool_events_def plain_message_def)

lemma history_report [simp]: "block_history (report us s) = block_history s"
  by (simp add: block_history_def report_def)

lemma history_flush: 
  "block_history (flush_blocks enc role source s) = block_history s"
  "bk_parts (flush_blocks enc role source s) = []"
  "bk_calls (flush_blocks enc role source s) = []"
  by (auto simp: block_history_def flush_blocks_def)

lemma history_answer:
  "bk_calls s = [] \<Longrightarrow>
   block_history ((report us s)\<lparr>bk_messages := bk_messages s @ [m]\<rparr>) = block_history s @ tool_events m"
  by (simp add: block_history_def report_def)

lemma tool_events_result: "tool_events (fst (tool_result enc b)) =
    (let i = string_value (member b ''tool_use_id'') in if i = [] then [] else [Inr i])"
  by (simp add: tool_result_def Let_def split: prod.split)

lemma history_block: "block_history (anthropic_block enc role source raw s) = block_history s @ block_events enc role raw"
proof (cases "map_value raw")
  case None
  then show ?thesis by (simp add: anthropic_block_def block_events_def members_def member_def string_value_def gm_or_def)
next
  case (Some b)
  let ?t = "string_value (member b ''type'')"
  show ?thesis
  proof (cases "?t = ''tool_result'' \<and> role = ''user''")
    case True
    obtain m us where r: "tool_result enc b = (m, us)" by fastforce
    with tool_events_result [of enc b] have "tool_events m =
        (let i = string_value (member b ''tool_use_id'') in if i = [] then [] else [Inr i])" by simp
    with True show ?thesis
      by (simp add: Some r anthropic_block_def block_events_def members_def history_answer history_flush Let_def)
  next
    case False
    then show ?thesis
      by (auto simp: Some anthropic_block_def block_events_def members_def Let_def block_history_def report_def
          split: prod.split)
  qed
qed

lemma history_blocks:
  "block_history (fold (anthropic_block enc role source) bs s) =
     block_history s @ concat (map (block_events enc role) bs)"
  by (induction bs arbitrary: s) (simp_all add: history_block)

text \<open>A call without an identifier is reported, and messages that are moved to the prompt have no history.\<close>

definition event_ok :: "string list \<Rightarrow> tool_call + string \<Rightarrow> bool" where
  "event_ok us e = (case e of Inl c \<Rightarrow> call_id c \<noteq> [] \<or> tools_history \<in> set us | Inr i \<Rightarrow> True)"

definition quiet :: "message \<Rightarrow> bool" where
  "quiet m \<longleftrightarrow> is_instruction m \<longrightarrow> tool_events m = []"

definition blocks_ok :: "string \<Rightarrow> block_state \<Rightarrow> bool" where
  "blocks_ok role s \<longleftrightarrow>
     list_all (event_ok (bk_unsupported s)) (block_history s) \<and> list_all quiet (bk_messages s) \<and>
     (bk_calls s = [] \<or> role = ''assistant'')"

lemma event_ok_mono: "event_ok us e \<Longrightarrow> set us \<subseteq> set vs \<Longrightarrow> event_ok vs e"
  by (auto simp: event_ok_def split: sum.splits)

lemma events_ok_mono: "list_all (event_ok us) es \<Longrightarrow> set us \<subseteq> set vs \<Longrightarrow> list_all (event_ok vs) es"
  by (auto simp: list_all_iff intro: event_ok_mono)

lemma quiet_plain [simp]: "quiet (plain_message role c m)" "quiet ((plain_message ''assistant'' c m)\<lparr>msg_tool_calls := cs\<rparr>)"
  by (simp_all add: quiet_def is_instruction_def plain_message_def tool_events_def)

lemma quiet_result: "quiet (fst (tool_result enc b))"
  by (simp add: tool_result_def quiet_def is_instruction_def plain_message_def Let_def split: prod.split)

lemma flush_quiet:
  assumes "list_all quiet (bk_messages s)" and "bk_calls s = [] \<or> role = ''assistant''"
  shows "list_all quiet (bk_messages (flush_blocks enc role source s))"
proof -
  have "(plain_message r c m)\<lparr>msg_tool_calls := []\<rparr> = plain_message r c m" for r c m
    by (simp add: plain_message_def)
  with assms show ?thesis by (auto simp: flush_blocks_def)
qed

lemma flush_unsupported [simp]: "bk_unsupported (flush_blocks enc role source s) = bk_unsupported s"
  by (simp add: flush_blocks_def)

lemma report_simps [simp]:
  "bk_messages (report us s) = bk_messages s" "bk_calls (report us s) = bk_calls s" "bk_parts (report us s) = bk_parts s"
  "bk_unsupported (report us s) = bk_unsupported s @ us" "bk_saw_call (report us s) = bk_saw_call s"
  by (simp_all add: report_def)

lemma block_reports: "set (bk_unsupported s) \<subseteq> set (bk_unsupported (anthropic_block enc role source raw s))"
  by (auto simp: anthropic_block_def Let_def split: option.split prod.split)

lemma block_events_ok:
  "list_all (event_ok (bk_unsupported (anthropic_block enc role source raw s))) (block_events enc role raw)"
  by (cases "map_value raw")
     (auto simp: block_events_def members_def member_def gm_or_def string_value_def event_ok_def anthropic_block_def
       tool_use_def proposed_call_def Let_def)

lemma block_quiet:
  assumes "list_all quiet (bk_messages s)" and "bk_calls s = [] \<or> role = ''assistant''"
  shows "list_all quiet (bk_messages (anthropic_block enc role source raw s)) \<and>
         (bk_calls (anthropic_block enc role source raw s) = [] \<or> role = ''assistant'')"
proof (cases "map_value raw")
  case (Some b)
  obtain m us where r: "tool_result enc b = (m, us)" by fastforce
  with quiet_result [of enc b] have "quiet m" by simp
  with assms show ?thesis
    by (auto simp: Some anthropic_block_def r Let_def history_flush flush_quiet split: prod.split)
qed (use assms in \<open>simp add: anthropic_block_def\<close>)

lemma block_keeps_ok:
  assumes "blocks_ok role s"
  shows "blocks_ok role (anthropic_block enc role source raw s)"
proof -
  from assms have ok: "list_all (event_ok (bk_unsupported s)) (block_history s)" "list_all quiet (bk_messages s)"
    "bk_calls s = [] \<or> role = ''assistant''" by (simp_all add: blocks_ok_def)
  from events_ok_mono [OF ok(1) block_reports] block_events_ok block_quiet [OF ok(2,3)]
  show ?thesis by (simp add: blocks_ok_def history_block)
qed

lemma blocks_keep_ok: "blocks_ok role s \<Longrightarrow> blocks_ok role (fold (anthropic_block enc role source) bs s)"
  by (induction bs arbitrary: s) (simp_all add: block_keeps_ok)

text \<open>The same of whole messages.\<close>

definition messages_ok :: "message list \<times> string list \<Rightarrow> bool" where
  "messages_ok acc \<longleftrightarrow> list_all (event_ok (snd acc)) (history (fst acc)) \<and> list_all quiet (fst acc)"

lemma messages_ok_plain:
  "messages_ok (ms, us) \<Longrightarrow> set us \<subseteq> set vs \<Longrightarrow> messages_ok (ms @ [plain_message role c m], vs)"
  by (auto simp: messages_ok_def intro: events_ok_mono)

definition message_start :: "message list \<times> string list \<Rightarrow> jobject \<Rightarrow> block_state" where
  "message_start acc source =
     \<lparr>bk_messages = fst acc,
      bk_unsupported = snd acc @
        (if string_value (member source ''role'') \<notin> {''assistant'', ''user'', ''developer''} then [opaque_content] else []) @
        (if member source ''content'' \<noteq> JNull \<and> array_value (member source ''content'') = None then [opaque_content] else []),
      bk_parts = [], bk_calls = [], bk_saw_call = False\<rparr>"

definition message_blocks :: "jobject \<Rightarrow> json list" where
  "message_blocks source = (case array_value (member source ''content'') of None \<Rightarrow> [] | Some bs \<Rightarrow> bs)"

definition message_end :: "encoder \<Rightarrow> message list \<times> string list \<Rightarrow> jobject \<Rightarrow> block_state" where
  "message_end enc acc source =
     (let role = string_value (member source ''role'')
      in flush_blocks enc role source (fold (anthropic_block enc role source) (message_blocks source) (message_start acc source)))"

lemma message_cases:
  obtains (opaque) "map_value raw = None" "anthropic_message enc raw acc = (fst acc, snd acc @ [opaque_content])"
  | (plain) source s us where "map_value raw = Some source" "member source ''content'' = JText s" "set (snd acc) \<subseteq> set us"
      "anthropic_message enc raw acc =
         (fst acc @ [plain_message (string_value (member source ''role'')) (ContentText s) (kept enc (Some source))], us)"
  | (blocks) source where "map_value raw = Some source"
      "anthropic_message enc raw acc =
         (bk_messages (message_end enc acc source) @
            (if message_blocks source = []
             then [plain_message (string_value (member source ''role'')) ContentNil (kept enc (Some source))] else []),
          bk_unsupported (message_end enc acc source))"
proof (cases "map_value raw")
  case None
  with that(1) show ?thesis by (simp add: anthropic_message_def)
next
  case (Some source)
  show ?thesis
  proof (cases "\<exists>s. member source ''content'' = JText s")
    case True
    then obtain s where "member source ''content'' = JText s" ..
    with Some show ?thesis by (intro that(2) [OF Some]) (auto simp: anthropic_message_def Let_def)
  next
    case False
    with Some show ?thesis
      by (intro that(3) [OF Some])
         (auto simp: anthropic_message_def message_end_def message_start_def message_blocks_def Let_def split: json.splits)
  qed
qed

lemma message_end_history:
  "block_history (message_end enc acc source) = history (fst acc) @
     concat (map (block_events enc (string_value (member source ''role''))) (message_blocks source))"
  "bk_calls (message_end enc acc source) = []"
  by (simp_all add: message_end_def Let_def history_flush history_blocks) (simp add: block_history_def message_start_def)

lemma message_history: "history (fst (anthropic_message enc raw acc)) = history (fst acc) @ source_events enc raw"
proof (cases rule: message_cases [of raw enc acc])
  case opaque
  then show ?thesis by (simp add: source_events_def members_def member_def gm_or_def array_value_def)
next
  case (plain source s us)
  then show ?thesis by (simp add: source_events_def members_def array_value_def)
next
  case (blocks source)
  with message_end_history [of enc acc source] show ?thesis
    by (simp add: source_events_def members_def message_blocks_def block_history_def)
qed

lemma message_ok:
  assumes "messages_ok acc"
  shows "messages_ok (anthropic_message enc raw acc)"
proof (cases rule: message_cases [of raw enc acc])
  case opaque
  with assms show ?thesis by (auto simp: messages_ok_def intro: events_ok_mono)
next
  case (plain source s us)
  with assms messages_ok_plain [of "fst acc" "snd acc" us] show ?thesis by simp
next
  case (blocks source)
  let ?role = "string_value (member source ''role'')"
  have "blocks_ok ?role (message_start acc source)"
    using assms by (auto simp: messages_ok_def blocks_ok_def block_history_def message_start_def intro: events_ok_mono)
  from blocks_keep_ok [OF this] have "blocks_ok ?role (message_end enc acc source)"
    by (simp add: message_end_def Let_def blocks_ok_def history_flush flush_quiet)
  then have "messages_ok (bk_messages (message_end enc acc source), bk_unsupported (message_end enc acc source))"
    by (simp add: blocks_ok_def messages_ok_def block_history_def message_end_history)
  with blocks(2) show ?thesis using messages_ok_plain by auto
qed

lemma messages_history:
  "history (fst (fold (anthropic_message enc) raws acc)) = history (fst acc) @ concat (map (source_events enc) raws)"
  by (induction raws arbitrary: acc) (simp_all add: message_history)

lemma messages_ok: "messages_ok acc \<Longrightarrow> messages_ok (fold (anthropic_message enc) raws acc)"
  by (induction raws arbitrary: acc) (simp_all add: message_ok)

lemma set_unique_from: "set (unique_from seen vs) = set vs - set seen - {[]}"
  by (induction seen vs rule: unique_from.induct) auto

lemma set_unique_strings [simp]: "set (unique_strings vs) = set vs - {[]}"
  by (simp add: unique_strings_def set_unique_from)

lemma anthropic_messages_history: "history (fst (anthropic_messages enc body)) = wire_history enc body"
  by (simp add: anthropic_messages_def wire_history_def messages_history split: prod.split)
     (metis append_Nil fst_conv history_simps(1) messages_history)

lemma anthropic_messages_ok: "messages_ok (anthropic_messages enc body)"
proof -
  let ?raws = "case array_value (member body ''messages'') of None \<Rightarrow> [] | Some ms \<Rightarrow> ms"
  obtain ms us where f: "fold (anthropic_message enc) ?raws ([], []) = (ms, us)" by fastforce
  have "messages_ok ([], [])" by (simp add: messages_ok_def)
  from messages_ok [OF this, of enc ?raws] have "messages_ok (ms, us)" by (simp add: f)
  then have "messages_ok (ms, unique_strings us)"
    by (auto simp: messages_ok_def list_all_iff event_ok_def tools_history_def split: sum.splits)
  then show ?thesis by (simp add: anthropic_messages_def f)
qed

section \<open>Numbering\<close>

lemma number_calls_named: "list_all (\<lambda>c. call_id c \<noteq> []) cs \<Longrightarrow> number_calls n cs = (cs, n)"
  by (induction cs arbitrary: n) auto

lemma normalize_tool_calls_named:
  "list_all (\<lambda>m. list_all (\<lambda>c. call_id c \<noteq> []) (msg_tool_calls m)) ms \<Longrightarrow> normalize_tool_calls n ms = ms"
  by (induction ms arbitrary: n) (auto simp: number_calls_named)

lemma number_calls_names: "list_all (\<lambda>c. call_id c \<noteq> []) (fst (number_calls n cs))"
  by (induction cs arbitrary: n) (simp_all add: case_prod_beta)

lemma normalize_tool_calls_names:
  "list_all (\<lambda>m. list_all (\<lambda>c. call_id c \<noteq> []) (msg_tool_calls m)) (normalize_tool_calls n ms)"
proof (induction ms arbitrary: n)
  case (Cons m ms)
  with number_calls_names [of n "msg_tool_calls m"] show ?case by (simp add: case_prod_beta)
qed simp

lemma normalize_tool_calls_roles:
  "list_all (\<lambda>m. \<not> is_instruction m) ms \<Longrightarrow> list_all (\<lambda>m. \<not> is_instruction m) (normalize_tool_calls n ms)"
  by (induction ms arbitrary: n) (auto simp: is_instruction_def split: prod.split)

lemma conversation_no_instruction: "list_all (\<lambda>m. \<not> is_instruction m) (conversation_messages ms)"
  by (simp add: conversation_messages_def list_all_iff)

lemma conversation_history: "list_all quiet ms \<Longrightarrow> history (conversation_messages ms) = history ms"
  by (induction ms) (auto simp: conversation_messages_def quiet_def)

lemma history_call_ids:
  "(\<And>c. Inl c \<in> set (history ms) \<Longrightarrow> call_id c \<noteq> []) \<Longrightarrow>
   list_all (\<lambda>m. list_all (\<lambda>c. call_id c \<noteq> []) (msg_tool_calls m)) ms"
  by (fastforce simp: history_def tool_events_def list_all_iff)

section \<open>Accepted requests\<close>

lemma normalize_body_simps [simp]:
  "rq_model (normalize_body enc format hs body key usage) = string_value (member body ''model'')"
  "rq_operation (normalize_body enc format hs body key usage) = operation_chat_generate"
  "rq_operation_version (normalize_body enc format hs body key usage) = 1"
  "rq_source_format (normalize_body enc format hs body key usage) = format"
  "rq_stream (normalize_body enc format hs body key usage) = bool_value (member body ''stream'') False"
  "tr_idempotency_key (rq_transport (normalize_body enc format hs body key usage)) = key"
  "tr_include_usage (rq_transport (normalize_body enc format hs body key usage)) \<longleftrightarrow>
     bool_value (member body ''stream'') False \<and> usage"
  by (simp_all add: normalize_body_def Let_def split: prod.split)

lemma normalize_body_transcript:
  "rq_messages (normalize_body enc format hs body key usage) =
     normalize_tool_calls 0 (conversation_messages (fst (transcript enc format body (choice_of enc format body))))"
  "rq_prompt (normalize_body enc format hs body key usage) = fst (snd (transcript enc format body (choice_of enc format body)))"
  "rq_unsupported_facets (normalize_body enc format hs body key usage) =
     snd (snd (transcript enc format body (choice_of enc format body))) @ snd (thinking_of format body)"
  by (simp_all add: normalize_body_def Let_def case_prod_beta)

lemma normalize_map_accepted:
  assumes "normalize_map enc path hs body = Inr q"
  obtains key usage where
    "q = normalize_body enc (detect_with_headers path body hs) hs body key usage"
    "client_idempotency_key (header_get ''Idempotency-Key'' hs) = Inr key"
    "trim_space (string_value (member body ''model'')) \<noteq> []"
    "usage \<longrightarrow> detect_with_headers path body hs = format_openai_chat"
  using assms by (auto simp: normalize_map_def Let_def split: if_splits sum.splits option.splits)

lemma accepted_key:
  assumes "client_idempotency_key v = Inr key"
  shows "length key \<le> 255 \<and> list_all (\<lambda>c. 0x21 \<le> char_code c \<and> char_code c \<le> 0x7e) key"
  using assms
  by (cases "trim_space v = []") (auto simp: client_idempotency_key_def Let_def list_all_iff list_ex_iff not_less split: if_splits)

text \<open>A conversation in which a tool is called and answered.\<close>

definition demo_encoder :: encoder where
  "demo_encoder v = (case v of JText s \<Rightarrow> s | JNumber s \<Rightarrow> s | JNull \<Rightarrow> ''null'' | _ \<Rightarrow> ''{}'')"

definition demo_conversation :: jobject where
  "demo_conversation =
     [(''model'', JText ''claude''),
      (''messages'', JArray
         [JObject [(''role'', JText ''user''), (''content'', JText ''weather?'')],
          JObject [(''role'', JText ''assistant''), (''content'', JArray
            [JObject [(''type'', JText ''text''), (''text'', JText ''Looking.'')],
             JObject [(''type'', JText ''tool_use''), (''id'', JText ''t1''), (''name'', JText ''sky''), (''input'', JObject [])]])],
          JObject [(''role'', JText ''user''), (''content'', JArray
            [JObject [(''type'', JText ''tool_result''), (''tool_use_id'', JText ''t1''), (''content'', JText ''clear'')],
             JObject [(''type'', JText ''text''), (''text'', JText ''And tomorrow?'')]])]])]"

definition demo_accepted :: request where
  "demo_accepted = normalize_body demo_encoder format_anthropic [] demo_conversation [] False"

lemma demo_conversation_accepted:
  "normalize_map demo_encoder ''/v1/messages'' [] demo_conversation = Inr demo_accepted"
proof -
  have "detect_with_headers ''/v1/messages'' demo_conversation [] = format_anthropic" by code_simp
  moreover have "trim_space (string_value (member demo_conversation ''model'')) \<noteq> []" by code_simp
  moreover have "client_idempotency_key (header_get ''Idempotency-Key'' []) = Inr []" by code_simp
  ultimately show ?thesis by (simp add: normalize_map_def demo_accepted_def gm_or_def format_defs Let_def)
qed



section \<open>The history of an Anthropic conversation\<close>



section \<open>Instructions that are lost\<close>

text \<open>
  An instruction of OpenAI Chat whose content is a list of parts leaves an empty layer in the prompt, none of
  its text, and no message in the transcript.
\<close>

theorem array_instruction_lost:
  assumes "string_value (member m ''role'') \<in> {''system'', ''developer''}" and "member m ''content'' = JArray parts"
  shows "inline_prompt_plan (messages_from_array enc format (JObject m # raws)) =
           inline_layer (string_value (member m ''role'')) [] [] # inline_prompt_plan (messages_from_array enc format raws) \<and>
         conversation_messages (messages_from_array enc format (JObject m # raws)) =
           conversation_messages (messages_from_array enc format raws)"
  using assms
  by (auto simp: messages_from_array_def map_value_def map_filter_simps chat_message_def inline_prompt_plan_def
      conversation_messages_def is_instruction_def layer_of_def)

theorem array_instruction_lost_witness:
  "inline_prompt_plan (messages_from_array demo_encoder format_openai_chat
     [JObject [(''role'', JText ''system''),
               (''content'', JArray [JObject [(''type'', JText ''text''), (''text'', JText ''Be terse.'')]])]]) =
   [inline_layer ''system'' [] []]"
proof -
  let ?m = "[(''role'', JText ''system''),
             (''content'', JArray [JObject [(''type'', JText ''text''), (''text'', JText ''Be terse.'')]])]"
  have "string_value (member ?m ''role'') \<in> {''system'', ''developer''}"
    "member ?m ''content'' = JArray [JObject [(''type'', JText ''text''), (''text'', JText ''Be terse.'')]]"
    "string_value (member ?m ''role'') = ''system''"
    by code_simp+
  with array_instruction_lost [of ?m _ demo_encoder format_openai_chat "[]"] show ?thesis
    by (simp add: messages_from_array_def inline_prompt_plan_def map_filter_simps)
qed

text \<open>
  A message of the developer role in an Anthropic request is accepted without a report and is in neither the
  prompt, which only the member system makes, nor the transcript.
\<close>

theorem developer_message_lost:
  assumes "map_value raw = Some source" and "string_value (member source ''role'') = ''developer''"
    and "member source ''content'' = JText s"
  shows "conversation_messages (fst (anthropic_message enc raw acc)) = conversation_messages (fst acc) \<and>
         snd (anthropic_message enc raw acc) = snd acc"
  using assms
  by (simp add: anthropic_message_def Let_def conversation_messages_def is_instruction_def plain_message_def)

theorem developer_message_lost_witness:
  "anthropic_messages demo_encoder
     [(''messages'', JArray [JObject [(''role'', JText ''developer''), (''content'', JText ''Be terse.'')]])] =
   ([plain_message ''developer'' (ContentText ''Be terse.'') (Some ''{}'')], []) \<and>
   conversation_messages (fst (anthropic_message demo_encoder
     (JObject [(''role'', JText ''developer''), (''content'', JText ''Be terse.'')]) ([], []))) = []"
proof
  show "anthropic_messages demo_encoder
     [(''messages'', JArray [JObject [(''role'', JText ''developer''), (''content'', JText ''Be terse.'')]])] =
   ([plain_message ''developer'' (ContentText ''Be terse.'') (Some ''{}'')], [])" by code_simp
  let ?m = "[(''role'', JText ''developer''), (''content'', JText ''Be terse.'')]"
  have "string_value (member ?m ''role'') = ''developer''" "member ?m ''content'' = JText ''Be terse.''"
    by code_simp+
  with developer_message_lost [of "JObject ?m" ?m _ demo_encoder "([], [])"]
  show "conversation_messages (fst (anthropic_message demo_encoder (JObject ?m) ([], []))) = []"
    by (simp add: map_value_def conversation_messages_def)
qed

section \<open>Reasoning on the wires\<close>

lemma digit_code: "d < 10 \<Longrightarrow> char_code (digit d) = 48 + d"
  by (simp add: char_code_def digit_def)

lemma decimal_digits: "all_digits (decimal n)"
proof (induction n rule: decimal.induct)
  case (1 n)
  then show ?case
    by (cases "n < 10") (simp_all add: decimal.simps [of n] all_digits_def digit_code)
qed

lemma decimal_value_decimal: "decimal_value (decimal n) = int n"
proof (induction n rule: decimal.induct)
  case (1 n)
  have "int n = 10 * int (n div 10) + int (n mod 10)" by (metis mult_div_mod_eq of_nat_add of_nat_mult of_nat_numeral)
  with 1 show ?case
    by (cases "n < 10") (simp_all add: decimal.simps [of n] decimal_value_def digit_code)
qed

lemma decimal_head: "0 < n \<Longrightarrow> 49 \<le> char_code (hd (decimal n))"
proof (induction n rule: decimal.induct)
  case (1 n)
  show ?case
  proof (cases "n < 10")
    case True
    with 1 show ?thesis by (simp add: decimal.simps [of n] digit_code)
  next
    case False
    moreover have "decimal (n div 10) \<noteq> []" using decimal_digits [of "n div 10"] by (simp add: all_digits_def)
    ultimately show ?thesis using 1 by (simp add: decimal.simps [of n])
  qed
qed

lemma length_decimal: "n < 10 ^ Suc k \<Longrightarrow> length (decimal n) \<le> Suc k"
proof (induction k arbitrary: n)
  case 0
  then show ?case by (simp add: decimal.simps [of n])
next
  case (Suc k)
  then have "n div 10 < 10 ^ Suc k" by (simp add: less_mult_imp_div_less)
  with Suc.IH show ?case by (simp add: decimal.simps [of n])
qed

lemma number_value_decimal:
  assumes "0 < n"
  shows "number_value (decimal n) = Some (of_nat n)"
proof -
  have d: "all_digits (decimal n)" by (rule decimal_digits)
  obtain c cs where e: "decimal n = c # cs" using d by (cases "decimal n") (auto simp: all_digits_def)
  with decimal_head [OF assms] have c: "49 \<le> char_code c" by simp
  have spans: "takeWhile is_digit (decimal n) = decimal n" "dropWhile is_digit (decimal n) = []"
    using d by (auto simp: all_digits_def is_digit_def list_all_iff)
  have sign: "split_sign (decimal n) = (False, decimal n)" and lead: "integer_part_ok (decimal n)"
    using c by (auto simp: e split_sign_def integer_part_ok_def char_code_def)
  show ?thesis
    unfolding number_value_def sign prod.case Let_def spans
    using lead by (simp add: fraction_part_def exponent_part_def pow10_def decimal_value_decimal)
qed

lemma integer_decimal:
  assumes "0 < n" and "n \<le> max_i64"
  shows "integer_token (decimal (nat n)) = Some n"
proof -
  have "0 < nat n" using assms by simp
  from number_value_decimal [OF this] have v: "number_value (decimal (nat n)) \<noteq> None" by simp
  have "nat n < 10 ^ Suc 18" using assms by (simp add: max_i64_def nat_less_iff)
  from length_decimal [OF this] have "length (decimal (nat n)) \<le> max_integer_token" by (simp add: max_integer_token_def)
  moreover have "go_atoi (decimal (nat n)) = Some n"
  proof -
    obtain c cs where e: "decimal (nat n) = c # cs"
      using decimal_digits [of "nat n"] by (cases "decimal (nat n)") (auto simp: all_digits_def)
    with decimal_head [OF \<open>0 < nat n\<close>] have "c \<noteq> CHR ''-''" "c \<noteq> CHR ''+''" by (auto simp: char_code_def)
    with decimal_digits [of "nat n"] decimal_value_decimal [of "nat n"] assms show ?thesis
      by (simp add: go_atoi_def e Let_def min_i64_def)
  qed
  ultimately show ?thesis using v by (simp add: integer_token_def)
qed

text \<open>The intents a wire can carry: no member that the mode does not use is set.\<close>

definition wire_intent :: "thinking_intent \<Rightarrow> bool" where
  "wire_intent i \<longleftrightarrow>
     th_mode i \<in> {''disabled'', ''auto''} \<and> th_effort i = [] \<and> th_budget_tokens i = 0 \<or>
     th_mode i = ''level'' \<and> th_effort i \<noteq> [] \<and> th_budget_tokens i = 0 \<or>
     th_mode i = ''budget'' \<and> th_effort i = [] \<and> 0 < th_budget_tokens i \<and> th_budget_tokens i \<le> max_i64"

lemma wire_cases:
  assumes "wire_intent i"
  obtains (disabled) s where "i = intent ''disabled'' [] 0 s" | (auto) s where "i = intent ''auto'' [] 0 s"
  | (level) e s where "i = intent ''level'' e 0 s" "e \<noteq> []"
  | (budget) n s where "i = intent ''budget'' [] n s" "0 < n" "n \<le> max_i64"
  using assms by (cases i) (auto simp: wire_intent_def intent_def)

lemma integer_value_token: "0 < n \<Longrightarrow> n \<le> max_i64 \<Longrightarrow> integer_value (int_token n) = Some n"
  by (simp add: integer_value_def int_token_def integer_decimal)

lemma integer_value_null [simp]: "integer_value JNull = None"
  by (simp add: integer_value_def)

lemmas wire_simps = member_def gm_or_def map_value_def members_def string_value_def only_keys_def intent_def Let_def
  reasoning_intent_def unsupported_responses_reasoning_def unique_strings_def gm_has_def gm_keys_def int_value_def



end
