(* ===== verification/Spec2Isabelle.thy ===== *)
theory Spec2Isabelle
  imports Profiles ModelGraph Attempts Policy SessionCache Credentials Operations Rendering Features Applying Discipline Walk Parsing
begin

text \<open>
  \<^bold>\<open>gobroom\<close> is a gateway between clients that speak one chat or tool protocol and providers that speak
  another. A client names a public model; the gateway resolves it in a graph of model nodes, walks the graph
  as the strategies of its nodes plan it, and tries the routes it comes to until one of them answers. This
  development models the kernel of that program (\<open>internal/kernel\<close>), the runtime policy the daemon installs in
  it (\<open>internal/runtime\<close>, \<open>internal/quota\<close>), and the operation, artifact and extension contracts both rest on
  (\<open>internal/operations\<close>, \<open>internal/extensions\<close>, \<open>internal/artifacts\<close>), and the parsing of the clients'
  requests (\<open>internal/normalize\<close>).

  \<^bold>\<open>How the parts interact.\<close> \<open>Kernel.Execute\<close> is \<open>execute\<close> (theory \<open>Execution\<close>). It resolves the model
  (\<open>ModelGraph\<close>), prepares the request against its operation (\<open>Operations\<close>), runs the transforms of each scope
  (\<open>Transforms\<close>, \<open>Applying\<close>), asks the scheduler for the plan of a node and the rank of its routes (\<open>Scheduler\<close>,
  \<open>Strategies\<close>), and judges each candidate: its session and signatures (\<open>Sessions\<close>, \<open>SessionCache\<close>,
  \<open>Signatures\<close>), its artifacts (\<open>Artifacts\<close>), its capabilities and features (\<open>Profiles\<close>, \<open>Features\<close>) and the
  losses of its adapter (\<open>Compatibility\<close>). An admitted candidate is leased a credential (\<open>Credentials\<close>) and
  dispatched (\<open>Dispatch\<close>); its response is rendered under its bounds (\<open>Responses\<close>, \<open>Rendering\<close>), its outcome
  classified (\<open>Outcomes\<close>, \<open>Failures\<close>) and its usage accounted for (\<open>Usage\<close>, \<open>Attempts\<close>). What is observed goes to
  the gate, a parameter of the kernel that the running program instantiates with the policy gate (\<open>Policy\<close>), which
  joins circuit breaker (\<open>Health\<close>), quota evidence (\<open>Quota\<close>) and performance (\<open>Performance\<close>).

  \<^bold>\<open>Theories and sources.\<close>

  \<^item> \<open>Prelude\<close>, \<open>Floats\<close>, \<open>Digest\<close>, \<open>Json\<close>: Go's 64-bit integers with wrap-around (\<open>wrap64\<close>), times, maps as
    association lists in iteration order (\<open>gomap\<close>), rounding of \<open>float64\<close>, SHA-256 and the JSON scanner.
  \<^item> \<open>Refs\<close>, \<open>Contract\<close>, \<open>Requests\<close>, \<open>Outcomes\<close>, \<open>Failures\<close>: the data of \<open>kernel/contract.go\<close>,
    \<open>normalize/types.go\<close>, \<open>kernel/client_failure.go\<close> and \<open>response_failure.go\<close>. A struct is a record, a string
    enumeration a datatype, an error a datatype whose wrappers hold their cause.
  \<^item> \<open>Strategies\<close>, \<open>Scheduler\<close>: \<open>kernel/strategy.go\<close>, \<open>strategy_registry.go\<close>, \<open>scheduler.go\<close>. The scheduler's
    record holds its four maps; a method is a function on it.
  \<^item> \<open>Profiles\<close>, \<open>Features\<close>, \<open>Compatibility\<close>: \<open>kernel/physical.go\<close>, \<open>feature_registry.go\<close>, \<open>compatibility.go\<close>.
  \<^item> \<open>ModelGraph\<close>: \<open>kernel/graph.go\<close>, \<open>snapshot.go\<close>, \<open>builder.go\<close>.
  \<^item> \<open>Transforms\<close>, \<open>Applying\<close>: \<open>kernel/transform_registry.go\<close>; a transform is a function of its options and value.
  \<^item> \<open>Usage\<close>, \<open>Attempts\<close>, \<open>Performance\<close>: \<open>kernel/usage.go\<close>, \<open>usage_capture.go\<close>, \<open>usage_attempt.go\<close>,
    \<open>runtime/performance.go\<close>.
  \<^item> \<open>Health\<close>, \<open>Quota\<close>, \<open>Policy\<close>: \<open>runtime/health.go\<close>, \<open>quota/quota.go\<close>, \<open>runtime/policy.go\<close>.
  \<^item> \<open>Signatures\<close>, \<open>Sessions\<close>, \<open>SessionCache\<close>: \<open>kernel/signatures.go\<close>, \<open>session_store.go\<close>,
    \<open>session_updates.go\<close>, \<open>session_namespace.go\<close>, \<open>candidate_session.go\<close>, \<open>continuity_recovery.go\<close>,
    \<open>runtime/sessionstore\<close>.
  \<^item> \<open>Credentials\<close>: \<open>kernel/credential_presentation.go\<close>, \<open>credential_lease.go\<close>, \<open>credential_admission.go\<close>,
    \<open>credential_http.go\<close>.
  \<^item> \<open>Artifacts\<close>, \<open>Operations\<close>: \<open>extensions/artifact.go\<close>, part of \<open>extensions/catalog.go\<close>, \<open>operations/registry.go\<close>.
  \<^item> \<open>Values\<close>, \<open>Normalize\<close>: \<open>jsonvalue/integer.go\<close>, \<open>normalize/normalize.go\<close>, \<open>detect.go\<close>, \<open>reasoning.go\<close>: from a
    decoded body of any client dialect to the request the kernel executes. \<open>Parsing\<close> shows that an accepted request is
    well formed and that tool history and reasoning survive; also which instructions are lost.
  \<^item> \<open>Responses\<close>, \<open>Rendering\<close>: \<open>kernel/response_budget.go\<close>, \<open>response_commit.go\<close>, \<open>provider_response_error.go\<close>,
    and the hooks \<open>kernel.go\<close> gives to a renderer; a rendering is the list of calls the adapter makes.
  \<^item> \<open>Dispatch\<close>, \<open>Execution\<close>: \<open>kernel/kernel.go\<close> from \<open>Execute\<close> to the end of an attempt. \<open>Discipline\<close> and \<open>Walk\<close> show
    what holds of a whole execution; \<open>Sample\<close> is a small gateway for their witnesses.

  \<^bold>\<open>State and effects.\<close> A method is a function from the state to the new state; a lock held over a method makes it one
  step. What a component tells the outside is returned as a list of effects. The state of an execution
  (\<open>kernel_state\<close>) threads the scheduler, the gate, the shared map of loss sources and a log of what was admitted,
  dispatched, observed, released and accounted for. Everything the outside answers in an execution (clocks, contexts,
  the upstream, the renderer, the session store, the issuer of leases) is a \<open>world\<close>: a function of the candidate visited
  and the turn of its attempt. A theorem that does not mention the world's honesty holds for every answer.

  \<^bold>\<open>Termination.\<close> Every function is total. The walk over the graph decreases the number of node identifiers not
  on its stack, then the members left; an attempt decreases the repeats and refreshes it has left; the check of a
  graph decreases the nodes not visited. No fuel is used.

  \<^bold>\<open>What is shown.\<close> Each component has the lemmas of its operations and an invariant where it keeps state
  (\<open>scheduler_ok\<close>, \<open>gate_inv\<close>, \<open>policy_inv\<close>, \<open>memory_inv\<close>, \<open>cache_inv\<close>). Interfaces are locales, interpreted on the
  model: \<open>strategy_primitive\<close> and \<open>fallback_strategy\<close> (what the scheduler relies on) on the five strategies,
  \<open>ranking_gate\<close> (what the scheduler expects of a gate) on the policy gate, \<open>session_contract\<close> (version-fenced storage) on
  the memory store and the durable cache. The properties that span components are in \<open>Discipline\<close> (what is sent,
  admitted, released and accounted for) and \<open>Walk\<close> (no panic, a bounded number of members tried): they follow an execution
  from one attempt over the candidates and nodes to \<open>execute\<close>, by the induction rule \<open>walk_induct\<close>.

  \<^bold>\<open>Parameters.\<close> What is not in the repository is an argument: JSON decoding and the encoding of values, the JSON schema library, the
  validity of a header name, the parsing of HTTP dates, adapters, classifiers, transforms, evaluators, interpreters and
  projectors that modules supply, and the order in which Go iterates a map.

  \<^bold>\<open>Not modelled.\<close> Wire formats of the providers and clients (\<open>internal/adapter\<close>): streaming JSON over HTTP by
  \<open>encoding/json\<close> and reflection; of request parsing, the decoding of the bytes. Manifest-driven providers and their authorization flows
  (\<open>internal/provider\<close>), the SQLite store, the control plane over it, discovery, the HTTP API, the daemon's wiring and
  the terminal UI: input and output around the kernel. \<open>ComposedAdapter\<close> of \<open>pipeline.go\<close>, the registration side of the
  extension catalog with its compiled schemas, the artifact store's files, and in the kernel the queue of usage events.
  Goroutines appear as the order in which steps are taken. Identity of errors and the text of most messages are kept only
  where the code looks at them.
\<close>

end
